(* ===== verification/Prelude.thy ===== *)
theory Prelude
  imports Main "HOL-Library.Word"
begin

text \<open>
  Shared vocabulary of the development: the C++ exceptions and undefined behaviour as values, the
  effect type \<open>M\<close> (state passing in which an exception keeps the state reached so far), its
  combinators, and the equations and split rules that run them.
\<close>

named_theorems effect_simps \<open>equations that run one step of an effectful definition\<close>

section \<open>Exceptions and undefined behaviour\<close>

text \<open>
  The exceptions the sources can meet, and the two ways a run ends without an exception: a failed
  \<^verbatim>\<open>assert\<close> aborts the process, and undefined behaviour (a null pointer read as a string or
  dereferenced). Neither is caught by a \<^verbatim>\<open>catch\<close> block.
\<close>

datatype exn =
    Json_parse_error
  | Json_type_error
  | Json_out_of_range
  | Redis_error
  | Invalid_argument
  | Out_of_range
  | Ios_failure
  | Assert_failed
  | Undefined_behaviour

fun is_exception :: "exn \<Rightarrow> bool" where
  "is_exception Assert_failed = False"
| "is_exception Undefined_behaviour = False"
| "is_exception _ = True"

section \<open>Pure computations that may throw\<close>

definition bindR :: "'e + 'a \<Rightarrow> ('a \<Rightarrow> 'e + 'b) \<Rightarrow> 'e + 'b" where
  "bindR m f = (case m of Inl e \<Rightarrow> Inl e | Inr a \<Rightarrow> f a)"

lemma bindR_simps [simp]:
  "bindR (Inl e) f = Inl e" "bindR (Inr a) f = f a"
  by (simp_all add: bindR_def)

lemma bindR_eq_Inr: "bindR m f = Inr b \<longleftrightarrow> (\<exists>a. m = Inr a \<and> f a = Inr b)"
  by (cases m) auto

lemma bindR_eq_Inl: "bindR m f = Inl e \<longleftrightarrow> m = Inl e \<or> (\<exists>a. m = Inr a \<and> f a = Inl e)"
  by (cases m) auto

lemma Inr_eq_bindR: "Inr b = bindR m f \<longleftrightarrow> (\<exists>a. m = Inr a \<and> f a = Inr b)"
  by (cases m) auto

lemma Inl_eq_bindR: "Inl e = bindR m f \<longleftrightarrow> m = Inl e \<or> (\<exists>a. m = Inr a \<and> f a = Inl e)"
  by (cases m) auto

lemma bindR_assoc: "bindR (bindR m f) g = bindR m (\<lambda>a. bindR (f a) g)"
  by (cases m) auto

definition assertR :: "bool \<Rightarrow> bool \<Rightarrow> exn + unit" where
  "assertR asserts b = (if asserts \<and> \<not> b then Inl Assert_failed else Inr ())"

lemma assertR_simps [simp]:
  "assertR asserts True = Inr ()" "assertR False b = Inr ()"
  "assertR True False = Inl Assert_failed"
  by (simp_all add: assertR_def)

section \<open>Effects: state passing with exceptions\<close>

type_synonym ('s, 'a) M = "'s \<Rightarrow> (exn + 'a) \<times> 's"

definition ret :: "'a \<Rightarrow> ('s, 'a) M" where
  "ret a = (\<lambda>s. (Inr a, s))"

definition raise :: "exn \<Rightarrow> ('s, 'a) M" where
  "raise e = (\<lambda>s. (Inl e, s))"

definition bindE :: "('s, 'a) M \<Rightarrow> ('a \<Rightarrow> ('s, 'b) M) \<Rightarrow> ('s, 'b) M" where
  "bindE m f = (\<lambda>s. case m s of (Inl e, s') \<Rightarrow> (Inl e, s') | (Inr a, s') \<Rightarrow> f a s')"

definition thenE :: "('s, 'a) M \<Rightarrow> ('s, 'b) M \<Rightarrow> ('s, 'b) M" where
  "thenE m n = bindE m (\<lambda>_. n)"

definition getE :: "('s \<Rightarrow> 'a) \<Rightarrow> ('s, 'a) M" where
  "getE f = (\<lambda>s. (Inr (f s), s))"

definition modE :: "('s \<Rightarrow> 's) \<Rightarrow> ('s, unit) M" where
  "modE f = (\<lambda>s. (Inr (), f s))"

definition liftR :: "exn + 'a \<Rightarrow> ('s, 'a) M" where
  "liftR r = (\<lambda>s. (r, s))"

text \<open>A failed assertion aborts in the builds that compile assertions in (\<open>asserts\<close>).\<close>

definition assertE :: "bool \<Rightarrow> bool \<Rightarrow> ('s, unit) M" where
  "assertE asserts b = liftR (assertR asserts b)"

text \<open>\<^verbatim>\<open>try { m } catch (const std::exception& e) { h }\<close>.\<close>

definition catchE :: "('s, 'a) M \<Rightarrow> (exn \<Rightarrow> ('s, 'a) M) \<Rightarrow> ('s, 'a) M" where
  "catchE m h = (\<lambda>s. case m s of
     (Inl e, s') \<Rightarrow> if is_exception e then h e s' else (Inl e, s')
   | (Inr a, s') \<Rightarrow> (Inr a, s'))"

text \<open>Run an operation on the part of the state it owns.\<close>

definition zoomE :: "('s \<Rightarrow> 't) \<Rightarrow> ('t \<Rightarrow> 's \<Rightarrow> 's) \<Rightarrow> ('t, 'a) M \<Rightarrow> ('s, 'a) M" where
  "zoomE get put m = (\<lambda>s. case m (get s) of (r, t) \<Rightarrow> (r, put t s))"

text \<open>\<^verbatim>\<open>for (x : xs) body\<close>.\<close>

primrec forE :: "'a list \<Rightarrow> ('a \<Rightarrow> ('s, unit) M) \<Rightarrow> ('s, unit) M" where
  "forE [] f = ret ()"
| "forE (x # xs) f = thenE (f x) (forE xs f)"

lemma run_simps [simp, effect_simps]:
  "ret a s = (Inr a, s)"
  "raise e s = (Inl e, s)"
  "getE f s = (Inr (f s), s)"
  "modE g s = (Inr (), g s)"
  "liftR r s = (r, s)"
  "bindE m k s = (case m s of (Inl e, s') \<Rightarrow> (Inl e, s') | (Inr a, s') \<Rightarrow> k a s')"
  "thenE m n s = (case m s of (Inl e, s') \<Rightarrow> (Inl e, s') | (Inr a, s') \<Rightarrow> n s')"
  by (simp_all add: ret_def raise_def getE_def modE_def liftR_def bindE_def thenE_def)

lemma assertE_simps [simp]:
  "assertE asserts True s = (Inr (), s)"
  "assertE False b s = (Inr (), s)"
  "assertE True False s = (Inl Assert_failed, s)"
  by (simp_all add: assertE_def)

lemma catchE_simp [simp, effect_simps]:
  "catchE m h s = (case m s of
     (Inl e, s') \<Rightarrow> if is_exception e then h e s' else (Inl e, s')
   | (Inr a, s') \<Rightarrow> (Inr a, s'))"
  by (simp add: catchE_def)

lemma zoomE_simp [simp, effect_simps]:
  "zoomE get put m s = (case m (get s) of (r, t) \<Rightarrow> (r, put t s))"
  by (simp add: zoomE_def)

lemma bindE_assoc: "bindE (bindE m f) g = bindE m (\<lambda>a. bindE (f a) g)"
  by (rule ext) (simp split: prod.splits sum.splits)

subsection \<open>Operations that preserve a predicate of the state\<close>

text \<open>
  \<open>keeps I m\<close>: whatever the outcome of \<open>m\<close>, it leads from a state with \<open>I\<close> to one with \<open>I\<close>. The
  invariant and frame properties of the components are proved with these rules.
\<close>

definition keeps :: "('s \<Rightarrow> bool) \<Rightarrow> ('s, 'a) M \<Rightarrow> bool" where
  "keeps I m \<longleftrightarrow> (\<forall>s. I s \<longrightarrow> I (snd (m s)))"

named_theorems keeps_rules \<open>rules that show an operation keeps a predicate of the state\<close>

lemma keepsI: "(\<And>s. I s \<Longrightarrow> I (snd (m s))) \<Longrightarrow> keeps I m"
  by (simp add: keeps_def)

lemma keepsD: "keeps I m \<Longrightarrow> I s \<Longrightarrow> m s = (r, s') \<Longrightarrow> I s'"
  by (force simp: keeps_def)

lemma keeps_ret [keeps_rules, intro]: "keeps I (ret a)"
  by (simp add: keeps_def)

lemma keeps_raise [keeps_rules, intro]: "keeps I (raise e)"
  by (simp add: keeps_def)

lemma keeps_getE [keeps_rules, intro]: "keeps I (getE f)"
  by (simp add: keeps_def)

lemma keeps_liftR [keeps_rules, intro]: "keeps I (liftR r)"
  by (simp add: keeps_def)

lemma keeps_assertE [keeps_rules, intro]: "keeps I (assertE a b)"
  by (simp add: keeps_def assertE_def)

lemma keeps_bindE [keeps_rules, intro]:
  "keeps I m \<Longrightarrow> (\<And>a. keeps I (f a)) \<Longrightarrow> keeps I (bindE m f)"
  by (rule keepsI) (auto simp: keeps_def split: prod.split sum.split; metis snd_conv)

lemma keeps_thenE [keeps_rules, intro]: "keeps I m \<Longrightarrow> keeps I n \<Longrightarrow> keeps I (thenE m n)"
  unfolding thenE_def by (rule keeps_bindE)

lemma keeps_catchE [keeps_rules, intro]:
  "keeps I m \<Longrightarrow> (\<And>e. keeps I (h e)) \<Longrightarrow> keeps I (catchE m h)"
  by (rule keepsI) (auto simp: keeps_def split: prod.split sum.split; metis snd_conv)

lemma keeps_if [keeps_rules, intro]:
  "(b \<Longrightarrow> keeps I m) \<Longrightarrow> (\<not> b \<Longrightarrow> keeps I n) \<Longrightarrow> keeps I (if b then m else n)"
  by simp

lemma keeps_case_option [keeps_rules, intro]:
  "(x = None \<Longrightarrow> keeps I m) \<Longrightarrow> (\<And>a. x = Some a \<Longrightarrow> keeps I (f a)) \<Longrightarrow>
   keeps I (case x of None \<Rightarrow> m | Some a \<Rightarrow> f a)"
  by (cases x) auto

lemma keeps_forE [keeps_rules, intro]: "(\<And>x. keeps I (f x)) \<Longrightarrow> keeps I (forE xs f)"
  by (induction xs) auto

end
