(* ===== verification/Std_Strings.thy ===== *)
theory Std_Strings
  imports Prelude
begin

text \<open>
  The C++ standard library conversions between integers and strings: \<^verbatim>\<open>std::to_string\<close>,
  \<^verbatim>\<open>std::stoi\<close> and \<^verbatim>\<open>std::strtoll\<close> (base 10, C locale), and \<^verbatim>\<open>std::string::c_str\<close> as a
  C function reads it. Strings are lists of bytes.
\<close>

section \<open>Character classes\<close>

definition code_of :: "char \<Rightarrow> nat" where
  "code_of c = of_char c"

definition is_space :: "char \<Rightarrow> bool" where
  "is_space c \<longleftrightarrow> code_of c = 32 \<or> (9 \<le> code_of c \<and> code_of c \<le> 13)"

definition is_digit :: "char \<Rightarrow> bool" where
  "is_digit c \<longleftrightarrow> 48 \<le> code_of c \<and> code_of c \<le> 57"

definition is_alnum :: "char \<Rightarrow> bool" where
  "is_alnum c \<longleftrightarrow> is_digit c \<or> (65 \<le> code_of c \<and> code_of c \<le> 90) \<or> (97 \<le> code_of c \<and> code_of c \<le> 122)"

definition digit_value :: "char \<Rightarrow> nat" where
  "digit_value c = code_of c - 48"

section \<open>Integers to strings\<close>

fun dec_string :: "nat \<Rightarrow> string" where
  "dec_string n = (if n < 10 then [char_of (48 + n)]
                   else dec_string (n div 10) @ [char_of (48 + n mod 10)])"

declare dec_string.simps [simp del]

definition to_string :: "int \<Rightarrow> string" where
  "to_string i = (if i < 0 then CHR ''-'' # dec_string (nat (- i)) else dec_string (nat i))"

section \<open>Strings to integers\<close>

definition digits_value :: "string \<Rightarrow> nat" where
  "digits_value ds = foldl (\<lambda>a c. a * 10 + digit_value c) 0 ds"

text \<open>The subject sequence of \<^verbatim>\<open>strtol\<close>: white space, an optional sign, then digits.\<close>

definition skip_sign :: "string \<Rightarrow> bool \<times> string" where
  "skip_sign s = (case s of [] \<Rightarrow> (False, [])
     | c # cs \<Rightarrow> if c = CHR ''-'' then (True, cs) else if c = CHR ''+'' then (False, cs) else (False, s))"

definition parse_int :: "string \<Rightarrow> int option" where
  "parse_int s = (case skip_sign (dropWhile is_space s) of (neg, u) \<Rightarrow>
     (let ds = takeWhile is_digit u in
      if ds = [] then None
      else Some (if neg then - int (digits_value ds) else int (digits_value ds))))"

definition stoi :: "string \<Rightarrow> exn + int" where
  "stoi s = (case parse_int s of
     None \<Rightarrow> Inl Invalid_argument
   | Some i \<Rightarrow> if - (2 ^ 31) \<le> i \<and> i < 2 ^ 31 then Inr i else Inl Out_of_range)"

definition strtoll :: "string \<Rightarrow> int" where
  "strtoll s = (case parse_int s of
     None \<Rightarrow> 0
   | Some i \<Rightarrow> max (- (2 ^ 63)) (min (2 ^ 63 - 1) i))"

text \<open>A C function that is handed \<open>s.c_str()\<close> sees the bytes before the first NUL.\<close>

definition c_str :: "string \<Rightarrow> string" where
  "c_str s = takeWhile (\<lambda>c. c \<noteq> CHR 0x00) s"

section \<open>Round trips\<close>

lemma code_of_digit: "n < 10 \<Longrightarrow> code_of (char_of (48 + n)) = 48 + n"
  by (simp add: code_of_def)

lemma digit_char [simp]:
  "n < 10 \<Longrightarrow> is_digit (char_of (48 + n))"
  "n < 10 \<Longrightarrow> digit_value (char_of (48 + n)) = n"
  "n < 10 \<Longrightarrow> \<not> is_space (char_of (48 + n))"
  by (simp_all add: is_digit_def digit_value_def is_space_def code_of_digit)

lemma digit_not_sign: "is_digit c \<Longrightarrow> c \<noteq> CHR ''-'' \<and> c \<noteq> CHR ''+''"
  by (auto simp: is_digit_def code_of_def)

lemma digit_not_space: "is_digit c \<Longrightarrow> \<not> is_space c"
  by (auto simp: is_digit_def is_space_def)

lemma digit_alnum: "is_digit c \<Longrightarrow> is_alnum c"
  by (simp add: is_alnum_def)

lemma alnum_not_nul: "is_alnum c \<Longrightarrow> c \<noteq> CHR 0x00"
  by (auto simp: is_alnum_def is_digit_def code_of_def)

lemma dec_string_nonempty [simp]: "dec_string n \<noteq> []"
  by (subst dec_string.simps) simp

lemma dec_string_digits: "\<forall>c \<in> set (dec_string n). is_digit c"
proof (induction n rule: dec_string.induct)
  case (1 n)
  then show ?case by (subst dec_string.simps) auto
qed

lemma digits_value_append: "digits_value (xs @ [c]) = digits_value xs * 10 + digit_value c"
  by (simp add: digits_value_def)

lemma digits_value_dec_string [simp]: "digits_value (dec_string n) = n"
proof (induction n rule: dec_string.induct)
  case (1 n)
  show ?case
  proof (cases "n < 10")
    case True
    then show ?thesis by (subst dec_string.simps) (simp add: digits_value_def)
  next
    case False
    then have "dec_string n = dec_string (n div 10) @ [char_of (48 + n mod 10)]"
      by (subst dec_string.simps) simp
    with 1 False show ?thesis by (simp add: digits_value_append)
  qed
qed

lemma takeWhile_digits: "takeWhile is_digit (dec_string n) = dec_string n"
  using dec_string_digits by (auto intro: takeWhile_eq_all_conv [THEN iffD2])

lemma dec_string_Cons: "\<exists>c cs. dec_string n = c # cs \<and> is_digit c"
  using dec_string_nonempty [of n] dec_string_digits [of n] by (cases "dec_string n") auto

lemma parse_int_to_string [simp]: "parse_int (to_string i) = Some i"
proof (cases "i < 0")
  case True
  then show ?thesis
    by (simp add: parse_int_def to_string_def skip_sign_def is_space_def code_of_def takeWhile_digits)
next
  case False
  obtain c cs where d: "dec_string (nat i) = c # cs" "is_digit c"
    using dec_string_Cons by blast
  then have "skip_sign (dropWhile is_space (dec_string (nat i))) = (False, dec_string (nat i))"
    by (simp add: skip_sign_def digit_not_space digit_not_sign)
  with False show ?thesis
    by (simp add: parse_int_def to_string_def takeWhile_digits)
qed

lemma stoi_to_string: "- (2 ^ 31) \<le> i \<Longrightarrow> i < 2 ^ 31 \<Longrightarrow> stoi (to_string i) = Inr i"
  by (simp add: stoi_def)

lemma strtoll_to_string: "- (2 ^ 63) \<le> i \<Longrightarrow> i < 2 ^ 63 \<Longrightarrow> strtoll (to_string i) = i"
  by (simp add: strtoll_def)

lemma stoi_range: "stoi s = Inr i \<Longrightarrow> - (2 ^ 31) \<le> i \<and> i < 2 ^ 31"
  by (auto simp: stoi_def split: option.splits if_splits)

lemma to_string_small [simp]: "to_string 1 = ''1''" "to_string 2 = ''2''"
  by code_simp+

lemma to_string_nonempty [simp]: "to_string i \<noteq> []"
  by (simp add: to_string_def)

lemma c_str_id: "CHR 0x00 \<notin> set s \<Longrightarrow> c_str s = s"
  unfolding c_str_def by (rule takeWhile_eq_all_conv [THEN iffD2]) auto

lemma c_str_no_nul: "CHR 0x00 \<notin> set (c_str s)"
  by (auto simp: c_str_def dest: set_takeWhileD)

end
