(* ===== verification/Chrono.thy ===== *)
theory Chrono
  imports Std_Strings
begin

text \<open>
  The part of \<^verbatim>\<open>std::chrono\<close> the sources use: a \<^verbatim>\<open>system_clock::time_point\<close> counts nanoseconds since
  the epoch in a signed 64-bit integer, a \<^verbatim>\<open>std::time_t\<close> counts seconds in one. Arithmetic wraps at
  64 bits, as the generated code does.
\<close>

type_synonym time_point = "64 word"

definition NS :: int where
  "NS = 1000000000"

text \<open>Integer division of C++: the quotient is rounded towards zero.\<close>

definition cdiv :: "int \<Rightarrow> int \<Rightarrow> int" where
  "cdiv a b = sgn a * sgn b * (\<bar>a\<bar> div \<bar>b\<bar>)"

definition to_time_t :: "time_point \<Rightarrow> int" where
  "to_time_t t = cdiv (sint t) NS"

definition from_time_t :: "int \<Rightarrow> time_point" where
  "from_time_t s = word_of_int (s * NS)"

text \<open>\<^verbatim>\<open>tp + std::chrono::seconds(n)\<close> for a \<^verbatim>\<open>size_t\<close> n.\<close>

definition add_seconds :: "time_point \<Rightarrow> 64 word \<Rightarrow> time_point" where
  "add_seconds t n = t + n * word_of_int NS"

definition before :: "time_point \<Rightarrow> time_point \<Rightarrow> bool" where
  "before a b \<longleftrightarrow> sint a < sint b"

lemma sint_range64: "- (2 ^ 63) \<le> sint (t :: 64 word) \<and> sint t < 2 ^ 63"
  using sint_ge [of t] sint_lt [of t] by simp

lemma sint_of_int64: "- (2 ^ 63) \<le> i \<Longrightarrow> i < 2 ^ 63 \<Longrightarrow> sint (word_of_int i :: 64 word) = i"
  by (simp add: signed_of_int signed_take_bit_int_eq_self)

lemma to_time_t_range: "- (2 ^ 63) \<le> to_time_t t \<and> to_time_t t < 2 ^ 63"
proof -
  have "\<bar>sint t\<bar> \<le> 2 ^ 63" using sint_range64 [of t] by linarith
  then have "0 \<le> \<bar>sint t\<bar> div 1000000000" "\<bar>sint t\<bar> div 1000000000 < 2 ^ 63" by simp_all
  then show ?thesis by (auto simp: to_time_t_def cdiv_def NS_def sgn_if)
qed

text \<open>Storing a time point as seconds rounds it down by less than a second (after the epoch).\<close>

lemma time_t_roundtrip:
  assumes "0 \<le> sint t"
  shows "sint (from_time_t (to_time_t t)) = sint t - sint t mod NS"
proof -
  have q: "to_time_t t * NS = sint t - sint t mod NS"
    using assms by (auto simp: to_time_t_def cdiv_def NS_def sgn_if minus_mod_eq_div_mult)
  have "0 \<le> sint t mod NS" "sint t mod NS \<le> sint t"
    using assms by (auto simp: NS_def zmod_le_nonneg_dividend)
  with sint_range64 [of t] show ?thesis
    unfolding from_time_t_def q by (intro sint_of_int64) linarith+
qed

lemma time_t_roundtrip_bounds:
  assumes "0 \<le> sint t"
  shows "sint (from_time_t (to_time_t t)) \<le> sint t" "sint t < sint (from_time_t (to_time_t t)) + NS"
proof -
  have "0 \<le> sint t mod NS" "sint t mod NS < NS" by (simp_all add: NS_def)
  with time_t_roundtrip [OF assms] show "sint (from_time_t (to_time_t t)) \<le> sint t"
    "sint t < sint (from_time_t (to_time_t t)) + NS" by simp_all
qed

lemma add_seconds_exact:
  assumes "0 \<le> sint t" "sint t + uint n * NS < 2 ^ 63"
  shows "sint (add_seconds t n) = sint t + uint n * NS"
proof -
  have "word_of_int (sint t + uint n * NS) = add_seconds t n"
    by (simp add: add_seconds_def)
  moreover have "0 \<le> uint n * NS" by (simp add: NS_def)
  ultimately show ?thesis using assms sint_of_int64 [of "sint t + uint n * NS"] by simp
qed

end
