(* ===== verification/World.thy ===== *)
theory World
  imports Std_Strings
begin

text \<open>
  The state the components share and act on: the Redis server (\<open>'db\<close>), the rest of the outside
  world (\<open>'e\<close>: the clock, the random number generators, the HTTP peers and the XMPP connection) and
  the trace of what the program sent out, in the order it sent it. The components extend this record
  with their own fields. \<open>ref_env\<close> is a concrete outside world, used by the reference
  implementations of the libraries and by the witnesses.
\<close>

section \<open>HTTP as the WNS client uses it\<close>

datatype http_request =
    Post_payload string "(string \<times> string) list"
  | Post_body string "(string \<times> string) list" string

record http_response =
  status_code :: int
  error_ok :: bool
  resp_text :: string

section \<open>Observable effects\<close>

text \<open>A session of a client is named by a number; what is sent on a session is recorded with it.\<close>

type_synonym session_id = nat

datatype 'st event =
    Http_post http_request
  | Xmpp_send 'st
  | Session_send session_id string

fun is_session_send :: "'st event \<Rightarrow> bool" where
  "is_session_send (Session_send i s) = True"
| "is_session_send _ = False"

fun is_http_post :: "'st event \<Rightarrow> bool" where
  "is_http_post (Http_post q) = True"
| "is_http_post _ = False"

record ('db, 'e, 'st) world =
  w_db :: 'db
  w_env :: 'e
  w_trace :: "'st event list"

definition on_db :: "('db, 'a) M \<Rightarrow> (('db, 'e, 'st, 'z) world_scheme, 'a) M" where
  "on_db m = zoomE w_db (\<lambda>d w. w\<lparr>w_db := d\<rparr>) m"

definition on_env :: "('e, 'a) M \<Rightarrow> (('db, 'e, 'st, 'z) world_scheme, 'a) M" where
  "on_env m = zoomE w_env (\<lambda>e w. w\<lparr>w_env := e\<rparr>) m"

text \<open>A query of the outside world that cannot fail.\<close>

definition askE :: "('e \<Rightarrow> 'a \<times> 'e) \<Rightarrow> ('e, 'a) M" where
  "askE f = (\<lambda>e. case f e of (a, e') \<Rightarrow> (Inr a, e'))"

definition emit :: "'st event \<Rightarrow> (('db, 'e, 'st, 'z) world_scheme, unit) M" where
  "emit ev = modE (\<lambda>w. w\<lparr>w_trace := w_trace w @ [ev]\<rparr>)"

lemma on_db_simp [simp, effect_simps]:
  "on_db m w = (case m (w_db w) of (r, d) \<Rightarrow> (r, w\<lparr>w_db := d\<rparr>))"
  by (simp add: on_db_def)

lemma on_env_simp [simp, effect_simps]:
  "on_env m w = (case m (w_env w) of (r, e) \<Rightarrow> (r, w\<lparr>w_env := e\<rparr>))"
  by (simp add: on_env_def)

lemma askE_simp [simp, effect_simps]: "askE f e = (case f e of (a, e') \<Rightarrow> (Inr a, e'))"
  by (simp add: askE_def)

lemma emit_simp [simp, effect_simps]: "emit ev w = (Inr (), w\<lparr>w_trace := w_trace w @ [ev]\<rparr>)"
  by (simp add: emit_def)

subsection \<open>Messages sent to the connected client\<close>

definition session_sends :: "'st event list \<Rightarrow> (session_id \<times> string) list" where
  "session_sends tr = [(i, s). Session_send i s \<leftarrow> tr]"

definition http_posts :: "'st event list \<Rightarrow> http_request list" where
  "http_posts tr = [q. Http_post q \<leftarrow> tr]"

definition xmpp_sends :: "'st event list \<Rightarrow> 'st list" where
  "xmpp_sends tr = [st. Xmpp_send st \<leftarrow> tr]"

lemma trace_views_append [simp]:
  "session_sends (xs @ ys) = session_sends xs @ session_sends ys"
  "http_posts (xs @ ys) = http_posts xs @ http_posts ys"
  "xmpp_sends (xs @ ys) = xmpp_sends xs @ xmpp_sends ys"
  by (simp_all add: session_sends_def http_posts_def xmpp_sends_def)

lemma trace_views_single [simp]:
  "session_sends [] = []" "http_posts [] = []" "xmpp_sends [] = []"
  "session_sends [Session_send i s] = [(i, s)]" "session_sends [Http_post q] = []" "session_sends [Xmpp_send st] = []"
  "http_posts [Session_send i s] = []" "http_posts [Http_post q] = [q]" "http_posts [Xmpp_send st] = []"
  "xmpp_sends [Session_send i s] = []" "xmpp_sends [Http_post q] = []" "xmpp_sends [Xmpp_send st] = [st]"
  by (simp_all add: session_sends_def http_posts_def xmpp_sends_def)

section \<open>A concrete outside world\<close>

text \<open>
  A seed for the random number generators, a clock that only sleeping advances, the scripted answers of the
  HTTP peers and whether the XMPP connection is up. An HTTP request that runs out of script times out.
\<close>

record ref_env =
  re_seed :: nat
  re_clock :: "64 word"
  re_responses :: "http_response list"
  re_connected :: bool

definition ref_http_timeout :: http_response where
  "ref_http_timeout = \<lparr>status_code = 0, error_ok = False, resp_text = []\<rparr>"

end
