(* ===== verification/Crypto_Utils.thy ===== *)
theory Crypto_Utils
  imports World
begin

text \<open>
  \<^verbatim>\<open>src/utils/CryptoUtils.cpp\<close>: random passwords and tokens and the hex encoded SHA-256 hash. The
  random number generators and libsodium are parameters (\<open>crypto_api\<close>) with their documented contract
  (locale \<open>crypto_lib\<close>).
\<close>

section \<open>The library interface\<close>

text \<open>
  \<^verbatim>\<open>randombytes_uniform\<close>, the draw of \<^verbatim>\<open>std::uniform_int_distribution\<close> from the static
  \<^verbatim>\<open>std::mt19937\<close>, \<^verbatim>\<open>crypto_hash_sha256\<close> and \<^verbatim>\<open>sodium_bin2hex\<close>.
\<close>

record 'e crypto_api =
  randombytes_uniform :: "nat \<Rightarrow> 'e \<Rightarrow> nat \<times> 'e"
  uniform_int :: "nat \<Rightarrow> nat \<Rightarrow> 'e \<Rightarrow> nat \<times> 'e"
  crypto_hash_sha256 :: "string \<Rightarrow> 8 word list"
  sodium_bin2hex :: "8 word list \<Rightarrow> string"

definition hex_digits :: string where
  "hex_digits = ''0123456789abcdef''"

locale random_source =
  fixes C :: "'e crypto_api"
  assumes randombytes_bound: "0 < n \<Longrightarrow> fst (randombytes_uniform C n e) < n"
    and uniform_int_bound: "lo \<le> hi \<Longrightarrow> lo \<le> fst (uniform_int C lo hi e) \<and> fst (uniform_int C lo hi e) \<le> hi"

locale hashing =
  fixes C :: "'e crypto_api"
  assumes sha256_length: "length (crypto_hash_sha256 C s) = 32"
    and bin2hex_length: "length (sodium_bin2hex C bs) = 2 * length bs"
    and bin2hex_chars: "set (sodium_bin2hex C bs) \<subseteq> set hex_digits"

locale crypto_lib = random_source C + hashing C for C :: "'e crypto_api"

section \<open>The functions\<close>

definition alphanum :: string where
  "alphanum = ''0123456789abcdefghijklmnopqrstuvwxyzABCDEFGHIJKLMNOPQRSTUVWXYZ''"

text \<open>\<^verbatim>\<open>s[i]\<close> on a \<^verbatim>\<open>const std::string\<close>: the terminating NUL at \<open>size()\<close>, undefined beyond.\<close>

definition string_at :: "string \<Rightarrow> nat \<Rightarrow> exn + char" where
  "string_at s i = (if i < length s then Inr (s ! i)
                    else if i = length s then Inr (CHR 0x00) else Inl Undefined_behaviour)"

primrec secure_random_loop :: "'e crypto_api \<Rightarrow> nat \<Rightarrow> ('e, string) M" where
  "secure_random_loop C 0 = ret []"
| "secure_random_loop C (Suc n) =
     bindE (askE (randombytes_uniform C (length alphanum - 1))) (\<lambda>k.
     bindE (liftR (string_at alphanum k)) (\<lambda>c.
     bindE (secure_random_loop C n) (\<lambda>cs. ret (c # cs))))"

definition secure_random_password :: "bool \<Rightarrow> 'e crypto_api \<Rightarrow> nat \<Rightarrow> ('e, string) M" where
  "secure_random_password asserts C n =
     thenE (assertE asserts (1 \<le> n)) (secure_random_loop C n)"

primrec url_safe_random_loop :: "bool \<Rightarrow> 'e crypto_api \<Rightarrow> nat \<Rightarrow> ('e, string) M" where
  "url_safe_random_loop asserts C 0 = ret []"
| "url_safe_random_loop asserts C (Suc n) =
     bindE (askE (uniform_int C 0 (length alphanum - 1))) (\<lambda>k.
     bindE (liftR (string_at alphanum k)) (\<lambda>c.
     thenE (assertE asserts (c \<noteq> CHR 0x00))
     (bindE (url_safe_random_loop asserts C n) (\<lambda>cs. ret (c # cs)))))"

definition url_safe_random_token :: "bool \<Rightarrow> 'e crypto_api \<Rightarrow> nat \<Rightarrow> ('e, string) M" where
  "url_safe_random_token asserts C n =
     thenE (assertE asserts (1 \<le> n)) (url_safe_random_loop asserts C n)"

text \<open>
  The 32 bytes of the hash in a buffer of 65 characters (64 hex digits and the NUL), of which all
  but the last are returned.
\<close>

definition hash_sah256 :: "'e crypto_api \<Rightarrow> string \<Rightarrow> string" where
  "hash_sah256 C s = take 64 (sodium_bin2hex C (crypto_hash_sha256 C s))"

section \<open>Correctness\<close>

lemma alphanum_length [simp]: "length alphanum = 62"
  by (simp add: alphanum_def)

lemma alphanum_alnum: "\<forall>c \<in> set alphanum. is_alnum c"
  by (simp add: alphanum_def is_alnum_def is_digit_def code_of_def)

lemma alphanum_distinct: "distinct alphanum"
  by (simp add: alphanum_def)

lemma hex_digits_alnum: "\<forall>c \<in> set hex_digits. is_alnum c"
  by (simp add: hex_digits_def is_alnum_def is_digit_def code_of_def)

lemma alphanum_nth_alnum: "i < 62 \<Longrightarrow> is_alnum (alphanum ! i)"
  using alphanum_alnum by simp

lemma string_at_alphanum [simp]: "i < 62 \<Longrightarrow> string_at alphanum i = Inr (alphanum ! i)"
  by (simp add: string_at_def)

lemma nth_take_mem: "i < n \<Longrightarrow> n \<le> length xs \<Longrightarrow> xs ! i \<in> set (take n xs)"
  by (auto simp: in_set_conv_nth)

context random_source
begin

lemma secure_random_loop_spec:
  "\<exists>p e'. secure_random_loop C n e = (Inr p, e') \<and> length p = n \<and> set p \<subseteq> set (take 61 alphanum)"
proof (induction n arbitrary: e)
  case 0
  then show ?case by simp
next
  case (Suc n)
  obtain k e1 where k: "randombytes_uniform C 61 e = (k, e1)" by fastforce
  with randombytes_bound [of 61 e] have "k < 61" by simp
  moreover from Suc obtain p e2 where "secure_random_loop C n e1 = (Inr p, e2)"
    "length p = n" "set p \<subseteq> set (take 61 alphanum)" by blast
  ultimately show ?case using k nth_take_mem [of k 61 alphanum] by auto
qed

lemma url_safe_random_loop_spec:
  "\<exists>p e'. url_safe_random_loop asserts C n e = (Inr p, e') \<and> length p = n \<and> set p \<subseteq> set alphanum"
proof (induction n arbitrary: e)
  case 0
  then show ?case by simp
next
  case (Suc n)
  obtain k e1 where k: "uniform_int C 0 61 e = (k, e1)" by fastforce
  with uniform_int_bound [of 0 61 e] have "k < 62" by simp
  moreover from this have "alphanum ! k \<noteq> CHR 0x00"
    using alphanum_nth_alnum alnum_not_nul by blast
  moreover from Suc obtain p e2 where "url_safe_random_loop asserts C n e1 = (Inr p, e2)"
    "length p = n" "set p \<subseteq> set alphanum" by blast
  ultimately show ?case using k by auto
qed

lemma secure_random_password_spec:
  "1 \<le> n \<Longrightarrow> \<exists>p e'. secure_random_password asserts C n e = (Inr p, e') \<and> length p = n
     \<and> set p \<subseteq> set (take 61 alphanum)"
  using secure_random_loop_spec by (simp add: secure_random_password_def)

lemma url_safe_random_token_spec:
  "1 \<le> n \<Longrightarrow> \<exists>p e'. url_safe_random_token asserts C n e = (Inr p, e') \<and> length p = n
     \<and> set p \<subseteq> set alphanum"
  using url_safe_random_loop_spec by (simp add: url_safe_random_token_def)

end

context hashing
begin

lemma hash_length: "length (hash_sah256 C s) = 64"
  by (simp add: hash_sah256_def sha256_length bin2hex_length)

lemma hash_chars: "set (hash_sah256 C s) \<subseteq> set hex_digits"
  using set_take_subset bin2hex_chars unfolding hash_sah256_def by fast

end

section \<open>A reference implementation\<close>

text \<open>
  A linear congruential generator for the random numbers, hex encoding as documented, and a 32 byte
  digest that mixes the bytes of its input (a stand-in for SHA-256: the laws above, which the
  development uses, say nothing about collisions).
\<close>

definition ref_draw :: "nat \<Rightarrow> ref_env \<Rightarrow> nat \<times> ref_env" where
  "ref_draw n e = (re_seed e mod n, e\<lparr>re_seed := (re_seed e * 75 + 74) mod 65537\<rparr>)"

fun mix_bytes :: "8 word \<Rightarrow> string \<Rightarrow> 8 word list" where
  "mix_bytes a [] = []"
| "mix_bytes a (c # cs) = (let b = a * 31 + of_nat (code_of c) in b # mix_bytes b cs)"

definition ref_digest :: "string \<Rightarrow> 8 word list" where
  "ref_digest s = take 32 (rev (mix_bytes 7 s) @ replicate 32 0)"

definition hex_of_byte :: "8 word \<Rightarrow> string" where
  "hex_of_byte b = [hex_digits ! (unat b div 16), hex_digits ! (unat b mod 16)]"

definition ref_bin2hex :: "8 word list \<Rightarrow> string" where
  "ref_bin2hex bs = concat (map hex_of_byte bs)"

definition ref_crypto :: "ref_env crypto_api" where
  "ref_crypto = \<lparr>randombytes_uniform = ref_draw,
     uniform_int = (\<lambda>lo hi e. case ref_draw (hi + 1 - lo) e of (k, e') \<Rightarrow> (lo + k, e')),
     crypto_hash_sha256 = ref_digest, sodium_bin2hex = ref_bin2hex\<rparr>"

lemma hex_of_byte_length [simp]: "length (hex_of_byte b) = 2"
  by (simp add: hex_of_byte_def)

lemma hex_of_byte_chars: "set (hex_of_byte b) \<subseteq> set hex_digits"
proof -
  have "unat b < 2 ^ LENGTH(8)" by (rule unsigned_less)
  then have "unat b < 256" by simp
  then have "unat b div 16 < length hex_digits" "unat b mod 16 < length hex_digits"
    by (simp_all add: hex_digits_def)
  then show ?thesis by (simp add: hex_of_byte_def)
qed

interpretation rc: crypto_lib ref_crypto
proof (unfold_locales, goal_cases)
  case (1 n e)
  then show ?case by (simp add: ref_crypto_def ref_draw_def)
next
  case (2 lo hi e)
  have "re_seed e mod (hi + 1 - lo) < hi + 1 - lo"
    by (rule mod_less_divisor) (use 2 in simp)
  with 2 have "lo + re_seed e mod (hi + 1 - lo) \<le> hi" by linarith
  then show ?case by (simp add: ref_crypto_def ref_draw_def)
next
  case (3 s)
  then show ?case by (simp add: ref_crypto_def ref_digest_def)
next
  case (4 bs)
  then show ?case
    by (induction bs) (simp_all add: ref_crypto_def ref_bin2hex_def)
next
  case (5 bs)
  then show ?case using hex_of_byte_chars by (auto simp: ref_crypto_def ref_bin2hex_def)
qed

section \<open>Properties\<close>

text \<open>
  C34 (Random names and secrets). For every length from 1 on, \<^verbatim>\<open>url_safe_random_token\<close> and
  \<^verbatim>\<open>secure_random_password\<close> return, without failing, alphanumeric text of that length; the password
  never contains the last character of the alphabet, since its generator is asked for one value less.
\<close>

theorem random_texts:
  assumes "random_source C" "1 \<le> n"
  shows "(\<exists>p e'. secure_random_password asserts C n e = (Inr p, e') \<and> length p = n \<and> (\<forall>c \<in> set p. is_alnum c \<and> c \<noteq> CHR ''Z''))
    \<and> (\<exists>p e'. url_safe_random_token asserts C n e = (Inr p, e') \<and> length p = n \<and> (\<forall>c \<in> set p. is_alnum c))"
proof -
  have "CHR ''Z'' \<notin> set (take 61 alphanum)" by (simp add: alphanum_def)
  moreover have "set (take 61 alphanum) \<subseteq> set alphanum" by (rule set_take_subset)
  ultimately show ?thesis
    using random_source.secure_random_password_spec [OF assms, of asserts e]
      random_source.url_safe_random_token_spec [OF assms, of asserts e] alphanum_alnum by fastforce
qed

theorem random_texts_witness:
  "\<exists>p e'. secure_random_password True ref_crypto 15 \<lparr>re_seed = 3, re_clock = 0, re_responses = [], re_connected = True\<rparr> = (Inr p, e')
     \<and> length p = 15"
  using random_texts [of ref_crypto 15 True "\<lparr>re_seed = 3, re_clock = 0, re_responses = [], re_connected = True\<rparr>"]
    rc.random_source_axioms by auto

end
