(* ===== verification/Json_Api.thy ===== *)
theory Json_Api
  imports Std_Strings
begin

text \<open>
  The interface to the JSON library (nlohmann::json), which is not part of the repository: a value of
  the abstract type \<open>'j\<close> and the operations the sources call, as a record \<open>json_api\<close> that every
  definition using JSON takes as its argument. The locale \<open>json_lib\<close> states the documented behaviour
  the code relies on. \<open>ref_json\<close> is a reference implementation over a datatype of JSON documents, with
  a printer and a parser, on which the locale is interpreted and the witnesses are evaluated.
\<close>

section \<open>The library interface\<close>

text \<open>
  \<^item> \<open>j_parse\<close>, \<open>j_dump\<close>: \<^verbatim>\<open>json::parse\<close> and \<^verbatim>\<open>dump\<close>, which throw on malformed text and on invalid
    UTF-8;
  \<^item> \<open>j_contains k j\<close>: \<^verbatim>\<open>j.contains(k)\<close>, false for anything but an object;
  \<^item> \<open>j_at k j\<close>: \<^verbatim>\<open>j.at(k)\<close>, and \<open>j_index k j\<close>: \<^verbatim>\<open>j[k]\<close> on a constant value;
  \<^item> \<open>j_get_string\<close> and its kin: the conversions to C++ types, which throw a \<^verbatim>\<open>type_error\<close>;
  \<^item> \<open>j_items\<close>: the values a range-based \<^verbatim>\<open>for\<close> visits;
  \<^item> \<open>j_null\<close>, \<open>j_of_string\<close>, \<open>j_of_int\<close>, \<open>j_of_bool\<close>, \<open>j_array\<close>, \<open>j_object\<close>: construction, the last two
    from the elements pushed into \<^verbatim>\<open>json::array()\<close> and from an initializer list;
  \<^item> \<open>j_set k v j\<close>: \<^verbatim>\<open>j[k] = v\<close> and \<open>j_emplace k v j\<close>: \<^verbatim>\<open>j.emplace(k, v)\<close>.
\<close>

record 'j json_api =
  j_parse :: "string \<Rightarrow> exn + 'j"
  j_dump :: "'j \<Rightarrow> exn + string"
  j_is_null :: "'j \<Rightarrow> bool"
  j_is_object :: "'j \<Rightarrow> bool"
  j_is_boolean :: "'j \<Rightarrow> bool"
  j_contains :: "string \<Rightarrow> 'j \<Rightarrow> bool"
  j_at :: "string \<Rightarrow> 'j \<Rightarrow> exn + 'j"
  j_index :: "string \<Rightarrow> 'j \<Rightarrow> exn + 'j"
  j_get_string :: "'j \<Rightarrow> exn + string"
  j_get_int :: "'j \<Rightarrow> exn + int"
  j_get_u16 :: "'j \<Rightarrow> exn + 16 word"
  j_get_size_t :: "'j \<Rightarrow> exn + 64 word"
  j_get_time_t :: "'j \<Rightarrow> exn + 64 word"
  j_get_bool :: "'j \<Rightarrow> exn + bool"
  j_items :: "'j \<Rightarrow> 'j list"
  j_null :: 'j
  j_of_string :: "string \<Rightarrow> 'j"
  j_of_int :: "int \<Rightarrow> 'j"
  j_of_bool :: "bool \<Rightarrow> 'j"
  j_array :: "'j list \<Rightarrow> 'j"
  j_object :: "(string \<times> 'j) list \<Rightarrow> 'j"
  j_set :: "string \<Rightarrow> 'j \<Rightarrow> 'j \<Rightarrow> exn + 'j"
  j_emplace :: "string \<Rightarrow> 'j \<Rightarrow> 'j \<Rightarrow> exn + 'j"

text \<open>\<open>operator[]\<close> may be applied to null (which becomes an object) and to objects.\<close>

definition settable :: "'j json_api \<Rightarrow> 'j \<Rightarrow> bool" where
  "settable J j \<longleftrightarrow> j_is_null J j \<or> j_is_object J j"

section \<open>Its documented behaviour\<close>

locale json_lib =
  fixes J :: "'j json_api"
  assumes null_is_null: "j_is_null J (j_null J)"
    and null_empty: "j_is_null J j \<Longrightarrow> \<not> j_contains J k j"
    and set_ok: "settable J j \<Longrightarrow> \<exists>j'. j_set J k v j = Inr j'"
    and set_object: "j_set J k v j = Inr j' \<Longrightarrow> j_is_object J j'"
    and set_contains: "j_set J k v j = Inr j' \<Longrightarrow> j_contains J k' j' \<longleftrightarrow> k' = k \<or> j_contains J k' j"
    and set_at: "j_set J k v j = Inr j' \<Longrightarrow> k' = k \<or> j_contains J k' j \<Longrightarrow>
      j_at J k' j' = (if k' = k then Inr v else j_at J k' j)"
    and emplace_ok: "settable J j \<Longrightarrow> \<exists>j'. j_emplace J k v j = Inr j'"
    and emplace_object: "j_emplace J k v j = Inr j' \<Longrightarrow> j_is_object J j'"
    and emplace_contains: "j_emplace J k v j = Inr j' \<Longrightarrow> j_contains J k' j' \<longleftrightarrow> k' = k \<or> j_contains J k' j"
    and emplace_at: "j_emplace J k v j = Inr j' \<Longrightarrow> k' = k \<or> j_contains J k' j \<Longrightarrow>
      j_at J k' j' = (if k' = k \<and> \<not> j_contains J k j then Inr v else j_at J k' j)"
    and index_at: "j_contains J k j \<Longrightarrow> j_index J k j = j_at J k j"
    and at_missing: "\<not> j_contains J k j \<Longrightarrow> \<exists>e. j_at J k j = Inl e \<and> is_exception e"
    and object_contains: "j_contains J k (j_object J kvs) \<longleftrightarrow> k \<in> fst ` set kvs"
    and object_at: "map_of kvs k = Some v \<Longrightarrow> j_at J k (j_object J kvs) = Inr v"
    and string_get: "j_get_string J (j_of_string J s) = Inr s"
    and int_get: "- (2 ^ 31) \<le> i \<Longrightarrow> i < 2 ^ 31 \<Longrightarrow> j_get_int J (j_of_int J i) = Inr i"
    and u16_wraps: "- (2 ^ 63) \<le> i \<Longrightarrow> i < 2 ^ 64 \<Longrightarrow> j_get_u16 J (j_of_int J i) = Inr (word_of_int i)"
    and time_t_get: "j_get_time_t J (j_of_int J (sint t)) = Inr t"
    and bool_get: "j_get_bool J (j_of_bool J b) = Inr b"
    and bool_is_boolean: "j_is_boolean J (j_of_bool J b)"
    and array_items: "j_items J (j_array J js) = js"
begin

text \<open>The document after \<^verbatim>\<open>j[k] = v\<close> on a null or an object, as a function.\<close>

definition put :: "string \<Rightarrow> 'j \<Rightarrow> 'j \<Rightarrow> 'j" where
  "put k v j = projr (j_set J k v j)"

lemma set_put [simp]: "settable J j \<Longrightarrow> j_set J k v j = Inr (put k v j)"
  using set_ok [of j k v] by (auto simp: put_def)

lemma put_settable [simp]: "settable J j \<Longrightarrow> settable J (put k v j)"
  using set_object [of k v j "put k v j"] by (simp add: settable_def [of J "put k v j"])

lemma put_contains [simp]:
  "settable J j \<Longrightarrow> j_contains J k' (put k v j) \<longleftrightarrow> k' = k \<or> j_contains J k' j"
  using set_contains [of k v j "put k v j" k'] by simp

lemma put_at [simp]:
  "settable J j \<Longrightarrow> k' = k \<or> j_contains J k' j \<Longrightarrow>
   j_at J k' (put k v j) = (if k' = k then Inr v else j_at J k' j)"
  using set_at [of k v j "put k v j" k'] by simp

lemma put_index:
  "settable J j \<Longrightarrow> k' = k \<or> j_contains J k' j \<Longrightarrow>
   j_index J k' (put k v j) = (if k' = k then Inr v else j_at J k' j)"
  by (subst index_at) auto

lemma null_settable [simp]: "settable J (j_null J)"
  by (simp add: settable_def null_is_null)

lemma null_contains [simp]: "\<not> j_contains J k (j_null J)"
  by (simp add: null_empty null_is_null)

lemma u16_get: "j_get_u16 J (j_of_int J (uint u)) = Inr u"
proof -
  have "- (2 ^ 63) \<le> uint u" by (rule order_trans [OF _ uint_ge_0]) simp
  moreover have "uint u < 2 ^ 64" using uint_lt2p [of u] by simp
  ultimately show ?thesis using u16_wraps [of "uint u"] by simp
qed

lemmas get_simps [simp] = string_get int_get u16_get time_t_get bool_get bool_is_boolean array_items
lemmas doc_simps = put_contains put_at put_index get_simps index_at

end

section \<open>A reference implementation\<close>

datatype json = Jnull | Jbool bool | Jint int | Jstr string | Jarr "json list" | Jobj "(string \<times> json) list"

fun jobj_put :: "string \<Rightarrow> json \<Rightarrow> (string \<times> json) list \<Rightarrow> (string \<times> json) list" where
  "jobj_put k v [] = [(k, v)]"
| "jobj_put k v ((k', v') # kvs) = (if k = k' then (k, v) # kvs else (k', v') # jobj_put k v kvs)"

fun rj_contains :: "string \<Rightarrow> json \<Rightarrow> bool" where
  "rj_contains k (Jobj kvs) = (map_of kvs k \<noteq> None)"
| "rj_contains k _ = False"

fun rj_at :: "string \<Rightarrow> json \<Rightarrow> exn + json" where
  "rj_at k (Jobj kvs) = (case map_of kvs k of None \<Rightarrow> Inl Json_out_of_range | Some v \<Rightarrow> Inr v)"
| "rj_at k _ = Inl Json_type_error"

fun rj_index :: "string \<Rightarrow> json \<Rightarrow> exn + json" where
  "rj_index k (Jobj kvs) = (case map_of kvs k of None \<Rightarrow> Inl Undefined_behaviour | Some v \<Rightarrow> Inr v)"
| "rj_index k _ = Inl Json_type_error"

fun rj_string :: "json \<Rightarrow> exn + string" where
  "rj_string (Jstr s) = Inr s" | "rj_string _ = Inl Json_type_error"

text \<open>
  Conversion to \<^verbatim>\<open>int\<close> keeps the low 32 bits of the 64-bit integer the library holds; booleans convert
  to 0 and 1. The conversions to \<^verbatim>\<open>size_t\<close> and \<^verbatim>\<open>time_t\<close> have the library's own integer width.
\<close>

fun rj_int :: "json \<Rightarrow> exn + int" where
  "rj_int (Jint i) = Inr (signed_take_bit 31 i)"
| "rj_int (Jbool b) = Inr (of_bool b)"
| "rj_int _ = Inl Json_type_error"

fun rj_u16 :: "json \<Rightarrow> exn + 16 word" where
  "rj_u16 (Jint i) = Inr (word_of_int i)"
| "rj_u16 (Jbool b) = Inr (of_bool b)"
| "rj_u16 _ = Inl Json_type_error"

fun rj_w64 :: "json \<Rightarrow> exn + 64 word" where
  "rj_w64 (Jint i) = Inr (word_of_int i)" | "rj_w64 _ = Inl Json_type_error"

fun rj_bool :: "json \<Rightarrow> exn + bool" where
  "rj_bool (Jbool b) = Inr b" | "rj_bool _ = Inl Json_type_error"

fun rj_items :: "json \<Rightarrow> json list" where
  "rj_items Jnull = []" | "rj_items (Jarr js) = js" | "rj_items (Jobj kvs) = map snd kvs"
| "rj_items j = [j]"

fun rj_set :: "string \<Rightarrow> json \<Rightarrow> json \<Rightarrow> exn + json" where
  "rj_set k v Jnull = Inr (Jobj [(k, v)])"
| "rj_set k v (Jobj kvs) = Inr (Jobj (jobj_put k v kvs))"
| "rj_set k v _ = Inl Json_type_error"

fun rj_emplace :: "string \<Rightarrow> json \<Rightarrow> json \<Rightarrow> exn + json" where
  "rj_emplace k v Jnull = Inr (Jobj [(k, v)])"
| "rj_emplace k v (Jobj kvs) = Inr (Jobj (if map_of kvs k = None then kvs @ [(k, v)] else kvs))"
| "rj_emplace k v _ = Inl Json_type_error"

subsection \<open>Printing\<close>

fun print_chars :: "string \<Rightarrow> string" where
  "print_chars [] = []"
| "print_chars (c # cs) =
     (if c = CHR 0x22 \<or> c = CHR 0x5C then CHR 0x5C # c # print_chars cs else c # print_chars cs)"

definition print_string :: "string \<Rightarrow> string" where
  "print_string s = CHR 0x22 # print_chars s @ [CHR 0x22]"

fun commas :: "string list \<Rightarrow> string" where
  "commas [] = []" | "commas [s] = s" | "commas (s # ss) = s @ '','' @ commas ss"

fun print_json :: "json \<Rightarrow> string" where
  "print_json Jnull = ''null''"
| "print_json (Jbool b) = (if b then ''true'' else ''false'')"
| "print_json (Jint i) = to_string i"
| "print_json (Jstr s) = print_string s"
| "print_json (Jarr js) = ''['' @ commas (map print_json js) @ '']''"
| "print_json (Jobj kvs) =
     ''{'' @ commas (map (\<lambda>(k, v). print_string k @ '':'' @ print_json v) kvs) @ ''}''"

subsection \<open>Parsing\<close>

text \<open>
  Recursive descent over the text; the fuel bounds the nesting and the number of elements and is the
  length of the text at the start. White space is allowed between tokens.
\<close>

definition skip_ws :: "string \<Rightarrow> string" where
  "skip_ws = dropWhile is_space"

fun read_chars :: "string \<Rightarrow> (string \<times> string) option" where
  "read_chars [] = None"
| "read_chars (c # cs) =
     (if c = CHR 0x22 then Some ([], cs)
      else if c = CHR 0x5C then
        (case cs of [] \<Rightarrow> None
         | d # ds \<Rightarrow> (case read_chars ds of None \<Rightarrow> None | Some (s, r) \<Rightarrow> Some (d # s, r)))
      else (case read_chars cs of None \<Rightarrow> None | Some (s, r) \<Rightarrow> Some (c # s, r)))"

definition read_number :: "string \<Rightarrow> (json \<times> string) option" where
  "read_number s = (let n = (if take 1 s = ''-'' then 1 else 0);
      ds = takeWhile is_digit (drop n s) in
    if ds = [] then None
    else Some (Jint (if n = 1 then - int (digits_value ds) else int (digits_value ds)),
               drop (n + length ds) s))"

fun strip_prefix :: "string \<Rightarrow> string \<Rightarrow> string option" where
  "strip_prefix [] s = Some s"
| "strip_prefix (p # ps) (c # cs) = (if p = c then strip_prefix ps cs else None)"
| "strip_prefix _ _ = None"

fun read_json :: "nat \<Rightarrow> string \<Rightarrow> (json \<times> string) option"
and read_elems :: "nat \<Rightarrow> string \<Rightarrow> (json list \<times> string) option"
and read_fields :: "nat \<Rightarrow> string \<Rightarrow> ((string \<times> json) list \<times> string) option" where
  "read_json 0 s = None"
| "read_json (Suc f) s = (case skip_ws s of
     [] \<Rightarrow> None
   | c # cs \<Rightarrow>
     if c = CHR 0x22 then (case read_chars cs of None \<Rightarrow> None | Some (t, r) \<Rightarrow> Some (Jstr t, r))
     else if c = CHR ''['' then
       (case skip_ws cs of
          d # ds \<Rightarrow> if d = CHR '']'' then Some (Jarr [], ds)
            else (case read_elems f cs of None \<Rightarrow> None | Some (js, r) \<Rightarrow> Some (Jarr js, r))
        | [] \<Rightarrow> None)
     else if c = CHR ''{'' then
       (case skip_ws cs of
          d # ds \<Rightarrow> if d = CHR ''}'' then Some (Jobj [], ds)
            else (case read_fields f cs of None \<Rightarrow> None | Some (kvs, r) \<Rightarrow> Some (Jobj kvs, r))
        | [] \<Rightarrow> None)
     else (case strip_prefix ''null'' (c # cs) of Some r \<Rightarrow> Some (Jnull, r)
       | None \<Rightarrow> (case strip_prefix ''true'' (c # cs) of Some r \<Rightarrow> Some (Jbool True, r)
       | None \<Rightarrow> (case strip_prefix ''false'' (c # cs) of Some r \<Rightarrow> Some (Jbool False, r)
       | None \<Rightarrow> read_number (c # cs)))))"
| "read_elems 0 s = None"
| "read_elems (Suc f) s = (case read_json f s of None \<Rightarrow> None
   | Some (j, r) \<Rightarrow> (case skip_ws r of [] \<Rightarrow> None
     | c # cs \<Rightarrow> if c = CHR '']'' then Some ([j], cs)
        else if c = CHR '','' then
          (case read_elems f cs of None \<Rightarrow> None | Some (js, r') \<Rightarrow> Some (j # js, r'))
        else None))"
| "read_fields 0 s = None"
| "read_fields (Suc f) s = (case skip_ws s of [] \<Rightarrow> None
   | q # qs \<Rightarrow> if q \<noteq> CHR 0x22 then None
     else (case read_chars qs of None \<Rightarrow> None
     | Some (k, r) \<Rightarrow> (case skip_ws r of [] \<Rightarrow> None
       | c # cs \<Rightarrow> if c \<noteq> CHR '':'' then None
         else (case read_json f cs of None \<Rightarrow> None
         | Some (j, r') \<Rightarrow> (case skip_ws r' of [] \<Rightarrow> None
           | d # ds \<Rightarrow> if d = CHR ''}'' then Some ([(k, j)], ds)
              else if d = CHR '','' then
                (case read_fields f ds of None \<Rightarrow> None | Some (kvs, r'') \<Rightarrow> Some ((k, j) # kvs, r''))
              else None)))))"

definition parse_text :: "string \<Rightarrow> exn + json" where
  "parse_text s = (case read_json (2 * length s + 2) s of
     None \<Rightarrow> Inl Json_parse_error
   | Some (j, r) \<Rightarrow> if c_str (skip_ws r) = [] then Inr j else Inl Json_parse_error)"

subsection \<open>Printed documents are read back\<close>

lemma read_print_chars: "read_chars (print_chars s @ CHR 0x22 # r) = Some (s, r)"
  by (induction s rule: print_chars.induct) auto

lemma skip_ws_nonspace: "\<not> is_space c \<Longrightarrow> skip_ws (c # cs) = c # cs"
  by (simp add: skip_ws_def)

lemma space_simps [simp]:
  "\<not> is_space (CHR 0x22)" "\<not> is_space (CHR ''['')" "\<not> is_space (CHR '']'')" "\<not> is_space (CHR ''{'')"
  "\<not> is_space (CHR ''}'')" "\<not> is_space (CHR '','')" "\<not> is_space (CHR '':'')" "\<not> is_space (CHR ''-'')"
  "\<not> is_space (CHR ''n'')" "\<not> is_space (CHR ''t'')" "\<not> is_space (CHR ''f'')"
  by (simp_all add: is_space_def code_of_def)

definition digit_free :: "string \<Rightarrow> bool" where
  "digit_free r \<longleftrightarrow> (case r of [] \<Rightarrow> True | c # _ \<Rightarrow> \<not> is_digit c)"

lemma digit_free_simps [simp]: "digit_free []" "digit_free (c # r) \<longleftrightarrow> \<not> is_digit c"
  by (simp_all add: digit_free_def)

lemma not_digit_simps [simp]: "\<not> is_digit (CHR '','')" "\<not> is_digit (CHR '']'')" "\<not> is_digit (CHR ''}'')"
  "\<not> is_digit (CHR 0x00)" "\<not> is_digit (CHR ''-'')"  "\<not> is_digit (CHR 0x22)" "\<not> is_digit (CHR ''['')"
  "\<not> is_digit (CHR ''{'')" "\<not> is_digit (CHR ''n'')" "\<not> is_digit (CHR ''t'')" "\<not> is_digit (CHR ''f'')"
  by (simp_all add: is_digit_def code_of_def)

lemma takeWhile_digits_append: "digit_free r \<Longrightarrow> takeWhile is_digit (dec_string n @ r) = dec_string n"
  using dec_string_digits by (cases r) (auto simp: takeWhile_append)

lemma read_number_print: "digit_free r \<Longrightarrow> read_number (to_string i @ r) = Some (Jint i, r)"
  using dec_string_Cons [of "nat i"] 
  by (auto simp: read_number_def to_string_def takeWhile_digits_append)

lemma print_json_Cons: "\<exists>c cs. print_json j = c # cs \<and> \<not> is_space c \<and> c \<noteq> CHR '']''"
proof (cases j)
  case (Jint i)
  then show ?thesis using dec_string_Cons [of "nat i"] digit_not_space by (auto simp: to_string_def)
qed (auto simp: print_string_def)

lemma read_int:
  assumes "digit_free r"
  shows "read_json (Suc f) (to_string i @ r) = Some (Jint i, r)"
proof -
  obtain c cs where c: "to_string i @ r = c # cs" "c = CHR ''-'' \<or> is_digit c"
    using dec_string_Cons [of "nat i"] by (cases "i < 0") (auto simp: to_string_def)
  then have "\<not> is_space c" "c \<noteq> CHR 0x22" "c \<noteq> CHR ''[''" "c \<noteq> CHR ''{''" "c \<noteq> CHR ''n''"
    "c \<noteq> CHR ''t''" "c \<noteq> CHR ''f''" using digit_not_space by auto
  with read_number_print [OF assms, of i] show ?thesis by (simp add: c skip_ws_nonspace)
qed

lemma commas_Cons: "commas (s # ss) = (if ss = [] then s else s @ '','' @ commas ss)"
  by (cases ss) simp_all

lemma commas_start:
  assumes "xs \<noteq> []" "\<And>x. x \<in> set xs \<Longrightarrow> \<exists>c cs. f x = c # cs \<and> Q c"
  shows "\<exists>c cs. commas (map f xs) = c # cs \<and> Q c"
  using assms by (cases xs) (fastforce simp: commas_Cons)+

text \<open>Elements of an array and fields of an object, given that their values are read back.\<close>

definition reads_back :: "json \<Rightarrow> bool" where
  "reads_back j \<longleftrightarrow> (\<forall>f r. length (print_json j) \<le> f \<longrightarrow> digit_free r \<longrightarrow> read_json f (print_json j @ r) = Some (j, r))"

lemma reads_backI:
  assumes "\<And>f r. digit_free r \<Longrightarrow> read_json (Suc f) (print_json j @ r) = Some (j, r)"
  shows "reads_back j"
proof -
  from print_json_Cons [of j] have "0 < length (print_json j)" by auto
  with assms show ?thesis unfolding reads_back_def by (metis Suc_pred le_trans less_le_trans)
qed

lemma read_elems_print:
  assumes "js \<noteq> []" "\<forall>j \<in> set js. reads_back j" "length (commas (map print_json js)) < f"
  shows "read_elems f (commas (map print_json js) @ CHR '']'' # r) = Some (js, r)"
  using assms
proof (induction js arbitrary: f)
  case Nil
  then show ?case by simp
next
  case (Cons j js)
  then obtain g where g: "f = Suc g" by (cases f) auto
  show ?case
  proof (cases "js = []")
    case True
    with Cons.prems g show ?thesis by (simp add: reads_back_def skip_ws_nonspace)
  next
    case False
    from print_json_Cons [of j] have "0 < length (print_json j)" by auto
    with Cons.IH [OF False, of g] Cons.prems g False show ?thesis
      by (simp add: commas_Cons reads_back_def skip_ws_nonspace)
  qed
qed

abbreviation field_text :: "string \<times> json \<Rightarrow> string" where
  "field_text kv \<equiv> (case kv of (k, v) \<Rightarrow> print_string k @ '':'' @ print_json v)"

lemma read_fields_print:
  assumes "kvs \<noteq> []" "\<forall>kv \<in> set kvs. reads_back (snd kv)" "length (commas (map field_text kvs)) < f"
  shows "read_fields f (commas (map field_text kvs) @ CHR ''}'' # r) = Some (kvs, r)"
  using assms
proof (induction kvs arbitrary: f)
  case Nil
  then show ?case by simp
next
  case (Cons kv kvs)
  then obtain g where g: "f = Suc g" by (cases f) auto
  obtain k v where kv: "kv = (k, v)" by fastforce
  show ?case
  proof (cases "kvs = []")
    case True
    with Cons.prems g kv show ?thesis
      by (simp add: reads_back_def skip_ws_nonspace print_string_def read_print_chars)
  next
    case False
    with Cons.IH [OF False, of g] Cons.prems g kv show ?thesis
      by (simp add: commas_Cons reads_back_def skip_ws_nonspace print_string_def read_print_chars)
  qed
qed

lemma reads_back: "reads_back j"
proof (induction j)
  case (Jarr js)
  show ?case unfolding reads_back_def
  proof (intro allI impI)
    fix f r assume f: "length (print_json (Jarr js)) \<le> f"
    then obtain g where g: "f = Suc g" by (cases f) auto
    show "read_json f (print_json (Jarr js) @ r) = Some (Jarr js, r)"
    proof (cases "js = []")
      case True
      then show ?thesis by (simp add: g skip_ws_nonspace)
    next
      case False
      then obtain c cs where c: "commas (map print_json js) = c # cs" "\<not> is_space c" "c \<noteq> CHR '']''"
        using commas_start [OF False, of print_json "\<lambda>c. \<not> is_space c \<and> c \<noteq> CHR '']''"] print_json_Cons by auto
      have "read_elems g (commas (map print_json js) @ CHR '']'' # r) = Some (js, r)"
      proof (rule read_elems_print [OF False])
        show "\<forall>j \<in> set js. reads_back j" using Jarr by blast
        show "length (commas (map print_json js)) < g" using f g by simp
      qed
      with c show ?thesis by (simp add: g skip_ws_nonspace)
    qed
  qed
next
  case (Jobj kvs)
  show ?case unfolding reads_back_def
  proof (intro allI impI)
    fix f r assume f: "length (print_json (Jobj kvs)) \<le> f"
    then obtain g where g: "f = Suc g" by (cases f) auto
    show "read_json f (print_json (Jobj kvs) @ r) = Some (Jobj kvs, r)"
    proof (cases "kvs = []")
      case True
      then show ?thesis by (simp add: g skip_ws_nonspace)
    next
      case False
      then obtain cs where c: "commas (map field_text kvs) = CHR 0x22 # cs"
        using commas_start [of kvs field_text "\<lambda>c. c = CHR 0x22"] by (auto simp: print_string_def)
      have "read_fields g (commas (map field_text kvs) @ CHR ''}'' # r) = Some (kvs, r)"
      proof (rule read_fields_print [OF False])
        show "\<forall>kv \<in> set kvs. reads_back (snd kv)"
        proof
          fix kv assume "kv \<in> set kvs"
          then show "reads_back (snd kv)" by (rule Jobj) (simp add: snds.intros)
        qed
        show "length (commas (map field_text kvs)) < g" using f g by simp
      qed
      with c show ?thesis by (simp add: g skip_ws_nonspace)
    qed
  qed
next
  case (Jint i)
  show ?case
  proof (rule reads_backI)
    fix f r assume "digit_free r"
    then show "read_json (Suc f) (print_json (Jint i) @ r) = Some (Jint i, r)"
      unfolding print_json.simps by (rule read_int)
  qed
next
  case (Jbool b)
  show ?case by (rule reads_backI) (simp add: skip_ws_nonspace)
next
  case Jnull
  show ?case by (rule reads_backI) (simp add: skip_ws_nonspace)
next
  case (Jstr s)
  show ?case by (rule reads_backI) (simp add: print_string_def skip_ws_nonspace read_print_chars)
qed

lemma parse_print:
  assumes "digit_free r" "c_str (skip_ws r) = []"
  shows "parse_text (print_json j @ r) = Inr j"
proof -
  have "length (print_json j) \<le> 2 * length (print_json j @ r) + 2" by simp
  with reads_back [of j] assms(1)
  have "read_json (2 * length (print_json j @ r) + 2) (print_json j @ r) = Some (j, r)"
    unfolding reads_back_def by blast
  with assms(2) show ?thesis unfolding parse_text_def by simp
qed

lemma parse_print_json [simp]: "parse_text (print_json j) = Inr j"
  using parse_print [of "[]" j] by (simp add: skip_ws_def c_str_def)

lemma parse_print_nul [simp]: "parse_text (print_json j @ CHR 0x00 # r) = Inr j"
  by (rule parse_print) (simp_all add: skip_ws_def is_space_def code_of_def c_str_def)
declare print_json.simps [simp del] read_json.simps [simp del]

subsection \<open>The implementation\<close>

definition ref_json :: "json json_api" where
  "ref_json = \<lparr>j_parse = parse_text, j_dump = (\<lambda>j. Inr (print_json j)),
     j_is_null = (\<lambda>j. j = Jnull), j_is_object = (\<lambda>j. case j of Jobj _ \<Rightarrow> True | _ \<Rightarrow> False),
     j_is_boolean = (\<lambda>j. case j of Jbool _ \<Rightarrow> True | _ \<Rightarrow> False),
     j_contains = rj_contains, j_at = rj_at, j_index = rj_index, j_get_string = rj_string,
     j_get_int = rj_int, j_get_u16 = rj_u16, j_get_size_t = rj_w64, j_get_time_t = rj_w64,
     j_get_bool = rj_bool, j_items = rj_items, j_null = Jnull, j_of_string = Jstr, j_of_int = Jint,
     j_of_bool = Jbool, j_array = Jarr, j_object = Jobj, j_set = rj_set, j_emplace = rj_emplace\<rparr>"

lemma map_of_jobj_put [simp]: "map_of (jobj_put k v kvs) = (map_of kvs)(k \<mapsto> v)"
  by (induction k v kvs rule: jobj_put.induct) (auto simp: fun_eq_iff)

interpretation rj: json_lib ref_json
proof (unfold_locales, goal_cases)
  case (3 j k v)
  then show ?case by (cases j) (auto simp: ref_json_def settable_def)
next
  case (4 k v j j')
  then show ?case by (cases j) (auto simp: ref_json_def)
next
  case (5 k v j j' k')
  then show ?case by (cases j) (auto simp: ref_json_def split: if_splits)
next
  case (6 k v j j' k')
  then show ?case by (cases j) (auto simp: ref_json_def)
next
  case (7 j k v)
  then show ?case by (cases j) (auto simp: ref_json_def settable_def)
next
  case (8 k v j j')
  then show ?case by (cases j) (auto simp: ref_json_def)
next
  case (9 k v j j' k')
  then show ?case by (cases j) (auto simp: ref_json_def map_add_def split: if_splits option.splits)
next
  case (10 k v j j' k')
  then show ?case by (cases j) (auto simp: ref_json_def map_add_def split: if_splits option.splits)
next
  case (11 k j)
  then show ?case by (cases j) (auto simp: ref_json_def)
next
  case (12 k j)
  then show ?case by (cases j) (auto simp: ref_json_def)
next
  case (13 k kvs)
  then show ?case by (auto simp: ref_json_def map_of_eq_None_iff)
next
  case (16 i)
  then show ?case by (simp add: ref_json_def signed_take_bit_int_eq_self)
qed (auto simp: ref_json_def)

end
