(* ===== verification/Messages.thy ===== *)
theory Messages
  imports Json_Api Crypto_Utils
begin

text \<open>
  The protocol messages of \<^verbatim>\<open>src/tcp/messages\<close> (all classes but the parser): one record per class, with
  the class hierarchy as record extension, its constructors, \<^verbatim>\<open>from_json\<close> and \<^verbatim>\<open>to_json\<close>. A
  \<^verbatim>\<open>from_json\<close> method returns the truth value the C++ method returns and the object it has updated so
  far, or the exception a JSON conversion throws.
\<close>

section \<open>AbstractMessage\<close>

datatype message_type =
    ABSTRACT_MESSAGE
  | ABSTRACT_RESPONSE_MESSAGE
  | ERROR_RESPONSE_MESSAGE
  | REQUEST_TEST_PUSH_MESSAGE
  | SET_CHANNEL_URI_MESSAGE
  | SET_PUSH_ACCOUNT_MESSAGE
  | SUCCESS_RESPONSE_MESSAGE
  | SUCCESS_SET_PUSH_ACCOUNT_MESSAGE
  | PUSH
  | TEST_PUSH

definition VERSION :: int where
  "VERSION = 2"

record abstract_message =
  isValid :: bool
  version :: int
  action :: string

text \<open>The default constructor (before \<^verbatim>\<open>from_json\<close>) and the one for messages to send.\<close>

definition AbstractMessage_default :: abstract_message where
  "AbstractMessage_default = \<lparr>isValid = True, version = - 1, action = []\<rparr>"

definition AbstractMessage_new :: "string \<Rightarrow> abstract_message" where
  "AbstractMessage_new act = \<lparr>isValid = True, version = VERSION, action = act\<rparr>"

text \<open>\<^verbatim>\<open>std::string x = j[k]\<close>, \<^verbatim>\<open>int x = j[k]\<close> and \<^verbatim>\<open>j.at(k).get_to(x)\<close>.\<close>

definition field_string :: "'j json_api \<Rightarrow> string \<Rightarrow> 'j \<Rightarrow> exn + string" where
  "field_string J k j = bindR (j_index J k j) (j_get_string J)"

definition field_int :: "'j json_api \<Rightarrow> string \<Rightarrow> 'j \<Rightarrow> exn + int" where
  "field_int J k j = bindR (j_index J k j) (j_get_int J)"

definition at_string :: "'j json_api \<Rightarrow> string \<Rightarrow> 'j \<Rightarrow> exn + string" where
  "at_string J k j = bindR (j_at J k j) (j_get_string J)"

definition at_int :: "'j json_api \<Rightarrow> string \<Rightarrow> 'j \<Rightarrow> exn + int" where
  "at_int J k j = bindR (j_at J k j) (j_get_int J)"

lemmas field_defs = field_string_def field_int_def at_string_def at_int_def

definition AbstractMessage_from_json ::
  "'j json_api \<Rightarrow> 'j \<Rightarrow> 'z abstract_message_scheme \<Rightarrow> exn + bool \<times> 'z abstract_message_scheme" where
  "AbstractMessage_from_json J j m =
     (if \<not> j_contains J ''version'' j then Inr (False, m) else
      bindR (field_int J ''version'' j) (\<lambda>v.
      let m = m\<lparr>version := v\<rparr> in
      if v < 1 \<or> v > VERSION then Inr (False, m) else
      if \<not> j_contains J ''action'' j then Inr (False, m) else
      bindR (field_string J ''action'' j) (\<lambda>a.
      let m = m\<lparr>action := a\<rparr> in
      if a = [] then Inr (False, m) else Inr (True, m))))"

definition AbstractMessage_to_json ::
  "bool \<Rightarrow> 'j json_api \<Rightarrow> 'z abstract_message_scheme \<Rightarrow> 'j \<Rightarrow> exn + 'j" where
  "AbstractMessage_to_json asserts J m j =
     bindR (assertR asserts (isValid m)) (\<lambda>_.
     bindR (j_set J ''version'' (j_of_int J (version m)) j) (\<lambda>j.
     j_set J ''action'' (j_of_string J (action m)) j))"

section \<open>AbstractResponseMessage, SuccessResponseMessage and ErrorResponseMessage\<close>

record abstract_response_message = abstract_message +
  status :: int

definition RESPONSE_ACTION :: string where
  "RESPONSE_ACTION = ''response''"

definition AbstractResponseMessage_default :: abstract_response_message where
  "AbstractResponseMessage_default = abstract_message.extend AbstractMessage_default \<lparr>status = - 1\<rparr>"

definition AbstractResponseMessage_new :: "int \<Rightarrow> abstract_response_message" where
  "AbstractResponseMessage_new st =
     abstract_message.extend (AbstractMessage_new RESPONSE_ACTION) \<lparr>status = st\<rparr>"

definition AbstractResponseMessage_from_json ::
  "'j json_api \<Rightarrow> 'j \<Rightarrow> 'z abstract_response_message_scheme \<Rightarrow>
   exn + bool \<times> 'z abstract_response_message_scheme" where
  "AbstractResponseMessage_from_json J j m =
     bindR (AbstractMessage_from_json J j m) (\<lambda>(b, m).
     if \<not> b then Inr (False, m) else
     if \<not> j_contains J ''status'' j then Inr (False, m) else
     bindR (field_int J ''status'' j) (\<lambda>s.
     let m = m\<lparr>status := s\<rparr> in
     if s = - 1 then Inr (False, m) else Inr (True, m)))"

definition AbstractResponseMessage_to_json ::
  "bool \<Rightarrow> 'j json_api \<Rightarrow> 'z abstract_response_message_scheme \<Rightarrow> 'j \<Rightarrow> exn + 'j" where
  "AbstractResponseMessage_to_json asserts J m j =
     bindR (AbstractMessage_to_json asserts J m j) (\<lambda>j.
     j_set J ''status'' (j_of_int J (status m)) j)"

definition SUCCESS_STATUS :: int where
  "SUCCESS_STATUS = 1"

definition SuccessResponseMessage_new :: abstract_response_message where
  "SuccessResponseMessage_new = AbstractResponseMessage_new SUCCESS_STATUS"

text \<open>
  The constructor from JSON: \<^verbatim>\<open>isValid = from_json(j)\<close> on the default-constructed object.
\<close>

definition set_valid :: "exn + bool \<times> 'z abstract_message_scheme \<Rightarrow> exn + 'z abstract_message_scheme" where
  "set_valid r = bindR r (\<lambda>(b, m). Inr (m\<lparr>isValid := b\<rparr>))"

definition SuccessResponseMessage_of_json :: "'j json_api \<Rightarrow> 'j \<Rightarrow> exn + abstract_response_message" where
  "SuccessResponseMessage_of_json J j =
     set_valid (AbstractResponseMessage_from_json J j AbstractResponseMessage_default)"

record error_response_message = abstract_response_message +
  err_text :: string

definition ERROR_STATUS :: int where
  "ERROR_STATUS = 0"

definition ErrorResponseMessage_new :: "string \<Rightarrow> error_response_message" where
  "ErrorResponseMessage_new e =
     abstract_response_message.extend (AbstractResponseMessage_new ERROR_STATUS) \<lparr>err_text = e\<rparr>"

definition ErrorResponseMessage_from_json ::
  "'j json_api \<Rightarrow> 'j \<Rightarrow> error_response_message \<Rightarrow> exn + bool \<times> error_response_message" where
  "ErrorResponseMessage_from_json J j m =
     bindR (AbstractResponseMessage_from_json J j m) (\<lambda>(b, m).
     if \<not> b then Inr (False, m) else
     if \<not> j_contains J ''error'' j then Inr (False, m) else
     bindR (field_string J ''error'' j) (\<lambda>e. Inr (True, m\<lparr>err_text := e\<rparr>)))"

definition ErrorResponseMessage_of_json :: "'j json_api \<Rightarrow> 'j \<Rightarrow> exn + error_response_message" where
  "ErrorResponseMessage_of_json J j = set_valid (ErrorResponseMessage_from_json J j
     (abstract_response_message.extend AbstractResponseMessage_default \<lparr>err_text = []\<rparr>))"

definition ErrorResponseMessage_to_json ::
  "bool \<Rightarrow> 'j json_api \<Rightarrow> error_response_message \<Rightarrow> 'j \<Rightarrow> exn + 'j" where
  "ErrorResponseMessage_to_json asserts J m j =
     bindR (AbstractResponseMessage_to_json asserts J m j) (\<lambda>j.
     j_set J ''error'' (j_of_string J (err_text m)) j)"

section \<open>SetChannelUriMessage\<close>

record set_channel_uri_message = abstract_message +
  uri_channelUri :: string
  uri_deviceId :: string

definition SET_CHANNEL_URI_ACTION :: string where
  "SET_CHANNEL_URI_ACTION = ''set_channel_uri''"

definition SetChannelUriMessage_new :: "string \<Rightarrow> string \<Rightarrow> set_channel_uri_message" where
  "SetChannelUriMessage_new uri dev = abstract_message.extend (AbstractMessage_new SET_CHANNEL_URI_ACTION)
     \<lparr>uri_channelUri = uri, uri_deviceId = dev\<rparr>"

definition SetChannelUriMessage_from_json ::
  "'j json_api \<Rightarrow> 'j \<Rightarrow> set_channel_uri_message \<Rightarrow> exn + bool \<times> set_channel_uri_message" where
  "SetChannelUriMessage_from_json J j m =
     bindR (AbstractMessage_from_json J j m) (\<lambda>(b, m).
     if \<not> b then Inr (False, m) else
     if \<not> j_contains J ''channel_uri'' j then Inr (False, m) else
     bindR (field_string J ''channel_uri'' j) (\<lambda>u.
     let m = m\<lparr>uri_channelUri := u\<rparr> in
     if u = [] then Inr (False, m) else
     if \<not> j_contains J ''device_id'' j then Inr (False, m) else
     bindR (field_string J ''device_id'' j) (\<lambda>d.
     let m = m\<lparr>uri_deviceId := d\<rparr> in
     if d = [] then Inr (False, m) else Inr (True, m))))"

definition SetChannelUriMessage_of_json :: "'j json_api \<Rightarrow> 'j \<Rightarrow> exn + set_channel_uri_message" where
  "SetChannelUriMessage_of_json J j = set_valid (SetChannelUriMessage_from_json J j
     (abstract_message.extend AbstractMessage_default \<lparr>uri_channelUri = [], uri_deviceId = []\<rparr>))"

definition SetChannelUriMessage_to_json ::
  "bool \<Rightarrow> 'j json_api \<Rightarrow> set_channel_uri_message \<Rightarrow> 'j \<Rightarrow> exn + 'j" where
  "SetChannelUriMessage_to_json asserts J m j =
     bindR (AbstractMessage_to_json asserts J m j) (\<lambda>j.
     bindR (j_set J ''device_id'' (j_of_string J (uri_deviceId m)) j) (\<lambda>j.
     j_set J ''channel_uri'' (j_of_string J (uri_channelUri m)) j))"

section \<open>RequestTestPushMessage\<close>

record request_test_push_message = abstract_message +
  test_deviceId :: string

definition REQUEST_TEST_PUSH_ACTION :: string where
  "REQUEST_TEST_PUSH_ACTION = ''request_test_push''"

definition RequestTestPushMessage_new :: "string \<Rightarrow> request_test_push_message" where
  "RequestTestPushMessage_new dev =
     abstract_message.extend (AbstractMessage_new REQUEST_TEST_PUSH_ACTION) \<lparr>test_deviceId = dev\<rparr>"

definition RequestTestPushMessage_from_json ::
  "'j json_api \<Rightarrow> 'j \<Rightarrow> request_test_push_message \<Rightarrow> exn + bool \<times> request_test_push_message" where
  "RequestTestPushMessage_from_json J j m =
     bindR (AbstractMessage_from_json J j m) (\<lambda>(b, m).
     if \<not> b then Inr (False, m) else
     if \<not> j_contains J ''device_id'' j then Inr (False, m) else
     bindR (field_string J ''device_id'' j) (\<lambda>d.
     let m = m\<lparr>test_deviceId := d\<rparr> in
     if d = [] then Inr (False, m) else Inr (True, m)))"

definition RequestTestPushMessage_of_json :: "'j json_api \<Rightarrow> 'j \<Rightarrow> exn + request_test_push_message" where
  "RequestTestPushMessage_of_json J j = set_valid (RequestTestPushMessage_from_json J j
     (abstract_message.extend AbstractMessage_default \<lparr>test_deviceId = []\<rparr>))"

definition RequestTestPushMessage_to_json ::
  "bool \<Rightarrow> 'j json_api \<Rightarrow> request_test_push_message \<Rightarrow> 'j \<Rightarrow> exn + 'j" where
  "RequestTestPushMessage_to_json asserts J m j =
     bindR (AbstractMessage_to_json asserts J m j) (\<lambda>j.
     j_set J ''device_id'' (j_of_string J (test_deviceId m)) j)"

section \<open>SetPushAccountsMessage\<close>

record set_push_accounts_message = abstract_message +
  acc_accounts :: "string list"
  acc_deviceId :: string

definition SET_PUSH_ACCOUNTS_ACTION :: string where
  "SET_PUSH_ACCOUNTS_ACTION = ''set_push_accounts''"

definition SetPushAccountsMessage_new :: "string list \<Rightarrow> string \<Rightarrow> set_push_accounts_message" where
  "SetPushAccountsMessage_new accs dev = abstract_message.extend (AbstractMessage_new SET_PUSH_ACCOUNTS_ACTION)
     \<lparr>acc_accounts = accs, acc_deviceId = dev\<rparr>"

text \<open>The loop over \<^verbatim>\<open>j["accounts"]\<close>: the accounts read so far and whether all were well formed.\<close>

fun read_account_ids :: "'j json_api \<Rightarrow> 'j list \<Rightarrow> string list \<Rightarrow> exn + bool \<times> string list" where
  "read_account_ids J [] accs = Inr (True, accs)"
| "read_account_ids J (a # as) accs =
     (if \<not> j_contains J ''account_id'' a then Inr (False, accs) else
      bindR (field_string J ''account_id'' a) (\<lambda>jid.
      if jid = [] then Inr (False, accs) else read_account_ids J as (accs @ [jid])))"

definition SetPushAccountsMessage_from_json ::
  "'j json_api \<Rightarrow> 'j \<Rightarrow> set_push_accounts_message \<Rightarrow> exn + bool \<times> set_push_accounts_message" where
  "SetPushAccountsMessage_from_json J j m =
     bindR (AbstractMessage_from_json J j m) (\<lambda>(b, m).
     if \<not> b then Inr (False, m) else
     if \<not> j_contains J ''accounts'' j then Inr (False, m) else
     bindR (j_index J ''accounts'' j) (\<lambda>as.
     bindR (read_account_ids J (j_items J as) (acc_accounts m)) (\<lambda>(ok, accs).
     let m = m\<lparr>acc_accounts := accs\<rparr> in
     if \<not> ok then Inr (False, m) else
     if \<not> j_contains J ''device_id'' j then Inr (False, m) else
     bindR (field_string J ''device_id'' j) (\<lambda>d.
     let m = m\<lparr>acc_deviceId := d\<rparr> in
     if d = [] then Inr (False, m) else Inr (True, m)))))"

definition SetPushAccountsMessage_of_json :: "'j json_api \<Rightarrow> 'j \<Rightarrow> exn + set_push_accounts_message" where
  "SetPushAccountsMessage_of_json J j = set_valid (SetPushAccountsMessage_from_json J j
     (abstract_message.extend AbstractMessage_default \<lparr>acc_accounts = [], acc_deviceId = []\<rparr>))"

definition SetPushAccountsMessage_to_json ::
  "bool \<Rightarrow> 'j json_api \<Rightarrow> set_push_accounts_message \<Rightarrow> 'j \<Rightarrow> exn + 'j" where
  "SetPushAccountsMessage_to_json asserts J m j =
     bindR (AbstractMessage_to_json asserts J m j) (\<lambda>j.
     bindR (j_set J ''device_id'' (j_of_string J (acc_deviceId m)) j) (\<lambda>j.
     j_set J ''accounts''
       (j_array J (map (\<lambda>a. j_object J [(''account_id'', j_of_string J a)]) (acc_accounts m))) j))"

section \<open>SuccessSetPushAccountsMessage\<close>

record push_account =
  accountId :: string
  node :: string
  secret :: string
  success :: bool

definition PushAccount_new :: "string \<Rightarrow> string \<Rightarrow> string \<Rightarrow> bool \<Rightarrow> push_account" where
  "PushAccount_new a n s ok = \<lparr>accountId = a, node = n, secret = s, success = ok\<rparr>"

text \<open>\<^verbatim>\<open>PushAccount::create\<close>: a fresh node and secret for an account, not yet set up.\<close>

definition PushAccount_create :: "bool \<Rightarrow> 'e crypto_api \<Rightarrow> string \<Rightarrow> ('e, push_account) M" where
  "PushAccount_create asserts C acc =
     bindE (url_safe_random_token asserts C 15) (\<lambda>n.
     bindE (secure_random_password asserts C 15) (\<lambda>s. ret (PushAccount_new acc n s False)))"

definition PushAccount_from_json :: "'j json_api \<Rightarrow> 'j \<Rightarrow> exn + push_account option" where
  "PushAccount_from_json J j =
     (if \<not> j_contains J ''account_id'' j then Inr None else
      bindR (at_string J ''account_id'' j) (\<lambda>bareJid.
      if bareJid = [] then Inr None else
      if \<not> j_contains J ''node'' j then Inr None else
      bindR (at_string J ''node'' j) (\<lambda>n.
      if n = [] then Inr None else
      if \<not> j_contains J ''secret'' j then Inr None else
      bindR (at_string J ''secret'' j) (\<lambda>s.
      if s = [] then Inr None else
      if \<not> j_contains J ''success'' j then Inr None else
      bindR (j_at J ''success'' j) (\<lambda>b.
      bindR (j_get_bool J b) (\<lambda>ok. Inr (Some (PushAccount_new bareJid n s ok))))))))"

definition PushAccount_to_json :: "'j json_api \<Rightarrow> push_account \<Rightarrow> 'j \<Rightarrow> exn + 'j" where
  "PushAccount_to_json J a j =
     bindR (j_set J ''account_id'' (j_of_string J (accountId a)) j) (\<lambda>j.
     bindR (j_set J ''node'' (j_of_string J (node a)) j) (\<lambda>j.
     bindR (j_set J ''secret'' (j_of_string J (secret a)) j) (\<lambda>j.
     j_set J ''success'' (j_of_bool J (success a)) j)))"

record success_set_push_accounts_message = abstract_response_message +
  ssp_accounts :: "push_account list"
  ssp_pushBareJid :: string

text \<open>Both constructors run the default constructor of the base class, which sets the status.\<close>

definition SuccessSetPushAccountsMessage_new ::
  "push_account list \<Rightarrow> string \<Rightarrow> success_set_push_accounts_message" where
  "SuccessSetPushAccountsMessage_new accs jid =
     abstract_response_message.extend SuccessResponseMessage_new \<lparr>ssp_accounts = accs, ssp_pushBareJid = jid\<rparr>"

fun read_push_accounts :: "'j json_api \<Rightarrow> 'j list \<Rightarrow> push_account list \<Rightarrow> exn + bool \<times> push_account list" where
  "read_push_accounts J [] accs = Inr (True, accs)"
| "read_push_accounts J (a # as) accs = bindR (PushAccount_from_json J a) (\<lambda>acc.
     case acc of None \<Rightarrow> Inr (False, accs) | Some acc \<Rightarrow> read_push_accounts J as (accs @ [acc]))"

definition SuccessSetPushAccountsMessage_from_json ::
  "'j json_api \<Rightarrow> 'j \<Rightarrow> success_set_push_accounts_message \<Rightarrow>
   exn + bool \<times> success_set_push_accounts_message" where
  "SuccessSetPushAccountsMessage_from_json J j m =
     bindR (AbstractResponseMessage_from_json J j m) (\<lambda>(b, m).
     if \<not> b then Inr (False, m) else
     if \<not> j_contains J ''accounts'' j then Inr (False, m) else
     bindR (j_index J ''accounts'' j) (\<lambda>as.
     bindR (read_push_accounts J (j_items J as) (ssp_accounts m)) (\<lambda>(ok, accs).
     let m = m\<lparr>ssp_accounts := accs\<rparr> in
     if \<not> ok then Inr (False, m) else
     if accs = [] then Inr (False, m) else
     if \<not> j_contains J ''push_bare_jid'' j then Inr (False, m) else
     bindR (field_string J ''push_bare_jid'' j) (\<lambda>d.
     let m = m\<lparr>ssp_pushBareJid := d\<rparr> in
     if d = [] then Inr (False, m) else Inr (True, m)))))"

definition SuccessSetPushAccountsMessage_of_json ::
  "'j json_api \<Rightarrow> 'j \<Rightarrow> exn + success_set_push_accounts_message" where
  "SuccessSetPushAccountsMessage_of_json J j = set_valid (SuccessSetPushAccountsMessage_from_json J j
     (SuccessSetPushAccountsMessage_new [] []))"

text \<open>\<^verbatim>\<open>for (account : accounts) { json accountJson; account.to_json(accountJson); push_back }\<close>.\<close>

fun push_accounts_json :: "'j json_api \<Rightarrow> push_account list \<Rightarrow> exn + 'j list" where
  "push_accounts_json J [] = Inr []"
| "push_accounts_json J (a # as) =
     bindR (PushAccount_to_json J a (j_null J)) (\<lambda>j.
     bindR (push_accounts_json J as) (\<lambda>js. Inr (j # js)))"

definition SuccessSetPushAccountsMessage_to_json ::
  "bool \<Rightarrow> 'j json_api \<Rightarrow> success_set_push_accounts_message \<Rightarrow> 'j \<Rightarrow> exn + 'j" where
  "SuccessSetPushAccountsMessage_to_json asserts J m j =
     bindR (AbstractResponseMessage_to_json asserts J m j) (\<lambda>j.
     bindR (j_set J ''push_bare_jid'' (j_of_string J (ssp_pushBareJid m)) j) (\<lambda>j.
     bindR (push_accounts_json J (ssp_accounts m)) (\<lambda>js.
     j_set J ''accounts'' (j_array J js) j)))"

section \<open>PushMessage and TestPushMessage\<close>

record push_message = abstract_message +
  push_accountId :: string
  messageCount :: int
  pendingSubscriptionCount :: int

definition PUSH_ACTION :: string where
  "PUSH_ACTION = ''push''"

definition PushMessage_new :: "string \<Rightarrow> int \<Rightarrow> int \<Rightarrow> push_message" where
  "PushMessage_new a mc psc = abstract_message.extend (AbstractMessage_new PUSH_ACTION)
     \<lparr>push_accountId = a, messageCount = mc, pendingSubscriptionCount = psc\<rparr>"

definition PushMessage_from_json ::
  "'j json_api \<Rightarrow> 'j \<Rightarrow> push_message \<Rightarrow> exn + bool \<times> push_message" where
  "PushMessage_from_json J j m =
     bindR (AbstractMessage_from_json J j m) (\<lambda>(b, m).
     if \<not> b then Inr (False, m) else
     if \<not> j_contains J ''account_id'' j then Inr (False, m) else
     bindR (field_string J ''account_id'' j) (\<lambda>a.
     let m = m\<lparr>push_accountId := a\<rparr> in
     if a = [] then Inr (False, m) else
     if \<not> j_contains J ''message_count'' j then Inr (False, m) else
     bindR (field_int J ''message_count'' j) (\<lambda>c.
     let m = m\<lparr>messageCount := c\<rparr> in
     if \<not> j_contains J ''pending_subscription_count'' j then Inr (False, m) else
     bindR (field_int J ''pending_subscription_count'' j) (\<lambda>p.
     Inr (True, m\<lparr>pendingSubscriptionCount := p\<rparr>)))))"

definition PushMessage_of_json :: "'j json_api \<Rightarrow> 'j \<Rightarrow> exn + push_message" where
  "PushMessage_of_json J j = set_valid (PushMessage_from_json J j
     (abstract_message.extend AbstractMessage_default
        \<lparr>push_accountId = [], messageCount = 0, pendingSubscriptionCount = 0\<rparr>))"

definition PushMessage_to_json :: "bool \<Rightarrow> 'j json_api \<Rightarrow> push_message \<Rightarrow> 'j \<Rightarrow> exn + 'j" where
  "PushMessage_to_json asserts J m j =
     bindR (AbstractMessage_to_json asserts J m j) (\<lambda>j.
     bindR (j_set J ''account_id'' (j_of_string J (push_accountId m)) j) (\<lambda>j.
     bindR (j_set J ''message_count'' (j_of_int J (messageCount m)) j) (\<lambda>j.
     j_set J ''pending_subscription_count'' (j_of_int J (pendingSubscriptionCount m)) j)))"

definition TEST_PUSH_ACTION :: string where
  "TEST_PUSH_ACTION = ''test_push''"

definition TestPushMessage_new :: abstract_message where
  "TestPushMessage_new = AbstractMessage_new TEST_PUSH_ACTION"

definition TestPushMessage_of_json :: "'j json_api \<Rightarrow> 'j \<Rightarrow> exn + abstract_message" where
  "TestPushMessage_of_json J j = set_valid (AbstractMessage_from_json J j AbstractMessage_default)"

end
