(* ===== verification/Redis_Client.thy ===== *)
theory Redis_Client
  imports Chrono Crypto_Utils Messages
begin

text \<open>
  \<^verbatim>\<open>src/storage/redis/RedisClient.cpp\<close>: the data the server stores, in terms of the Redis commands. The
  Redis server and its client library are a parameter (\<open>redis_api\<close>, a command is an operation on the
  server's state \<open>'db\<close>); the locale \<open>redis_server\<close> states the documented effect of each command on the
  key space.
\<close>

section \<open>The Redis interface\<close>

record 'db redis_api =
  r_lrange :: "string \<Rightarrow> int \<Rightarrow> int \<Rightarrow> ('db, string list) M"
  r_get :: "string \<Rightarrow> ('db, string option) M"
  r_set :: "string \<Rightarrow> string \<Rightarrow> ('db, unit) M"
  r_del :: "string \<Rightarrow> ('db, unit) M"
  r_rpush :: "string \<Rightarrow> string list \<Rightarrow> ('db, unit) M"
  r_expire :: "string \<Rightarrow> int \<Rightarrow> ('db, unit) M"
  r_expireat :: "string \<Rightarrow> int \<Rightarrow> ('db, unit) M"

text \<open>The key space: a key holds a string or a list, and may have a deadline (seconds).\<close>

datatype rvalue = Rstr string | Rlist "string list"

type_synonym keyspace = "string \<Rightarrow> (rvalue \<times> int option) option"

definition ks_expire :: "int \<Rightarrow> string \<Rightarrow> int \<Rightarrow> keyspace \<Rightarrow> keyspace" where
  "ks_expire now k t ks = (case ks k of None \<Rightarrow> ks
     | Some (v, _) \<Rightarrow> if t \<le> now then ks(k := None) else ks(k \<mapsto> (v, Some t)))"

locale redis_server =
  fixes R :: "'db redis_api"
    and view :: "'db \<Rightarrow> keyspace"
    and now :: "'db \<Rightarrow> int"
  assumes lrange: "r_lrange R k 0 (- 1) db = (case view db k of
      None \<Rightarrow> Inr [] | Some (Rlist xs, _) \<Rightarrow> Inr xs | Some (Rstr _, _) \<Rightarrow> Inl Redis_error, db)"
    and get: "r_get R k db = (case view db k of
      None \<Rightarrow> Inr None | Some (Rstr s, _) \<Rightarrow> Inr (Some s) | Some (Rlist _, _) \<Rightarrow> Inl Redis_error, db)"
    and set: "\<exists>db'. r_set R k v db = (Inr (), db') \<and> view db' = (view db)(k \<mapsto> (Rstr v, None)) \<and> now db' = now db"
    and del: "\<exists>db'. r_del R k db = (Inr (), db') \<and> view db' = (view db)(k := None) \<and> now db' = now db"
    and rpush_new: "view db k = None \<Longrightarrow> vs \<noteq> [] \<Longrightarrow>
      \<exists>db'. r_rpush R k vs db = (Inr (), db') \<and> view db' = (view db)(k \<mapsto> (Rlist vs, None)) \<and> now db' = now db"
    and rpush_list: "view db k = Some (Rlist xs, t) \<Longrightarrow> vs \<noteq> [] \<Longrightarrow>
      \<exists>db'. r_rpush R k vs db = (Inr (), db') \<and> view db' = (view db)(k \<mapsto> (Rlist (xs @ vs), t)) \<and> now db' = now db"
    and rpush_string: "view db k = Some (Rstr s, t) \<Longrightarrow> r_rpush R k vs db = (Inl Redis_error, db)"
    and expire: "\<exists>db'. r_expire R k n db = (Inr (), db')
      \<and> view db' = ks_expire (now db) k (now db + n) (view db) \<and> now db' = now db"
    and expireat: "\<exists>db'. r_expireat R k n db = (Inr (), db')
      \<and> view db' = ks_expire (now db) k n (view db) \<and> now db' = now db"

text \<open>Time passes on the server: the clock advances and keys whose deadline is reached vanish.\<close>

locale redis_clock = redis_server R view now
  for R :: "'db redis_api" and view :: "'db \<Rightarrow> keyspace" and now :: "'db \<Rightarrow> int" +
  fixes elapse :: "nat \<Rightarrow> 'db \<Rightarrow> 'db"
  assumes elapse_now: "now (elapse n db) = now db + int n"
    and elapse_view: "view (elapse n db) k = (case view db k of
      Some (v, Some t) \<Rightarrow> if t \<le> now db + int n then None else Some (v, Some t) | r \<Rightarrow> r)"

section \<open>The client\<close>

definition WNS_TOKEN_KEY :: string where
  "WNS_TOKEN_KEY = ''WNS''"

definition DEFAULT_ENTRY_TIMEOUT :: int where
  "DEFAULT_ENTRY_TIMEOUT = 30 * 7 * 24 * 60 * 60"

definition gen_account :: "'e crypto_api \<Rightarrow> string \<Rightarrow> string \<Rightarrow> string" where
  "gen_account C deviceId acc = hash_sah256 C (deviceId @ ''_'' @ acc)"

definition get_channel_uri :: "'db redis_api \<Rightarrow> string \<Rightarrow> ('db, string option) M" where
  "get_channel_uri R deviceId = bindE (r_lrange R deviceId 0 (- 1)) (\<lambda>keys.
     case keys of [] \<Rightarrow> ret None | k # _ \<Rightarrow> ret (Some k))"

definition get_account_id :: "'db redis_api \<Rightarrow> string \<Rightarrow> ('db, string option) M" where
  "get_account_id R nd = bindE (r_lrange R nd 0 (- 1)) (\<lambda>keys.
     if length keys \<noteq> 3 then ret None else ret (Some (keys ! 0)))"

definition get_version :: "'db redis_api \<Rightarrow> string \<Rightarrow> ('db, string option) M" where
  "get_version R deviceId = bindE (r_lrange R deviceId 0 (- 1)) (\<lambda>keys.
     if length keys < 2 then ret None else ret (Some (keys ! 1)))"

definition get_device_id :: "'db redis_api \<Rightarrow> string \<Rightarrow> ('db, string option) M" where
  "get_device_id R nd = bindE (r_lrange R nd 0 (- 1)) (\<lambda>keys.
     if length keys \<noteq> 3 then ret None else ret (Some (keys ! 1)))"

definition get_node_secret :: "'db redis_api \<Rightarrow> string \<Rightarrow> ('db, string option) M" where
  "get_node_secret R nd = bindE (r_lrange R nd 0 (- 1)) (\<lambda>keys.
     if length keys \<noteq> 3 then ret None else ret (Some (keys ! 2)))"

text \<open>Reading through an empty \<^verbatim>\<open>std::optional\<close> with \<^verbatim>\<open>*\<close> is undefined.\<close>

definition deref :: "'a option \<Rightarrow> exn + 'a" where
  "deref x = (case x of None \<Rightarrow> Inl Undefined_behaviour | Some a \<Rightarrow> Inr a)"

fun push_nodes_loop :: "bool \<Rightarrow> 'db redis_api \<Rightarrow> string list \<Rightarrow> ('db, string list) M" where
  "push_nodes_loop asserts R [] = ret []"
| "push_nodes_loop asserts R (k # ks) = bindE (r_get R k) (\<lambda>nd.
     thenE (assertE asserts (nd \<noteq> None))
     (bindE (liftR (deref nd)) (\<lambda>n.
      bindE (push_nodes_loop asserts R ks) (\<lambda>ns. ret (n # ns)))))"

definition get_push_nodes :: "bool \<Rightarrow> 'db redis_api \<Rightarrow> string \<Rightarrow> ('db, string list) M" where
  "get_push_nodes asserts R deviceId = bindE (r_lrange R deviceId 0 (- 1)) (\<lambda>keys.
     push_nodes_loop asserts R (drop 2 keys))"

text \<open>The loop that removes the old structure, in the order of the source: delete, then look up.\<close>

definition remove_account :: "'db redis_api \<Rightarrow> string \<Rightarrow> ('db, unit) M" where
  "remove_account R account = thenE (r_del R account) (bindE (r_get R account) (\<lambda>nd.
     case nd of None \<Rightarrow> ret () | Some n \<Rightarrow> r_del R n))"

definition store_account :: "'db redis_api \<Rightarrow> 'e crypto_api \<Rightarrow> string \<Rightarrow> push_account \<Rightarrow> ('db, unit) M" where
  "store_account R C deviceId a =
     (let account = gen_account C deviceId (accountId a) in
      thenE (r_set R account (node a))
     (thenE (r_expire R account DEFAULT_ENTRY_TIMEOUT)
     (thenE (r_rpush R (node a) [accountId a, deviceId, secret a])
            (r_expire R (node a) DEFAULT_ENTRY_TIMEOUT))))"

definition redis_set_push_accounts ::
  "'db redis_api \<Rightarrow> 'e crypto_api \<Rightarrow> string \<Rightarrow> string \<Rightarrow> string \<Rightarrow> push_account list \<Rightarrow> ('db, unit) M" where
  "redis_set_push_accounts R C deviceId channelUri ver accounts =
     bindE (r_lrange R deviceId 0 (- 1)) (\<lambda>keys.
     thenE (if keys = [] then ret ()
            else thenE (forE (drop 2 keys) (remove_account R)) (r_del R deviceId))
     (thenE (forE accounts (store_account R C deviceId))
     (thenE (r_del R deviceId)
     (thenE (r_rpush R deviceId (channelUri # ver # map (\<lambda>a. gen_account C deviceId (accountId a)) accounts))
            (r_expire R deviceId DEFAULT_ENTRY_TIMEOUT)))))"

definition redis_set_channel_uri :: "'db redis_api \<Rightarrow> string \<Rightarrow> string \<Rightarrow> ('db, unit) M" where
  "redis_set_channel_uri R deviceId channelUri =
     bindE (r_lrange R deviceId 0 (- 1)) (\<lambda>keys.
     thenE (if keys = [] then ret () else r_del R deviceId)
     (thenE (r_rpush R deviceId (if keys = [] then [channelUri] else keys[0 := channelUri]))
            (r_expire R deviceId DEFAULT_ENTRY_TIMEOUT)))"

definition set_wns_token :: "'db redis_api \<Rightarrow> string \<Rightarrow> string \<Rightarrow> time_point \<Rightarrow> ('db, unit) M" where
  "set_wns_token R token type expires =
     (let tt = to_time_t expires in
      thenE (r_set R WNS_TOKEN_KEY token)
     (thenE (r_del R WNS_TOKEN_KEY)
     (thenE (r_rpush R WNS_TOKEN_KEY [token, type, to_string tt])
            (r_expireat R WNS_TOKEN_KEY tt))))"

definition get_wns_token :: "'db redis_api \<Rightarrow> ('db, string option) M" where
  "get_wns_token R = bindE (r_lrange R WNS_TOKEN_KEY 0 (- 1)) (\<lambda>keys.
     if length keys \<noteq> 3 then ret None else ret (Some (keys ! 0)))"

definition get_wns_token_type :: "'db redis_api \<Rightarrow> ('db, string option) M" where
  "get_wns_token_type R = bindE (r_lrange R WNS_TOKEN_KEY 0 (- 1)) (\<lambda>keys.
     if length keys \<noteq> 3 then ret None else ret (Some (keys ! 1)))"

definition get_wns_token_expire_date :: "'db redis_api \<Rightarrow> ('db, time_point option) M" where
  "get_wns_token_expire_date R = bindE (r_lrange R WNS_TOKEN_KEY 0 (- 1)) (\<lambda>keys.
     if length keys \<noteq> 3 then ret None else ret (Some (from_time_t (strtoll (c_str (keys ! 2))))))"

text \<open>The account whose node and secret are replaced by the stored ones, if there are any.\<close>

definition load_push_account :: "'db redis_api \<Rightarrow> 'e crypto_api \<Rightarrow> string \<Rightarrow> push_account \<Rightarrow> ('db, push_account) M" where
  "load_push_account R C deviceId account =
     bindE (r_get R (gen_account C deviceId (accountId account))) (\<lambda>nd. case nd of
       None \<Rightarrow> ret account
     | Some n \<Rightarrow> bindE (get_node_secret R n) (\<lambda>sec. case sec of
         None \<Rightarrow> ret account
       | Some s \<Rightarrow> ret (account\<lparr>node := n, secret := s, success := True\<rparr>)))"

end
