(* ===== verification/Redis_Correct.thy ===== *)
theory Redis_Correct
  imports Redis_Client
begin

text \<open>
  What the operations of \<^verbatim>\<open>RedisClient\<close> do to the key space, proved once for every Redis server that
  keeps the documented contract, and the reference server the contract is interpreted on.
\<close>

section \<open>The key space as the client uses it\<close>

definition list_at :: "keyspace \<Rightarrow> string \<Rightarrow> string list" where
  "list_at ks k = (case ks k of Some (Rlist xs, _) \<Rightarrow> xs | _ \<Rightarrow> [])"

definition deadline_at :: "keyspace \<Rightarrow> string \<Rightarrow> int option" where
  "deadline_at ks k = (case ks k of Some (_, t) \<Rightarrow> t | None \<Rightarrow> None)"

definition no_string :: "keyspace \<Rightarrow> string \<Rightarrow> bool" where
  "no_string ks k \<longleftrightarrow> (\<forall>s t. ks k \<noteq> Some (Rstr s, t))"

text \<open>One registered account: the account key leads to the node, the node to its owner.\<close>

definition ks_account :: "int \<Rightarrow> (string \<Rightarrow> string) \<Rightarrow> string \<Rightarrow> push_account \<Rightarrow> keyspace \<Rightarrow> keyspace" where
  "ks_account t h dev a ks = ks(h (accountId a) \<mapsto> (Rstr (node a), Some t),
     node a \<mapsto> (Rlist (list_at ks (node a) @ [accountId a, dev, secret a]), Some t))"

text \<open>
  The keys of a registration do not collide: nodes and account keys are pairwise distinct, and differ
  from each other and from the device id.
\<close>

definition keys_separate :: "(string \<Rightarrow> string) \<Rightarrow> string \<Rightarrow> push_account list \<Rightarrow> bool" where
  "keys_separate h dev accs \<longleftrightarrow> distinct (map node accs) \<and> distinct (map (\<lambda>a. h (accountId a)) accs)
     \<and> set (map node accs) \<inter> set (map (\<lambda>a. h (accountId a)) accs) = {}
     \<and> dev \<notin> set (map node accs) \<and> dev \<notin> set (map (\<lambda>a. h (accountId a)) accs)"

text \<open>What \<^verbatim>\<open>set_push_accounts\<close> leaves: the old account keys go, the old nodes stay.\<close>

definition ks_registered ::
  "int \<Rightarrow> (string \<Rightarrow> string) \<Rightarrow> string \<Rightarrow> string \<Rightarrow> string \<Rightarrow> push_account list \<Rightarrow> keyspace \<Rightarrow> keyspace" where
  "ks_registered t h dev uri ver accs ks =
     (fold (ks_account t h dev) accs
       (\<lambda>k. if k \<in> set (drop 2 (list_at ks dev)) \<or> k = dev then None else ks k))
     (dev \<mapsto> (Rlist (uri # ver # map (\<lambda>a. h (accountId a)) accs), Some t))"

lemma list_at_upd [simp]:
  "list_at (ks(k \<mapsto> (Rlist xs, t))) k' = (if k' = k then xs else list_at ks k')"
  "list_at (ks(k \<mapsto> (Rstr s, t))) k' = (if k' = k then [] else list_at ks k')"
  "list_at (ks(k := None)) k' = (if k' = k then [] else list_at ks k')"
  by (simp_all add: list_at_def)

lemma no_string_upd [simp]:
  "no_string (ks(k \<mapsto> (Rlist xs, t))) k' \<longleftrightarrow> k' = k \<or> no_string ks k'"
  "no_string (ks(k := None)) k' \<longleftrightarrow> k' = k \<or> no_string ks k'"
  "k' \<noteq> k \<Longrightarrow> no_string (ks(k \<mapsto> v)) k' \<longleftrightarrow> no_string ks k'"
  by (auto simp: no_string_def)

lemma no_string_ks_expire [simp]: "no_string ks k' \<Longrightarrow> no_string (ks_expire n k t ks) k'"
  by (auto simp: no_string_def ks_expire_def split: option.splits)

lemma ks_expire_set [simp]: "n < t \<Longrightarrow> ks_expire n k t (ks(k \<mapsto> (v, d))) = ks(k \<mapsto> (v, Some t))"
  by (simp add: ks_expire_def)

lemma ks_account_other: "k \<noteq> h (accountId a) \<Longrightarrow> k \<noteq> node a \<Longrightarrow> ks_account t h dev a ks k = ks k"
  by (simp add: ks_account_def)

lemma fold_account_other:
  "k \<notin> set (map node accs) \<Longrightarrow> k \<notin> set (map (\<lambda>a. h (accountId a)) accs) \<Longrightarrow>
   fold (ks_account t h dev) accs ks k = ks k"
  by (induction accs arbitrary: ks) (auto simp: ks_account_other)

lemma list_at_cong: "ks k = ks' k \<Longrightarrow> list_at ks k = list_at ks' k"
  by (simp add: list_at_def)

lemma keys_separate_Cons:
  assumes "keys_separate h dev (b # accs)"
  shows "keys_separate h dev accs" "node b \<noteq> h (accountId b)"
    and "a \<in> set accs \<Longrightarrow> node a \<noteq> node b \<and> node a \<noteq> h (accountId b)
      \<and> h (accountId a) \<noteq> h (accountId b) \<and> h (accountId a) \<noteq> node b"
  using assms by (auto simp: keys_separate_def image_iff)

lemma fold_account_node:
  assumes "keys_separate h dev accs" "a \<in> set accs"
  shows "fold (ks_account t h dev) accs ks (node a) =
    Some (Rlist (list_at ks (node a) @ [accountId a, dev, secret a]), Some t)"
  using assms
proof (induction accs arbitrary: ks)
  case Nil
  then show ?case by simp
next
  case (Cons b accs)
  from Cons.prems(1) have sep: "keys_separate h dev accs" by (rule keys_separate_Cons)
  show ?case
  proof (cases "a = b")
    case True
    with Cons.prems have "node a \<notin> set (map node accs)" "node a \<notin> set (map (\<lambda>a. h (accountId a)) accs)"
      by (auto simp: keys_separate_def)
    with True show ?thesis by (simp add: fold_account_other) (simp add: ks_account_def)
  next
    case False
    with Cons.prems keys_separate_Cons(3) [of h dev b accs a]
    have "node a \<noteq> node b" "node a \<noteq> h (accountId b)" by auto
    then have "list_at (ks_account t h dev b ks) (node a) = list_at ks (node a)"
      by (intro list_at_cong ks_account_other)
    with False Cons sep show ?thesis by simp
  qed
qed

lemma fold_account_key:
  assumes "keys_separate h dev accs" "a \<in> set accs"
  shows "fold (ks_account t h dev) accs ks (h (accountId a)) = Some (Rstr (node a), Some t)"
  using assms
proof (induction accs arbitrary: ks)
  case Nil
  then show ?case by simp
next
  case (Cons b accs)
  from Cons.prems(1) have sep: "keys_separate h dev accs" by (rule keys_separate_Cons)
  show ?case
  proof (cases "a = b")
    case True
    with Cons.prems have "h (accountId a) \<notin> set (map node accs)"
      "h (accountId a) \<notin> set (map (\<lambda>a. h (accountId a)) accs)" "h (accountId a) \<noteq> node a"
      by (force simp: keys_separate_def)+
    with True show ?thesis by (simp add: fold_account_other) (simp add: ks_account_def)
  next
    case False
    with Cons sep show ?thesis by simp
  qed
qed

text \<open>Registering accounts neither reads nor writes the device's own key.\<close>

lemma ks_account_upd:
  "k \<noteq> node a \<Longrightarrow> k \<noteq> h (accountId a) \<Longrightarrow>
   ks_account t h dev a (ks(k := z)) = (ks_account t h dev a ks)(k := z)"
  by (auto simp: ks_account_def list_at_def fun_eq_iff)

lemma fold_account_upd:
  "k \<notin> set (map node accs) \<Longrightarrow> k \<notin> set (map (\<lambda>a. h (accountId a)) accs) \<Longrightarrow>
   fold (ks_account t h dev) accs (ks(k := z)) = (fold (ks_account t h dev) accs ks)(k := z)"
  by (induction accs arbitrary: ks) (auto simp: ks_account_upd)

lemma registered_device [simp]:
  "ks_registered t h dev uri ver accs ks dev =
     Some (Rlist (uri # ver # map (\<lambda>a. h (accountId a)) accs), Some t)"
  by (simp add: ks_registered_def)

lemma registered_node:
  assumes "keys_separate h dev accs" "a \<in> set accs"
  shows "ks_registered t h dev uri ver accs ks (node a) =
    Some (Rlist ((if node a \<in> set (drop 2 (list_at ks dev)) then [] else list_at ks (node a))
      @ [accountId a, dev, secret a]), Some t)"
proof -
  have "node a \<noteq> dev" using assms by (auto simp: keys_separate_def)
  then show ?thesis
    using fold_account_node [OF assms, of t "\<lambda>k. if k \<in> set (drop 2 (list_at ks dev)) \<or> k = dev then None else ks k"]
    by (simp add: ks_registered_def list_at_def)
qed

lemma registered_key:
  assumes "keys_separate h dev accs" "a \<in> set accs"
  shows "ks_registered t h dev uri ver accs ks (h (accountId a)) = Some (Rstr (node a), Some t)"
proof -
  have "h (accountId a) \<noteq> dev" using assms by (auto simp: keys_separate_def)
  then show ?thesis using fold_account_key [OF assms] by (simp add: ks_registered_def)
qed

lemma registered_other:
  "k \<noteq> dev \<Longrightarrow> k \<notin> set (map node accs) \<Longrightarrow> k \<notin> set (map (\<lambda>a. h (accountId a)) accs) \<Longrightarrow>
   ks_registered t h dev uri ver accs ks k = (if k \<in> set (drop 2 (list_at ks dev)) then None else ks k)"
  by (simp add: ks_registered_def fold_account_other)

section \<open>The operations on any Redis server\<close>

context redis_server
begin

text \<open>The state after each writing command, as a function.\<close>

definition set_db :: "string \<Rightarrow> string \<Rightarrow> 'db \<Rightarrow> 'db" where "set_db k v db = snd (r_set R k v db)"
definition del_db :: "string \<Rightarrow> 'db \<Rightarrow> 'db" where "del_db k db = snd (r_del R k db)"
definition rpush_db :: "string \<Rightarrow> string list \<Rightarrow> 'db \<Rightarrow> 'db" where "rpush_db k vs db = snd (r_rpush R k vs db)"
definition expire_db :: "string \<Rightarrow> int \<Rightarrow> 'db \<Rightarrow> 'db" where "expire_db k n db = snd (r_expire R k n db)"
definition expireat_db :: "string \<Rightarrow> int \<Rightarrow> 'db \<Rightarrow> 'db" where "expireat_db k n db = snd (r_expireat R k n db)"

lemma set_run [simp]: "r_set R k v db = (Inr (), set_db k v db)"
  "view (set_db k v db) = (view db)(k \<mapsto> (Rstr v, None))" "now (set_db k v db) = now db"
  using set [of k v db] by (auto simp: set_db_def)

lemma del_run [simp]: "r_del R k db = (Inr (), del_db k db)"
  "view (del_db k db) = (view db)(k := None)" "now (del_db k db) = now db"
  using del [of k db] by (auto simp: del_db_def)

lemma expire_run [simp]: "r_expire R k n db = (Inr (), expire_db k n db)"
  "view (expire_db k n db) = ks_expire (now db) k (now db + n) (view db)" "now (expire_db k n db) = now db"
  using expire [of k n db] by (auto simp: expire_db_def)

lemma expireat_run [simp]: "r_expireat R k n db = (Inr (), expireat_db k n db)"
  "view (expireat_db k n db) = ks_expire (now db) k n (view db)" "now (expireat_db k n db) = now db"
  using expireat [of k n db] by (auto simp: expireat_db_def)

lemma rpush_cases:
  assumes "no_string (view db) k" "vs \<noteq> []"
  shows "r_rpush R k vs db = (Inr (), rpush_db k vs db)
    \<and> view (rpush_db k vs db) = (view db)(k \<mapsto> (Rlist (list_at (view db) k @ vs), deadline_at (view db) k))
    \<and> now (rpush_db k vs db) = now db"
proof (cases "view db k")
  case None
  with rpush_new [OF this assms(2)] show ?thesis
    by (auto simp: rpush_db_def list_at_def deadline_at_def)
next
  case (Some e)
  then obtain v t where e: "view db k = Some (v, t)" by (cases e) auto
  with assms(1) obtain xs where "v = Rlist xs" by (cases v) (auto simp: no_string_def)
  with e rpush_list [OF _ assms(2), of db k xs t] show ?thesis
    by (auto simp: rpush_db_def list_at_def deadline_at_def)
qed

lemmas rpush_run [simp] = rpush_cases [THEN conjunct1] rpush_cases [THEN conjunct2, THEN conjunct1]
  rpush_cases [THEN conjunct2, THEN conjunct2]

lemma lrange_run: "no_string (view db) k \<Longrightarrow> r_lrange R k 0 (- 1) db = (Inr (list_at (view db) k), db)"
  by (auto simp: lrange list_at_def no_string_def split: option.split rvalue.split prod.split)

lemma lrange_string: "view db k = Some (Rstr s, t) \<Longrightarrow> r_lrange R k 0 (- 1) db = (Inl Redis_error, db)"
  by (simp add: lrange)

subsection \<open>Queries\<close>

lemma get_channel_uri_run:
  "no_string (view db) k \<Longrightarrow>
   get_channel_uri R k db = (Inr (case list_at (view db) k of [] \<Rightarrow> None | u # _ \<Rightarrow> Some u), db)"
  by (simp add: get_channel_uri_def lrange_run split: list.split)

lemma get_version_run:
  "no_string (view db) k \<Longrightarrow> get_version R k db =
   (Inr (if length (list_at (view db) k) < 2 then None else Some (list_at (view db) k ! 1)), db)"
  by (simp add: get_version_def lrange_run)

lemma node_queries_run:
  assumes "no_string (view db) k"
  shows "get_account_id R k db = (Inr (if length (list_at (view db) k) = 3 then Some (list_at (view db) k ! 0) else None), db)"
    and "get_device_id R k db = (Inr (if length (list_at (view db) k) = 3 then Some (list_at (view db) k ! 1) else None), db)"
    and "get_node_secret R k db = (Inr (if length (list_at (view db) k) = 3 then Some (list_at (view db) k ! 2) else None), db)"
  using assms by (simp_all add: get_account_id_def get_device_id_def get_node_secret_def lrange_run)

lemma push_nodes_loop_run:
  "(\<And>k. k \<in> set ks \<Longrightarrow> \<exists>t. view db k = Some (Rstr (f k), t)) \<Longrightarrow>
   push_nodes_loop asserts R ks db = (Inr (map f ks), db)"
proof (induction ks)
  case Nil
  then show ?case by simp
next
  case (Cons k ks)
  from Cons.prems [of k] obtain t where "view db k = Some (Rstr (f k), t)" by auto
  with Cons show ?case by (simp add: get deref_def)
qed

text \<open>A device that still refers to an account key that is gone.\<close>

lemma get_push_nodes_dangling:
  assumes "list_at (view db) dev = u # v # h # hs" "no_string (view db) dev" "view db h = None"
  shows "get_push_nodes asserts R dev db = (Inl (if asserts then Assert_failed else Undefined_behaviour), db)"
  using assms by (cases asserts) (simp_all add: get_push_nodes_def lrange_run get deref_def)

subsection \<open>Registering accounts\<close>

lemma remove_account_run:
  "\<exists>db'. remove_account R k db = (Inr (), db') \<and> view db' = (view db)(k := None) \<and> now db' = now db"
  by (simp add: remove_account_def get)

lemma remove_accounts_run:
  "\<exists>db'. forE ks (remove_account R) db = (Inr (), db')
     \<and> view db' = (\<lambda>k. if k \<in> set ks then None else view db k) \<and> now db' = now db"
proof (induction ks arbitrary: db)
  case Nil
  then show ?case by simp
next
  case (Cons k ks)
  from remove_account_run [of k db] obtain db1 where
    "remove_account R k db = (Inr (), db1)" "view db1 = (view db)(k := None)" "now db1 = now db" by blast
  moreover from Cons [of db1] obtain db2 where "forE ks (remove_account R) db1 = (Inr (), db2)"
    "view db2 = (\<lambda>k. if k \<in> set ks then None else view db1 k)" "now db2 = now db1" by blast
  ultimately show ?case by (auto simp: fun_eq_iff)
qed

lemma store_account_run:
  assumes "gen_account C dev (accountId a) \<noteq> node a" "no_string (view db) (node a)"
  shows "\<exists>db'. store_account R C dev a db = (Inr (), db')
    \<and> view db' = ks_account (now db + DEFAULT_ENTRY_TIMEOUT) (gen_account C dev) dev a (view db)
    \<and> now db' = now db"
  using assms by (simp add: store_account_def Let_def ks_account_def DEFAULT_ENTRY_TIMEOUT_def)

lemma store_accounts_run:
  assumes "keys_separate (gen_account C dev) dev accs" "\<forall>a \<in> set accs. no_string (view db) (node a)"
  shows "\<exists>db'. forE accs (store_account R C dev) db = (Inr (), db')
    \<and> view db' = fold (ks_account (now db + DEFAULT_ENTRY_TIMEOUT) (gen_account C dev) dev) accs (view db)
    \<and> now db' = now db"
  using assms
proof (induction accs arbitrary: db)
  case Nil
  then show ?case by simp
next
  case (Cons a accs)
  from Cons.prems keys_separate_Cons(2) [of "gen_account C dev" dev a accs]
  have "gen_account C dev (accountId a) \<noteq> node a" "no_string (view db) (node a)" by auto
  from store_account_run [OF this] obtain db1 where db1: "store_account R C dev a db = (Inr (), db1)"
    "view db1 = ks_account (now db + DEFAULT_ENTRY_TIMEOUT) (gen_account C dev) dev a (view db)"
    "now db1 = now db" by blast
  have "\<forall>b \<in> set accs. no_string (view db1) (node b)"
  proof
    fix b assume b: "b \<in> set accs"
    with keys_separate_Cons(3) [OF Cons.prems(1) b]
    have "node b \<noteq> gen_account C dev (accountId a)" "node b \<noteq> node a" by auto
    then have "view db1 (node b) = view db (node b)" by (simp add: db1 ks_account_other)
    with Cons.prems(2) b show "no_string (view db1) (node b)" by (simp add: no_string_def)
  qed
  moreover have "keys_separate (gen_account C dev) dev accs"
    using Cons.prems(1) by (rule keys_separate_Cons)
  ultimately obtain db2 where db2: "forE accs (store_account R C dev) db1 = (Inr (), db2)"
    "view db2 = fold (ks_account (now db1 + DEFAULT_ENTRY_TIMEOUT) (gen_account C dev) dev) accs (view db1)"
    "now db2 = now db1" using Cons.IH by blast
  show ?case by (rule exI [of _ db2]) (simp add: db1 db2)
qed


lemma set_push_accounts_run:
  assumes sep: "keys_separate (gen_account C dev) dev accs"
    and dev: "no_string (view db) dev" and nodes: "\<forall>a \<in> set accs. no_string (view db) (node a)"
  shows "\<exists>db'. redis_set_push_accounts R C dev uri ver accs db = (Inr (), db')
    \<and> view db' = ks_registered (now db + DEFAULT_ENTRY_TIMEOUT) (gen_account C dev) dev uri ver accs (view db)
    \<and> now db' = now db"
proof -
  define keys where "keys = list_at (view db) dev"
  let ?fold = "fold (ks_account (now db + DEFAULT_ENTRY_TIMEOUT) (gen_account C dev) dev) accs"
  let ?clean = "\<lambda>k. if k \<in> set (drop 2 keys) \<or> k = dev then None else view db k"
  obtain db1 where db1: "(if keys = [] then ret () else thenE (forE (drop 2 keys) (remove_account R)) (r_del R dev)) db = (Inr (), db1)"
    "(view db1)(dev := None) = ?clean" "now db1 = now db" "\<forall>k. no_string (view db) k \<longrightarrow> no_string (view db1) k"
  proof (cases "keys = []")
    case True
    then show ?thesis by (intro that [of db]) (auto simp: fun_eq_iff)
  next
    case False
    obtain db0 where "forE (drop 2 keys) (remove_account R) db = (Inr (), db0)"
      "view db0 = (\<lambda>k. if k \<in> set (drop 2 keys) then None else view db k)" "now db0 = now db"
      using remove_accounts_run by blast
    with False show ?thesis
      by (intro that [of "del_db dev db0"]) (auto simp: fun_eq_iff no_string_def)
  qed
  with nodes have "\<forall>a \<in> set accs. no_string (view db1) (node a)" by blast
  from store_accounts_run [OF sep this] obtain db2 where
    db2: "forE accs (store_account R C dev) db1 = (Inr (), db2)" "view db2 = ?fold (view db1)" "now db2 = now db"
    using db1(3) by auto
  have "(?fold (view db1))(dev \<mapsto> x) = (?fold ((view db1)(dev := None)))(dev \<mapsto> x)" for x
    using sep by (simp add: fold_account_upd keys_separate_def)
  then have "view (rpush_db dev (uri # ver # map (\<lambda>a. gen_account C dev (accountId a)) accs) (del_db dev db2))
      = (?fold ?clean)(dev \<mapsto> (Rlist (uri # ver # map (\<lambda>a. gen_account C dev (accountId a)) accs), None))"
    by (simp add: db2 deadline_at_def flip: db1(2))
  then show ?thesis
    using dev by (simp add: redis_set_push_accounts_def lrange_run db1(1) db2 ks_registered_def
        DEFAULT_ENTRY_TIMEOUT_def flip: keys_def)
qed


text \<open>What the queries return once accounts are registered whose nodes the server did not know.\<close>

lemma registered_queries:
  assumes sep: "keys_separate (gen_account C dev) dev accs"
    and v: "view db = ks_registered t (gen_account C dev) dev uri ver accs ks"
  shows "get_channel_uri R dev db = (Inr (Some uri), db)"
    and "get_version R dev db = (Inr (Some ver), db)"
    and "get_push_nodes asserts R dev db = (Inr (map node accs), db)"
    and "a \<in> set accs \<Longrightarrow> list_at ks (node a) = [] \<Longrightarrow> get_account_id R (node a) db = (Inr (Some (accountId a)), db)"
    and "a \<in> set accs \<Longrightarrow> list_at ks (node a) = [] \<Longrightarrow> get_device_id R (node a) db = (Inr (Some dev), db)"
    and "a \<in> set accs \<Longrightarrow> list_at ks (node a) = [] \<Longrightarrow> get_node_secret R (node a) db = (Inr (Some (secret a)), db)"
proof -
  let ?h = "gen_account C dev"
  have d: "list_at (view db) dev = uri # ver # map (\<lambda>a. ?h (accountId a)) accs" "no_string (view db) dev"
    by (simp_all add: v list_at_def no_string_def)
  then show "get_channel_uri R dev db = (Inr (Some uri), db)" "get_version R dev db = (Inr (Some ver), db)"
    by (simp_all add: get_channel_uri_run get_version_run)
  have "push_nodes_loop asserts R (map (\<lambda>a. ?h (accountId a)) accs) db = (Inr (map node accs), db)"
  proof -
    have k: "view db (?h (accountId a)) = Some (Rstr (node a), Some t)" if "a \<in> set accs" for a
      using registered_key [OF sep that] by (simp add: v)
    define f where "f k = (case view db k of Some (Rstr n, _) \<Rightarrow> n | _ \<Rightarrow> [])" for k
    have "push_nodes_loop asserts R (map (\<lambda>a. ?h (accountId a)) accs) db
      = (Inr (map f (map (\<lambda>a. ?h (accountId a)) accs)), db)"
      by (rule push_nodes_loop_run) (auto simp: f_def k)
    moreover have "map f (map (\<lambda>a. ?h (accountId a)) accs) = map node accs"
      by (auto simp: f_def k)
    ultimately show ?thesis by simp
  qed
  with d show "get_push_nodes asserts R dev db = (Inr (map node accs), db)"
    by (simp add: get_push_nodes_def lrange_run)
  assume a: "a \<in> set accs" "list_at ks (node a) = []"
  with registered_node [OF sep a(1)] have "list_at (view db) (node a) = [accountId a, dev, secret a]"
    "no_string (view db) (node a)" by (simp_all add: v list_at_def no_string_def)
  then show "get_account_id R (node a) db = (Inr (Some (accountId a)), db)"
    "get_device_id R (node a) db = (Inr (Some dev), db)"
    "get_node_secret R (node a) db = (Inr (Some (secret a)), db)"
    by (simp_all add: node_queries_run)
qed

text \<open>
  A node that is registered again while its list is still there ends up with a list of six entries,
  which every query of the node rejects.
\<close>

lemma reregistered_node_lost:
  assumes sep: "keys_separate (gen_account C dev) dev accs"
    and v: "view db = ks_registered t (gen_account C dev) dev uri ver accs ks"
    and a: "a \<in> set accs" "list_at ks (node a) \<noteq> []" "node a \<notin> set (drop 2 (list_at ks dev))"
  shows "get_account_id R (node a) db = (Inr None, db)" "get_device_id R (node a) db = (Inr None, db)"
    "get_node_secret R (node a) db = (Inr None, db)"
proof -
  from registered_node [OF sep a(1)] a(2,3) have "length (list_at (view db) (node a)) \<noteq> 3" "no_string (view db) (node a)"
    by (simp_all add: v list_at_def no_string_def)
  then show "get_account_id R (node a) db = (Inr None, db)" "get_device_id R (node a) db = (Inr None, db)"
    "get_node_secret R (node a) db = (Inr None, db)"
    by (simp_all add: node_queries_run)
qed

lemma load_push_account_known:
  assumes "view db (gen_account C dev (accountId a)) = Some (Rstr n, t)" "view db n = Some (Rlist [x, y, s], t')"
  shows "load_push_account R C dev a db = (Inr (a\<lparr>node := n, secret := s, success := True\<rparr>), db)"
  using assms by (simp add: load_push_account_def get get_node_secret_def lrange)

lemma load_push_account_unknown:
  assumes "view db (gen_account C dev (accountId a)) = None"
  shows "load_push_account R C dev a db = (Inr a, db)"
  using assms by (simp add: load_push_account_def get)

subsection \<open>The channel URI\<close>

lemma set_channel_uri_run:
  assumes "no_string (view db) dev"
  shows "\<exists>db'. redis_set_channel_uri R dev uri db = (Inr (), db')
    \<and> view db' = (view db)(dev \<mapsto> (Rlist (uri # drop 1 (list_at (view db) dev)), Some (now db + DEFAULT_ENTRY_TIMEOUT)))
    \<and> now db' = now db"
proof (cases "list_at (view db) dev")
  case Nil
  with assms show ?thesis
    by (simp add: redis_set_channel_uri_def lrange_run DEFAULT_ENTRY_TIMEOUT_def)
next
  case (Cons u rest)
  with assms show ?thesis
    by (simp add: redis_set_channel_uri_def lrange_run DEFAULT_ENTRY_TIMEOUT_def deadline_at_def)
qed

subsection \<open>The WNS token\<close>

lemma wns_queries_run:
  assumes "no_string (view db) WNS_TOKEN_KEY"
  shows "get_wns_token R db = (Inr (if length (list_at (view db) WNS_TOKEN_KEY) = 3 then Some (list_at (view db) WNS_TOKEN_KEY ! 0) else None), db)"
    and "get_wns_token_type R db = (Inr (if length (list_at (view db) WNS_TOKEN_KEY) = 3 then Some (list_at (view db) WNS_TOKEN_KEY ! 1) else None), db)"
    and "get_wns_token_expire_date R db = (Inr (if length (list_at (view db) WNS_TOKEN_KEY) = 3
      then Some (from_time_t (strtoll (c_str (list_at (view db) WNS_TOKEN_KEY ! 2)))) else None), db)"
  using assms by (simp_all add: get_wns_token_def get_wns_token_type_def get_wns_token_expire_date_def lrange_run)

lemma set_wns_token_run:
  "\<exists>db'. set_wns_token R tok ty e db = (Inr (), db') \<and> now db' = now db
    \<and> view db' = (if to_time_t e \<le> now db then (view db)(WNS_TOKEN_KEY := None)
        else (view db)(WNS_TOKEN_KEY \<mapsto> (Rlist [tok, ty, to_string (to_time_t e)], Some (to_time_t e))))"
  by (simp add: set_wns_token_def Let_def ks_expire_def deadline_at_def)

end

lemma c_str_to_string [simp]: "c_str (to_string i) = to_string i"
  by (rule c_str_id) (auto simp: to_string_def dest!: dec_string_digits [rule_format] digit_alnum alnum_not_nul)

section \<open>A reference server\<close>

text \<open>
  A key space and a clock. It implements the commands as Redis documents them, \<^verbatim>\<open>LRANGE\<close> for arbitrary
  bounds included.
\<close>

record ref_db =
  rd_keys :: keyspace
  rd_now :: int

definition lrange_slice :: "int \<Rightarrow> int \<Rightarrow> string list \<Rightarrow> string list" where
  "lrange_slice i j xs = (let n = int (length xs);
      a = max 0 (if i < 0 then n + i else i); b = (if j < 0 then n + j else j)
    in if b < a then [] else take (nat (b - a + 1)) (drop (nat a) xs))"

definition ref_redis :: "ref_db redis_api" where
  "ref_redis = \<lparr>
     r_lrange = (\<lambda>k i j db. (case rd_keys db k of None \<Rightarrow> Inr []
        | Some (Rlist xs, _) \<Rightarrow> Inr (lrange_slice i j xs) | Some (Rstr _, _) \<Rightarrow> Inl Redis_error, db)),
     r_get = (\<lambda>k db. (case rd_keys db k of None \<Rightarrow> Inr None
        | Some (Rstr s, _) \<Rightarrow> Inr (Some s) | Some (Rlist _, _) \<Rightarrow> Inl Redis_error, db)),
     r_set = (\<lambda>k v db. (Inr (), db\<lparr>rd_keys := (rd_keys db)(k \<mapsto> (Rstr v, None))\<rparr>)),
     r_del = (\<lambda>k db. (Inr (), db\<lparr>rd_keys := (rd_keys db)(k := None)\<rparr>)),
     r_rpush = (\<lambda>k vs db. if vs = [] then (Inl Redis_error, db) else case rd_keys db k of
          None \<Rightarrow> (Inr (), db\<lparr>rd_keys := (rd_keys db)(k \<mapsto> (Rlist vs, None))\<rparr>)
        | Some (Rlist xs, t) \<Rightarrow> (Inr (), db\<lparr>rd_keys := (rd_keys db)(k \<mapsto> (Rlist (xs @ vs), t))\<rparr>)
        | Some (Rstr _, _) \<Rightarrow> (Inl Redis_error, db)),
     r_expire = (\<lambda>k n db. (Inr (), db\<lparr>rd_keys := ks_expire (rd_now db) k (rd_now db + n) (rd_keys db)\<rparr>)),
     r_expireat = (\<lambda>k t db. (Inr (), db\<lparr>rd_keys := ks_expire (rd_now db) k t (rd_keys db)\<rparr>))\<rparr>"

definition ref_elapse :: "nat \<Rightarrow> ref_db \<Rightarrow> ref_db" where
  "ref_elapse n db = \<lparr>rd_keys = (\<lambda>k. case rd_keys db k of
       Some (v, Some t) \<Rightarrow> if t \<le> rd_now db + int n then None else Some (v, Some t) | r \<Rightarrow> r),
     rd_now = rd_now db + int n\<rparr>"

lemma lrange_slice_all [simp]: "lrange_slice 0 (- 1) xs = xs"
  by (simp add: lrange_slice_def Let_def)

interpretation rr: redis_clock ref_redis rd_keys rd_now ref_elapse
proof (unfold_locales, goal_cases)
  case (1 k db)
  then show ?case by (simp add: ref_redis_def split: option.split prod.split rvalue.split)
next
  case (2 k db)
  then show ?case by (simp add: ref_redis_def)
next
  case (5 db k vs)
  then show ?case by (simp add: ref_redis_def)
next
  case (6 db k xs t vs)
  then show ?case by (simp add: ref_redis_def)
next
  case (7 db k s t vs)
  then show ?case by (simp add: ref_redis_def)
next
  case (11 n db k)
  then show ?case by (simp add: ref_elapse_def)
qed (simp_all add: ref_redis_def ref_elapse_def)

section \<open>Properties\<close>

lemma ref_is_redis_clock: "redis_clock ref_redis rd_keys rd_now ref_elapse"
  by unfold_locales

lemma gen_account_not_short: "length s \<noteq> 64 \<Longrightarrow> gen_account ref_crypto d a \<noteq> s"
  using rc.hash_length unfolding gen_account_def by metis

definition demo_accounts :: "push_account list" where
  "demo_accounts = [\<lparr>accountId = ''alice'', node = ''n1'', secret = ''s1'', success = True\<rparr>]"

definition demo_db :: ref_db where
  "demo_db = \<lparr>rd_keys = (\<lambda>_. None), rd_now = 0\<rparr>"

lemma demo_separate: "keys_separate (gen_account ref_crypto ''dev'') ''dev'' demo_accounts"
  using gen_account_not_short [of "''n1''" "''dev''" "''alice''"] gen_account_not_short [of "''dev''" "''dev''" "''alice''"]
  by (auto simp: keys_separate_def demo_accounts_def)

text \<open>
  Registration. After \<^verbatim>\<open>set_push_accounts\<close> with nodes that are new to the server, the channel URI,
  the protocol version and the nodes of the device are the ones registered, every node leads to its
  account, device and secret, and a later \<^verbatim>\<open>load_push_account\<close> of the account finds node and secret.
\<close>

theorem registration_readable:
  assumes "redis_server R view now" "keys_separate (gen_account C dev) dev accs"
    and "no_string (view db) dev" "\<forall>a \<in> set accs. view db (node a) = None"
    and "redis_set_push_accounts R C dev uri ver accs db = (r, db')"
  shows "r = Inr () \<and> get_channel_uri R dev db' = (Inr (Some uri), db') \<and> get_version R dev db' = (Inr (Some ver), db')
    \<and> get_push_nodes asserts R dev db' = (Inr (map node accs), db')
    \<and> (\<forall>a \<in> set accs. get_account_id R (node a) db' = (Inr (Some (accountId a)), db')
        \<and> get_device_id R (node a) db' = (Inr (Some dev), db') \<and> get_node_secret R (node a) db' = (Inr (Some (secret a)), db')
        \<and> (\<forall>b. accountId b = accountId a \<longrightarrow>
             load_push_account R C dev b db' = (Inr (b\<lparr>node := node a, secret := secret a, success := True\<rparr>), db')))"
proof -
  let ?t = "now db + DEFAULT_ENTRY_TIMEOUT" and ?h = "gen_account C dev"
  have "\<forall>a \<in> set accs. no_string (view db) (node a)" using assms(4) by (simp add: no_string_def)
  from redis_server.set_push_accounts_run [OF assms(1-3) this, of uri ver] assms(5)
  have r: "r = Inr ()" "view db' = ks_registered ?t ?h dev uri ver accs (view db)" by auto
  note q = redis_server.registered_queries [OF assms(1,2) r(2)]
  have "load_push_account R C dev b db' = (Inr (b\<lparr>node := node a, secret := secret a, success := True\<rparr>), db')"
    if a: "a \<in> set accs" and b: "accountId b = accountId a" for a b
  proof (rule redis_server.load_push_account_known [OF assms(1)])
    show "view db' (?h (accountId b)) = Some (Rstr (node a), Some ?t)"
      using registered_key [OF assms(2) a] by (simp add: r b)
    show "view db' (node a) = Some (Rlist [accountId a, dev, secret a], Some ?t)"
      using registered_node [OF assms(2) a] assms(4) a by (simp add: r list_at_def)
  qed
  with r(1) q(1-3) q(4-6) assms(4) show ?thesis by (auto simp: list_at_def)
qed

theorem registration_readable_witness:
  "\<exists>db'. get_push_nodes True ref_redis ''dev'' db' = (Inr [''n1''], db')
     \<and> get_node_secret ref_redis ''n1'' db' = (Inr (Some ''s1''), db')"
proof -
  obtain r db' where "redis_set_push_accounts ref_redis ref_crypto ''dev'' ''u'' ''2'' demo_accounts demo_db = (r, db')"
    by fastforce
  from registration_readable [OF rr.redis_server_axioms demo_separate _ _ this, of True] show ?thesis
    by (auto simp: demo_db_def no_string_def demo_accounts_def)
qed

text \<open>
  Registering twice. When a device registers the same accounts with the same nodes again (as the
  server does, since it reuses the stored nodes), the node lists of the first registration are still
  there: every list ends up with six entries, and from then on the server finds neither account nor
  device nor secret of the node.
\<close>

theorem reregistration_loses_nodes:
  assumes "redis_server R view now" "keys_separate (gen_account C dev) dev accs"
    and "no_string (view db) dev" "\<forall>a \<in> set accs. view db (node a) = None"
    and "redis_set_push_accounts R C dev uri ver accs db = (r, db1)"
    and "redis_set_push_accounts R C dev uri' ver' accs db1 = (r', db2)" "a \<in> set accs"
  shows "r' = Inr () \<and> get_account_id R (node a) db2 = (Inr None, db2) \<and> get_device_id R (node a) db2 = (Inr None, db2)
    \<and> get_node_secret R (node a) db2 = (Inr None, db2)"
proof -
  let ?h = "gen_account C dev"
  have "\<forall>a \<in> set accs. no_string (view db) (node a)" using assms(4) by (simp add: no_string_def)
  from redis_server.set_push_accounts_run [OF assms(1-3) this, of uri ver] assms(5)
  have v1: "view db1 = ks_registered (now db + DEFAULT_ENTRY_TIMEOUT) ?h dev uri ver accs (view db)" by auto
  have n: "\<forall>a \<in> set accs. no_string (view db1) (node a)" "list_at (view db1) (node a) \<noteq> []" "no_string (view db1) dev"
    using registered_node [OF assms(2)] assms(7) by (auto simp: v1 no_string_def list_at_def)
  from redis_server.set_push_accounts_run [OF assms(1,2) n(3,1), of uri' ver'] assms(6)
  have v2: "r' = Inr ()"
    "view db2 = ks_registered (now db1 + DEFAULT_ENTRY_TIMEOUT) ?h dev uri' ver' accs (view db1)" by auto
  have "list_at (view db1) dev = uri # ver # map (\<lambda>a. ?h (accountId a)) accs" by (simp add: v1 list_at_def)
  with assms(2,7) have "node a \<notin> set (drop 2 (list_at (view db1) dev))" by (auto simp: keys_separate_def)
  from redis_server.reregistered_node_lost [OF assms(1,2) v2(2) assms(7) n(2) this] v2(1) show ?thesis by simp
qed

theorem reregistration_loses_nodes_witness:
  "\<exists>db2. get_node_secret ref_redis ''n1'' db2 = (Inr None, db2)
     \<and> (\<exists>db1 r r'. redis_set_push_accounts ref_redis ref_crypto ''dev'' ''u'' ''2'' demo_accounts demo_db = (r, db1)
          \<and> redis_set_push_accounts ref_redis ref_crypto ''dev'' ''u'' ''2'' demo_accounts db1 = (r', db2))"
proof -
  obtain r db1 where 1: "redis_set_push_accounts ref_redis ref_crypto ''dev'' ''u'' ''2'' demo_accounts demo_db = (r, db1)"
    by fastforce
  obtain r' db2 where 2: "redis_set_push_accounts ref_redis ref_crypto ''dev'' ''u'' ''2'' demo_accounts db1 = (r', db2)"
    by fastforce
  from reregistration_loses_nodes [OF rr.redis_server_axioms demo_separate _ _ 1 2, of "hd demo_accounts"]
  show ?thesis using 1 2 by (auto simp: demo_db_def no_string_def demo_accounts_def)
qed

text \<open>
  Time-outs drift apart. A device that registers and later sends \<^verbatim>\<open>set_channel_uri\<close> refreshes the
  time-out of its own list only. Once the account keys have expired while that list is still there,
  \<^verbatim>\<open>get_push_nodes\<close> fails: its assertion aborts the server, and without assertions it reads through an
  empty optional.
\<close>

theorem account_keys_expire_first:
  assumes "redis_clock R view now elapse" "keys_separate (gen_account C dev) dev accs" "accs \<noteq> []"
    and "no_string (view db) dev" "\<forall>a \<in> set accs. view db (node a) = None"
    and "redis_set_push_accounts R C dev uri ver accs db = (r1, db1)"
    and "int n < DEFAULT_ENTRY_TIMEOUT" "redis_set_channel_uri R dev uri' (elapse n db1) = (r2, db2)"
    and "int m < DEFAULT_ENTRY_TIMEOUT" "DEFAULT_ENTRY_TIMEOUT \<le> int n + int m"
  shows "get_channel_uri R dev (elapse m db2) = (Inr (Some uri'), elapse m db2)
    \<and> get_push_nodes asserts R dev (elapse m db2) = (Inl (if asserts then Assert_failed else Undefined_behaviour), elapse m db2)"
proof -
  let ?h = "gen_account C dev" and ?t = "now db + DEFAULT_ENTRY_TIMEOUT"
  have R: "redis_server R view now" using assms(1) by (simp add: redis_clock_def)
  note el = redis_clock.elapse_now [OF assms(1)] redis_clock.elapse_view [OF assms(1)]
  obtain a as where accs: "accs = a # as" using assms(3) by (cases accs) auto
  have "\<forall>a \<in> set accs. no_string (view db) (node a)" using assms(5) by (simp add: no_string_def)
  from redis_server.set_push_accounts_run [OF R assms(2,4) this, of uri ver] assms(6)
  have v1: "view db1 = ks_registered ?t ?h dev uri ver accs (view db)" "now db1 = now db" by auto
  let ?rest = "ver # map (\<lambda>a. ?h (accountId a)) accs"
  have d: "view (elapse n db1) dev = Some (Rlist (uri # ?rest), Some ?t)"
    using assms(7) by (simp add: el v1)
  have k: "view (elapse n db1) (?h (accountId a)) = Some (Rstr (node a), Some ?t)"
    using registered_key [OF assms(2), of a] assms(7) by (simp add: el v1 accs)
  from redis_server.set_channel_uri_run [OF R, of "elapse n db1" dev uri'] d assms(8)
  have v2: "view db2 = (view (elapse n db1))(dev \<mapsto> (Rlist (uri' # ?rest), Some (now db + int n + DEFAULT_ENTRY_TIMEOUT)))"
    "now db2 = now db + int n" by (auto simp: no_string_def list_at_def el v1(2))
  have "?h (accountId a) \<noteq> dev" using assms(2) by (auto simp: accs keys_separate_def)
  then have k2: "view (elapse m db2) (?h (accountId a)) = None" using assms(10) k by (simp add: el v2)
  have d2: "view (elapse m db2) dev = Some (Rlist (uri' # ?rest), Some (now db + int n + DEFAULT_ENTRY_TIMEOUT))"
    using assms(9) by (simp add: el v2)
  then have "no_string (view (elapse m db2)) dev" "list_at (view (elapse m db2)) dev = uri' # ver # ?h (accountId a) # map (\<lambda>a. ?h (accountId a)) as"
    by (simp_all add: no_string_def list_at_def accs)
  with redis_server.get_push_nodes_dangling [OF R this(2,1) k2] redis_server.get_channel_uri_run [OF R this(1)]
  show ?thesis by simp
qed

theorem account_keys_expire_first_witness:
  "\<exists>db. get_push_nodes True ref_redis ''dev'' db = (Inl Assert_failed, db)"
proof -
  obtain r1 db1 where 1: "redis_set_push_accounts ref_redis ref_crypto ''dev'' ''u'' ''2'' demo_accounts demo_db = (r1, db1)"
    by fastforce
  obtain r2 db2 where 2: "redis_set_channel_uri ref_redis ''dev'' ''v'' (ref_elapse 1000 db1) = (r2, db2)"
    by fastforce
  from account_keys_expire_first [OF ref_is_redis_clock demo_separate _ _ _ 1 _ 2, of 18143999 True]
  show ?thesis by (auto simp: demo_db_def no_string_def demo_accounts_def DEFAULT_ENTRY_TIMEOUT_def)
qed

end
