(* ===== verification/Channel_Uri.thy ===== *)
theory Channel_Uri
  imports Std_Strings
begin

text \<open>
  \<^verbatim>\<open>PushServer::is_valid_channel_uri\<close>: the regular expression of the source as a value, and what it
  accepts. The compile time matcher (ctre) is a parameter; the locale \<open>regex_lib\<close> says that it decides
  the language of the expression, and a matcher by derivatives implements it.
\<close>

section \<open>Regular expressions\<close>

text \<open>A character class is a list of ranges of character codes.\<close>

datatype regex =
    Nothing | Eps | Class "(nat \<times> nat) list" | Cat regex regex | Or regex regex | Many regex

definition in_class :: "(nat \<times> nat) list \<Rightarrow> char \<Rightarrow> bool" where
  "in_class rs c \<longleftrightarrow> (\<exists>(lo, hi) \<in> set rs. lo \<le> code_of c \<and> code_of c \<le> hi)"

inductive_set many_of :: "string set \<Rightarrow> string set" for A :: "string set" where
  many_nil: "[] \<in> many_of A"
| many_step: "u \<in> A \<Longrightarrow> v \<in> many_of A \<Longrightarrow> u @ v \<in> many_of A"

fun matches_set :: "regex \<Rightarrow> string set" where
  "matches_set Nothing = {}"
| "matches_set Eps = {[]}"
| "matches_set (Class rs) = {[c] | c. in_class rs c}"
| "matches_set (Cat r q) = {u @ v | u v. u \<in> matches_set r \<and> v \<in> matches_set q}"
| "matches_set (Or r q) = matches_set r \<union> matches_set q"
| "matches_set (Many r) = many_of (matches_set r)"

text \<open>The notations of the pattern: literal text, \<open>r?\<close>, \<open>r+\<close> and \<open>r{0,n}\<close>.\<close>

fun text_regex :: "string \<Rightarrow> regex" where
  "text_regex [] = Eps"
| "text_regex (c # cs) = Cat (Class [(code_of c, code_of c)]) (text_regex cs)"

definition optional :: "regex \<Rightarrow> regex" where
  "optional r = Or Eps r"

definition plus_regex :: "regex \<Rightarrow> regex" where
  "plus_regex r = Cat r (Many r)"

primrec up_to :: "nat \<Rightarrow> regex \<Rightarrow> regex" where
  "up_to 0 r = Eps"
| "up_to (Suc n) r = Or Eps (Cat r (up_to n r))"

locale regex_lib =
  fixes ctre_match :: "regex \<Rightarrow> string \<Rightarrow> bool"
  assumes match_iff: "ctre_match r s \<longleftrightarrow> s \<in> matches_set r"

section \<open>The pattern\<close>

definition alnum_ranges :: "(nat \<times> nat) list" where
  "alnum_ranges = [(65, 90), (97, 122), (48, 57)]"

definition label_regex :: regex where
  "label_regex = Cat (Class alnum_ranges)
     (optional (Cat (up_to 61 (Class (alnum_ranges @ [(45, 45)]))) (Class alnum_ranges)))"

text \<open>\<open>[\w%]\<close>\<close>

definition token_ranges :: "(nat \<times> nat) list" where
  "token_ranges = alnum_ranges @ [(95, 95), (37, 37)]"

definition channel_uri_regex :: regex where
  "channel_uri_regex = Cat (text_regex ''https://'') (Cat label_regex
     (Cat (text_regex ''.notify.windows.com/?token='') (plus_regex (Class token_ranges))))"

definition is_valid_channel_uri :: "(regex \<Rightarrow> string \<Rightarrow> bool) \<Rightarrow> string \<Rightarrow> bool" where
  "is_valid_channel_uri ctre_match uri = ctre_match channel_uri_regex uri"

section \<open>What the pattern accepts\<close>

text \<open>A label of a host name, and the characters of a token.\<close>

definition label_char :: "char \<Rightarrow> bool" where
  "label_char c \<longleftrightarrow> is_alnum c \<or> c = CHR ''-''"

definition host_label :: "string \<Rightarrow> bool" where
  "host_label l \<longleftrightarrow> 1 \<le> length l \<and> length l \<le> 63 \<and> is_alnum (hd l) \<and> is_alnum (last l)
     \<and> (\<forall>c \<in> set l. label_char c)"

definition token_char :: "char \<Rightarrow> bool" where
  "token_char c \<longleftrightarrow> is_alnum c \<or> c = CHR ''_'' \<or> c = CHR ''%''"

lemma code_of_inj [simp]: "code_of c = code_of d \<longleftrightarrow> c = d"
  by (simp add: code_of_def)

lemma class_alnum [simp]: "in_class alnum_ranges c \<longleftrightarrow> is_alnum c"
  by (auto simp: in_class_def alnum_ranges_def is_alnum_def is_digit_def)

lemma class_label [simp]: "in_class (alnum_ranges @ [(45, 45)]) c \<longleftrightarrow> label_char c"
proof -
  have "code_of c = 45 \<longleftrightarrow> c = CHR ''-''" using code_of_inj [of c "CHR ''-''"] by (simp add: code_of_def)
  then show ?thesis by (auto simp: in_class_def alnum_ranges_def label_char_def is_alnum_def is_digit_def)
qed

lemma class_token [simp]: "in_class token_ranges c \<longleftrightarrow> token_char c"
proof -
  have "code_of c = 95 \<longleftrightarrow> c = CHR ''_''" "code_of c = 37 \<longleftrightarrow> c = CHR ''%''"
    using code_of_inj [of c "CHR ''_''"] code_of_inj [of c "CHR ''%''"] by (simp_all add: code_of_def)
  then show ?thesis
    by (auto simp: in_class_def token_ranges_def alnum_ranges_def token_char_def is_alnum_def is_digit_def)
qed

lemma text_regex_set [simp]: "matches_set (text_regex s) = {s}"
proof (induction s)
  case (Cons c s)
  have "in_class [(code_of c, code_of c)] d \<longleftrightarrow> d = c" for d
    using code_of_inj [of c d] by (auto simp: in_class_def)
  with Cons show ?case by auto
qed simp

lemma many_chars: "many_of {[c] | c. P c} = {s. \<forall>c \<in> set s. P c}"
proof (intro set_eqI iffI)
  fix s assume "s \<in> many_of {[c] | c. P c}"
  then show "s \<in> {s. \<forall>c \<in> set s. P c}" by (induction rule: many_of.induct) auto
next
  fix s assume "s \<in> {s. \<forall>c \<in> set s. P c}"
  then show "s \<in> many_of {[c] | c. P c}"
  proof (induction s)
    case Nil
    show ?case by (rule many_nil)
  next
    case (Cons c s)
    then have "[c] @ s \<in> many_of {[c] | c. P c}" by (intro many_step) auto
    then show ?case by simp
  qed
qed

lemma cat_class: "s \<in> matches_set (Cat (Class rs) q) \<longleftrightarrow> (\<exists>c v. s = c # v \<and> in_class rs c \<and> v \<in> matches_set q)"
proof
  assume "\<exists>c v. s = c # v \<and> in_class rs c \<and> v \<in> matches_set q"
  then obtain c v where "s = [c] @ v" "in_class rs c" "v \<in> matches_set q" by auto
  then show "s \<in> matches_set (Cat (Class rs) q)" unfolding matches_set.simps by blast
qed auto

lemma cat_class_end: "s \<in> matches_set (Cat r (Class rs)) \<longleftrightarrow> (\<exists>u c. s = u @ [c] \<and> u \<in> matches_set r \<and> in_class rs c)"
  by auto

lemma cat_text: "s \<in> matches_set (Cat (text_regex t) q) \<longleftrightarrow> (\<exists>v. s = t @ v \<and> v \<in> matches_set q)"
  by auto

lemma cat_iff: "s \<in> matches_set (Cat r q) \<longleftrightarrow> (\<exists>u v. s = u @ v \<and> u \<in> matches_set r \<and> v \<in> matches_set q)"
  by auto

lemma plus_class_set: "s \<in> matches_set (plus_regex (Class rs)) \<longleftrightarrow> s \<noteq> [] \<and> (\<forall>c \<in> set s. in_class rs c)"
  unfolding plus_regex_def cat_class by (cases s) (auto simp: many_chars)

lemma up_to_class_set: "s \<in> matches_set (up_to n (Class rs)) \<longleftrightarrow> length s \<le> n \<and> (\<forall>c \<in> set s. in_class rs c)"
proof (induction n arbitrary: s)
  case (Suc n)
  have "s \<in> matches_set (up_to (Suc n) (Class rs)) \<longleftrightarrow> s = [] \<or> s \<in> matches_set (Cat (Class rs) (up_to n (Class rs)))"
    by simp
  then show ?case unfolding cat_class Suc by (cases s) auto
qed auto

lemma label_regex_iff: "s \<in> matches_set label_regex \<longleftrightarrow> (\<exists>c t. s = c # t \<and> is_alnum c
  \<and> (t = [] \<or> (\<exists>m d. t = m @ [d] \<and> length m \<le> 61 \<and> (\<forall>c \<in> set m. label_char c) \<and> is_alnum d)))"
  unfolding label_regex_def cat_class optional_def matches_set.simps(2,5) Un_iff cat_class_end up_to_class_set
    class_label class_alnum by blast

lemma label_regex_set: "s \<in> matches_set label_regex \<longleftrightarrow> host_label s"
proof
  assume "s \<in> matches_set label_regex"
  then show "host_label s" by (auto simp: label_regex_iff host_label_def label_char_def)
next
  assume s: "host_label s"
  then obtain c t where c: "s = c # t" by (cases s) (auto simp: host_label_def)
  with s show "s \<in> matches_set label_regex"
    by (cases t rule: rev_cases) (auto simp: label_regex_iff host_label_def)
qed

lemma channel_uri_regex_set:
  "uri \<in> matches_set channel_uri_regex \<longleftrightarrow> (\<exists>label token. host_label label \<and> token \<noteq> [] \<and> (\<forall>c \<in> set token. token_char c)
     \<and> uri = ''https://'' @ label @ ''.notify.windows.com/?token='' @ token)"
  unfolding channel_uri_regex_def cat_text cat_iff [of _ label_regex] label_regex_set plus_class_set class_token by blast

section \<open>A matcher by derivatives\<close>

fun has_eps :: "regex \<Rightarrow> bool" where
  "has_eps Nothing = False" | "has_eps Eps = True" | "has_eps (Class rs) = False"
| "has_eps (Cat r q) = (has_eps r \<and> has_eps q)" | "has_eps (Or r q) = (has_eps r \<or> has_eps q)"
| "has_eps (Many r) = True"

fun after :: "char \<Rightarrow> regex \<Rightarrow> regex" where
  "after c Nothing = Nothing" | "after c Eps = Nothing"
| "after c (Class rs) = (if in_class rs c then Eps else Nothing)"
| "after c (Cat r q) = (if has_eps r then Or (Cat (after c r) q) (after c q) else Cat (after c r) q)"
| "after c (Or r q) = Or (after c r) (after c q)"
| "after c (Many r) = Cat (after c r) (Many r)"

fun ref_match :: "regex \<Rightarrow> string \<Rightarrow> bool" where
  "ref_match r [] = has_eps r" | "ref_match r (c # cs) = ref_match (after c r) cs"

lemma has_eps_iff: "has_eps r \<longleftrightarrow> [] \<in> matches_set r"
  by (induction r) (auto intro: many_nil)

lemma many_of_Cons: "c # s \<in> many_of A \<longleftrightarrow> (\<exists>u v. s = u @ v \<and> c # u \<in> A \<and> v \<in> many_of A)"
proof
  have "t \<in> many_of A \<Longrightarrow> t = c # s \<Longrightarrow> \<exists>u v. s = u @ v \<and> c # u \<in> A \<and> v \<in> many_of A" for t
    by (induction rule: many_of.induct) (auto simp: append_eq_Cons_conv)
  then show "c # s \<in> many_of A \<Longrightarrow> \<exists>u v. s = u @ v \<and> c # u \<in> A \<and> v \<in> many_of A" by blast
next
  assume "\<exists>u v. s = u @ v \<and> c # u \<in> A \<and> v \<in> many_of A"
  then obtain u v where "s = u @ v" "c # u \<in> A" "v \<in> many_of A" by blast
  then show "c # s \<in> many_of A" using many_step [of "c # u" A v] by simp
qed

lemma after_iff: "s \<in> matches_set (after c r) \<longleftrightarrow> c # s \<in> matches_set r"
proof (induction r arbitrary: s)
  case (Cat r q)
  then show ?case by (auto simp: has_eps_iff Cons_eq_append_conv; metis append_Cons)
next
  case (Many r)
  then show ?case by (auto simp: many_of_Cons)
qed auto

interpretation ref_regex: regex_lib ref_match
proof
  show "ref_match r s \<longleftrightarrow> s \<in> matches_set r" for r s
    by (induction r s rule: ref_match.induct) (simp_all add: has_eps_iff after_iff)
qed

context regex_lib
begin

lemma valid_channel_uri_iff: "is_valid_channel_uri ctre_match uri \<longleftrightarrow>
  (\<exists>label token. host_label label \<and> token \<noteq> [] \<and> (\<forall>c \<in> set token. token_char c)
     \<and> uri = ''https://'' @ label @ ''.notify.windows.com/?token='' @ token)"
  by (simp add: is_valid_channel_uri_def match_iff channel_uri_regex_set)

end

section \<open>Properties\<close>

text \<open>
  C20 (Which channel URIs are accepted). Exactly the URIs \<^verbatim>\<open>https://LABEL.notify.windows.com/?token=TOKEN\<close>
  where \<^verbatim>\<open>LABEL\<close> is one host label (1 to 63 letters, digits and hyphens, no hyphen at its ends) and
  \<^verbatim>\<open>TOKEN\<close> is not empty and consists of letters, digits, underscores and percent signs.
\<close>

theorem channel_uri_accepted_iff:
  assumes "regex_lib m"
  shows "is_valid_channel_uri m uri \<longleftrightarrow> (\<exists>label token. host_label label \<and> token \<noteq> [] \<and> (\<forall>c \<in> set token. token_char c)
     \<and> uri = ''https://'' @ label @ ''.notify.windows.com/?token='' @ token)"
  using regex_lib.valid_channel_uri_iff [OF assms] .

lemma demo_label: "host_label ''db5p''"
  by (simp add: host_label_def label_char_def is_alnum_def is_digit_def code_of_def)

lemma demo_token_chars: "\<forall>c \<in> set ''AwYA%3d''. token_char c"
  by (simp add: token_char_def is_alnum_def is_digit_def code_of_def)

definition demo_uri :: string where
  "demo_uri = ''https://db5p.notify.windows.com/?token=AwYA%3d''"

lemma demo_uri_form: "\<exists>label token. host_label label \<and> token \<noteq> [] \<and> (\<forall>c \<in> set token. token_char c)
     \<and> demo_uri = ''https://'' @ label @ ''.notify.windows.com/?token='' @ token"
  by (intro exI [of _ "''db5p''"] exI [of _ "''AwYA%3d''"] conjI demo_label demo_token_chars) (simp_all add: demo_uri_def)

theorem channel_uri_accepted_iff_witness: "is_valid_channel_uri ref_match demo_uri"
  using channel_uri_accepted_iff [OF ref_regex.regex_lib_axioms, of demo_uri] demo_uri_form by blast

text \<open>The host of a URL whose scheme takes eight characters.\<close>

definition url_host :: "string \<Rightarrow> string" where
  "url_host uri = takeWhile (\<lambda>c. c \<noteq> CHR ''/'') (drop 8 uri)"

text \<open>
  Pushes only go to WNS. Whatever a client registers, an accepted channel URI uses https and its
  host is a direct sub domain of \<^verbatim>\<open>notify.windows.com\<close>, so the server never posts the WNS token of its
  \<^verbatim>\<open>Authorization\<close> header anywhere else.
\<close>

theorem channel_uri_host:
  assumes "regex_lib m" "is_valid_channel_uri m uri"
  shows "take 8 uri = ''https://'' \<and> (\<exists>label. host_label label \<and> url_host uri = label @ ''.notify.windows.com'')"
proof -
  from assms(2) obtain label token where l: "host_label label"
    "uri = ''https://'' @ label @ ''.notify.windows.com/?token='' @ token"
    unfolding regex_lib.valid_channel_uri_iff [OF assms(1)] by blast
  from l(1) have "\<forall>c \<in> set label. c \<noteq> CHR ''/''"
    by (auto simp: host_label_def label_char_def is_alnum_def is_digit_def code_of_def)
  with l show ?thesis by (simp add: url_host_def takeWhile_append)
qed

theorem channel_uri_host_witness: "\<exists>label. host_label label \<and> url_host demo_uri = label @ ''.notify.windows.com''"
proof -
  have "is_valid_channel_uri ref_match demo_uri" using ref_regex.valid_channel_uri_iff demo_uri_form by blast
  with channel_uri_host [OF ref_regex.regex_lib_axioms] show ?thesis by blast
qed

end
