(* ===== verification/Platform.thy ===== *)
theory Platform
  imports Redis_Correct Channel_Uri "HOL-Library.Multiset"
begin

text \<open>
  The libraries and services the server runs on, bundled into one record \<open>platform\<close>: JSON, Redis,
  cryptography, HTTP and the clock, libstrophe (XMPP stanzas and the connection) and the regular
  expression matcher. Every effectful
  component takes it as its first argument. The locale \<open>platform_lib\<close> collects the contracts.
\<close>

section \<open>HTTP and the clock\<close>

record 'e net_api =
  http_post :: "http_request \<Rightarrow> 'e \<Rightarrow> http_response \<times> 'e"
  clock_now :: "'e \<Rightarrow> time_point \<times> 'e"
  sleep_ms :: "nat \<Rightarrow> 'e \<Rightarrow> unit \<times> 'e"

section \<open>XMPP stanzas and the connection\<close>

text \<open>
  libstrophe's stanza functions as functions on stanza values of an abstract type \<open>'st\<close> (the sources
  never change a stanza after making it a child of another one), and the connection functions as
  operations on the outside world.
\<close>

record ('st, 'e) strophe_api =
  st_new :: 'st
  st_iq_new :: "string \<Rightarrow> string \<Rightarrow> 'st"
  st_presence_new :: 'st
  st_set_name :: "string \<Rightarrow> 'st \<Rightarrow> 'st"
  st_set_ns :: "string \<Rightarrow> 'st \<Rightarrow> 'st"
  st_set_attribute :: "string \<Rightarrow> string \<Rightarrow> 'st \<Rightarrow> 'st"
  st_set_from :: "string option \<Rightarrow> 'st \<Rightarrow> 'st"
  st_set_text :: "string \<Rightarrow> 'st \<Rightarrow> 'st"
  st_add_child :: "'st \<Rightarrow> 'st \<Rightarrow> 'st"
  st_name :: "'st \<Rightarrow> string option"
  st_attribute :: "string \<Rightarrow> 'st \<Rightarrow> string option"
  st_ns :: "'st \<Rightarrow> string option"
  st_child_by_name :: "string \<Rightarrow> 'st \<Rightarrow> 'st option"
  st_children :: "'st \<Rightarrow> 'st list"
  st_text :: "'st \<Rightarrow> string option"
  st_to_text :: "'st \<Rightarrow> string option"
  conn_is_connected :: "'e \<Rightarrow> bool \<times> 'e"
  conn_is_secured :: "'e \<Rightarrow> bool \<times> 'e"
  ctx_stop :: "'e \<Rightarrow> unit \<times> 'e"
  conn_bound_jid :: "'e \<Rightarrow> string option \<times> 'e"
  conn_send :: "'st \<Rightarrow> 'e \<Rightarrow> unit \<times> 'e"

text \<open>
  Attributes can be set on tags, that is once a stanza has a name; the name space is the attribute
  \<^verbatim>\<open>xmlns\<close>; a search by name returns the first child with that name.
\<close>

locale strophe_lib =
  fixes S :: "('st, 'e) strophe_api"
  assumes name_set [simp]: "st_name S (st_set_name S n s) = Some n"
    and name_attr [simp]: "st_name S (st_set_attribute S k v s) = st_name S s"
    and name_child [simp]: "st_name S (st_add_child S p c) = st_name S p"
    and ns_attr: "st_set_ns S v s = st_set_attribute S ''xmlns'' v s"
    and from_attr: "st_set_from S (Some j) s = st_set_attribute S ''from'' j s"
    and get_ns: "st_ns S s = st_attribute S ''xmlns'' s"
    and attr_set [simp]: "st_name S s \<noteq> None \<Longrightarrow>
      st_attribute S k (st_set_attribute S k' v s) = (if k = k' then Some v else st_attribute S k s)"
    and attr_name [simp]: "st_attribute S k (st_set_name S n s) = st_attribute S k s"
    and attr_child [simp]: "st_attribute S k (st_add_child S p c) = st_attribute S k p"
    and attr_new [simp]: "st_attribute S k (st_new S) = None"
    and children_new [simp]: "st_children S (st_new S) = []"
    and children_name [simp]: "st_children S (st_set_name S n s) = st_children S s"
    and children_attr [simp]: "st_children S (st_set_attribute S k v s) = st_children S s"
    and children_child [simp]: "st_children S (st_add_child S p c) = st_children S p @ [c]"
    and by_name: "st_child_by_name S n s = List.find (\<lambda>c. st_name S c = Some n) (st_children S s)"
    and iq_name [simp]: "st_name S (st_iq_new S ty i) = Some ''iq''"
    and iq_attr [simp]: "st_attribute S ''type'' (st_iq_new S ty i) = Some ty"
      "st_attribute S ''id'' (st_iq_new S ty i) = Some i"
    and iq_children [simp]: "st_children S (st_iq_new S ty i) = []"
    and text_value: "st_name S s \<noteq> None \<Longrightarrow> st_children S s = [st_set_text S t (st_new S)] \<Longrightarrow> t \<noteq> [] \<Longrightarrow> st_text S s = Some t"

section \<open>The platform\<close>

record ('j, 'db, 'e, 'st) platform =
  p_asserts :: bool
  p_json :: "'j json_api"
  p_redis :: "'db redis_api"
  p_crypto :: "'e crypto_api"
  p_net :: "'e net_api"
  p_strophe :: "('st, 'e) strophe_api"
  p_match :: "regex \<Rightarrow> string \<Rightarrow> bool"
  p_order :: "string list \<Rightarrow> string list"

text \<open>
  \<open>p_asserts\<close>: assertions are compiled in (a build without \<^verbatim>\<open>NDEBUG\<close>). \<open>p_order\<close>: the order in which an
  \<^verbatim>\<open>std::unordered_set\<close> or \<^verbatim>\<open>std::unordered_map\<close> visits the keys, given in the order of insertion.
\<close>

locale platform_lib =
  json_lib "p_json P" + redis_server "p_redis P" view now + crypto_lib "p_crypto P" +
  strophe_lib "p_strophe P" + regex_lib "p_match P"
  for P :: "('j, 'db, 'e, 'st) platform" and view :: "'db \<Rightarrow> keyspace" and now :: "'db \<Rightarrow> int" +
  assumes order_perm: "mset (p_order P xs) = mset xs"

section \<open>A reference platform\<close>

datatype stanza_kind = Unknown_kind | Text_kind string | Tag_kind string

datatype stanza = St stanza_kind "(string \<times> string) list" "stanza list"

fun rs_set_name :: "string \<Rightarrow> stanza \<Rightarrow> stanza" where
  "rs_set_name n (St (Tag_kind m) as cs) = St (Tag_kind n) as cs"
| "rs_set_name n (St _ as cs) = St (Tag_kind n) [] cs"

fun attr_put :: "string \<Rightarrow> string \<Rightarrow> (string \<times> string) list \<Rightarrow> (string \<times> string) list" where
  "attr_put k v [] = [(k, v)]"
| "attr_put k v ((k', v') # as) = (if k = k' then (k, v) # as else (k', v') # attr_put k v as)"

fun rs_set_attribute :: "string \<Rightarrow> string \<Rightarrow> stanza \<Rightarrow> stanza" where
  "rs_set_attribute k v (St (Tag_kind n) as cs) = St (Tag_kind n) (attr_put k v as) cs"
| "rs_set_attribute k v s = s"

fun rs_attribute :: "string \<Rightarrow> stanza \<Rightarrow> string option" where
  "rs_attribute k (St (Tag_kind n) as cs) = map_of as k" | "rs_attribute k s = None"

fun rs_name :: "stanza \<Rightarrow> string option" where
  "rs_name (St (Tag_kind n) as cs) = Some n" | "rs_name s = None"

fun rs_children :: "stanza \<Rightarrow> stanza list" where
  "rs_children (St k as cs) = cs"

fun rs_add_child :: "stanza \<Rightarrow> stanza \<Rightarrow> stanza" where
  "rs_add_child (St k as cs) c = St k as (cs @ [c])"

fun rs_set_text :: "string \<Rightarrow> stanza \<Rightarrow> stanza" where
  "rs_set_text t (St (Tag_kind n) as cs) = St (Tag_kind n) as cs"
| "rs_set_text t (St _ as cs) = St (Text_kind t) as cs"

fun rs_own_text :: "stanza \<Rightarrow> string" where
  "rs_own_text (St (Text_kind t) as cs) = t" | "rs_own_text s = []"

fun rs_text :: "stanza \<Rightarrow> string option" where
  "rs_text (St (Text_kind t) as cs) = (if t = [] then None else Some t)"
| "rs_text (St _ as cs) = (let t = concat (map rs_own_text cs) in if t = [] then None else Some t)"

fun rs_to_text :: "stanza \<Rightarrow> string" where
  "rs_to_text (St Unknown_kind as cs) = []"
| "rs_to_text (St (Text_kind t) as cs) = t"
| "rs_to_text (St (Tag_kind n) as cs) =
     ''<'' @ n @ concat (map (\<lambda>(k, v). '' '' @ k @ ''='' @ [CHR 0x22] @ v @ [CHR 0x22]) as)
     @ (if cs = [] then ''/>'' else ''>'' @ concat (map rs_to_text cs) @ ''</'' @ n @ ''>'')"

definition ref_strophe :: "(stanza, ref_env) strophe_api" where
  "ref_strophe = \<lparr>st_new = St Unknown_kind [] [],
     st_iq_new = (\<lambda>ty i. St (Tag_kind ''iq'') [(''type'', ty), (''id'', i)] []),
     st_presence_new = St (Tag_kind ''presence'') [] [],
     st_set_name = rs_set_name, st_set_ns = rs_set_attribute ''xmlns'', st_set_attribute = rs_set_attribute,
     st_set_from = (\<lambda>j s. case j of None \<Rightarrow> s | Some f \<Rightarrow> rs_set_attribute ''from'' f s),
     st_set_text = rs_set_text, st_add_child = rs_add_child, st_name = rs_name,
     st_attribute = rs_attribute, st_ns = rs_attribute ''xmlns'',
     st_child_by_name = (\<lambda>n s. List.find (\<lambda>c. rs_name c = Some n) (rs_children s)),
     st_children = rs_children, st_text = rs_text, st_to_text = (\<lambda>s. Some (rs_to_text s)),
     conn_is_connected = (\<lambda>e. (re_connected e, e)),
     conn_is_secured = (\<lambda>e. (True, e)), ctx_stop = (\<lambda>e. ((), e\<lparr>re_connected := False\<rparr>)),
     conn_bound_jid = (\<lambda>e. (Some ''push@example.org/server'', e)),
     conn_send = (\<lambda>s e. ((), e))\<rparr>"

definition ref_net :: "ref_env net_api" where
  "ref_net = \<lparr>http_post = (\<lambda>q e. case re_responses e of [] \<Rightarrow> (ref_http_timeout, e)
       | r # rs \<Rightarrow> (r, e\<lparr>re_responses := rs\<rparr>)),
     clock_now = (\<lambda>e. (re_clock e, e)),
     sleep_ms = (\<lambda>n e. ((), e\<lparr>re_clock := re_clock e + of_nat n * 1000000\<rparr>))\<rparr>"

definition ref_platform :: "bool \<Rightarrow> (json, ref_db, ref_env, stanza) platform" where
  "ref_platform asserts = \<lparr>p_asserts = asserts, p_json = ref_json, p_redis = ref_redis,
     p_crypto = ref_crypto, p_net = ref_net, p_strophe = ref_strophe,
     p_match = ref_match, p_order = (\<lambda>xs. xs)\<rparr>"

lemma ref_platform_simps [simp]:
  "p_asserts (ref_platform a) = a" "p_json (ref_platform a) = ref_json" "p_redis (ref_platform a) = ref_redis"
  "p_crypto (ref_platform a) = ref_crypto" "p_net (ref_platform a) = ref_net"
  "p_strophe (ref_platform a) = ref_strophe" "p_match (ref_platform a) = ref_match" "p_order (ref_platform a) xs = xs"
  by (simp_all add: ref_platform_def)

lemma map_of_attr_put [simp]: "map_of (attr_put k v as) = (map_of as)(k \<mapsto> v)"
  by (induction k v as rule: attr_put.induct) (auto simp: fun_eq_iff)

lemma rs_simps [simp]:
  "rs_name (rs_set_name n s) = Some n"
  "rs_name (rs_set_attribute k v s) = rs_name s"
  "rs_name (rs_add_child s c) = rs_name s"
  "rs_attribute k (rs_set_name n s) = rs_attribute k s"
  "rs_attribute k (rs_add_child s c) = rs_attribute k s"
  "rs_children (rs_set_name n s) = rs_children s"
  "rs_children (rs_set_attribute k v s) = rs_children s"
  "rs_children (rs_add_child s c) = rs_children s @ [c]"
  by (cases s; cases "case s of St kd as cs \<Rightarrow> kd"; simp)+

lemma rs_attribute_set:
  "rs_name s \<noteq> None \<Longrightarrow> rs_attribute k (rs_set_attribute k' v s) = (if k = k' then Some v else rs_attribute k s)"
  by (cases s rule: rs_name.cases) auto

lemma rs_text_single:
  "rs_name s \<noteq> None \<Longrightarrow> rs_children s = [St (Text_kind t) [] []] \<Longrightarrow> t \<noteq> [] \<Longrightarrow> rs_text s = Some t"
  by (cases s rule: rs_name.cases) auto

interpretation rst: strophe_lib ref_strophe
  by unfold_locales (auto simp: ref_strophe_def rs_attribute_set rs_text_single)

interpretation rp: platform_lib "ref_platform a" rd_keys rd_now for a
  by (intro platform_lib.intro)
     (simp_all add: rj.json_lib_axioms rr.redis_server_axioms rc.crypto_lib_axioms rst.strophe_lib_axioms ref_regex.regex_lib_axioms
        platform_lib_axioms_def)

end
