(* ===== verification/Wns_Client.thy ===== *)
theory Wns_Client
  imports Platform
begin

text \<open>
  \<^verbatim>\<open>src/wns\<close>: the access token of the Windows push notification service, where it is kept, and the
  delivery of a raw notification with its retries.
\<close>

section \<open>The token\<close>

record wns_token =
  tok_type :: string
  tok_token :: string
  tok_expires :: time_point

record wns_client =
  packetSid :: string
  clientSecret :: string
  wns_tok :: "wns_token option"
  wns_redis_set :: bool

record ('db, 'e, 'st) wns_world = "('db, 'e, 'st) world" +
  w_wns :: wns_client

definition set_token :: "wns_token option \<Rightarrow> (('db, 'e, 'st, 'z) wns_world_scheme, unit) M" where
  "set_token t = modE (\<lambda>w. w\<lparr>w_wns := (w_wns w)\<lparr>wns_tok := t\<rparr>\<rparr>)"

lemma set_token_simp [simp, effect_simps]:
  "set_token t w = (Inr (), w\<lparr>w_wns := (w_wns w)\<lparr>wns_tok := t\<rparr>\<rparr>)"
  by (simp add: set_token_def)

definition to_auth_string :: "wns_token \<Rightarrow> string" where
  "to_auth_string t = tok_type t @ '' '' @ tok_token t"

definition token_is_valid ::
  "('j, 'db, 'e, 'st) platform \<Rightarrow> wns_token \<Rightarrow> (('db, 'e, 'st, 'z) wns_world_scheme, bool) M" where
  "token_is_valid P t = bindE (on_env (askE (clock_now (p_net P)))) (\<lambda>n. ret (before n (tok_expires t)))"

definition get_expires_date ::
  "('j, 'db, 'e, 'st) platform \<Rightarrow> 64 word \<Rightarrow> (('db, 'e, 'st, 'z) wns_world_scheme, time_point) M" where
  "get_expires_date P secs = bindE (on_env (askE (clock_now (p_net P)))) (\<lambda>n. ret (add_seconds n secs))"

text \<open>Only parse errors are caught: other JSON exceptions leave the function.\<close>

definition catch_parse_error :: "('s, 'a option) M \<Rightarrow> ('s, 'a option) M" where
  "catch_parse_error m = (\<lambda>s. case m s of
     (Inl Json_parse_error, s') \<Rightarrow> (Inr None, s') | r \<Rightarrow> r)"

definition token_from_response ::
  "('j, 'db, 'e, 'st) platform \<Rightarrow> string \<Rightarrow> (('db, 'e, 'st, 'z) wns_world_scheme, wns_token option) M" where
  "token_from_response P response = catch_parse_error (
     bindE (liftR (j_parse (p_json P) response)) (\<lambda>js.
     if \<not> j_contains (p_json P) ''token_type'' js then ret None else
     bindE (liftR (at_string (p_json P) ''token_type'' js)) (\<lambda>ty.
     if \<not> j_contains (p_json P) ''access_token'' js then ret None else
     bindE (liftR (at_string (p_json P) ''access_token'' js)) (\<lambda>tok.
     if \<not> j_contains (p_json P) ''expires_in'' js then ret None else
     bindE (liftR (bindR (j_at (p_json P) ''expires_in'' js) (j_get_size_t (p_json P)))) (\<lambda>secs.
     bindE (get_expires_date P secs) (\<lambda>e.
     ret (Some \<lparr>tok_type = ty, tok_token = tok, tok_expires = e\<rparr>)))))))"

section \<open>The client\<close>

definition WnsClient_new :: "string \<Rightarrow> string \<Rightarrow> wns_client" where
  "WnsClient_new pid sec = \<lparr>packetSid = pid, clientSecret = sec, wns_tok = None, wns_redis_set = False\<rparr>"

definition is_token_valid ::
  "('j, 'db, 'e, 'st) platform \<Rightarrow> (('db, 'e, 'st, 'z) wns_world_scheme, bool) M" where
  "is_token_valid P = bindE (getE (\<lambda>w. wns_tok (w_wns w))) (\<lambda>t.
     case t of None \<Rightarrow> ret False | Some t \<Rightarrow> token_is_valid P t)"

definition set_redis_client :: "(('db, 'e, 'st, 'z) wns_world_scheme, unit) M" where
  "set_redis_client = modE (\<lambda>w. w\<lparr>w_wns := (w_wns w)\<lparr>wns_redis_set := True\<rparr>\<rparr>)"

text \<open>Using the Redis client through its pointer: an assertion first, then the pointer is followed.\<close>

definition need_redis :: "('j, 'db, 'e, 'st) platform \<Rightarrow> (('db, 'e, 'st, 'z) wns_world_scheme, unit) M" where
  "need_redis P = bindE (getE (\<lambda>w. wns_redis_set (w_wns w))) (\<lambda>b.
     thenE (assertE (p_asserts P) b) (if b then ret () else raise Undefined_behaviour))"

definition store_token_in_db ::
  "('j, 'db, 'e, 'st) platform \<Rightarrow> (('db, 'e, 'st, 'z) wns_world_scheme, unit) M" where
  "store_token_in_db P = thenE (need_redis P)
     (bindE (getE (\<lambda>w. wns_tok (w_wns w))) (\<lambda>t.
      bindE (liftR (deref t)) (\<lambda>t.
      on_db (set_wns_token (p_redis P) (tok_token t) (tok_type t) (tok_expires t)))))"

definition load_token_from_db ::
  "('j, 'db, 'e, 'st) platform \<Rightarrow> (('db, 'e, 'st, 'z) wns_world_scheme, unit) M" where
  "load_token_from_db P = thenE (need_redis P)
     (bindE (on_db (get_wns_token (p_redis P))) (\<lambda>token. case token of None \<Rightarrow> ret () | Some tok \<Rightarrow>
      bindE (on_db (get_wns_token_type (p_redis P))) (\<lambda>type. case type of None \<Rightarrow> ret () | Some ty \<Rightarrow>
      bindE (on_db (get_wns_token_expire_date (p_redis P))) (\<lambda>expires. case expires of None \<Rightarrow> ret () | Some e \<Rightarrow>
      set_token (Some \<lparr>tok_type = ty, tok_token = tok, tok_expires = e\<rparr>)))))"

text \<open>An HTTP request, recorded in the trace.\<close>

definition post ::
  "('j, 'db, 'e, 'st) platform \<Rightarrow> http_request \<Rightarrow> (('db, 'e, 'st, 'z) wns_world_scheme, http_response) M" where
  "post P q = thenE (emit (Http_post q)) (on_env (askE (http_post (p_net P) q)))"

definition TOKEN_URL :: string where
  "TOKEN_URL = ''https://login.live.com/accesstoken.srf''"

definition token_request :: "wns_client \<Rightarrow> http_request" where
  "token_request c = Post_payload TOKEN_URL
     [(''grant_type'', ''client_credentials''), (''scope'', ''notify.windows.com''),
      (''client_id'', packetSid c), (''client_secret'', clientSecret c)]"

definition request_new_token ::
  "('j, 'db, 'e, 'st) platform \<Rightarrow> (('db, 'e, 'st, 'z) wns_world_scheme, bool) M" where
  "request_new_token P = bindE (getE (\<lambda>w. token_request (w_wns w))) (\<lambda>q.
     bindE (post P q) (\<lambda>response.
     if status_code response \<noteq> 200 then ret False else
     bindE (token_from_response P (resp_text response)) (\<lambda>t.
     thenE (set_token t)
     (case t of None \<Rightarrow> ret False | Some _ \<Rightarrow> thenE (store_token_in_db P) (ret True)))))"

section \<open>Sending a raw notification\<close>

datatype response_code_action = SUCCESS | RETRY | ERROR

definition STATUS_CODE_OK :: int where "STATUS_CODE_OK = 200"
definition STATUS_CODE_BAD_REQUEST :: int where "STATUS_CODE_BAD_REQUEST = 400"
definition STATUS_CODE_UNAUTHORIZED :: int where "STATUS_CODE_UNAUTHORIZED = 401"
definition STATUS_CODE_FORBIDDEN :: int where "STATUS_CODE_FORBIDDEN = 403"
definition STATUS_CODE_NOT_FOUND :: int where "STATUS_CODE_NOT_FOUND = 404"
definition STATUS_CODE_METHOD_NOT_ALLOWED :: int where "STATUS_CODE_METHOD_NOT_ALLOWED = 405"
definition STATUS_CODE_NOT_ACCEPTABLE :: int where "STATUS_CODE_NOT_ACCEPTABLE = 406"
definition STATUS_CODE_GONE :: int where "STATUS_CODE_GONE = 410"
definition STATUS_CODE_REQUEST_ENTRY_TOO_LARGE :: int where "STATUS_CODE_REQUEST_ENTRY_TOO_LARGE = 413"
definition STATUS_CODE_INTERNAL_SERVER_ERROR :: int where "STATUS_CODE_INTERNAL_SERVER_ERROR = 500"
definition STATUS_CODE_SERVICE_UNAVAILABLE :: int where "STATUS_CODE_SERVICE_UNAVAILABLE = 503"

lemmas status_codes = STATUS_CODE_OK_def STATUS_CODE_BAD_REQUEST_def STATUS_CODE_UNAUTHORIZED_def
  STATUS_CODE_FORBIDDEN_def STATUS_CODE_NOT_FOUND_def STATUS_CODE_METHOD_NOT_ALLOWED_def
  STATUS_CODE_NOT_ACCEPTABLE_def STATUS_CODE_GONE_def STATUS_CODE_REQUEST_ENTRY_TOO_LARGE_def
  STATUS_CODE_INTERNAL_SERVER_ERROR_def STATUS_CODE_SERVICE_UNAVAILABLE_def

definition handle_response_code ::
  "('j, 'db, 'e, 'st) platform \<Rightarrow> int \<Rightarrow> (('db, 'e, 'st, 'z) wns_world_scheme, response_code_action) M" where
  "handle_response_code P code =
     (if code = STATUS_CODE_OK then ret SUCCESS
      else if code = STATUS_CODE_BAD_REQUEST then ret ERROR
      else if code = STATUS_CODE_UNAUTHORIZED then
        bindE (request_new_token P) (\<lambda>ok. if ok then ret RETRY else ret ERROR)
      else if code = STATUS_CODE_FORBIDDEN then ret ERROR
      else if code = STATUS_CODE_NOT_FOUND then ret ERROR
      else if code = STATUS_CODE_METHOD_NOT_ALLOWED then ret ERROR
      else if code = STATUS_CODE_NOT_ACCEPTABLE then ret ERROR
      else if code = STATUS_CODE_GONE then ret ERROR
      else if code = STATUS_CODE_REQUEST_ENTRY_TOO_LARGE then ret ERROR
      else if code = STATUS_CODE_INTERNAL_SERVER_ERROR then ret ERROR
      else if code = STATUS_CODE_SERVICE_UNAVAILABLE then ret RETRY
      else ret ERROR)"

text \<open>The loop with \<open>n\<close> attempts left.\<close>

primrec send_attempts ::
  "('j, 'db, 'e, 'st) platform \<Rightarrow> http_request \<Rightarrow> nat \<Rightarrow> (('db, 'e, 'st, 'z) wns_world_scheme, bool) M" where
  "send_attempts P q 0 = ret False"
| "send_attempts P q (Suc n) = bindE (post P q) (\<lambda>response.
     if \<not> error_ok response then send_attempts P q n else
     bindE (handle_response_code P (status_code response)) (\<lambda>result. case result of
       SUCCESS \<Rightarrow> ret True | RETRY \<Rightarrow> send_attempts P q n | ERROR \<Rightarrow> ret False))"

definition MAX_ATTEMPTS :: nat where
  "MAX_ATTEMPTS = 3"

definition notification_request :: "string \<Rightarrow> string \<Rightarrow> wns_token \<Rightarrow> http_request" where
  "notification_request channelUri content t = Post_body channelUri
     [(''X-WNS-Type'', ''wns/raw''), (''X-WNS-RequestForStatus'', ''true''),
      (''Content-Type'', ''application/octet-stream''), (''Authorization'', to_auth_string t)] content"

definition send_raw_notification ::
  "('j, 'db, 'e, 'st) platform \<Rightarrow> string \<Rightarrow> string \<Rightarrow> (('db, 'e, 'st, 'z) wns_world_scheme, bool) M" where
  "send_raw_notification P channelUri content =
     bindE (is_token_valid P) (\<lambda>valid.
     bindE (if valid then ret True else request_new_token P) (\<lambda>ok.
     if \<not> ok then ret False else
     bindE (getE (\<lambda>w. wns_tok (w_wns w))) (\<lambda>t.
     bindE (liftR (deref t)) (\<lambda>t.
     send_attempts P (notification_request channelUri content t) MAX_ATTEMPTS))))"

end
