(* ===== verification/Xmpp_Client.thy ===== *)
theory Xmpp_Client
  imports Wns_Client
begin

text \<open>
  \<^verbatim>\<open>src/xmpp\<close>: the XMPP client that owns the PubSub nodes and receives the push events. The thread and
  its states are in the theory of the service threads; here are the stanzas the client builds and
  sends, and the handlers libstrophe calls. The handlers of the push server are arguments.
\<close>

section \<open>The client\<close>

text \<open>\<open>xc_ctx\<close>, \<open>xc_conn\<close> and \<open>xc_redis_set\<close>: the pointer is not null.\<close>

record xmpp_client =
  xc_jid :: string
  xc_password :: string
  xc_port :: "16 word"
  xc_host :: string
  xc_ctx :: bool
  xc_conn :: bool
  xc_redis_set :: bool

record ('db, 'e, 'st) xmpp_world = "('db, 'e, 'st) wns_world" +
  w_xmpp :: xmpp_client

definition XmppClient_new :: "string \<Rightarrow> string \<Rightarrow> 16 word \<Rightarrow> string \<Rightarrow> xmpp_client" where
  "XmppClient_new j pw pt h = \<lparr>xc_jid = j, xc_password = pw, xc_port = pt, xc_host = h,
     xc_ctx = False, xc_conn = False, xc_redis_set = False\<rparr>"

definition on_xmpp :: "(xmpp_client \<Rightarrow> xmpp_client) \<Rightarrow> (('db, 'e, 'st, 'z) xmpp_world_scheme, unit) M" where
  "on_xmpp f = modE (\<lambda>w. w\<lparr>w_xmpp := f (w_xmpp w)\<rparr>)"

lemma on_xmpp_simp [simp, effect_simps]: "on_xmpp f w = (Inr (), w\<lparr>w_xmpp := f (w_xmpp w)\<rparr>)"
  by (simp add: on_xmpp_def)

definition xmpp_set_redis_client :: "(('db, 'e, 'st, 'z) xmpp_world_scheme, unit) M" where
  "xmpp_set_redis_client = on_xmpp (\<lambda>c. c\<lparr>xc_redis_set := True\<rparr>)"

definition get_jid :: "('db, 'e, 'st, 'z) xmpp_world_scheme \<Rightarrow> string" where
  "get_jid w = xc_jid (w_xmpp w)"

text \<open>An assertion that a pointer is set, before it is used.\<close>

definition need_conn :: "('j, 'db, 'e, 'st) platform \<Rightarrow> (('db, 'e, 'st, 'z) xmpp_world_scheme, unit) M" where
  "need_conn P = bindE (getE (\<lambda>w. xc_conn (w_xmpp w))) (\<lambda>b.
     thenE (assertE (p_asserts P) b) (if b then ret () else raise Undefined_behaviour))"

definition need_ctx :: "('j, 'db, 'e, 'st) platform \<Rightarrow> (('db, 'e, 'st, 'z) xmpp_world_scheme, unit) M" where
  "need_ctx P = bindE (getE (\<lambda>w. xc_ctx (w_xmpp w))) (\<lambda>b.
     thenE (assertE (p_asserts P) b) (if b then ret () else raise Undefined_behaviour))"

text \<open>\<^verbatim>\<open>xmpp_send(conn, stanza)\<close>, recorded in the trace.\<close>

definition xmpp_send :: "('j, 'db, 'e, 'st) platform \<Rightarrow> 'st \<Rightarrow> (('db, 'e, 'st, 'z) xmpp_world_scheme, unit) M" where
  "xmpp_send P st = thenE (emit (Xmpp_send st)) (on_env (askE (conn_send (p_strophe P) st)))"

definition bound_jid :: "('j, 'db, 'e, 'st) platform \<Rightarrow> (('db, 'e, 'st, 'z) xmpp_world_scheme, string option) M" where
  "bound_jid P = on_env (askE (conn_bound_jid (p_strophe P)))"

section \<open>Stanzas\<close>

definition PUBSUB_NS :: string where "PUBSUB_NS = ''http://jabber.org/protocol/pubsub''"
definition PUBSUB_EVENT_NS :: string where "PUBSUB_EVENT_NS = ''http://jabber.org/protocol/pubsub#event''"
definition PUSH_NS :: string where "PUSH_NS = ''urn:xmpp:push:0''"

lemmas xmpp_namespaces = PUBSUB_NS_def PUBSUB_EVENT_NS_def PUSH_NS_def

definition xmpp_field_new :: "('st, 'e) strophe_api \<Rightarrow> string \<Rightarrow> string option \<Rightarrow> string \<Rightarrow> 'st" where
  "xmpp_field_new S var type value =
     (let field = st_set_attribute S ''var'' var (st_set_name S ''field'' (st_new S));
          field = (case type of None \<Rightarrow> field | Some t \<Rightarrow> st_set_attribute S ''type'' t field);
          valueText = st_set_text S value (st_new S);
          valueNode = st_add_child S (st_set_name S ''value'' (st_new S)) valueText
      in st_add_child S field valueNode)"

definition xmpp_pep_publish_options_new :: "('st, 'e) strophe_api \<Rightarrow> 'st" where
  "xmpp_pep_publish_options_new S =
     (let x = st_set_attribute S ''type'' ''submit''
                (st_set_ns S ''jabber:x:data'' (st_set_name S ''x'' (st_new S)));
          x = st_add_child S x (xmpp_field_new S ''FORM_TYPE'' (Some ''hidden'')
                ''http://jabber.org/protocol/pubsub#publish-options'');
          x = st_add_child S x (xmpp_field_new S ''pubsub#access_model'' (Some ''list-single'') ''open'');
          x = st_add_child S x (xmpp_field_new S ''pubsub#publish_model'' (Some ''list-single'') ''open'');
          x = st_add_child S x (xmpp_field_new S ''pubsub#deliver_notifications'' (Some ''boolean'') ''1'');
          x = st_add_child S x (xmpp_field_new S ''pubsub#deliver_payloads'' (Some ''boolean'') ''1'');
          x = st_add_child S x (xmpp_field_new S ''pubsub#persist_items'' (Some ''boolean'') ''1'');
          x = st_add_child S x (xmpp_field_new S ''pubsub#subscribe'' (Some ''boolean'') ''1'');
          x = st_add_child S x (xmpp_field_new S ''pubsub#presence_based_delivery'' (Some ''boolean'') ''0'');
          x = st_add_child S x (xmpp_field_new S ''pubsub#notification_type'' (Some ''list-single'') ''normal'')
      in st_add_child S (st_set_name S ''publish-options'' (st_new S)) x)"

text \<open>The empty \<^verbatim>\<open>pubsub\<close> element and the \<^verbatim>\<open>iq\<close> around it, which every request shares.\<close>

definition pubsub_new :: "('st, 'e) strophe_api \<Rightarrow> 'st" where
  "pubsub_new S = st_set_ns S PUBSUB_NS (st_set_name S ''pubsub'' (st_new S))"

definition pep_iq ::
  "('j, 'db, 'e, 'st) platform \<Rightarrow> string \<Rightarrow> 'st \<Rightarrow> (('db, 'e, 'st, 'z) xmpp_world_scheme, 'st) M" where
  "pep_iq P i pubSub = thenE (need_ctx P) (bindE (bound_jid P) (\<lambda>from.
     ret (st_add_child (p_strophe P) (st_set_from (p_strophe P) from (st_iq_new (p_strophe P) ''set'' i)) pubSub)))"

definition xmpp_pep_delete_new ::
  "('j, 'db, 'e, 'st) platform \<Rightarrow> string \<Rightarrow> string \<Rightarrow> (('db, 'e, 'st, 'z) xmpp_world_scheme, 'st) M" where
  "xmpp_pep_delete_new P nd i = (let S = p_strophe P;
     deleteNode = st_set_attribute S ''node'' nd (st_set_name S ''delete'' (st_new S))
   in pep_iq P i (st_add_child S (pubsub_new S) deleteNode))"

definition xmpp_pep_subscribe_new ::
  "('j, 'db, 'e, 'st) platform \<Rightarrow> string \<Rightarrow> string \<Rightarrow> (('db, 'e, 'st, 'z) xmpp_world_scheme, 'st) M" where
  "xmpp_pep_subscribe_new P nd i = bindE (getE get_jid) (\<lambda>jid. let S = p_strophe P;
     subscribe = st_set_attribute S ''jid'' (c_str jid)
       (st_set_attribute S ''node'' nd (st_set_name S ''subscribe'' (st_new S)))
   in pep_iq P i (st_add_child S (pubsub_new S) subscribe))"

definition xmpp_pep_unsubscribe_new ::
  "('j, 'db, 'e, 'st) platform \<Rightarrow> string \<Rightarrow> string \<Rightarrow> (('db, 'e, 'st, 'z) xmpp_world_scheme, 'st) M" where
  "xmpp_pep_unsubscribe_new P nd i = bindE (getE get_jid) (\<lambda>jid. let S = p_strophe P;
     unsubscribe = st_set_attribute S ''jid'' (c_str jid)
       (st_set_attribute S ''node'' nd (st_set_name S ''unsubscribe'' (st_new S)))
   in pep_iq P i (st_add_child S (pubsub_new S) unsubscribe))"

definition xmpp_pep_publish_empty_new ::
  "('j, 'db, 'e, 'st) platform \<Rightarrow> string \<Rightarrow> string \<Rightarrow> (('db, 'e, 'st, 'z) xmpp_world_scheme, 'st) M" where
  "xmpp_pep_publish_empty_new P nd i = (let S = p_strophe P;
     notification = st_set_ns S PUSH_NS (st_set_name S ''notification'' (st_new S));
     item = st_add_child S (st_set_name S ''item'' (st_new S)) notification;
     publish = st_add_child S (st_set_attribute S ''node'' nd (st_set_name S ''publish'' (st_new S))) item;
     pubSub = st_add_child S (pubsub_new S) publish
   in pep_iq P i (st_add_child S pubSub (xmpp_pep_publish_options_new S)))"

section \<open>Operations\<close>

definition is_connected :: "('j, 'db, 'e, 'st) platform \<Rightarrow> (('db, 'e, 'st, 'z) xmpp_world_scheme, bool) M" where
  "is_connected P = on_env (askE (conn_is_connected (p_strophe P)))"

definition setup_push_node ::
  "('j, 'db, 'e, 'st) platform \<Rightarrow> string \<Rightarrow> (('db, 'e, 'st, 'z) xmpp_world_scheme, bool) M" where
  "setup_push_node P nd = thenE (need_conn P) (bindE (is_connected P) (\<lambda>c.
     if \<not> c then ret False else
     bindE (xmpp_pep_publish_empty_new P (c_str nd) ''somePepCreateId'') (\<lambda>iq.
     thenE (xmpp_send P iq)
     (bindE (xmpp_pep_subscribe_new P (c_str nd) ''someSubscribeId'') (\<lambda>iq.
      thenE (xmpp_send P iq) (ret True))))))"

definition delete_push_node ::
  "('j, 'db, 'e, 'st) platform \<Rightarrow> string \<Rightarrow> (('db, 'e, 'st, 'z) xmpp_world_scheme, unit) M" where
  "delete_push_node P nd = thenE (need_conn P) (bindE (is_connected P) (\<lambda>c.
     if \<not> c then ret () else
     bindE (xmpp_pep_unsubscribe_new P (c_str nd) ''someUnsubscribeId'') (\<lambda>iq.
     thenE (xmpp_send P iq)
     (bindE (xmpp_pep_delete_new P (c_str nd) ''someDeleteId'') (\<lambda>iq. xmpp_send P iq)))))"

definition send_presence_online ::
  "('j, 'db, 'e, 'st) platform \<Rightarrow> (('db, 'e, 'st, 'z) xmpp_world_scheme, unit) M" where
  "send_presence_online P = bindE (bound_jid P) (\<lambda>from.
     xmpp_send P (st_set_from (p_strophe P) from (st_presence_new (p_strophe P))))"

text \<open>The events libstrophe reports for the connection.\<close>

datatype xmpp_conn_event = XMPP_CONN_CONNECT | XMPP_CONN_RAW_CONNECT | XMPP_CONN_DISCONNECT | XMPP_CONN_FAIL

definition conn_handler ::
  "('j, 'db, 'e, 'st) platform \<Rightarrow> xmpp_conn_event \<Rightarrow> (('db, 'e, 'st, 'z) xmpp_world_scheme, unit) M" where
  "conn_handler P ev = (if ev = XMPP_CONN_CONNECT then
       bindE (on_env (askE (conn_is_secured (p_strophe P)))) (\<lambda>_. send_presence_online P)
     else on_env (askE (ctx_stop (p_strophe P))))"

text \<open>The handler for \<^verbatim>\<open>iq\<close> stanzas only logs them; its result keeps it registered.\<close>

definition iq_handler :: "'st \<Rightarrow> (('db, 'e, 'st, 'z) xmpp_world_scheme, int) M" where
  "iq_handler stanza = ret 1"

section \<open>Push events\<close>

text \<open>\<^verbatim>\<open>std::strcmp\<close> with a null pointer is undefined.\<close>

definition get_items_node :: "('st, 'e) strophe_api \<Rightarrow> 'st \<Rightarrow> exn + 'st option" where
  "get_items_node S stanza = (case st_child_by_name S ''event'' stanza of
     None \<Rightarrow> Inr None
   | Some event \<Rightarrow> bindR (deref (st_ns S event)) (\<lambda>eventNs.
       if eventNs = PUBSUB_EVENT_NS then Inr (st_child_by_name S ''items'' event) else Inr None))"

definition get_notification_node :: "('st, 'e) strophe_api \<Rightarrow> 'st \<Rightarrow> exn + 'st option" where
  "get_notification_node S itemsNode = (case st_child_by_name S ''item'' itemsNode of
     None \<Rightarrow> Inr None
   | Some itemNode \<Rightarrow> (case st_child_by_name S ''notification'' itemNode of
       None \<Rightarrow> Inr None
     | Some notificationNode \<Rightarrow> bindR (deref (st_ns S notificationNode)) (\<lambda>ns.
         if ns = PUSH_NS then Inr (Some notificationNode) else Inr None)))"

text \<open>
  One counter of the summary: the field's value, or the old count when there is none or it is not a
  number. Only \<^verbatim>\<open>std::invalid_argument\<close> is caught.
\<close>

definition read_count :: "('st, 'e) strophe_api \<Rightarrow> 'st \<Rightarrow> int \<Rightarrow> exn + int" where
  "read_count S fieldNode old = (case st_child_by_name S ''value'' fieldNode of
     None \<Rightarrow> Inr old
   | Some valueNode \<Rightarrow> (case st_text S valueNode of
       None \<Rightarrow> Inr old
     | Some valueStr \<Rightarrow> (case stoi valueStr of
         Inl e \<Rightarrow> if e = Invalid_argument then Inr old else Inl e
       | Inr i \<Rightarrow> Inr i)))"

text \<open>The loop over the fields, with the counts so far; a text child has no name.\<close>

fun read_summary :: "('st, 'e) strophe_api \<Rightarrow> 'st list \<Rightarrow> int \<times> int \<Rightarrow> exn + int \<times> int" where
  "read_summary S [] (mc, psc) = Inr (mc, psc)"
| "read_summary S (fieldNode # rest) (mc, psc) =
     bindR (deref (st_name S fieldNode)) (\<lambda>name.
     if name \<noteq> ''field'' then read_summary S rest (mc, psc) else
     (case st_attribute S ''var'' fieldNode of
        None \<Rightarrow> read_summary S rest (mc, psc)
      | Some var \<Rightarrow>
          if var = ''message-count'' then
            bindR (read_count S fieldNode mc) (\<lambda>mc. read_summary S rest (mc, psc))
          else if var = ''pending-subscription-count'' then
            bindR (read_count S fieldNode psc) (\<lambda>psc. read_summary S rest (mc, psc))
          else read_summary S rest (mc, psc)))"

definition summary_of :: "('st, 'e) strophe_api \<Rightarrow> 'st \<Rightarrow> exn + int \<times> int" where
  "summary_of S notificationNode = (case st_child_by_name S ''x'' notificationNode of
     None \<Rightarrow> Inr (0, 0) | Some xNode \<Rightarrow> read_summary S (st_children S xNode) (0, 0))"

definition send_v2_push ::
  "('j, 'db, 'e, 'st) platform \<Rightarrow> (string \<Rightarrow> string \<Rightarrow> int \<Rightarrow> int \<Rightarrow> (('db, 'e, 'st, 'z) xmpp_world_scheme, unit) M) \<Rightarrow>
   string \<Rightarrow> string \<Rightarrow> 'st \<Rightarrow> (('db, 'e, 'st, 'z) xmpp_world_scheme, unit) M" where
  "send_v2_push P on_v2 acc nd notificationNode =
     bindE (liftR (summary_of (p_strophe P) notificationNode)) (\<lambda>(mc, psc). on_v2 nd acc mc psc)"

definition send_v1_push ::
  "('j, 'db, 'e, 'st) platform \<Rightarrow> (string \<Rightarrow> string \<Rightarrow> (('db, 'e, 'st, 'z) xmpp_world_scheme, unit) M) \<Rightarrow>
   string \<Rightarrow> string \<Rightarrow> 'st \<Rightarrow> (('db, 'e, 'st, 'z) xmpp_world_scheme, unit) M" where
  "send_v1_push P on_v1 acc nd notificationNode =
     (let S = p_strophe P;
          accountNode = st_set_attribute S ''id'' (c_str acc) (st_set_name S ''account'' (st_new S));
          notificationNode = st_add_child S notificationNode accountNode
      in case st_to_text S notificationNode of
           None \<Rightarrow> ret ()
         | Some msg \<Rightarrow> if 4096 < length msg then on_v1 nd ''New message received!'' else on_v1 nd msg)"

definition message_handler ::
  "('j, 'db, 'e, 'st) platform \<Rightarrow> (string \<Rightarrow> string \<Rightarrow> (('db, 'e, 'st, 'z) xmpp_world_scheme, unit) M) \<Rightarrow>
   (string \<Rightarrow> string \<Rightarrow> int \<Rightarrow> int \<Rightarrow> (('db, 'e, 'st, 'z) xmpp_world_scheme, unit) M) \<Rightarrow>
   'st \<Rightarrow> (('db, 'e, 'st, 'z) xmpp_world_scheme, int) M" where
  "message_handler P on_v1 on_v2 stanza = (let S = p_strophe P; R = p_redis P in
     bindE (liftR (deref (st_attribute S ''from'' stanza))) (\<lambda>from.
     bindE (getE get_jid) (\<lambda>jid.
     thenE
       (if from \<noteq> c_str jid then ret () else
        bindE (liftR (get_items_node S stanza)) (\<lambda>items. case items of
          None \<Rightarrow> ret ()
        | Some itemsNode \<Rightarrow>
            bindE (liftR (get_notification_node S itemsNode)) (\<lambda>notification. case notification of
              None \<Rightarrow> ret ()
            | Some notificationNode \<Rightarrow>
                bindE (liftR (deref (st_attribute S ''node'' itemsNode))) (\<lambda>nd.
                bindE (getE (\<lambda>w. xc_redis_set (w_xmpp w))) (\<lambda>rc.
                thenE (assertE (p_asserts P) rc)
                (thenE (if rc then ret () else raise Undefined_behaviour)
                (bindE (on_db (get_account_id R nd)) (\<lambda>acc. case acc of
                   None \<Rightarrow> ret ()
                 | Some acc \<Rightarrow>
                     bindE (on_db (get_device_id R nd)) (\<lambda>dev.
                     bindE (case dev of None \<Rightarrow> ret None | Some d \<Rightarrow> on_db (get_version R d)) (\<lambda>ver.
                     if ver = Some ''2'' then send_v2_push P on_v2 acc nd notificationNode
                     else send_v1_push P on_v1 acc nd notificationNode))))))))))
       (ret 1))))"

section \<open>Connection set-up\<close>

text \<open>The context and the connection are made and released; their options are libstrophe's business.\<close>

definition setup_xmpp :: "(('db, 'e, 'st, 'z) xmpp_world_scheme, unit) M" where
  "setup_xmpp = thenE (on_xmpp (\<lambda>c. c\<lparr>xc_ctx := True\<rparr>)) (on_xmpp (\<lambda>c. c\<lparr>xc_conn := True\<rparr>))"

definition cleanup_xmpp :: "('j, 'db, 'e, 'st) platform \<Rightarrow> (('db, 'e, 'st, 'z) xmpp_world_scheme, unit) M" where
  "cleanup_xmpp P = thenE (need_conn P) (thenE (need_ctx P)
     (thenE (on_xmpp (\<lambda>c. c\<lparr>xc_conn := False\<rparr>)) (on_xmpp (\<lambda>c. c\<lparr>xc_ctx := False\<rparr>))))"

end
