(* ===== verification/Parser.thy ===== *)
theory Parser
  imports Messages
begin

text \<open>
  \<^verbatim>\<open>src/tcp/messages/Parser.cpp\<close>: the dispatch on the \<^verbatim>\<open>action\<close> of a received document, the
  serialisation of every message class, and the correctness of both: what is accepted is well formed,
  and what the server or a client sends is parsed back to the message that was sent.
\<close>

section \<open>The parser\<close>

text \<open>What \<^verbatim>\<open>std::make_shared<...>(j)\<close> may put behind the \<^verbatim>\<open>AbstractMessage\<close> pointer.\<close>

datatype any_message =
    Msg_SetChannelUri set_channel_uri_message
  | Msg_SetPushAccounts set_push_accounts_message
  | Msg_RequestTestPush request_test_push_message
  | Msg_Success abstract_response_message
  | Msg_SuccessSetPushAccounts success_set_push_accounts_message
  | Msg_Error error_response_message

fun msg_is_valid :: "any_message \<Rightarrow> bool" where
  "msg_is_valid (Msg_SetChannelUri m) = isValid m"
| "msg_is_valid (Msg_SetPushAccounts m) = isValid m"
| "msg_is_valid (Msg_RequestTestPush m) = isValid m"
| "msg_is_valid (Msg_Success m) = isValid m"
| "msg_is_valid (Msg_SuccessSetPushAccounts m) = isValid m"
| "msg_is_valid (Msg_Error m) = isValid m"

fun msg_get_type :: "any_message \<Rightarrow> message_type" where
  "msg_get_type (Msg_SetChannelUri m) = SET_CHANNEL_URI_MESSAGE"
| "msg_get_type (Msg_SetPushAccounts m) = SET_PUSH_ACCOUNT_MESSAGE"
| "msg_get_type (Msg_RequestTestPush m) = REQUEST_TEST_PUSH_MESSAGE"
| "msg_get_type (Msg_Success m) = SUCCESS_RESPONSE_MESSAGE"
| "msg_get_type (Msg_SuccessSetPushAccounts m) = SUCCESS_SET_PUSH_ACCOUNT_MESSAGE"
| "msg_get_type (Msg_Error m) = ERROR_RESPONSE_MESSAGE"

text \<open>
  The chain of \<^verbatim>\<open>if\<close>s that constructs the message; \<open>Inr None\<close> is the null pointer. The inner
  option tells an early \<^verbatim>\<open>return nullptr\<close> (\<open>Inl\<close>) from falling through.
\<close>

definition construct_message :: "'j json_api \<Rightarrow> 'j \<Rightarrow> string \<Rightarrow> exn + unit + any_message option" where
  "construct_message J j act =
     (if act = SET_CHANNEL_URI_ACTION then
        bindR (SetChannelUriMessage_of_json J j) (\<lambda>m. Inr (Inr (Some (Msg_SetChannelUri m))))
      else if act = SET_PUSH_ACCOUNTS_ACTION then
        bindR (SetPushAccountsMessage_of_json J j) (\<lambda>m. Inr (Inr (Some (Msg_SetPushAccounts m))))
      else if act = REQUEST_TEST_PUSH_ACTION then
        bindR (RequestTestPushMessage_of_json J j) (\<lambda>m. Inr (Inr (Some (Msg_RequestTestPush m))))
      else if act = RESPONSE_ACTION then
        (if \<not> j_contains J ''status'' j then Inr (Inl ()) else
         bindR (at_int J ''status'' j) (\<lambda>st.
         if st = SUCCESS_STATUS then
           (if j_contains J ''accounts'' j then
              bindR (SuccessSetPushAccountsMessage_of_json J j)
                (\<lambda>m. Inr (Inr (Some (Msg_SuccessSetPushAccounts m))))
            else bindR (SuccessResponseMessage_of_json J j) (\<lambda>m. Inr (Inr (Some (Msg_Success m)))))
         else if st = ERROR_STATUS then
           bindR (ErrorResponseMessage_of_json J j) (\<lambda>m. Inr (Inr (Some (Msg_Error m))))
         else Inr (Inl ())))
      else Inr (Inr None))"

definition parse_json :: "bool \<Rightarrow> 'j json_api \<Rightarrow> 'j \<Rightarrow> exn + any_message option" where
  "parse_json asserts J j =
     (if \<not> j_contains J ''action'' j then Inr None else
      bindR (at_string J ''action'' j) (\<lambda>act.
      if act = [] then Inr None else
      bindR (construct_message J j act) (\<lambda>r. case r of
        Inl _ \<Rightarrow> Inr None
      | Inr result \<Rightarrow>
          bindR (case result of
              Some m \<Rightarrow> if msg_is_valid m then Inr () else bindR (j_dump J j) (\<lambda>_. Inr ())
            | None \<Rightarrow> bindR (j_dump J j) (\<lambda>_. Inr ())) (\<lambda>_.
          bindR (assertR asserts (case result of None \<Rightarrow> True | Some m \<Rightarrow> msg_is_valid m)) (\<lambda>_.
          Inr result)))))"

definition parse :: "bool \<Rightarrow> 'j json_api \<Rightarrow> string \<Rightarrow> exn + any_message option" where
  "parse asserts J s = (case bindR (j_parse J s) (parse_json asserts J) of
     Inr r \<Rightarrow> Inr r
   | Inl e \<Rightarrow> if is_exception e then Inr None else Inl e)"

text \<open>The serialisation the virtual \<^verbatim>\<open>to_json\<close> selects.\<close>

fun msg_to_json :: "bool \<Rightarrow> 'j json_api \<Rightarrow> any_message \<Rightarrow> 'j \<Rightarrow> exn + 'j" where
  "msg_to_json asserts J (Msg_SetChannelUri m) j = SetChannelUriMessage_to_json asserts J m j"
| "msg_to_json asserts J (Msg_SetPushAccounts m) j = SetPushAccountsMessage_to_json asserts J m j"
| "msg_to_json asserts J (Msg_RequestTestPush m) j = RequestTestPushMessage_to_json asserts J m j"
| "msg_to_json asserts J (Msg_Success m) j = AbstractResponseMessage_to_json asserts J m j"
| "msg_to_json asserts J (Msg_SuccessSetPushAccounts m) j = SuccessSetPushAccountsMessage_to_json asserts J m j"
| "msg_to_json asserts J (Msg_Error m) j = ErrorResponseMessage_to_json asserts J m j"

section \<open>Messages as they are sent\<close>

text \<open>
  The messages the sending constructors make, from any arguments, and those among them with the fields the
  receiving side insists on.
\<close>

inductive constructed :: "any_message \<Rightarrow> bool" where
  "constructed (Msg_SetChannelUri (SetChannelUriMessage_new u d))"
| "constructed (Msg_SetPushAccounts (SetPushAccountsMessage_new accs d))"
| "constructed (Msg_RequestTestPush (RequestTestPushMessage_new d))"
| "constructed (Msg_Success SuccessResponseMessage_new)"
| "constructed (Msg_SuccessSetPushAccounts (SuccessSetPushAccountsMessage_new pas jid))"
| "constructed (Msg_Error (ErrorResponseMessage_new e))"

definition wf_push_account :: "push_account \<Rightarrow> bool" where
  "wf_push_account a \<longleftrightarrow> accountId a \<noteq> [] \<and> node a \<noteq> [] \<and> secret a \<noteq> []"

inductive sendable :: "any_message \<Rightarrow> bool" where
  send_uri: "u \<noteq> [] \<Longrightarrow> d \<noteq> [] \<Longrightarrow> sendable (Msg_SetChannelUri (SetChannelUriMessage_new u d))"
| send_accounts: "\<forall>a \<in> set accs. a \<noteq> [] \<Longrightarrow> d \<noteq> [] \<Longrightarrow>
    sendable (Msg_SetPushAccounts (SetPushAccountsMessage_new accs d))"
| send_test: "d \<noteq> [] \<Longrightarrow> sendable (Msg_RequestTestPush (RequestTestPushMessage_new d))"
| send_success: "sendable (Msg_Success SuccessResponseMessage_new)"
| send_success_accounts: "accs \<noteq> [] \<Longrightarrow> \<forall>a \<in> set accs. wf_push_account a \<Longrightarrow> jid \<noteq> [] \<Longrightarrow>
    sendable (Msg_SuccessSetPushAccounts (SuccessSetPushAccountsMessage_new accs jid))"
| send_error: "sendable (Msg_Error (ErrorResponseMessage_new e))"

section \<open>Round trips\<close>

lemmas message_consts = VERSION_def RESPONSE_ACTION_def SUCCESS_STATUS_def ERROR_STATUS_def
  SET_CHANNEL_URI_ACTION_def SET_PUSH_ACCOUNTS_ACTION_def REQUEST_TEST_PUSH_ACTION_def
  PUSH_ACTION_def TEST_PUSH_ACTION_def

lemmas message_news = AbstractMessage_new_def AbstractMessage_default_def
  AbstractResponseMessage_new_def AbstractResponseMessage_default_def SuccessResponseMessage_new_def
  ErrorResponseMessage_new_def SetChannelUriMessage_new_def SetPushAccountsMessage_new_def
  RequestTestPushMessage_new_def SuccessSetPushAccountsMessage_new_def PushMessage_new_def
  TestPushMessage_new_def abstract_message.extend_def abstract_response_message.extend_def

context json_lib
begin

text \<open>The document a message's base class writes, on any null or object.\<close>

definition base_doc :: "'z abstract_message_scheme \<Rightarrow> 'j \<Rightarrow> 'j" where
  "base_doc m j = put ''action'' (j_of_string J (action m)) (put ''version'' (j_of_int J (version m)) j)"

lemma base_to_json [simp]:
  "settable J j \<Longrightarrow> isValid m \<Longrightarrow> AbstractMessage_to_json asserts J m j = Inr (base_doc m j)"
  by (simp add: AbstractMessage_to_json_def base_doc_def)

lemma base_doc_settable [simp]: "settable J j \<Longrightarrow> settable J (base_doc m j)"
  by (simp add: base_doc_def)

lemma base_doc_contains [simp]:
  "settable J j \<Longrightarrow> j_contains J k (base_doc m j) \<longleftrightarrow> k = ''action'' \<or> k = ''version'' \<or> j_contains J k j"
  by (auto simp: base_doc_def)

lemma base_doc_at [simp]:
  "settable J j \<Longrightarrow> j_at J ''action'' (base_doc m j) = Inr (j_of_string J (action m))"
  "settable J j \<Longrightarrow> j_at J ''version'' (base_doc m j) = Inr (j_of_int J (version m))"
  by (simp_all add: base_doc_def)

text \<open>Any document that carries a current version and an action is accepted by the base class.\<close>

lemma base_from_json:
  assumes "j_contains J ''version'' j" "j_at J ''version'' j = Inr (j_of_int J VERSION)"
    and "j_contains J ''action'' j" "j_at J ''action'' j = Inr (j_of_string J a)" "a \<noteq> []"
  shows "AbstractMessage_from_json J j m = Inr (True, m\<lparr>version := VERSION, action := a\<rparr>)"
  using assms by (simp add: AbstractMessage_from_json_def field_defs index_at VERSION_def Let_def)

lemma response_from_json:
  assumes "j_contains J ''version'' j" "j_at J ''version'' j = Inr (j_of_int J VERSION)"
    and "j_contains J ''action'' j" "j_at J ''action'' j = Inr (j_of_string J a)" "a \<noteq> []"
    and "j_contains J ''status'' j" "j_at J ''status'' j = Inr (j_of_int J s)" "s = 0 \<or> s = 1"
  shows "AbstractResponseMessage_from_json J j m =
    Inr (True, m\<lparr>version := VERSION, action := a, status := s\<rparr>)"
  using assms by (auto simp: AbstractResponseMessage_from_json_def base_from_json field_defs index_at Let_def)

lemma read_account_ids_ok:
  "\<forall>a \<in> set accs. a \<noteq> [] \<Longrightarrow>
   read_account_ids J (map (\<lambda>a. j_object J [(''account_id'', j_of_string J a)]) accs) acc0
     = Inr (True, acc0 @ accs)"
  by (induction accs arbitrary: acc0) (auto simp: field_defs index_at object_contains object_at)

text \<open>A push account survives its serialisation.\<close>

lemma push_account_to_json:
  "\<exists>j. PushAccount_to_json J a (j_null J) = Inr j \<and>
       (wf_push_account a \<longrightarrow> PushAccount_from_json J j = Inr (Some a))"
  by (cases a) (auto simp: PushAccount_to_json_def PushAccount_from_json_def wf_push_account_def
      at_string_def PushAccount_new_def doc_simps)

lemma push_accounts_json_ok:
  "\<exists>js. push_accounts_json J accs = Inr js \<and> length js = length accs \<and>
     ((\<forall>a \<in> set accs. wf_push_account a) \<longrightarrow> (\<forall>acc0. read_push_accounts J js acc0 = Inr (True, acc0 @ accs)))"
proof (induction accs)
  case Nil
  then show ?case by simp
next
  case (Cons a accs)
  obtain j where j: "PushAccount_to_json J a (j_null J) = Inr j"
    "wf_push_account a \<Longrightarrow> PushAccount_from_json J j = Inr (Some a)"
    using push_account_to_json by blast
  from Cons obtain js where "push_accounts_json J accs = Inr js" "length js = length accs"
    "(\<forall>a \<in> set accs. wf_push_account a) \<Longrightarrow> \<forall>acc0. read_push_accounts J js acc0 = Inr (True, acc0 @ accs)"
    by blast
  with j show ?case by auto
qed

lemmas parse_defs = parse_json_def construct_message_def set_valid_def field_defs
  message_news message_consts doc_simps

lemma set_channel_uri_roundtrip:
  assumes "u \<noteq> []" "d \<noteq> []"
  shows "\<exists>j. SetChannelUriMessage_to_json asserts J (SetChannelUriMessage_new u d) (j_null J) = Inr j
    \<and> parse_json asserts J j = Inr (Some (Msg_SetChannelUri (SetChannelUriMessage_new u d)))"
  using assms by (simp add: parse_defs base_from_json SetChannelUriMessage_to_json_def
      SetChannelUriMessage_of_json_def SetChannelUriMessage_from_json_def)

lemma request_test_push_roundtrip:
  assumes "d \<noteq> []"
  shows "\<exists>j. RequestTestPushMessage_to_json asserts J (RequestTestPushMessage_new d) (j_null J) = Inr j
    \<and> parse_json asserts J j = Inr (Some (Msg_RequestTestPush (RequestTestPushMessage_new d)))"
  using assms by (simp add: parse_defs base_from_json RequestTestPushMessage_to_json_def
      RequestTestPushMessage_of_json_def RequestTestPushMessage_from_json_def)

lemma set_push_accounts_roundtrip:
  assumes "\<forall>a \<in> set accs. a \<noteq> []" "d \<noteq> []"
  shows "\<exists>j. SetPushAccountsMessage_to_json asserts J (SetPushAccountsMessage_new accs d) (j_null J) = Inr j
    \<and> parse_json asserts J j = Inr (Some (Msg_SetPushAccounts (SetPushAccountsMessage_new accs d)))"
  using assms by (simp add: parse_defs base_from_json SetPushAccountsMessage_to_json_def
      SetPushAccountsMessage_of_json_def SetPushAccountsMessage_from_json_def read_account_ids_ok)

lemma success_roundtrip:
  "\<exists>j. AbstractResponseMessage_to_json asserts J SuccessResponseMessage_new (j_null J) = Inr j
    \<and> parse_json asserts J j = Inr (Some (Msg_Success SuccessResponseMessage_new))"
  by (simp add: parse_defs response_from_json AbstractResponseMessage_to_json_def
      SuccessResponseMessage_of_json_def)

lemma error_roundtrip:
  "\<exists>j. ErrorResponseMessage_to_json asserts J (ErrorResponseMessage_new e) (j_null J) = Inr j
    \<and> parse_json asserts J j = Inr (Some (Msg_Error (ErrorResponseMessage_new e)))"
  by (simp add: parse_defs response_from_json ErrorResponseMessage_to_json_def
      AbstractResponseMessage_to_json_def ErrorResponseMessage_of_json_def ErrorResponseMessage_from_json_def)

lemma success_accounts_roundtrip:
  assumes "accs \<noteq> []" "\<forall>a \<in> set accs. wf_push_account a" "jid \<noteq> []"
  shows "\<exists>j. SuccessSetPushAccountsMessage_to_json asserts J (SuccessSetPushAccountsMessage_new accs jid) (j_null J) = Inr j
    \<and> parse_json asserts J j = Inr (Some (Msg_SuccessSetPushAccounts (SuccessSetPushAccountsMessage_new accs jid)))"
proof -
  obtain js where js: "push_accounts_json J accs = Inr js"
    "\<forall>acc0. read_push_accounts J js acc0 = Inr (True, acc0 @ accs)"
    using push_accounts_json_ok [of accs] assms(2) by blast
  with assms show ?thesis
    by (simp add: parse_defs response_from_json SuccessSetPushAccountsMessage_to_json_def
        AbstractResponseMessage_to_json_def SuccessSetPushAccountsMessage_of_json_def
        SuccessSetPushAccountsMessage_from_json_def)
qed

text \<open>The answer to an empty registration is not accepted.\<close>

lemma success_accounts_empty:
  "\<exists>j m. SuccessSetPushAccountsMessage_to_json asserts J (SuccessSetPushAccountsMessage_new [] jid) (j_null J) = Inr j
    \<and> construct_message J j RESPONSE_ACTION = Inr (Inr (Some m)) \<and> \<not> msg_is_valid m"
  by (simp add: parse_defs response_from_json SuccessSetPushAccountsMessage_to_json_def message_consts
      AbstractResponseMessage_to_json_def SuccessSetPushAccountsMessage_of_json_def
      SuccessSetPushAccountsMessage_from_json_def)

lemmas roundtrips = set_channel_uri_roundtrip request_test_push_roundtrip set_push_accounts_roundtrip
  success_roundtrip error_roundtrip success_accounts_roundtrip

lemma sendable_roundtrip:
  "sendable m \<Longrightarrow> \<exists>j. msg_to_json asserts J m (j_null J) = Inr j \<and> parse_json asserts J j = Inr (Some m)"
  by (induction rule: sendable.induct) (simp_all add: roundtrips)

lemma push_message_roundtrip:
  assumes "a \<noteq> []" "- (2 ^ 31) \<le> mc" "mc < 2 ^ 31" "- (2 ^ 31) \<le> psc" "psc < 2 ^ 31"
  shows "\<exists>j. PushMessage_to_json asserts J (PushMessage_new a mc psc) (j_null J) = Inr j
    \<and> PushMessage_of_json J j = Inr (PushMessage_new a mc psc)"
  using assms by (simp add: parse_defs base_from_json PushMessage_to_json_def
      PushMessage_of_json_def PushMessage_from_json_def)

lemma test_push_roundtrip:
  "\<exists>j. AbstractMessage_to_json asserts J TestPushMessage_new (j_null J) = Inr j
    \<and> TestPushMessage_of_json J j = Inr TestPushMessage_new"
  by (simp add: parse_defs base_from_json TestPushMessage_of_json_def)

end

section \<open>What the parser accepts\<close>

definition wf_base :: "string \<Rightarrow> 'z abstract_message_scheme \<Rightarrow> bool" where
  "wf_base act m \<longleftrightarrow> 1 \<le> version m \<and> version m \<le> VERSION \<and> action m = act"

text \<open>The fields of a message the server acts on.\<close>

fun well_formed :: "any_message \<Rightarrow> bool" where
  "well_formed (Msg_SetChannelUri m) \<longleftrightarrow> wf_base SET_CHANNEL_URI_ACTION m \<and> uri_channelUri m \<noteq> [] \<and> uri_deviceId m \<noteq> []"
| "well_formed (Msg_SetPushAccounts m) \<longleftrightarrow> wf_base SET_PUSH_ACCOUNTS_ACTION m \<and> acc_deviceId m \<noteq> []
     \<and> (\<forall>a \<in> set (acc_accounts m). a \<noteq> [])"
| "well_formed (Msg_RequestTestPush m) \<longleftrightarrow> wf_base REQUEST_TEST_PUSH_ACTION m \<and> test_deviceId m \<noteq> []"
| "well_formed (Msg_Success m) \<longleftrightarrow> wf_base RESPONSE_ACTION m \<and> status m = SUCCESS_STATUS"
| "well_formed (Msg_SuccessSetPushAccounts m) \<longleftrightarrow> wf_base RESPONSE_ACTION m \<and> status m = SUCCESS_STATUS
     \<and> ssp_accounts m \<noteq> [] \<and> (\<forall>a \<in> set (ssp_accounts m). wf_push_account a) \<and> ssp_pushBareJid m \<noteq> []"
| "well_formed (Msg_Error m) \<longleftrightarrow> wf_base RESPONSE_ACTION m \<and> status m = ERROR_STATUS"

lemma base_accepts:
  "AbstractMessage_from_json J j m = Inr (True, m') \<Longrightarrow>
   \<exists>v a. m' = m\<lparr>version := v, action := a\<rparr> \<and> 1 \<le> v \<and> v \<le> VERSION \<and> j_contains J ''action'' j
     \<and> field_string J ''action'' j = Inr a"
proof -
  assume "AbstractMessage_from_json J j m = Inr (True, m')"
  then obtain v a where "m' = m\<lparr>version := v, action := a\<rparr>" "1 \<le> v" "v \<le> VERSION" "j_contains J ''action'' j"
    "field_string J ''action'' j = Inr a"
    by (auto simp: AbstractMessage_from_json_def bindR_eq_Inr Let_def linorder_not_less split: if_split_asm)
  then show ?thesis by (intro exI [of _ v] exI [of _ a]) simp
qed

lemma response_accepts:
  "AbstractResponseMessage_from_json J j m = Inr (True, m') \<Longrightarrow>
   \<exists>v a s. m' = m\<lparr>version := v, action := a, status := s\<rparr> \<and> 1 \<le> v \<and> v \<le> VERSION
     \<and> j_contains J ''action'' j \<and> field_string J ''action'' j = Inr a
     \<and> j_contains J ''status'' j \<and> field_int J ''status'' j = Inr s"
proof -
  assume "AbstractResponseMessage_from_json J j m = Inr (True, m')"
  then obtain m1 s where "AbstractMessage_from_json J j m = Inr (True, m1)" "m' = m1\<lparr>status := s\<rparr>"
    and s: "j_contains J ''status'' j" "field_int J ''status'' j = Inr s"
    by (auto simp: AbstractResponseMessage_from_json_def bindR_eq_Inr Let_def split: if_split_asm)
  with base_accepts [OF this(1)] obtain v a where "m' = m\<lparr>version := v, action := a, status := s\<rparr>"
    "1 \<le> v" "v \<le> VERSION" "j_contains J ''action'' j" "field_string J ''action'' j = Inr a" by auto
  with s show ?thesis by (intro exI [of _ v] exI [of _ a] exI [of _ s]) simp
qed

lemma read_account_ids_accepts:
  "read_account_ids J as accs = Inr (True, accs') \<Longrightarrow> \<forall>a \<in> set accs. a \<noteq> [] \<Longrightarrow> \<forall>a \<in> set accs'. a \<noteq> []"
proof (induction as arbitrary: accs)
  case Nil
  then show ?case by simp
next
  case (Cons a as)
  from Cons.prems(1) obtain jid where "jid \<noteq> []" "read_account_ids J as (accs @ [jid]) = Inr (True, accs')"
    by (auto simp: bindR_eq_Inr split: if_split_asm)
  with Cons.prems(2) show ?case by (intro Cons.IH [of "accs @ [jid]"]) auto
qed

lemma push_account_accepts: "PushAccount_from_json J j = Inr (Some a) \<Longrightarrow> wf_push_account a"
  unfolding PushAccount_from_json_def
  by (clarsimp simp: bindR_eq_Inr wf_push_account_def PushAccount_new_def split: if_split_asm)

lemma read_push_accounts_accepts:
  "read_push_accounts J as accs = Inr (True, accs') \<Longrightarrow> \<forall>a \<in> set accs. wf_push_account a \<Longrightarrow>
   \<forall>a \<in> set accs'. wf_push_account a"
proof (induction as arbitrary: accs)
  case Nil
  then show ?case by simp
next
  case (Cons a as)
  from Cons.prems(1) obtain acc where "PushAccount_from_json J a = Inr (Some acc)"
    "read_push_accounts J as (accs @ [acc]) = Inr (True, accs')"
    by (auto simp: bindR_eq_Inr split: option.split_asm)
  with Cons.prems(2) show ?case
    by (intro Cons.IH [of "accs @ [acc]"]) (auto simp: push_account_accepts)
qed

lemma set_valid_accepts:
  "set_valid r = Inr m \<Longrightarrow> isValid m \<Longrightarrow> \<exists>m'. r = Inr (True, m') \<and> m = m'\<lparr>isValid := True\<rparr>"
  by (auto simp: set_valid_def bindR_eq_Inr)

context json_lib
begin

text \<open>The \<^verbatim>\<open>action\<close> and the \<^verbatim>\<open>status\<close> a message carries are those the parser dispatched on.\<close>

lemma field_at:
  "j_contains J k j \<Longrightarrow> field_string J k j = at_string J k j"
  "j_contains J k j \<Longrightarrow> field_int J k j = at_int J k j"
  by (simp_all add: field_defs index_at)

lemma set_channel_uri_accepts:
  assumes "SetChannelUriMessage_of_json J j = Inr m" "isValid m" "at_string J ''action'' j = Inr SET_CHANNEL_URI_ACTION"
  shows "well_formed (Msg_SetChannelUri m)"
proof -
  from set_valid_accepts [OF assms(1) [unfolded SetChannelUriMessage_of_json_def] assms(2)] obtain m' where
    m': "SetChannelUriMessage_from_json J j (abstract_message.extend AbstractMessage_default \<lparr>uri_channelUri = [], uri_deviceId = []\<rparr>) = Inr (True, m')"
    "m = m'\<lparr>isValid := True\<rparr>" by blast
  with assms(3) show ?thesis
    unfolding SetChannelUriMessage_from_json_def
    by (auto simp: bindR_eq_Inr Let_def wf_base_def field_at split: if_split_asm dest!: base_accepts)
qed

lemma request_test_push_accepts:
  assumes "RequestTestPushMessage_of_json J j = Inr m" "isValid m" "at_string J ''action'' j = Inr REQUEST_TEST_PUSH_ACTION"
  shows "well_formed (Msg_RequestTestPush m)"
proof -
  from set_valid_accepts [OF assms(1) [unfolded RequestTestPushMessage_of_json_def] assms(2)] obtain m' where
    m': "RequestTestPushMessage_from_json J j (abstract_message.extend AbstractMessage_default \<lparr>test_deviceId = []\<rparr>) = Inr (True, m')"
    "m = m'\<lparr>isValid := True\<rparr>" by blast
  with assms(3) show ?thesis
    unfolding RequestTestPushMessage_from_json_def
    by (auto simp: bindR_eq_Inr Let_def wf_base_def field_at split: if_split_asm dest!: base_accepts)
qed

lemma set_push_accounts_accepts:
  assumes "SetPushAccountsMessage_of_json J j = Inr m" "isValid m" "at_string J ''action'' j = Inr SET_PUSH_ACCOUNTS_ACTION"
  shows "well_formed (Msg_SetPushAccounts m)"
proof -
  from set_valid_accepts [OF assms(1) [unfolded SetPushAccountsMessage_of_json_def] assms(2)] obtain m' where
    m': "SetPushAccountsMessage_from_json J j (abstract_message.extend AbstractMessage_default \<lparr>acc_accounts = [], acc_deviceId = []\<rparr>) = Inr (True, m')"
    "m = m'\<lparr>isValid := True\<rparr>" by blast
  then obtain as v where "read_account_ids J (j_items J as) [] = Inr (True, acc_accounts m)"
    "acc_deviceId m \<noteq> []" "version m = v" "1 \<le> v" "v \<le> VERSION"
    "j_contains J ''action'' j" "field_string J ''action'' j = Inr (action m)"
    unfolding SetPushAccountsMessage_from_json_def
    by (auto simp: bindR_eq_Inr Let_def message_news split: if_split_asm dest!: base_accepts)
  with assms(3) read_account_ids_accepts [of J "j_items J as" "[]"] show ?thesis
    by (simp add: wf_base_def field_at)
qed

lemma success_accepts:
  assumes "SuccessResponseMessage_of_json J j = Inr m" "isValid m"
    "at_string J ''action'' j = Inr RESPONSE_ACTION" "at_int J ''status'' j = Inr SUCCESS_STATUS"
  shows "well_formed (Msg_Success m)"
proof -
  from set_valid_accepts [OF assms(1) [unfolded SuccessResponseMessage_of_json_def] assms(2)] obtain m' where
    "AbstractResponseMessage_from_json J j AbstractResponseMessage_default = Inr (True, m')"
    "m = m'\<lparr>isValid := True\<rparr>" by blast
  with assms(3,4) show ?thesis
    by (auto simp: wf_base_def field_at dest!: response_accepts)
qed

lemma error_accepts:
  assumes "ErrorResponseMessage_of_json J j = Inr m" "isValid m"
    "at_string J ''action'' j = Inr RESPONSE_ACTION" "at_int J ''status'' j = Inr ERROR_STATUS"
  shows "well_formed (Msg_Error m)"
proof -
  from set_valid_accepts [OF assms(1) [unfolded ErrorResponseMessage_of_json_def] assms(2)] obtain m' where
    "ErrorResponseMessage_from_json J j (abstract_response_message.extend AbstractResponseMessage_default \<lparr>err_text = []\<rparr>)
       = Inr (True, m')"
    "m = m'\<lparr>isValid := True\<rparr>" by blast
  with assms(3,4) show ?thesis
    unfolding ErrorResponseMessage_from_json_def
    by (auto simp: bindR_eq_Inr wf_base_def field_at split: if_split_asm dest!: response_accepts)
qed

lemma success_accounts_accepts:
  assumes "SuccessSetPushAccountsMessage_of_json J j = Inr m" "isValid m"
    "at_string J ''action'' j = Inr RESPONSE_ACTION" "at_int J ''status'' j = Inr SUCCESS_STATUS"
  shows "well_formed (Msg_SuccessSetPushAccounts m)"
proof -
  from set_valid_accepts [OF assms(1) [unfolded SuccessSetPushAccountsMessage_of_json_def] assms(2)] obtain m' where
    "SuccessSetPushAccountsMessage_from_json J j (SuccessSetPushAccountsMessage_new [] []) = Inr (True, m')"
    "m = m'\<lparr>isValid := True\<rparr>" by blast
  then obtain as where "read_push_accounts J (j_items J as) [] = Inr (True, ssp_accounts m)"
    "ssp_accounts m \<noteq> []" "ssp_pushBareJid m \<noteq> []" "1 \<le> version m" "version m \<le> VERSION"
    "j_contains J ''action'' j" "field_string J ''action'' j = Inr (action m)"
    "j_contains J ''status'' j" "field_int J ''status'' j = Inr (status m)"
    unfolding SuccessSetPushAccountsMessage_from_json_def
    by (auto simp: bindR_eq_Inr Let_def message_news split: if_split_asm dest!: response_accepts)
  with assms(3,4) read_push_accounts_accepts [of J "j_items J as" "[]"] show ?thesis
    by (simp add: wf_base_def field_at)
qed

lemmas accepts = set_channel_uri_accepts request_test_push_accepts set_push_accounts_accepts
  success_accepts error_accepts success_accounts_accepts

lemma returned_message:
  "(case r of Inl u \<Rightarrow> Inr None | Inr x \<Rightarrow> bindR (f x) (\<lambda>_. bindR (g x) (\<lambda>_. Inr x))) = Inr (Some m) \<Longrightarrow>
   r = Inr (Some m)"
  by (cases r) (auto simp: bindR_eq_Inr)

lemma parse_json_accepts:
  assumes "parse_json asserts J j = Inr (Some m)" "msg_is_valid m"
  shows "well_formed m"
proof -
  from assms(1) obtain act where act: "at_string J ''action'' j = Inr act"
    and c: "construct_message J j act = Inr (Inr (Some m))"
    unfolding parse_json_def
    by (auto simp: bindR_eq_Inr simp del: assertR_simps split: if_split_asm dest!: returned_message)
  from c act assms(2) show ?thesis
    unfolding construct_message_def
    by (auto simp: bindR_eq_Inr simp del: well_formed.simps intro: accepts split: if_split_asm)
qed

end

text \<open>Whatever the library throws, \<^verbatim>\<open>parse\<close> itself lets no C++ exception out.\<close>

lemma parse_no_exception: "parse asserts J s = Inl e \<Longrightarrow> \<not> is_exception e"
  by (auto simp: parse_def split: sum.split_asm if_split_asm)

section \<open>The wire format as a codec\<close>

text \<open>
  What a client may rely on: a message that satisfies \<open>ok\<close> can be encoded, its document decodes to
  it, and a document decodes to one message only.
\<close>

locale message_codec = json_lib J for J :: "'j json_api" +
  fixes encode :: "'m \<Rightarrow> 'j \<Rightarrow> exn + 'j"
    and decodes :: "'j \<Rightarrow> 'm \<Rightarrow> bool"
    and ok :: "'m \<Rightarrow> bool"
  assumes roundtrip: "ok m \<Longrightarrow> \<exists>j. encode m (j_null J) = Inr j \<and> decodes j m"
    and decodes_unique: "decodes j m \<Longrightarrow> decodes j m' \<Longrightarrow> m = m'"
begin

lemma encode_decodes: "ok m \<Longrightarrow> encode m (j_null J) = Inr j \<Longrightarrow> decodes j m"
  using roundtrip [of m] by auto

lemma encode_total: "ok m \<Longrightarrow> \<exists>j. encode m (j_null J) = Inr j"
  using roundtrip [of m] by auto

lemma encode_injective:
  "ok m \<Longrightarrow> ok m' \<Longrightarrow> encode m (j_null J) = encode m' (j_null J) \<Longrightarrow> m = m'"
  using roundtrip [of m] roundtrip [of m'] decodes_unique by auto

end

sublocale json_lib \<subseteq> client_codec: message_codec J "msg_to_json asserts J"
    "\<lambda>j m. parse_json asserts J j = Inr (Some m)" sendable for asserts
  by unfold_locales (auto simp: sendable_roundtrip)

definition push_counts_ok :: "push_message \<Rightarrow> bool" where
  "push_counts_ok m \<longleftrightarrow> push_accountId m \<noteq> [] \<and> m = PushMessage_new (push_accountId m) (messageCount m) (pendingSubscriptionCount m)
     \<and> - (2 ^ 31) \<le> messageCount m \<and> messageCount m < 2 ^ 31
     \<and> - (2 ^ 31) \<le> pendingSubscriptionCount m \<and> pendingSubscriptionCount m < 2 ^ 31"

sublocale json_lib \<subseteq> push_codec: message_codec J "PushMessage_to_json asserts J"
    "\<lambda>j m. PushMessage_of_json J j = Inr m" push_counts_ok for asserts
proof (unfold_locales, goal_cases)
  case (1 m)
  then show ?case unfolding push_counts_ok_def using push_message_roundtrip by metis
next
  case (2 j m m')
  then show ?case by simp
qed

interpretation rj_client: message_codec ref_json "msg_to_json True ref_json"
    "\<lambda>j m. parse_json True ref_json j = Inr (Some m)" sendable
  by (rule rj.client_codec.message_codec_axioms)

section \<open>Properties\<close>

lemma constructed_valid: "constructed m \<Longrightarrow> msg_is_valid m"
  by (induction rule: constructed.induct) (simp_all add: message_news)

lemma sendable_constructed: "sendable m \<Longrightarrow> constructed m"
  by (induction rule: sendable.induct) (rule constructed.intros)+

lemma constructed_sendable: "constructed m \<Longrightarrow> well_formed m \<Longrightarrow> sendable m"
proof -
  have f: "uri_channelUri (SetChannelUriMessage_new u d) = u" "uri_deviceId (SetChannelUriMessage_new u d) = d"
    "acc_accounts (SetPushAccountsMessage_new accs d) = accs" "acc_deviceId (SetPushAccountsMessage_new accs d) = d"
    "test_deviceId (RequestTestPushMessage_new d) = d" "ssp_accounts (SuccessSetPushAccountsMessage_new pas jid) = pas"
    "ssp_pushBareJid (SuccessSetPushAccountsMessage_new pas jid) = jid" for u d accs pas jid
    by (simp_all add: message_news)
  assume "constructed m" "well_formed m"
  then show "sendable m" by (induction rule: constructed.induct) (auto intro!: sendable.intros simp: f)
qed



text \<open>
  C23 (What gets past the parser). A text that is parsed to a valid message is one of the six kinds, with
  the action of its kind, a protocol version the server knows and no required field empty.
\<close>

theorem accepted_message_well_formed:
  assumes "json_lib J" "parse asserts J s = Inr (Some m)" "msg_is_valid m"
  shows "well_formed m"
proof -
  from assms(2) obtain j where "parse_json asserts J j = Inr (Some m)"
    by (auto simp: parse_def bindR_eq_Inr split: sum.split_asm if_split_asm)
  then show ?thesis using json_lib.parse_json_accepts [OF assms(1)] assms(3) by blast
qed

theorem accepted_message_well_formed_witness:
  "well_formed (Msg_RequestTestPush (RequestTestPushMessage_new ''dev''))"
proof -
  have "sendable (Msg_RequestTestPush (RequestTestPushMessage_new ''dev''))" by (rule send_test) simp
  then obtain j where "parse_json True ref_json j = Inr (Some (Msg_RequestTestPush (RequestTestPushMessage_new ''dev'')))"
    using rj.sendable_roundtrip by blast
  then have "parse True ref_json (print_json j) = Inr (Some (Msg_RequestTestPush (RequestTestPushMessage_new ''dev'')))"
    by (simp add: parse_def) (simp add: ref_json_def)
  from accepted_message_well_formed [OF rj.json_lib_axioms this] show ?thesis by (simp add: message_news)
qed

text \<open>
  No exception leaves the parser. Whatever text arrives, \<^verbatim>\<open>parse\<close> returns a message or the null
  pointer, or ends in a failed assertion or undefined behaviour; a C++ exception never gets out.
\<close>

theorem parse_total:
  "(\<exists>r. parse asserts J s = Inr r) \<or> parse asserts J s = Inl Assert_failed \<or> parse asserts J s = Inl Undefined_behaviour"
proof (cases "parse asserts J s")
  case (Inl e)
  from parse_no_exception [OF this] Inl show ?thesis by (cases e) auto
qed simp

text \<open>
  The empty registration. The server's answer to a registration of no accounts at all is a message
  its own protocol rejects: the parser finds an invalid message, since the list of accounts is empty.
\<close>

theorem empty_accounts_response_invalid:
  assumes "json_lib J"
  shows "\<exists>j m. SuccessSetPushAccountsMessage_to_json asserts J (SuccessSetPushAccountsMessage_new [] jid) (j_null J) = Inr j
    \<and> construct_message J j RESPONSE_ACTION = Inr (Inr (Some m)) \<and> \<not> msg_is_valid m"
  by (rule json_lib.success_accounts_empty [OF assms])

theorem empty_accounts_response_invalid_witness:
  "\<exists>j m. SuccessSetPushAccountsMessage_to_json True ref_json (SuccessSetPushAccountsMessage_new [] ''push@example.org'') Jnull = Inr j
    \<and> construct_message ref_json j RESPONSE_ACTION = Inr (Inr (Some m)) \<and> \<not> msg_is_valid m"
proof -
  have "j_null ref_json = Jnull" by (simp add: ref_json_def)
  then show ?thesis using empty_accounts_response_invalid [OF rj.json_lib_axioms, of True "''push@example.org''"] by simp
qed

end
