(* ===== verification/Push_Server.thy ===== *)
theory Push_Server
  imports Xmpp_Client Parser
begin

text \<open>
  \<^verbatim>\<open>src/server/PushServer.cpp\<close> and \<^verbatim>\<open>src/tcp/ClientSslSession.cpp\<close>: what the server does with a message
  of a client, with an event of the XMPP server and to keep its WNS token. What a session sends is
  recorded in the trace.
\<close>

section \<open>The session of a client\<close>

text \<open>The text and its terminating NUL go out together.\<close>

definition session_send_text :: "session_id \<Rightarrow> string \<Rightarrow> (('db, 'e, 'st, 'z) world_scheme, unit) M" where
  "session_send_text sn msg = emit (Session_send sn (msg @ [CHR 0x00]))"

definition session_send ::
  "('j, 'db, 'e, 'st) platform \<Rightarrow> session_id \<Rightarrow> 'j \<Rightarrow> (('db, 'e, 'st, 'z) world_scheme, unit) M" where
  "session_send P sn j = bindE (liftR (j_dump (p_json P) j)) (session_send_text sn)"

definition respond_with_success ::
  "('j, 'db, 'e, 'st) platform \<Rightarrow> session_id \<Rightarrow> (('db, 'e, 'st, 'z) world_scheme, unit) M" where
  "respond_with_success P sn =
     bindE (liftR (AbstractResponseMessage_to_json (p_asserts P) (p_json P) SuccessResponseMessage_new (j_null (p_json P))))
       (session_send P sn)"

definition respond_with_error ::
  "('j, 'db, 'e, 'st) platform \<Rightarrow> session_id \<Rightarrow> string \<Rightarrow> (('db, 'e, 'st, 'z) world_scheme, unit) M" where
  "respond_with_error P sn msg =
     bindE (liftR (ErrorResponseMessage_to_json (p_asserts P) (p_json P) (ErrorResponseMessage_new msg) (j_null (p_json P))))
       (session_send P sn)"

section \<open>Test pushes\<close>

definition test_push_text :: "('j, 'db, 'e, 'st) platform \<Rightarrow> string option \<Rightarrow> exn + string" where
  "test_push_text P ver = (if ver = Some ''2'' then
       bindR (AbstractMessage_to_json (p_asserts P) (p_json P) TestPushMessage_new (j_null (p_json P))) (j_dump (p_json P))
     else Inr ''<test/>'')"

definition send_test_push ::
  "('j, 'db, 'e, 'st) platform \<Rightarrow> session_id \<Rightarrow> string \<Rightarrow> (('db, 'e, 'st, 'z) xmpp_world_scheme, unit) M" where
  "send_test_push P sn deviceId =
     bindE (on_db (get_channel_uri (p_redis P) deviceId)) (\<lambda>channelUri. case channelUri of
       None \<Rightarrow> respond_with_error P sn ''Device id unknown.''
     | Some uri \<Rightarrow>
         bindE (on_db (get_version (p_redis P) deviceId)) (\<lambda>ver.
         bindE (liftR (test_push_text P ver)) (\<lambda>msg.
         bindE (send_raw_notification P uri msg) (\<lambda>result.
         if result then respond_with_success P sn
         else respond_with_error P sn ''Failed to send test push. Something went wrong...''))))"

section \<open>Registering push accounts\<close>

text \<open>
  A \<^verbatim>\<open>std::unordered_set\<close> as the list of its elements in the order of insertion, a
  \<^verbatim>\<open>std::unordered_map\<close> from nodes to pointers into the vector of accounts as an association list from
  nodes to positions.
\<close>

definition set_insert :: "string \<Rightarrow> string list \<Rightarrow> string list" where
  "set_insert x xs = (if x \<in> set xs then xs else xs @ [x])"

fun map_assign :: "string \<Rightarrow> nat \<Rightarrow> (string \<times> nat) list \<Rightarrow> (string \<times> nat) list" where
  "map_assign k v [] = [(k, v)]"
| "map_assign k v ((k', v') # m) = (if k' = k then (k, v) # m else (k', v') # map_assign k v m)"

record accounts_state =
  as_delete :: "string list"
  as_add :: "(string \<times> nat) list"
  as_accounts :: "push_account list"

definition add_account ::
  "('j, 'db, 'e, 'st) platform \<Rightarrow> string \<Rightarrow> string \<Rightarrow> accounts_state \<Rightarrow> (('db, 'e, 'st, 'z) xmpp_world_scheme, accounts_state) M" where
  "add_account P deviceId acc st =
     bindE (on_env (PushAccount_create (p_asserts P) (p_crypto P) acc)) (\<lambda>a.
     bindE (on_db (load_push_account (p_redis P) (p_crypto P) deviceId a)) (\<lambda>a.
     let st = st\<lparr>as_accounts := as_accounts st @ [a]\<rparr>; i = length (as_accounts st) - 1 in
     ret (if node a \<in> set (as_delete st) then st\<lparr>as_delete := removeAll (node a) (as_delete st)\<rparr>
          else st\<lparr>as_add := map_assign (node a) i (as_add st)\<rparr>)))"

fun add_accounts ::
  "('j, 'db, 'e, 'st) platform \<Rightarrow> string \<Rightarrow> string list \<Rightarrow> accounts_state \<Rightarrow> (('db, 'e, 'st, 'z) xmpp_world_scheme, accounts_state) M" where
  "add_accounts P deviceId [] st = ret st"
| "add_accounts P deviceId (acc # accs) st = bindE (add_account P deviceId acc st) (add_accounts P deviceId accs)"

text \<open>The last loop: the flag of each new account tells whether its node could be set up.\<close>

fun setup_nodes ::
  "('j, 'db, 'e, 'st) platform \<Rightarrow> (string \<times> nat) list \<Rightarrow> push_account list \<Rightarrow> (('db, 'e, 'st, 'z) xmpp_world_scheme, push_account list) M" where
  "setup_nodes P [] accs = ret accs"
| "setup_nodes P ((nd, i) # rest) accs = bindE (setup_push_node P nd) (\<lambda>ok.
     setup_nodes P rest (accs[i := (accs ! i)\<lparr>success := ok\<rparr>]))"

definition in_order :: "('j, 'db, 'e, 'st) platform \<Rightarrow> (string \<times> nat) list \<Rightarrow> (string \<times> nat) list" where
  "in_order P m = map (\<lambda>k. (k, the (map_of m k))) (p_order P (map fst m))"

definition set_push_accounts ::
  "('j, 'db, 'e, 'st) platform \<Rightarrow> session_id \<Rightarrow> string \<Rightarrow> string \<Rightarrow> string list \<Rightarrow> (('db, 'e, 'st, 'z) xmpp_world_scheme, unit) M" where
  "set_push_accounts P sn deviceId ver accounts =
     bindE (on_db (get_channel_uri (p_redis P) deviceId)) (\<lambda>channelUri. case channelUri of
       None \<Rightarrow> respond_with_error P sn ''Device id unknown.''
     | Some uri \<Rightarrow>
         bindE (on_db (get_push_nodes (p_asserts P) (p_redis P) deviceId)) (\<lambda>oldPushNodes.
         bindE (add_accounts P deviceId accounts
                  \<lparr>as_delete = fold set_insert oldPushNodes [], as_add = [], as_accounts = []\<rparr>) (\<lambda>st.
         thenE (forE (p_order P (as_delete st)) (delete_push_node P))
         (bindE (setup_nodes P (in_order P (as_add st)) (as_accounts st)) (\<lambda>pushAccounts.
          thenE (on_db (redis_set_push_accounts (p_redis P) (p_crypto P) deviceId uri ver pushAccounts))
          (bindE (getE get_jid) (\<lambda>jid.
           bindE (liftR (SuccessSetPushAccountsMessage_to_json (p_asserts P) (p_json P)
                    (SuccessSetPushAccountsMessage_new pushAccounts jid) (j_null (p_json P))))
             (session_send P sn))))))))"

section \<open>The channel URI\<close>

definition set_channel_uri ::
  "('j, 'db, 'e, 'st) platform \<Rightarrow> session_id \<Rightarrow> string \<Rightarrow> string \<Rightarrow> (('db, 'e, 'st, 'z) xmpp_world_scheme, unit) M" where
  "set_channel_uri P sn deviceId channelUri =
     (if \<not> is_valid_channel_uri (p_match P) channelUri then
        respond_with_error P sn ''Invalid channel URI. Has to use the domain 'notify.windows.com'.''
      else thenE (on_db (redis_set_channel_uri (p_redis P) deviceId channelUri)) (respond_with_success P sn))"

section \<open>Messages of a client\<close>

text \<open>The overload for a parsed message.\<close>

definition dispatch_message ::
  "('j, 'db, 'e, 'st) platform \<Rightarrow> session_id \<Rightarrow> any_message \<Rightarrow> (('db, 'e, 'st, 'z) xmpp_world_scheme, unit) M" where
  "dispatch_message P sn msg = thenE (assertE (p_asserts P) (msg_is_valid msg)) (case msg of
       Msg_SetChannelUri m \<Rightarrow> set_channel_uri P sn (uri_deviceId m) (uri_channelUri m)
     | Msg_SetPushAccounts m \<Rightarrow> set_push_accounts P sn (acc_deviceId m) (to_string (version m)) (acc_accounts m)
     | Msg_RequestTestPush m \<Rightarrow> send_test_push P sn (test_deviceId m)
     | _ \<Rightarrow> respond_with_error P sn ''Unsupported message type.'')"

definition on_message_received ::
  "('j, 'db, 'e, 'st) platform \<Rightarrow> session_id \<Rightarrow> string \<Rightarrow> (('db, 'e, 'st, 'z) xmpp_world_scheme, unit) M" where
  "on_message_received P sn s = bindE (liftR (parse (p_asserts P) (p_json P) s)) (\<lambda>msg. case msg of
       None \<Rightarrow> respond_with_error P sn ''Malformed JSON.''
     | Some m \<Rightarrow>
         if \<not> msg_is_valid m then respond_with_error P sn ''Invalid JSON message.''
         else catchE (dispatch_message P sn m)
           (\<lambda>e. respond_with_error P sn ''Internal server error... Failed to process received JSON message.''))"

text \<open>
  The session with number \<open>this\<close> hands the bytes it received and itself to the handler it was made with, and
  the handler the server gives to the TCP server (\<^verbatim>\<open>PushServer.cpp\<close>, the lambda in the constructor).
\<close>

definition onReceived ::
  "session_id \<Rightarrow> (string \<Rightarrow> session_id \<Rightarrow> (('db, 'e, 'st, 'z) xmpp_world_scheme, unit) M) \<Rightarrow> string
    \<Rightarrow> (('db, 'e, 'st, 'z) xmpp_world_scheme, unit) M" where
  "onReceived this messageHandler buffer = messageHandler buffer this"

definition tcp_handler ::
  "('j, 'db, 'e, 'st) platform \<Rightarrow> string \<Rightarrow> session_id \<Rightarrow> (('db, 'e, 'st, 'z) xmpp_world_scheme, unit) M" where
  "tcp_handler P = (\<lambda>s session. on_message_received P session s)"

section \<open>Events of the XMPP server\<close>

definition on_v1_message_for_node ::
  "('j, 'db, 'e, 'st) platform \<Rightarrow> string \<Rightarrow> string \<Rightarrow> (('db, 'e, 'st, 'z) xmpp_world_scheme, unit) M" where
  "on_v1_message_for_node P nd msg =
     bindE (on_db (get_device_id (p_redis P) nd)) (\<lambda>dev. case dev of None \<Rightarrow> ret () | Some deviceId \<Rightarrow>
     bindE (on_db (get_channel_uri (p_redis P) deviceId)) (\<lambda>channelUri. case channelUri of None \<Rightarrow> ret () | Some uri \<Rightarrow>
     bindE (send_raw_notification P uri msg) (\<lambda>result. ret ())))"

definition on_v2_message_for_node ::
  "('j, 'db, 'e, 'st) platform \<Rightarrow> string \<Rightarrow> string \<Rightarrow> int \<Rightarrow> int \<Rightarrow> (('db, 'e, 'st, 'z) xmpp_world_scheme, unit) M" where
  "on_v2_message_for_node P nd acc mc psc =
     bindE (on_db (get_device_id (p_redis P) nd)) (\<lambda>dev. case dev of None \<Rightarrow> ret () | Some deviceId \<Rightarrow>
     bindE (on_db (get_channel_uri (p_redis P) deviceId)) (\<lambda>channelUri. case channelUri of None \<Rightarrow> ret () | Some uri \<Rightarrow>
     bindE (liftR (bindR (PushMessage_to_json (p_asserts P) (p_json P) (PushMessage_new acc mc psc) (j_null (p_json P)))
              (j_dump (p_json P)))) (\<lambda>msg.
     bindE (send_raw_notification P uri msg) (\<lambda>result. ret ()))))"

text \<open>The handler for message stanzas with the server's functions as its callbacks.\<close>

definition on_xmpp_message ::
  "('j, 'db, 'e, 'st) platform \<Rightarrow> 'st \<Rightarrow> (('db, 'e, 'st, 'z) xmpp_world_scheme, int) M" where
  "on_xmpp_message P = message_handler P (on_v1_message_for_node P) (on_v2_message_for_node P)"

section \<open>The WNS token\<close>

definition check_setup_wns ::
  "('j, 'db, 'e, 'st) platform \<Rightarrow> (('db, 'e, 'st, 'z) xmpp_world_scheme, unit) M" where
  "check_setup_wns P = bindE (is_token_valid P) (\<lambda>valid. if valid then ret () else
     bindE (request_new_token P) (\<lambda>ok. if ok then ret () else
     thenE (on_env (askE (sleep_ms (p_net P) 10000)))
     (bindE (request_new_token P) (\<lambda>ok. ret ()))))"

end
