(* ===== verification/Wns_Correct.thy ===== *)
theory Wns_Correct
  imports Wns_Client
begin

text \<open>
  Correctness of the WNS client: what it sends and how often, when a notification counts as delivered,
  and that the token survives a restart of the server through the database.
\<close>

section \<open>Frame rules\<close>

lemma keeps_on_env: "(\<And>w e. I w \<Longrightarrow> I (w\<lparr>w_env := e\<rparr>)) \<Longrightarrow> keeps I (on_env m)"
  by (rule keepsI) (auto split: prod.split)

lemma keeps_on_db: "(\<And>w d. I w \<Longrightarrow> I (w\<lparr>w_db := d\<rparr>)) \<Longrightarrow> keeps I (on_db m)"
  by (rule keepsI) (auto split: prod.split)

lemma keeps_modE: "(\<And>w. I w \<Longrightarrow> I (g w)) \<Longrightarrow> keeps I (modE g)"
  by (rule keepsI) simp

lemma keeps_emit: "(\<And>w. I w \<Longrightarrow> I (w\<lparr>w_trace := w_trace w @ [ev]\<rparr>)) \<Longrightarrow> keeps I (emit ev)"
  by (rule keepsI) simp

lemma keeps_getE_bind:
  "(\<And>s. I s \<Longrightarrow> keeps I (k (f s))) \<Longrightarrow> keeps I (bindE (getE f) k)"
  by (rule keepsI) (auto simp: keeps_def)

lemma keeps_catch_parse: "keeps I m \<Longrightarrow> keeps I (catch_parse_error m)"
  by (rule keepsI) (auto simp: keeps_def catch_parse_error_def split: prod.split sum.split exn.split; metis snd_conv)

lemma keeps_case_action:
  "keeps I m1 \<Longrightarrow> keeps I m2 \<Longrightarrow> keeps I m3 \<Longrightarrow>
   keeps I (case a of SUCCESS \<Rightarrow> m1 | RETRY \<Rightarrow> m2 | ERROR \<Rightarrow> m3)"
  by (cases a) auto

section \<open>What is sent\<close>

text \<open>
  Since \<open>w0\<close> the program has posted only requests in \<open>A\<close>, and the client's credentials are unchanged.
\<close>

definition only_posts ::
  "('db, 'e, 'st, 'z) wns_world_scheme \<Rightarrow> http_request list \<Rightarrow> http_request set \<Rightarrow> ('db, 'e, 'st, 'z) wns_world_scheme \<Rightarrow> bool" where
  "only_posts w0 ps A w \<longleftrightarrow> token_request (w_wns w) = token_request (w_wns w0)
     \<and> (\<exists>qs. w_trace w = w_trace w0 @ map Http_post (ps @ qs) \<and> set qs \<subseteq> A)"

lemma only_posts_env [simp]: "only_posts w0 ps A (w\<lparr>w_env := e\<rparr>) = only_posts w0 ps A w"
  "only_posts w0 ps A (w\<lparr>w_db := d\<rparr>) = only_posts w0 ps A w"
  "only_posts w0 ps A (w\<lparr>w_wns := (w_wns w)\<lparr>wns_tok := t\<rparr>\<rparr>) = only_posts w0 ps A w"
  by (simp_all add: only_posts_def token_request_def)

lemma only_posts_emit:
  "q \<in> A \<Longrightarrow> only_posts w0 ps A w \<Longrightarrow> only_posts w0 ps A (w\<lparr>w_trace := w_trace w @ [Http_post q]\<rparr>)"
  unfolding only_posts_def by clarsimp (rule exI [of _ "_ @ [q]"], auto)

lemma keeps_posts_store: "keeps (only_posts w0 ps A) (store_token_in_db P)"
  unfolding store_token_in_db_def need_redis_def by (intro keeps_rules keeps_on_db) simp_all

lemma keeps_posts_response: "keeps (only_posts w0 ps A) (token_from_response P s)"
  unfolding token_from_response_def get_expires_date_def
  by (intro keeps_catch_parse keeps_rules keeps_on_env) simp_all

lemma keeps_posts_request:
  "keeps (only_posts w0 ps (insert (token_request (w_wns w0)) A)) (request_new_token P)"
  unfolding request_new_token_def post_def set_token_def
  by (intro keeps_getE_bind keeps_rules keeps_on_env keeps_emit keeps_modE keeps_posts_store
      keeps_posts_response only_posts_emit) (simp_all add: only_posts_def token_request_def)

lemma request_new_token_posts:
  "request_new_token P w = (r, w') \<Longrightarrow> \<exists>qs. w_trace w' = w_trace w @ map Http_post qs
     \<and> set qs \<subseteq> {token_request (w_wns w)} \<and> token_request (w_wns w') = token_request (w_wns w)"
  using keepsD [OF keeps_posts_request [of w "[]" "{}" P], of w r w'] by (auto simp: only_posts_def)

text \<open>A token is requested by one request, whatever the answer.\<close>

lemma one_token_post:
  assumes "request_new_token P w = (r, w')"
  shows "\<exists>qs. w_trace w' = w_trace w @ map Http_post qs \<and> set qs \<subseteq> {token_request (w_wns w)} \<and> length qs \<le> 1
    \<and> token_request (w_wns w') = token_request (w_wns w)"
proof -
  obtain response e where p: "http_post (p_net P) (token_request (w_wns w)) (w_env w) = (response, e)" by fastforce
  let ?w = "w\<lparr>w_trace := w_trace w @ [Http_post (token_request (w_wns w))], w_env := e\<rparr>"
  let ?I = "\<lambda>w'. w_trace w' = w_trace ?w \<and> token_request (w_wns w') = token_request (w_wns w)"
  have k: "keeps ?I (token_from_response P s)" "keeps ?I (store_token_in_db P)" "keeps ?I (set_token t)" for s t
    unfolding token_from_response_def get_expires_date_def store_token_in_db_def need_redis_def set_token_def
    by (intro keeps_catch_parse keeps_rules keeps_on_env keeps_on_db keeps_modE; simp add: token_request_def)+
  have m: "keeps ?I (if status_code response \<noteq> 200 then ret False else
     bindE (token_from_response P (resp_text response)) (\<lambda>t. thenE (set_token t)
     (case t of None \<Rightarrow> ret False | Some _ \<Rightarrow> thenE (store_token_in_db P) (ret True))))" (is "keeps _ ?m")
    by (intro keeps_rules k)
  have "?m ?w = (r, w')" using assms p by (simp add: request_new_token_def post_def)
  from keepsD [OF m _ this] have "?I w'" by simp
  then show ?thesis by (intro exI [of _ "[token_request (w_wns w)]"]) simp
qed

lemma is_token_valid_frame: "is_token_valid P w = (r, w') \<Longrightarrow>
  w_trace w' = w_trace w \<and> w_wns w' = w_wns w \<and> w_db w' = w_db w"
  by (auto simp: is_token_valid_def token_is_valid_def split: option.splits prod.splits)

lemma send_attempts_posts:
  assumes "send_attempts P q n w = (r, w')"
  shows "\<exists>qs. w_trace w' = w_trace w @ map Http_post qs \<and> set qs \<subseteq> {token_request (w_wns w), q}
    \<and> length (filter (\<lambda>x. x \<noteq> token_request (w_wns w)) qs) \<le> n"
  using assms
proof (induction n arbitrary: w)
  case 0
  then show ?case by (intro exI [of _ "[]"]) simp
next
  case (Suc n)
  let ?tr = "token_request (w_wns w)"
  obtain response e where p: "http_post (p_net P) q (w_env w) = (response, e)" by fastforce
  define w1 where "w1 = w\<lparr>w_trace := w_trace w @ [Http_post q], w_env := e\<rparr>"
  have w1: "w_trace w1 = w_trace w @ map Http_post [q]" "token_request (w_wns w1) = ?tr"
    by (simp_all add: w1_def)
  have later: "\<exists>qs. w_trace w' = w_trace w @ map Http_post qs \<and> set qs \<subseteq> {?tr, q}
      \<and> length (filter (\<lambda>x. x \<noteq> ?tr) qs) \<le> Suc n"
    if w2: "send_attempts P q n w2 = (r, w')" "w_trace w2 = w_trace w1 @ map Http_post ts"
      "set ts \<subseteq> {?tr}" "token_request (w_wns w2) = ?tr" for w2 ts
  proof -
    from Suc.IH [OF w2(1)] obtain qs where "w_trace w' = w_trace w2 @ map Http_post qs"
      "set qs \<subseteq> {?tr, q}" "length (filter (\<lambda>x. x \<noteq> ?tr) qs) \<le> n" using w2(4) by auto
    moreover have "filter (\<lambda>x. x \<noteq> ?tr) ts = []" using w2(3) by (auto simp: filter_empty_conv)
    ultimately show ?thesis using w1 w2(2,3) by (intro exI [of _ "[q] @ ts @ qs"]) auto
  qed
  have stop: "\<exists>qs. w_trace w2 = w_trace w @ map Http_post qs \<and> set qs \<subseteq> {?tr, q}
      \<and> length (filter (\<lambda>x. x \<noteq> ?tr) qs) \<le> Suc n"
    if "w_trace w2 = w_trace w1 @ map Http_post ts" "set ts \<subseteq> {?tr}" for w2 ts
  proof -
    have "filter (\<lambda>x. x \<noteq> ?tr) ts = []" using that(2) by (auto simp: filter_empty_conv)
    then show ?thesis using w1 that by (intro exI [of _ "q # ts"]) auto
  qed
  show ?case
  proof (cases "error_ok response")
    case False
    with Suc.prems p have "send_attempts P q n w1 = (r, w')" by (simp add: post_def w1_def)
    then show ?thesis by (rule later [of _ "[]"]) (simp_all add: w1)
  next
    case True
    obtain a w2 where h: "handle_response_code P (status_code response) w1 = (a, w2)" by fastforce
    have "\<exists>ts. w_trace w2 = w_trace w1 @ map Http_post ts \<and> set ts \<subseteq> {?tr}
        \<and> token_request (w_wns w2) = ?tr"
      using h request_new_token_posts [of P w1] w1(2)
      by (auto simp: handle_response_code_def split: if_splits prod.splits sum.splits)
    then obtain ts where ts: "w_trace w2 = w_trace w1 @ map Http_post ts" "set ts \<subseteq> {?tr}"
      "token_request (w_wns w2) = ?tr" by blast
    have run: "(case a of Inl e \<Rightarrow> (Inl e, w2) | Inr result \<Rightarrow> (case result of
       SUCCESS \<Rightarrow> ret True | RETRY \<Rightarrow> send_attempts P q n | ERROR \<Rightarrow> ret False) w2) = (r, w')"
      using Suc.prems p True h by (simp add: post_def w1_def)
    show ?thesis
    proof (cases "a = Inr RETRY")
      case True
      with run have "send_attempts P q n w2 = (r, w')" by simp
      then show ?thesis by (rule later) (use ts in simp_all)
    next
      case False
      with run have "w' = w2" by (auto split: sum.splits response_code_action.splits)
      then show ?thesis using stop [OF ts(1,2)] by simp
    qed
  qed
qed

section \<open>Retries\<close>

text \<open>
  The peer answers the next requests \<open>q\<close> with \<open>rs\<close>, leading the outside world from \<open>e\<close> to \<open>e'\<close>.
\<close>

fun peer_answers ::
  "('j, 'db, 'e, 'st) platform \<Rightarrow> http_request \<Rightarrow> http_response list \<Rightarrow> 'e \<Rightarrow> 'e \<Rightarrow> bool" where
  "peer_answers P q [] e e' \<longleftrightarrow> e' = e"
| "peer_answers P q (r # rs) e e' \<longleftrightarrow>
     (case http_post (p_net P) q e of (r', e1) \<Rightarrow> r' = r \<and> peer_answers P q rs e1 e')"

text \<open>A failure worth a retry, and one that is final.\<close>

definition transient :: "http_response \<Rightarrow> bool" where
  "transient r \<longleftrightarrow> \<not> error_ok r \<or> status_code r = STATUS_CODE_SERVICE_UNAVAILABLE"

definition permanent :: "http_response \<Rightarrow> bool" where
  "permanent r \<longleftrightarrow> error_ok r \<and> status_code r \<notin> {STATUS_CODE_OK, STATUS_CODE_UNAUTHORIZED, STATUS_CODE_SERVICE_UNAVAILABLE}"

lemma handle_code_simps [simp]:
  "handle_response_code P STATUS_CODE_OK w = (Inr SUCCESS, w)"
  "handle_response_code P STATUS_CODE_SERVICE_UNAVAILABLE w = (Inr RETRY, w)"
  by (simp_all add: handle_response_code_def status_codes)

lemma handle_code_permanent:
  "permanent r \<Longrightarrow> handle_response_code P (status_code r) w = (Inr ERROR, w)"
  by (simp add: handle_response_code_def permanent_def)

lemma transient_attempts:
  assumes "peer_answers P q rs (w_env w) e'" "\<forall>r \<in> set rs. transient r" "length rs \<le> n"
  shows "send_attempts P q n w = send_attempts P q (n - length rs)
    (w\<lparr>w_env := e', w_trace := w_trace w @ map Http_post (replicate (length rs) q)\<rparr>)"
  using assms
proof (induction rs arbitrary: n w)
  case Nil
  then show ?case by simp
next
  case (Cons r rs)
  then obtain e1 where e1: "http_post (p_net P) q (w_env w) = (r, e1)" "peer_answers P q rs e1 e'"
    by (auto split: prod.splits)
  from Cons.prems obtain k where k: "n = Suc k" "length rs \<le> k" by (cases n) auto
  let ?w = "w\<lparr>w_trace := w_trace w @ [Http_post q], w_env := e1\<rparr>"
  have "send_attempts P q n w = send_attempts P q k ?w"
    using e1(1) Cons.prems(2) by (auto simp: post_def k transient_def)
  also have "\<dots> = send_attempts P q (k - length rs)
      (?w\<lparr>w_env := e', w_trace := w_trace ?w @ map Http_post (replicate (length rs) q)\<rparr>)"
    using Cons.IH [of ?w k] e1(2) Cons.prems(2) k(2) by simp
  finally show ?case by (simp add: k)
qed

lemma send_with_token:
  assumes "wns_tok (w_wns w) = Some t" "clock_now (p_net P) (w_env w) = (n, e)" "before n (tok_expires t)"
  shows "send_raw_notification P uri content w =
    send_attempts P (notification_request uri content t) MAX_ATTEMPTS (w\<lparr>w_env := e\<rparr>)"
  using assms by (simp add: send_raw_notification_def is_token_valid_def token_is_valid_def deref_def)

lemma three_attempts: "send_attempts P q MAX_ATTEMPTS = send_attempts P q (Suc 2)"
  by (simp add: MAX_ATTEMPTS_def)

section \<open>The token in the database\<close>

lemma store_token_run:
  assumes "redis_server (p_redis P) view now" "wns_redis_set (w_wns w)" "wns_tok (w_wns w) = Some t"
  shows "\<exists>d. store_token_in_db P w = (Inr (), w\<lparr>w_db := d\<rparr>) \<and> now d = now (w_db w)
    \<and> view d = (if to_time_t (tok_expires t) \<le> now (w_db w) then (view (w_db w))(WNS_TOKEN_KEY := None)
        else (view (w_db w))(WNS_TOKEN_KEY \<mapsto> (Rlist [tok_token t, tok_type t, to_string (to_time_t (tok_expires t))],
          Some (to_time_t (tok_expires t)))))"
  using redis_server.set_wns_token_run [OF assms(1), of "tok_token t" "tok_type t" "tok_expires t" "w_db w"] assms(2,3)
  by (auto simp: store_token_in_db_def need_redis_def deref_def)

lemma keeps_frame_response: "keeps (\<lambda>w. w_wns w = c \<and> w_db w = d) (token_from_response P s)"
  unfolding token_from_response_def get_expires_date_def
  by (intro keeps_catch_parse keeps_rules keeps_on_env) simp_all

lemma load_token_run:
  assumes "redis_server (p_redis P) view now" "wns_redis_set (w_wns w)"
    "view (w_db w) WNS_TOKEN_KEY = Some (Rlist [tok, ty, ex], d)"
  shows "load_token_from_db P w = set_token
    (Some \<lparr>tok_type = ty, tok_token = tok, tok_expires = from_time_t (strtoll (c_str ex))\<rparr>) w"
  using redis_server.wns_queries_run [OF assms(1), of "w_db w"] assms(2,3)
  by (simp add: load_token_from_db_def need_redis_def list_at_def no_string_def)

lemma load_token_none:
  assumes "redis_server (p_redis P) view now" "wns_redis_set (w_wns w)" "view (w_db w) WNS_TOKEN_KEY = None"
  shows "load_token_from_db P w = (Inr (), w)"
  using redis_server.wns_queries_run [OF assms(1), of "w_db w"] assms(2,3)
  by (simp add: load_token_from_db_def need_redis_def list_at_def no_string_def)

section \<open>Properties\<close>

text \<open>A client with a token and a scripted peer, for the witnesses.\<close>

definition demo_token :: wns_token where
  "demo_token = \<lparr>tok_type = ''bearer'', tok_token = ''T1'', tok_expires = 5000000000\<rparr>"

definition demo_wns :: "http_response list \<Rightarrow> (ref_db, ref_env, stanza) wns_world" where
  "demo_wns rs = \<lparr>w_db = \<lparr>rd_keys = (\<lambda>_. None), rd_now = 1\<rparr>,
     w_env = \<lparr>re_seed = 3, re_clock = 1000000000, re_responses = rs, re_connected = True\<rparr>, w_trace = [],
     w_wns = \<lparr>packetSid = ''sid'', clientSecret = ''sec'', wns_tok = Some demo_token, wns_redis_set = True\<rparr>\<rparr>"

definition status_response :: "int \<Rightarrow> http_response" where
  "status_response c = \<lparr>status_code = c, error_ok = True, resp_text = []\<rparr>"

definition set_redis :: "wns_client \<Rightarrow> wns_client" where
  "set_redis c = c\<lparr>wns_redis_set := True\<rparr>"

lemmas demo_wns_defs = demo_token_def demo_wns_def status_response_def ref_net_def ref_platform_def before_def
  status_codes transient_def permanent_def MAX_ATTEMPTS_def

text \<open>
  C24 (What one push sends). However the WNS servers answer, one call of \<^verbatim>\<open>send_raw_notification\<close> sends
  at most three notification requests, all of them the same request with the same \<^verbatim>\<open>Authorization\<close>
  header, and besides them only requests for a new token.
\<close>

theorem send_raw_notification_posts:
  assumes "send_raw_notification P uri content w = (r, w')"
  shows "\<exists>t qs. w_trace w' = w_trace w @ map Http_post qs
    \<and> set qs \<subseteq> {token_request (w_wns w), notification_request uri content t}
    \<and> length (filter (\<lambda>q. q \<noteq> token_request (w_wns w)) qs) \<le> MAX_ATTEMPTS"
proof -
  obtain v w1 where v: "is_token_valid P w = (v, w1)" by fastforce
  note f = is_token_valid_frame [OF v]
  obtain ok w2 where ok: "(if v = Inr True then ret True else request_new_token P) w1 = (ok, w2)" by fastforce
  then have "\<exists>ts. w_trace w2 = w_trace w1 @ map Http_post ts \<and> set ts \<subseteq> {token_request (w_wns w)}
      \<and> token_request (w_wns w2) = token_request (w_wns w)"
    using request_new_token_posts [of P w1 ok w2] f by (auto split: if_splits)
  then obtain ts where ts: "w_trace w2 = w_trace w @ map Http_post ts" "set ts \<subseteq> {token_request (w_wns w)}"
    "token_request (w_wns w2) = token_request (w_wns w)" using f by auto
  have nf: "filter (\<lambda>q. q \<noteq> token_request (w_wns w)) ts = []" using ts(2) by (auto simp: filter_empty_conv)
  consider (stop) "w' = w1" | (token) "w' = w2"
    | (send) t where "send_attempts P (notification_request uri content t) MAX_ATTEMPTS w2 = (r, w')"
    using assms v ok by (fastforce simp: send_raw_notification_def deref_def
        split: sum.splits bool.splits option.splits if_splits prod.splits)
  then show ?thesis
  proof cases
    case stop
    then show ?thesis using f by (intro exI [of _ "[]"] exI) simp
  next
    case token
    then show ?thesis using ts nf by (intro exI [of _ ts] exI) auto
  next
    case (send t)
    from send_attempts_posts [OF send] obtain qs where "w_trace w' = w_trace w2 @ map Http_post qs"
      "set qs \<subseteq> {token_request (w_wns w), notification_request uri content t}"
      "length (filter (\<lambda>q. q \<noteq> token_request (w_wns w)) qs) \<le> MAX_ATTEMPTS" using ts(3) by auto
    then show ?thesis using ts nf by (intro exI [of _ t] exI [of _ "ts @ qs"]) auto
  qed
qed

theorem send_raw_notification_posts_witness:
  "\<exists>r w' t qs. send_raw_notification (ref_platform True) ''u'' ''m'' (demo_wns [status_response 503]) = (r, w')
     \<and> w_trace w' = map Http_post qs \<and> set qs \<subseteq> {token_request (w_wns (demo_wns [])), notification_request ''u'' ''m'' t}
     \<and> length (filter (\<lambda>q. q \<noteq> token_request (w_wns (demo_wns []))) qs) \<le> 3"
proof -
  obtain r w' where "send_raw_notification (ref_platform True) ''u'' ''m'' (demo_wns [status_response 503]) = (r, w')"
    by fastforce
  from this send_raw_notification_posts [OF this] show ?thesis
    by (simp add: MAX_ATTEMPTS_def) (simp add: demo_wns_def; blast)
qed

text \<open>
  C25 (Delivery despite transient failures). With a valid token, a notification that meets fewer than
  three transient failures (no connection or status 503) and then the answer 200 is reported as
  delivered, after one request per answer.
\<close>

theorem delivered_after_transient_failures:
  assumes "wns_tok (w_wns w) = Some t" "clock_now (p_net P) (w_env w) = (n, e)" "before n (tok_expires t)"
    and "\<forall>r \<in> set rs. transient r" "length rs < MAX_ATTEMPTS" "error_ok r" "status_code r = STATUS_CODE_OK"
    and "peer_answers P (notification_request uri content t) (rs @ [r]) e e'"
  shows "send_raw_notification P uri content w = (Inr True, w\<lparr>w_env := e',
    w_trace := w_trace w @ map Http_post (replicate (Suc (length rs)) (notification_request uri content t))\<rparr>)"
proof -
  let ?q = "notification_request uri content t"
  have "\<exists>e1. peer_answers P ?q rs e e1 \<and> http_post (p_net P) ?q e1 = (r, e')"
    using assms(8) by (induction rs arbitrary: e) (auto split: prod.splits)
  then obtain e1 where e1: "peer_answers P ?q rs e e1" "http_post (p_net P) ?q e1 = (r, e')" by blast
  obtain k where "MAX_ATTEMPTS - length rs = Suc k" using assms(5) by (metis Suc_diff_Suc)
  with transient_attempts [of P ?q rs "w\<lparr>w_env := e\<rparr>" e1 MAX_ATTEMPTS] assms(4-7) e1
  show ?thesis unfolding send_with_token [OF assms(1-3)]
    by (simp add: post_def replicate_append_same flip: replicate_append_same)
qed

theorem delivered_after_transient_failures_witness:
  "fst (send_raw_notification (ref_platform True) ''u'' ''m''
     (demo_wns [status_response 503, ref_http_timeout, status_response 200])) = Inr True"
  using delivered_after_transient_failures [of "demo_wns [status_response 503, ref_http_timeout, status_response 200]"
    demo_token "ref_platform True" 1000000000 "w_env (demo_wns [status_response 503, ref_http_timeout, status_response 200])"
    "[status_response 503, ref_http_timeout]" "status_response 200" "''u''" "''m''" "w_env (demo_wns [])"]
  by (simp add: demo_wns_defs ref_http_timeout_def)

text \<open>
  Giving up. With a valid token, three transient failures in a row, or any number of transient
  failures below three followed by an answer that is an error for good, end the delivery with the
  result false, without a further request.
\<close>

theorem delivery_gives_up:
  assumes "wns_tok (w_wns w) = Some t" "clock_now (p_net P) (w_env w) = (n, e)" "before n (tok_expires t)"
    and "\<forall>r \<in> set rs. transient r" "peer_answers P (notification_request uri content t) (rs @ fs) e e'"
    and "length rs = MAX_ATTEMPTS \<and> fs = [] \<or> length rs < MAX_ATTEMPTS \<and> (\<exists>r. fs = [r] \<and> permanent r)"
  shows "send_raw_notification P uri content w = (Inr False, w\<lparr>w_env := e',
    w_trace := w_trace w @ map Http_post (replicate (length (rs @ fs)) (notification_request uri content t))\<rparr>)"
proof -
  let ?q = "notification_request uri content t"
  have "\<exists>e1. peer_answers P ?q rs e e1 \<and> peer_answers P ?q fs e1 e'"
    using assms(5) by (induction rs arbitrary: e) (auto split: prod.splits)
  then obtain e1 where e1: "peer_answers P ?q rs e e1" "peer_answers P ?q fs e1 e'" by blast
  note run = transient_attempts [of P ?q rs "w\<lparr>w_env := e\<rparr>" e1 MAX_ATTEMPTS]
  from assms(6) show ?thesis
  proof (elim disjE conjE exE)
    assume "length rs = MAX_ATTEMPTS" "fs = []"
    with run assms(4) e1 show ?thesis unfolding send_with_token [OF assms(1-3)] by simp
  next
    fix r assume r: "length rs < MAX_ATTEMPTS" "fs = [r]" "permanent r"
    then obtain k where "MAX_ATTEMPTS - length rs = Suc k" by (metis Suc_diff_Suc)
    with run assms(4) e1 r show ?thesis
      unfolding send_with_token [OF assms(1-3)]
      by (auto simp: post_def permanent_def handle_code_permanent replicate_append_same simp flip: replicate_append_same)
  qed
qed

theorem delivery_gives_up_witness:
  "fst (send_raw_notification (ref_platform True) ''u'' ''m'' (demo_wns [status_response 503, status_response 410])) = Inr False"
  using delivery_gives_up [of "demo_wns [status_response 503, status_response 410]"
    demo_token "ref_platform True" 1000000000 "w_env (demo_wns [status_response 503, status_response 410])"
    "[status_response 503]" "''u''" "''m''" "[status_response 410]" "w_env (demo_wns [])"]
  by (simp add: demo_wns_defs ref_http_timeout_def)

text \<open>
  C31 (A renewed token is not used). When WNS rejects the token with status 401 and a new token is
  obtained, the remaining attempts repeat the request with the rejected token: the header is built once,
  before the loop.
\<close>

theorem stale_token_retried:
  assumes "wns_tok (w_wns w) = Some t" "clock_now (p_net P) (w_env w) = (n, e)" "before n (tok_expires t)"
    and "http_post (p_net P) (notification_request uri content t) e = (r, e1)"
    and "error_ok r" "status_code r = STATUS_CODE_UNAUTHORIZED"
    and "request_new_token P (w\<lparr>w_trace := w_trace w @ [Http_post (notification_request uri content t)], w_env := e1\<rparr>)
      = (Inr True, w2)"
  shows "send_raw_notification P uri content w = send_attempts P (notification_request uri content t) 2 w2"
  using assms(4-7) unfolding send_with_token [OF assms(1-3)] three_attempts
  by (simp add: post_def handle_response_code_def status_codes del: Suc_numeral)

definition renewed_answer :: http_response where
  "renewed_answer = \<lparr>status_code = 200, error_ok = True, resp_text = print_json (Jobj
     [(''token_type'', Jstr ''bearer''), (''access_token'', Jstr ''T2''), (''expires_in'', Jint 3600)])\<rparr>"

definition rejected_world :: "(ref_db, ref_env, stanza) wns_world" where
  "rejected_world = (demo_wns [renewed_answer, status_response 200])
     \<lparr>w_trace := [Http_post (notification_request ''u'' ''m'' demo_token)]\<rparr>"

lemma rejected_world_renewed:
  "\<exists>w2. request_new_token (ref_platform True) rejected_world = (Inr True, w2)
     \<and> map_option tok_token (wns_tok (w_wns w2)) = Some ''T2''"
  by (simp add: request_new_token_def rejected_world_def demo_wns_def ref_net_def post_def renewed_answer_def
      add_seconds_def NS_def to_time_t_def cdiv_def ks_expire_def token_from_response_def ref_json_def at_string_def get_expires_date_def catch_parse_error_def
      store_token_in_db_def need_redis_def deref_def set_wns_token_def Let_def ref_redis_def WNS_TOKEN_KEY_def)

theorem stale_token_retried_witness:
  "\<exists>w2. request_new_token (ref_platform True) rejected_world = (Inr True, w2)
     \<and> map_option tok_token (wns_tok (w_wns w2)) = Some ''T2''
     \<and> send_raw_notification (ref_platform True) ''u'' ''m''
         (demo_wns [status_response 401, renewed_answer, status_response 200])
       = send_attempts (ref_platform True) (notification_request ''u'' ''m'' demo_token) 2 w2"
proof -
  obtain w2 where w2: "request_new_token (ref_platform True) rejected_world = (Inr True, w2)"
    "map_option tok_token (wns_tok (w_wns w2)) = Some ''T2''"
    using rejected_world_renewed by blast
  then show ?thesis
    using stale_token_retried [of "demo_wns [status_response 401, renewed_answer, status_response 200]"
      demo_token "ref_platform True" 1000000000 "w_env (demo_wns [status_response 401, renewed_answer, status_response 200])"
      "''u''" "''m''" "status_response 401" "w_env rejected_world" w2]
    by (simp add: demo_wns_defs rejected_world_def)
qed

text \<open>
  A token is obtained before it is used. \<^verbatim>\<open>request_new_token\<close> reports success only when the client
  then holds a token, and that token is what the database stores.
\<close>

theorem request_new_token_stores:
  assumes "redis_server (p_redis P) view now" "wns_redis_set (w_wns w)"
    and "request_new_token P w = (Inr True, w')"
  shows "\<exists>t. wns_tok (w_wns w') = Some t \<and> view (w_db w') WNS_TOKEN_KEY =
    (if to_time_t (tok_expires t) \<le> now (w_db w) then None
     else Some (Rlist [tok_token t, tok_type t, to_string (to_time_t (tok_expires t))], Some (to_time_t (tok_expires t))))"
proof -
  let ?w1 = "w\<lparr>w_trace := w_trace w @ [Http_post (token_request (w_wns w))]\<rparr>"
  obtain response e where p: "http_post (p_net P) (token_request (w_wns w)) (w_env w) = (response, e)" by fastforce
  let ?w2 = "?w1\<lparr>w_env := e\<rparr>"
  obtain r w3 where r: "token_from_response P (resp_text response) ?w2 = (r, w3)" by fastforce
  with assms(3) p obtain t where t: "r = Inr (Some t)"
    and st: "bindE (store_token_in_db P) (\<lambda>_. ret True) (w3\<lparr>w_wns := (w_wns w3)\<lparr>wns_tok := Some t\<rparr>\<rparr>) = (Inr True, w')"
    by (auto simp: request_new_token_def post_def split: if_splits sum.splits option.splits prod.splits)
  have k: "w_wns w3 = w_wns w \<and> w_db w3 = w_db w"
    using keepsD [OF keeps_frame_response [of "w_wns w" "w_db w"], of ?w2 P] r by simp
  with store_token_run [OF assms(1), of "w3\<lparr>w_wns := (w_wns w3)\<lparr>wns_tok := Some t\<rparr>\<rparr>" t] assms(2) st
  show ?thesis by (intro exI [of _ t]) auto
qed

theorem request_new_token_stores_witness:
  "\<exists>w' t. request_new_token (ref_platform True) rejected_world = (Inr True, w') \<and> wns_tok (w_wns w') = Some t
     \<and> rd_keys (w_db w') WNS_TOKEN_KEY = (if to_time_t (tok_expires t) \<le> 1 then None
       else Some (Rlist [tok_token t, tok_type t, to_string (to_time_t (tok_expires t))], Some (to_time_t (tok_expires t))))"
proof -
  obtain w' where "request_new_token (ref_platform True) rejected_world = (Inr True, w')"
    using rejected_world_renewed by blast
  moreover from this have "\<exists>t. wns_tok (w_wns w') = Some t \<and> rd_keys (w_db w') WNS_TOKEN_KEY =
    (if to_time_t (tok_expires t) \<le> rd_now (w_db rejected_world) then None
     else Some (Rlist [tok_token t, tok_type t, to_string (to_time_t (tok_expires t))], Some (to_time_t (tok_expires t))))"
    by (intro request_new_token_stores [where P = "ref_platform True"])
      (simp_all add: rr.redis_server_axioms rejected_world_def demo_wns_def)
  ultimately show ?thesis by (simp add: rejected_world_def demo_wns_def)
qed

text \<open>
  The token survives a restart. A token stored in the database and loaded by a fresh client has the
  same type and text, and an expiry date less than a second before the original one; a token that has
  expired by then is not loaded.
\<close>

theorem token_survives_restart:
  assumes "redis_server (p_redis P) view now" "wns_redis_set (w_wns w)" "wns_tok (w_wns w) = Some t"
    and "0 \<le> sint (tok_expires t)" "store_token_in_db P w = (r, w1)" "wns_redis_set c"
  shows "load_token_from_db P (w1\<lparr>w_wns := c\<rparr>) = (Inr (), w1\<lparr>w_wns := (if to_time_t (tok_expires t) \<le> now (w_db w) then c
      else c\<lparr>wns_tok := Some (t\<lparr>tok_expires := from_time_t (to_time_t (tok_expires t))\<rparr>)\<rparr>)\<rparr>)
    \<and> sint (from_time_t (to_time_t (tok_expires t))) \<le> sint (tok_expires t)
    \<and> sint (tok_expires t) < sint (from_time_t (to_time_t (tok_expires t))) + NS"
proof -
  from store_token_run [OF assms(1-3)] assms(5) obtain d where d: "w1 = w\<lparr>w_db := d\<rparr>"
    "view d = (if to_time_t (tok_expires t) \<le> now (w_db w) then (view (w_db w))(WNS_TOKEN_KEY := None)
        else (view (w_db w))(WNS_TOKEN_KEY \<mapsto> (Rlist [tok_token t, tok_type t, to_string (to_time_t (tok_expires t))],
          Some (to_time_t (tok_expires t)))))" by auto
  have s: "strtoll (c_str (to_string (to_time_t (tok_expires t)))) = to_time_t (tok_expires t)"
    using to_time_t_range by (simp add: strtoll_to_string)
  show ?thesis
    using d s load_token_none [OF assms(1), of "w1\<lparr>w_wns := c\<rparr>"] load_token_run [OF assms(1), of "w1\<lparr>w_wns := c\<rparr>"] assms(6)
      time_t_roundtrip_bounds [OF assms(4)]
    by (cases t) auto
qed

theorem token_survives_restart_witness:
  "\<exists>r w1. store_token_in_db (ref_platform True) (demo_wns []) = (r, w1)
     \<and> fst (load_token_from_db (ref_platform True) (w1\<lparr>w_wns := set_redis (WnsClient_new ''sid'' ''sec'')\<rparr>)) = Inr ()"
proof -
  obtain r w1 where s: "store_token_in_db (ref_platform True) (demo_wns []) = (r, w1)" by fastforce
  have "0 \<le> sint (tok_expires demo_token)" by (simp add: demo_token_def)
  with token_survives_restart [OF _ _ _ _ s, of rd_keys rd_now demo_token "set_redis (WnsClient_new ''sid'' ''sec'')"] s
  show ?thesis by (simp add: rr.redis_server_axioms demo_wns_def set_redis_def)
qed

end
