(* ===== verification/Xmpp_Correct.thy ===== *)
theory Xmpp_Correct
  imports Xmpp_Client Wns_Correct
begin

text \<open>
  Correctness of the XMPP client: what the requests for PubSub nodes look like and in which order they
  are sent, which stanzas count as push events and what reaches the push server for them.
\<close>

section \<open>Requests\<close>

text \<open>An \<^verbatim>\<open>iq\<close> that asks the PubSub service for \<open>act\<close> on the node \<open>nd\<close>.\<close>

definition pubsub_request :: "('st, 'e) strophe_api \<Rightarrow> string \<Rightarrow> string \<Rightarrow> 'st \<Rightarrow> bool" where
  "pubsub_request S act nd st \<longleftrightarrow> st_name S st = Some ''iq'' \<and> st_attribute S ''type'' st = Some ''set''
     \<and> (\<exists>ps a. st_child_by_name S ''pubsub'' st = Some ps \<and> st_ns S ps = Some PUBSUB_NS
          \<and> st_child_by_name S act ps = Some a \<and> st_attribute S ''node'' a = Some nd)"

text \<open>A connected client knows its JID.\<close>

definition bound :: "('j, 'db, 'e, 'st) platform \<Rightarrow> bool" where
  "bound P \<longleftrightarrow> (\<forall>e. \<exists>j e'. conn_bound_jid (p_strophe P) e = (Some j, e'))"

lemma need_ptr_run [simp]:
  "xc_conn (w_xmpp w) \<Longrightarrow> need_conn P w = (Inr (), w)"
  "xc_ctx (w_xmpp w) \<Longrightarrow> need_ctx P w = (Inr (), w)"
  by (simp_all add: need_conn_def need_ctx_def)

lemma need_ptr_null:
  "\<not> xc_conn (w_xmpp w) \<Longrightarrow> need_conn P w = (Inl (if p_asserts P then Assert_failed else Undefined_behaviour), w)"
  by (cases "p_asserts P") (simp_all add: need_conn_def)

lemma pep_iq_run:
  assumes "bound P" "xc_ctx (w_xmpp w)"
  shows "\<exists>j e. pep_iq P i ps w = (Inr (st_add_child (p_strophe P)
    (st_set_from (p_strophe P) (Some j) (st_iq_new (p_strophe P) ''set'' i)) ps), w\<lparr>w_env := e\<rparr>)"
proof -
  from assms(1) obtain j e where "conn_bound_jid (p_strophe P) (w_env w) = (Some j, e)" unfolding bound_def by blast
  with assms(2) show ?thesis by (intro exI [of _ j] exI [of _ e]) (simp add: pep_iq_def bound_jid_def)
qed

lemma xmpp_send_run: "\<exists>e. xmpp_send P st w = (Inr (), w\<lparr>w_trace := w_trace w @ [Xmpp_send st], w_env := e\<rparr>)"
  by (cases "conn_send (p_strophe P) st (w_env w)") (auto simp: xmpp_send_def)

context strophe_lib
begin

lemma iq_request:
  assumes "st_name S ps = Some ''pubsub''" "st_ns S ps = Some PUBSUB_NS" "st_child_by_name S act ps = Some a"
    "st_attribute S ''node'' a = Some nd"
  shows "pubsub_request S act nd (st_add_child S (st_set_from S (Some j) (st_iq_new S ''set'' i)) ps)"
  using assms by (simp add: pubsub_request_def from_attr by_name)

lemma pubsub_new_simps [simp]:
  "st_name S (pubsub_new S) = Some ''pubsub''" "st_attribute S ''xmlns'' (pubsub_new S) = Some PUBSUB_NS"
  "st_children S (pubsub_new S) = []"
  by (simp_all add: pubsub_new_def ns_attr)

end

text \<open>What the four kinds of requests are.\<close>

lemma requests_run:
  assumes "strophe_lib (p_strophe P)" "bound P" "xc_ctx (w_xmpp w)"
  shows "\<exists>st e. xmpp_pep_publish_empty_new P nd i w = (Inr st, w\<lparr>w_env := e\<rparr>) \<and> pubsub_request (p_strophe P) ''publish'' nd st"
    and "\<exists>st e. xmpp_pep_subscribe_new P nd i w = (Inr st, w\<lparr>w_env := e\<rparr>) \<and> pubsub_request (p_strophe P) ''subscribe'' nd st"
    and "\<exists>st e. xmpp_pep_unsubscribe_new P nd i w = (Inr st, w\<lparr>w_env := e\<rparr>) \<and> pubsub_request (p_strophe P) ''unsubscribe'' nd st"
    and "\<exists>st e. xmpp_pep_delete_new P nd i w = (Inr st, w\<lparr>w_env := e\<rparr>) \<and> pubsub_request (p_strophe P) ''delete'' nd st"
proof -
  note S = strophe_lib.pubsub_new_simps [OF assms(1)] strophe_lib.name_set [OF assms(1)] strophe_lib.name_attr [OF assms(1)]
    strophe_lib.name_child [OF assms(1)] strophe_lib.get_ns [OF assms(1)] strophe_lib.attr_child [OF assms(1)]
    strophe_lib.attr_set [OF assms(1)] strophe_lib.children_child [OF assms(1)] strophe_lib.by_name [OF assms(1)]
  note iq = strophe_lib.iq_request [OF assms(1)] and run = pep_iq_run [OF assms(2,3)]
  have request: "\<exists>st e. pep_iq P i ps w = (Inr st, w\<lparr>w_env := e\<rparr>) \<and> pubsub_request (p_strophe P) act nd st"
    if "st_name (p_strophe P) ps = Some ''pubsub''" "st_ns (p_strophe P) ps = Some PUBSUB_NS"
      "\<exists>a. st_child_by_name (p_strophe P) act ps = Some a \<and> st_attribute (p_strophe P) ''node'' a = Some nd" for ps act
    using run [of i ps] iq [OF that(1,2)] that(3) by metis
  show "\<exists>st e. xmpp_pep_publish_empty_new P nd i w = (Inr st, w\<lparr>w_env := e\<rparr>) \<and> pubsub_request (p_strophe P) ''publish'' nd st"
    unfolding xmpp_pep_publish_empty_new_def Let_def by (rule request) (simp_all add: S)
  show "\<exists>st e. xmpp_pep_delete_new P nd i w = (Inr st, w\<lparr>w_env := e\<rparr>) \<and> pubsub_request (p_strophe P) ''delete'' nd st"
    unfolding xmpp_pep_delete_new_def Let_def by (rule request) (simp_all add: S)
  show "\<exists>st e. xmpp_pep_subscribe_new P nd i w = (Inr st, w\<lparr>w_env := e\<rparr>) \<and> pubsub_request (p_strophe P) ''subscribe'' nd st"
    unfolding xmpp_pep_subscribe_new_def Let_def run_simps sum.case prod.case by (rule request) (simp_all add: S)
  show "\<exists>st e. xmpp_pep_unsubscribe_new P nd i w = (Inr st, w\<lparr>w_env := e\<rparr>) \<and> pubsub_request (p_strophe P) ''unsubscribe'' nd st"
    unfolding xmpp_pep_unsubscribe_new_def Let_def run_simps sum.case prod.case by (rule request) (simp_all add: S)
qed

text \<open>From \<open>w\<close> to \<open>w'\<close> the only effect was to send the stanzas \<open>sts\<close> (and to ask the outside world).\<close>

definition sent_only ::
  "('db, 'e, 'st, 'z) world_scheme \<Rightarrow> 'st list \<Rightarrow> ('db, 'e, 'st, 'z) world_scheme \<Rightarrow> bool" where
  "sent_only w sts w' \<longleftrightarrow> (\<exists>e. w' = w\<lparr>w_trace := w_trace w @ map Xmpp_send sts, w_env := e\<rparr>)"

lemma sent_only_env: "sent_only w [] (w\<lparr>w_env := e\<rparr>)"
  unfolding sent_only_def by (intro exI [of _ e]) simp

lemma sent_only_trans: "sent_only w xs w1 \<Longrightarrow> sent_only w1 ys w2 \<Longrightarrow> sent_only w (xs @ ys) w2"
  unfolding sent_only_def by auto

lemma sent_only_frame: "sent_only w sts w' \<Longrightarrow> w_db w' = w_db w \<and> w_trace w' = w_trace w @ map Xmpp_send sts"
  by (auto simp: sent_only_def)

lemma sent_only_wns: "sent_only w sts w' \<Longrightarrow> w_wns w' = w_wns w"
  by (auto simp: sent_only_def)

lemma sent_only_xmpp: "sent_only w sts w' \<Longrightarrow> w_xmpp w' = w_xmpp w"
  by (auto simp: sent_only_def)

lemma xmpp_send_sent: "\<exists>w'. xmpp_send P st w = (Inr (), w') \<and> sent_only w [st] w'"
  using xmpp_send_run [of P st w] unfolding sent_only_def by auto

lemma two_requests:
  fixes w :: "('db, 'e, 'st, 'z) xmpp_world_scheme"
  assumes "\<And>w :: ('db, 'e, 'st, 'z) xmpp_world_scheme. xc_ctx (w_xmpp w) \<Longrightarrow> \<exists>st e. m w = (Inr st, w\<lparr>w_env := e\<rparr>) \<and> Q st"
    and "\<And>w :: ('db, 'e, 'st, 'z) xmpp_world_scheme. xc_ctx (w_xmpp w) \<Longrightarrow> \<exists>st e. n w = (Inr st, w\<lparr>w_env := e\<rparr>) \<and> Q' st"
    and "xc_ctx (w_xmpp w)"
  shows "\<exists>st1 st2 w'. bindE m (\<lambda>iq. thenE (xmpp_send P iq) (bindE n (\<lambda>iq. thenE (xmpp_send P iq) (ret a)))) w = (Inr a, w')
    \<and> sent_only w [st1, st2] w' \<and> Q st1 \<and> Q' st2"
proof -
  from assms(1) [OF assms(3)] obtain st1 e1 where 1: "m w = (Inr st1, w\<lparr>w_env := e1\<rparr>)" "Q st1" by blast
  from xmpp_send_sent [of P st1 "w\<lparr>w_env := e1\<rparr>"] obtain w2 where
    2: "xmpp_send P st1 (w\<lparr>w_env := e1\<rparr>) = (Inr (), w2)" "sent_only (w\<lparr>w_env := e1\<rparr>) [st1] w2" by blast
  have "xc_ctx (w_xmpp w2)" using assms(3) sent_only_xmpp [OF 2(2)] by simp
  from assms(2) [OF this] obtain st2 e3 where 3: "n w2 = (Inr st2, w2\<lparr>w_env := e3\<rparr>)" "Q' st2" by blast
  from xmpp_send_sent [of P st2 "w2\<lparr>w_env := e3\<rparr>"] obtain w4 where
    4: "xmpp_send P st2 (w2\<lparr>w_env := e3\<rparr>) = (Inr (), w4)" "sent_only (w2\<lparr>w_env := e3\<rparr>) [st2] w4" by blast
  have "sent_only w ([] @ [st1] @ [] @ [st2]) w4"
    by (rule sent_only_trans [OF sent_only_env sent_only_trans [OF 2(2) sent_only_trans [OF sent_only_env 4(2)]]])
  with 1 2(1) 3 4(1) show ?thesis by (intro exI [of _ st1] exI [of _ st2] exI [of _ w4]) simp
qed

definition ready :: "('db, 'e, 'st, 'z) xmpp_world_scheme \<Rightarrow> bool" where
  "ready w \<longleftrightarrow> xc_conn (w_xmpp w) \<and> xc_ctx (w_xmpp w)"

definition connected :: "('j, 'db, 'e, 'st) platform \<Rightarrow> ('db, 'e, 'st, 'z) xmpp_world_scheme \<Rightarrow> bool" where
  "connected P w \<longleftrightarrow> fst (conn_is_connected (p_strophe P) (w_env w))"

lemma setup_push_node_run:
  assumes "strophe_lib (p_strophe P)" "bound P" "ready w"
  shows "\<exists>sts w'. setup_push_node P nd w = (Inr (connected P w), w') \<and> sent_only w sts w'
    \<and> (if connected P w then \<exists>st1 st2. sts = [st1, st2] \<and> pubsub_request (p_strophe P) ''publish'' (c_str nd) st1
          \<and> pubsub_request (p_strophe P) ''subscribe'' (c_str nd) st2 else sts = [])"
proof -
  obtain c e where c: "conn_is_connected (p_strophe P) (w_env w) = (c, e)" by fastforce
  let ?w = "w\<lparr>w_env := e\<rparr>"
  note r = requests_run [OF assms(1,2)]
  have "xc_ctx (w_xmpp ?w)" using assms(3) by (simp add: ready_def)
  from two_requests [where P = P and a = True and m = "xmpp_pep_publish_empty_new P (c_str nd) ''somePepCreateId''"
    and n = "xmpp_pep_subscribe_new P (c_str nd) ''someSubscribeId''", OF r(1) r(2) this]
  obtain st1 st2 w' where two: "bindE (xmpp_pep_publish_empty_new P (c_str nd) ''somePepCreateId'') (\<lambda>iq.
     thenE (xmpp_send P iq) (bindE (xmpp_pep_subscribe_new P (c_str nd) ''someSubscribeId'') (\<lambda>iq.
      thenE (xmpp_send P iq) (ret True)))) ?w = (Inr True, w')" "sent_only ?w [st1, st2] w'"
    "pubsub_request (p_strophe P) ''publish'' (c_str nd) st1" "pubsub_request (p_strophe P) ''subscribe'' (c_str nd) st2"
    by blast
  from sent_only_trans [OF sent_only_env two(2)] have w': "sent_only w [st1, st2] w'" by simp
  show ?thesis
  proof (cases c)
    case True
    then have "setup_push_node P nd w = (Inr True, w')"
      using two(1) assms(3) c by (simp add: setup_push_node_def is_connected_def ready_def)
    with w' two(3,4) True c show ?thesis by (intro exI [of _ "[st1, st2]"] exI [of _ w']) (simp add: connected_def)
  next
    case False
    then have "setup_push_node P nd w = (Inr False, ?w)"
      using assms(3) c by (simp add: setup_push_node_def is_connected_def ready_def)
    with False c sent_only_env [of w e] show ?thesis
      by (intro exI [of _ "[]"] exI [of _ ?w]) (simp add: connected_def)
  qed
qed

lemma delete_push_node_run:
  assumes "strophe_lib (p_strophe P)" "bound P" "ready w"
  shows "\<exists>sts w'. delete_push_node P nd w = (Inr (), w') \<and> sent_only w sts w'
    \<and> (if connected P w then \<exists>st1 st2. sts = [st1, st2] \<and> pubsub_request (p_strophe P) ''unsubscribe'' (c_str nd) st1
          \<and> pubsub_request (p_strophe P) ''delete'' (c_str nd) st2 else sts = [])"
proof -
  obtain c e where c: "conn_is_connected (p_strophe P) (w_env w) = (c, e)" by fastforce
  let ?w = "w\<lparr>w_env := e\<rparr>"
  note r = requests_run [OF assms(1,2)]
  have u: "thenE (m :: (_, unit) M) (ret ()) = m" for m
    by (rule ext) (simp add: thenE_def bindE_def split: prod.split sum.split)
  have "xc_ctx (w_xmpp ?w)" using assms(3) by (simp add: ready_def)
  from two_requests [where P = P and a = "()" and m = "xmpp_pep_unsubscribe_new P (c_str nd) ''someUnsubscribeId''"
    and n = "xmpp_pep_delete_new P (c_str nd) ''someDeleteId''", OF r(3) r(4) this]
  obtain st1 st2 w' where two: "bindE (xmpp_pep_unsubscribe_new P (c_str nd) ''someUnsubscribeId'') (\<lambda>iq.
     thenE (xmpp_send P iq) (bindE (xmpp_pep_delete_new P (c_str nd) ''someDeleteId'') (\<lambda>iq.
      xmpp_send P iq))) ?w = (Inr (), w')" "sent_only ?w [st1, st2] w'"
    "pubsub_request (p_strophe P) ''unsubscribe'' (c_str nd) st1" "pubsub_request (p_strophe P) ''delete'' (c_str nd) st2"
    unfolding u by blast
  from sent_only_trans [OF sent_only_env two(2)] have w': "sent_only w [st1, st2] w'" by simp
  show ?thesis
  proof (cases c)
    case True
    then have "delete_push_node P nd w = (Inr (), w')"
      using two(1) assms(3) c by (simp add: delete_push_node_def is_connected_def ready_def)
    with w' two(3,4) True c show ?thesis by (intro exI [of _ "[st1, st2]"] exI [of _ w']) (simp add: connected_def)
  next
    case False
    then have "delete_push_node P nd w = (Inr (), ?w)"
      using assms(3) c by (simp add: delete_push_node_def is_connected_def ready_def)
    with False c sent_only_env [of w e] show ?thesis
      by (intro exI [of _ "[]"] exI [of _ ?w]) (simp add: connected_def)
  qed
qed

section \<open>Push events\<close>

text \<open>A PubSub event of the push service: from \<open>jid\<close>, for the node \<open>nd\<close>, with the notification \<open>notif\<close>.\<close>

definition push_event :: "('st, 'e) strophe_api \<Rightarrow> string \<Rightarrow> string \<Rightarrow> 'st \<Rightarrow> 'st \<Rightarrow> bool" where
  "push_event S jid nd notif stanza \<longleftrightarrow> st_attribute S ''from'' stanza = Some jid \<and>
     (\<exists>event items item. st_child_by_name S ''event'' stanza = Some event \<and> st_ns S event = Some PUBSUB_EVENT_NS
        \<and> st_child_by_name S ''items'' event = Some items \<and> st_attribute S ''node'' items = Some nd
        \<and> st_child_by_name S ''item'' items = Some item \<and> st_child_by_name S ''notification'' item = Some notif
        \<and> st_ns S notif = Some PUSH_NS)"

text \<open>What the server knows about a node: its account, and whether its device speaks version 2.\<close>

definition node_owner :: "keyspace \<Rightarrow> string \<Rightarrow> string option" where
  "node_owner ks nd = (case list_at ks nd of [acc, dev, sec] \<Rightarrow> Some acc | _ \<Rightarrow> None)"

definition node_device :: "keyspace \<Rightarrow> string \<Rightarrow> string option" where
  "node_device ks nd = (case list_at ks nd of [acc, dev, sec] \<Rightarrow> Some dev | _ \<Rightarrow> None)"

definition speaks_v2 :: "keyspace \<Rightarrow> string \<Rightarrow> bool" where
  "speaks_v2 ks dev \<longleftrightarrow> 2 \<le> length (list_at ks dev) \<and> list_at ks dev ! 1 = ''2''"

lemma length3_cases: "(length xs = 3 \<and> (\<exists>a b c. xs = [a, b, c])) \<or> length xs \<noteq> 3"
  by (cases xs; cases "tl xs"; cases "tl (tl xs)"; cases "tl (tl (tl xs))") auto

lemma node_owner_device: "(node_owner ks nd = None \<and> node_device ks nd = None)
    \<or> (\<exists>acc dev. node_owner ks nd = Some acc \<and> node_device ks nd = Some dev)"
  by (simp add: node_owner_def node_device_def split: list.split)

lemma node_queries:
  assumes "redis_server R view now" "no_string (view db) nd"
  shows "get_account_id R nd db = (Inr (node_owner (view db) nd), db)"
    and "get_device_id R nd db = (Inr (node_device (view db) nd), db)"
  using redis_server.node_queries_run [OF assms] length3_cases [of "list_at (view db) nd"]
  by (auto simp: node_owner_def node_device_def split: list.split)

lemma version_query:
  assumes "redis_server R view now" "no_string (view db) dev"
  shows "\<exists>v. get_version R dev db = (Inr v, db) \<and> (v = Some ''2'' \<longleftrightarrow> speaks_v2 (view db) dev)"
  using redis_server.get_version_run [OF assms] by (auto simp: speaks_v2_def)

lemma on_db_query: "m (w_db w) = (r, w_db w) \<Longrightarrow> on_db m w = (r, w)"
  by simp

lemma message_handler_event:
  assumes "redis_server (p_redis P) view now" "xc_redis_set (w_xmpp w)"
    and "push_event (p_strophe P) (c_str (xc_jid (w_xmpp w))) nd notif stanza"
    and "no_string (view (w_db w)) nd" "\<forall>dev. node_device (view (w_db w)) nd = Some dev \<longrightarrow> no_string (view (w_db w)) dev"
  shows "message_handler P on_v1 on_v2 stanza w = thenE
    (case (node_owner (view (w_db w)) nd, node_device (view (w_db w)) nd) of
       (Some acc, Some dev) \<Rightarrow> if speaks_v2 (view (w_db w)) dev then send_v2_push P on_v2 acc nd notif
          else send_v1_push P on_v1 acc nd notif
     | _ \<Rightarrow> ret ()) (ret 1) w"
proof -
  let ?S = "p_strophe P" and ?ks = "view (w_db w)"
  from assms(3) obtain event items item where s: "st_attribute ?S ''from'' stanza = Some (c_str (xc_jid (w_xmpp w)))"
    "st_child_by_name ?S ''event'' stanza = Some event" "st_ns ?S event = Some PUBSUB_EVENT_NS"
    "st_child_by_name ?S ''items'' event = Some items" "st_attribute ?S ''node'' items = Some nd"
    "st_child_by_name ?S ''item'' items = Some item" "st_child_by_name ?S ''notification'' item = Some notif"
    "st_ns ?S notif = Some PUSH_NS" unfolding push_event_def by blast
  have i: "get_items_node ?S stanza = Inr (Some items)" "get_notification_node ?S items = Inr (Some notif)"
    using s by (simp_all add: get_items_node_def get_notification_node_def deref_def)
  note q = node_queries [OF assms(1,4)]
  consider "node_owner ?ks nd = None" "node_device ?ks nd = None"
    | acc dev where "node_owner ?ks nd = Some acc" "node_device ?ks nd = Some dev"
    using node_owner_device [of ?ks nd] by (elim disjE exE conjE) simp_all
  then show ?thesis
  proof cases
    case 1
    with s(1,5) i q assms(2) show ?thesis
      by (simp add: message_handler_def Let_def deref_def get_jid_def)
  next
    case (2 acc dev)
    with assms(5) version_query [OF assms(1), of "w_db w" dev] obtain v where
      v: "get_version (p_redis P) dev (w_db w) = (Inr v, w_db w)" "v = Some ''2'' \<longleftrightarrow> speaks_v2 ?ks dev" by blast
    with 2 s(1,5) i q assms(2) show ?thesis
      by (simp add: message_handler_def Let_def deref_def get_jid_def)
  qed
qed

section \<open>Data forms\<close>

text \<open>The data form of a push summary (XEP-0357), built from fields as the client builds its own.\<close>

definition summary_form :: "('st, 'e) strophe_api \<Rightarrow> int \<Rightarrow> int \<Rightarrow> 'st" where
  "summary_form S mc psc = st_add_child S (st_add_child S (st_add_child S (st_set_name S ''x'' (st_new S))
     (xmpp_field_new S ''FORM_TYPE'' None ''urn:xmpp:push:summary''))
     (xmpp_field_new S ''message-count'' None (to_string mc)))
     (xmpp_field_new S ''pending-subscription-count'' None (to_string psc))"

context strophe_lib
begin

lemma field_name: "st_name S (xmpp_field_new S var ty v) = Some ''field''"
  by (simp add: xmpp_field_new_def Let_def split: option.split)

lemma field_var: "st_attribute S ''var'' (xmpp_field_new S var ty v) = Some var"
  by (simp add: xmpp_field_new_def Let_def split: option.split)

lemma field_value:
  assumes "v \<noteq> []"
  shows "\<exists>n. st_child_by_name S ''value'' (xmpp_field_new S var ty v) = Some n \<and> st_text S n = Some v"
proof -
  let ?n = "st_add_child S (st_set_name S ''value'' (st_new S)) (st_set_text S v (st_new S))"
  have "st_text S ?n = Some v" using assms by (intro text_value) simp_all
  moreover have "st_child_by_name S ''value'' (xmpp_field_new S var ty v) = Some ?n"
    by (simp add: xmpp_field_new_def Let_def by_name split: option.split)
  ultimately show ?thesis by blast
qed

lemma read_count_field:
  assumes "- (2 ^ 31) \<le> i" "i < 2 ^ 31"
  shows "read_count S (xmpp_field_new S var ty (to_string i)) old = Inr i"
  using field_value [of "to_string i" var ty] stoi_to_string [OF assms] by (auto simp: read_count_def)

lemma read_summary_form:
  assumes "- (2 ^ 31) \<le> mc" "mc < 2 ^ 31" "- (2 ^ 31) \<le> psc" "psc < 2 ^ 31"
  shows "read_summary S (st_children S (summary_form S mc psc)) (0, 0) = Inr (mc, psc)"
  using assms by (simp add: summary_form_def field_name field_var read_count_field deref_def)

lemma summary_of_form:
  assumes "- (2 ^ 31) \<le> mc" "mc < 2 ^ 31" "- (2 ^ 31) \<le> psc" "psc < 2 ^ 31"
    and "st_child_by_name S ''x'' notif = Some (summary_form S mc psc)"
  shows "summary_of S notif = Inr (mc, psc)"
  using read_summary_form [OF assms(1-4)] assms(5) by (simp add: summary_of_def)

end

text \<open>Whatever the form holds: counts are 32-bit integers, and a bad form ends in one of two ways.\<close>

definition int32 :: "int \<Rightarrow> bool" where
  "int32 i \<longleftrightarrow> - (2 ^ 31) \<le> i \<and> i < 2 ^ 31"

context strophe_lib
begin

lemma read_count_overflow: "\<not> int32 i \<Longrightarrow> read_count S (xmpp_field_new S var ty (to_string i)) old = Inl Out_of_range"
  using field_value [of "to_string i" var ty] by (auto simp: read_count_def stoi_def int32_def)

lemma summary_of_overflow:
  assumes "st_child_by_name S ''x'' notif = Some (summary_form S mc psc)" "\<not> (int32 mc \<and> int32 psc)"
  shows "summary_of S notif = Inl Out_of_range"
proof (cases "int32 mc")
  case True
  with assms show ?thesis
    by (simp add: summary_of_def summary_form_def field_name field_var read_count_field read_count_overflow deref_def int32_def)
next
  case False
  with assms(1) show ?thesis
    by (simp add: summary_of_def summary_form_def field_name field_var read_count_overflow deref_def)
qed

end

lemma read_count_range: "read_count S f old = Inr i \<Longrightarrow> int32 old \<Longrightarrow> int32 i"
  by (auto simp: read_count_def int32_def dest!: stoi_range split: option.splits sum.splits if_splits)

lemma read_count_error: "read_count S f old = Inl e \<Longrightarrow> e = Out_of_range"
  by (auto simp: read_count_def stoi_def split: option.splits if_splits)

lemma read_summary_range: "read_summary S fs (mc, psc) = Inr (m, p) \<Longrightarrow> int32 mc \<Longrightarrow> int32 psc \<Longrightarrow> int32 m \<and> int32 p"
proof (induction fs arbitrary: mc psc)
  case (Cons f fs)
  then obtain mc' psc' where "read_summary S fs (mc', psc') = Inr (m, p)" "int32 mc'" "int32 psc'"
    by (auto simp: bindR_eq_Inr deref_def dest: read_count_range split: option.splits if_splits)
  with Cons.IH show ?case by blast
qed simp

lemma read_summary_error: "read_summary S fs (mc, psc) = Inl e \<Longrightarrow> e = Out_of_range \<or> e = Undefined_behaviour"
  by (induction fs arbitrary: mc psc)
    (auto simp: bindR_eq_Inl deref_def dest: read_count_error split: option.splits if_splits)

lemma summary_of_range: "summary_of S notif = Inr (m, p) \<Longrightarrow> int32 m \<and> int32 p"
  using read_summary_range [of S _ 0 0 m p] by (auto simp: summary_of_def int32_def split: option.splits)

section \<open>Events of registered nodes\<close>

lemma node_registered:
  assumes "ks nd = Some (Rlist [acc, dev, sec], t)"
  shows "node_owner ks nd = Some acc" "node_device ks nd = Some dev" "no_string ks nd"
  using assms by (simp_all add: node_owner_def node_device_def list_at_def no_string_def)

text \<open>What reaches the push server for a device of version 2 and of any other version.\<close>

lemma v2_event_forwarded:
  assumes "strophe_lib (p_strophe P)" "redis_server (p_redis P) view now" "xc_redis_set (w_xmpp w)"
    and "push_event (p_strophe P) (c_str (xc_jid (w_xmpp w))) nd notif stanza"
    and "view (w_db w) nd = Some (Rlist [acc, dev, sec], t)" "no_string (view (w_db w)) dev" "speaks_v2 (view (w_db w)) dev"
    and "st_child_by_name (p_strophe P) ''x'' notif = Some (summary_form (p_strophe P) mc psc)" "int32 mc" "int32 psc"
  shows "message_handler P on_v1 on_v2 stanza w = thenE (on_v2 nd acc mc psc) (ret 1) w"
proof -
  note n = node_registered [where ks = "view (w_db w)", OF assms(5)]
  have "summary_of (p_strophe P) notif = Inr (mc, psc)"
    using assms(8-10) by (intro strophe_lib.summary_of_form [OF assms(1)]) (simp_all add: int32_def)
  with message_handler_event [OF assms(2-4), of on_v1 on_v2] n assms(6,7) show ?thesis by (simp add: send_v2_push_def)
qed

lemma v1_event_forwarded:
  assumes "redis_server (p_redis P) view now" "xc_redis_set (w_xmpp w)"
    and "push_event (p_strophe P) (c_str (xc_jid (w_xmpp w))) nd notif stanza"
    and "view (w_db w) nd = Some (Rlist [acc, dev, sec], t)" "no_string (view (w_db w)) dev" "\<not> speaks_v2 (view (w_db w)) dev"
    and "st_to_text (p_strophe P) (st_add_child (p_strophe P) notif (st_set_attribute (p_strophe P) ''id'' (c_str acc)
           (st_set_name (p_strophe P) ''account'' (st_new (p_strophe P))))) = Some msg"
  shows "message_handler P on_v1 on_v2 stanza w =
    thenE (on_v1 nd (if length msg \<le> 4096 then msg else ''New message received!'')) (ret 1) w"
  using message_handler_event [OF assms(1-3), of on_v1 on_v2] node_registered [where ks = "view (w_db w)", OF assms(4)] assms(5-7)
  by (simp add: send_v1_push_def)

section \<open>Properties\<close>

definition demo_strophe_world :: "(ref_db, ref_env, stanza) xmpp_world" where
  "demo_strophe_world = wns_world.extend (wns_world.truncate (demo_wns []))
     \<lparr>w_xmpp = \<lparr>xc_jid = ''push@example.org'', xc_password = ''pw'', xc_port = 5222, xc_host = ''example.org'',
        xc_ctx = True, xc_conn = True, xc_redis_set = True\<rparr>\<rparr>"

lemma ref_bound: "bound (ref_platform a)"
  by (simp add: bound_def ref_strophe_def)

lemma demo_ready [simp]: "ready demo_strophe_world"
  by (simp add: ready_def demo_strophe_world_def wns_world.defs)

text \<open>
  C27 (Creating and deleting nodes). With the connection up, \<^verbatim>\<open>setup_push_node\<close> sends the request that
  publishes to (and so creates) the node and then the subscription, and \<^verbatim>\<open>delete_push_node\<close> the
  cancellation and then the deletion; with the connection down nothing is sent, and \<^verbatim>\<open>setup_push_node\<close>
  reports it.
\<close>

theorem push_node_requests:
  assumes "strophe_lib (p_strophe P)" "bound P" "ready w"
    and "setup_push_node P nd w = (r, w1)" "delete_push_node P nd w = (r', w2)"
  shows "r = Inr (connected P w) \<and> r' = Inr ()
    \<and> (if connected P w then \<exists>a b c d. sent_only w [a, b] w1 \<and> sent_only w [c, d] w2
         \<and> pubsub_request (p_strophe P) ''publish'' (c_str nd) a \<and> pubsub_request (p_strophe P) ''subscribe'' (c_str nd) b
         \<and> pubsub_request (p_strophe P) ''unsubscribe'' (c_str nd) c \<and> pubsub_request (p_strophe P) ''delete'' (c_str nd) d
       else sent_only w [] w1 \<and> sent_only w [] w2)"
  using setup_push_node_run [OF assms(1-3), of nd] delete_push_node_run [OF assms(1-3), of nd] assms(4,5)
  by (cases "connected P w") (simp_all, blast)

theorem push_node_requests_witness:
  "\<exists>r w1 a b. setup_push_node (ref_platform True) ''n1'' demo_strophe_world = (r, w1) \<and> r = Inr True
     \<and> xmpp_sends (w_trace w1) = [a, b]"
proof -
  obtain r w1 where 1: "setup_push_node (ref_platform True) ''n1'' demo_strophe_world = (r, w1)" by fastforce
  obtain r' w2 where 2: "delete_push_node (ref_platform True) ''n1'' demo_strophe_world = (r', w2)" by fastforce
  have c: "connected (ref_platform True) demo_strophe_world"
    by (simp add: connected_def ref_strophe_def demo_strophe_world_def wns_world.defs demo_wns_def)
  have t: "w_trace demo_strophe_world = []" by (simp add: demo_strophe_world_def wns_world.defs demo_wns_def)
  from push_node_requests [OF _ ref_bound demo_ready 1 2] c rst.strophe_lib_axioms obtain a b where
    "r = Inr True" "sent_only demo_strophe_world [a, b] w1" by auto
  with 1 sent_only_frame [OF this(2)] t show ?thesis by (auto simp: xmpp_sends_def)
qed

text \<open>The stanza of a push event, and a server that knows the node, for the witnesses.\<close>

definition demo_notification :: "stanza list \<Rightarrow> stanza" where
  "demo_notification cs = St (Tag_kind ''notification'') [(''xmlns'', PUSH_NS)] cs"

definition demo_node_event :: "string \<Rightarrow> string \<Rightarrow> stanza \<Rightarrow> stanza" where
  "demo_node_event nd from notif = St (Tag_kind ''message'') [(''from'', from)]
     [St (Tag_kind ''event'') [(''xmlns'', PUBSUB_EVENT_NS)]
       [St (Tag_kind ''items'') [(''node'', nd)] [St (Tag_kind ''item'') [] [notif]]]]"

definition demo_event :: "string \<Rightarrow> stanza \<Rightarrow> stanza" where
  "demo_event = demo_node_event ''n1''"

definition demo_world :: "string \<Rightarrow> (ref_db, ref_env, stanza) xmpp_world" where
  "demo_world ver = demo_strophe_world\<lparr>w_db := \<lparr>rd_keys =
     [''n1'' \<mapsto> (Rlist [''alice'', ''dev'', ''s1''], None), ''dev'' \<mapsto> (Rlist [''u'', ver, ''h''], None)], rd_now = 1\<rparr>\<rparr>"

lemma demo_push_node_event: "push_event ref_strophe from nd (demo_notification cs) (demo_node_event nd from (demo_notification cs))"
  by (simp add: push_event_def ref_strophe_def demo_node_event_def demo_notification_def)

lemma demo_push_event: "push_event ref_strophe from ''n1'' (demo_notification cs) (demo_event from (demo_notification cs))"
  by (simp add: demo_event_def demo_push_node_event)

lemma demo_world_simps [simp]:
  "rd_keys (w_db (demo_world v)) ''n1'' = Some (Rlist [''alice'', ''dev'', ''s1''], None)"
  "rd_keys (w_db (demo_world v)) ''dev'' = Some (Rlist [''u'', v, ''h''], None)"
  "xc_redis_set (w_xmpp (demo_world v))" "xc_jid (w_xmpp (demo_world v)) = ''push@example.org''"
  "c_str ''push@example.org'' = ''push@example.org''"
  by (simp_all add: demo_world_def demo_strophe_world_def wns_world.defs c_str_def)

lemma demo_speaks: "speaks_v2 (rd_keys (w_db (demo_world v))) ''dev'' \<longleftrightarrow> v = ''2''"
  "no_string (rd_keys (w_db (demo_world v))) ''dev''"
  by (simp_all add: speaks_v2_def list_at_def no_string_def)

text \<open>
  C28 (Events that are ignored). A message from any other sender changes nothing, whatever it contains, and
  neither does an event for a node without a list of account, device and secret.
\<close>

theorem foreign_event_ignored:
  assumes "redis_server (p_redis P) view now" "xc_redis_set (w_xmpp w)"
    and "(\<exists>from. st_attribute (p_strophe P) ''from'' stanza = Some from \<and> from \<noteq> c_str (xc_jid (w_xmpp w)))
      \<or> (\<exists>nd notif. push_event (p_strophe P) (c_str (xc_jid (w_xmpp w))) nd notif stanza
            \<and> no_string (view (w_db w)) nd \<and> length (list_at (view (w_db w)) nd) \<noteq> 3)"
  shows "message_handler P on_v1 on_v2 stanza w = (Inr 1, w)"
  using assms(3)
proof (elim disjE exE conjE)
  fix sender assume "st_attribute (p_strophe P) ''from'' stanza = Some sender" "sender \<noteq> c_str (xc_jid (w_xmpp w))"
  then show ?thesis by (simp add: message_handler_def Let_def deref_def get_jid_def)
next
  fix nd notif assume e: "push_event (p_strophe P) (c_str (xc_jid (w_xmpp w))) nd notif stanza"
    "no_string (view (w_db w)) nd" "length (list_at (view (w_db w)) nd) \<noteq> 3"
  then have "node_owner (view (w_db w)) nd = None" "node_device (view (w_db w)) nd = None"
    by (auto simp: node_owner_def node_device_def split: list.split)
  with message_handler_event [OF assms(1,2) e(1,2), of on_v1 on_v2] show ?thesis by simp
qed

theorem foreign_event_ignored_witness:
  "message_handler (ref_platform True) (\<lambda>n m. emit (Session_send 7 m)) (\<lambda>n acc mc psc. emit (Session_send 7 acc))
     (demo_event ''evil@example.org'' (demo_notification [])) (demo_world ''2'') = (Inr 1, demo_world ''2'')"
  using foreign_event_ignored [of "ref_platform True" rd_keys rd_now "demo_world ''2''"
    "demo_event ''evil@example.org'' (demo_notification [])"]
  by (simp add: rr.redis_server_axioms) (simp add: ref_strophe_def demo_event_def demo_node_event_def)


definition demo_overflow :: stanza where
  "demo_overflow = summary_form ref_strophe 99999999999 0"


end
