(* ===== verification/Server_Correct.thy ===== *)
theory Server_Correct
  imports Push_Server Xmpp_Correct
begin

text \<open>
  Correctness of the push server: every message of a client is answered exactly once, what each kind of
  message does to the database, to the XMPP server and to the WNS, and the way of a push event to the
  client's channel.
\<close>

section \<open>Answering once\<close>

text \<open>Operations that send nothing to the client, and operations that answer it unless they throw.\<close>

definition silent :: "(('db, 'e, 'st, 'z) world_scheme, 'a) M \<Rightarrow> bool" where
  "silent m \<longleftrightarrow> (\<forall>xs. keeps (\<lambda>w. session_sends (w_trace w) = xs) m)"

definition once :: "session_id \<Rightarrow> (string \<Rightarrow> bool) \<Rightarrow> (session_id \<times> string) list \<Rightarrow> (exn + 'a) \<times> ('db, 'e, 'st, 'z) world_scheme \<Rightarrow> bool" where
  "once sn Q xs res \<longleftrightarrow> (case res of
     (Inr _, w) \<Rightarrow> \<exists>t. Q t \<and> session_sends (w_trace w) = xs @ [(sn, t @ [CHR 0x00])]
   | (Inl e, w) \<Rightarrow> session_sends (w_trace w) = xs)"

definition answers :: "session_id \<Rightarrow> (string \<Rightarrow> bool) \<Rightarrow> (('db, 'e, 'st, 'z) world_scheme, 'a) M \<Rightarrow> bool" where
  "answers sn Q m \<longleftrightarrow> (\<forall>w. once sn Q (session_sends (w_trace w)) (m w))"

named_theorems silent_rules \<open>rules that show an operation sends nothing to the client\<close>
named_theorems answer_rules \<open>rules that show an operation answers the client once\<close>

lemma silentI: "(\<And>xs. keeps (\<lambda>w. session_sends (w_trace w) = xs) m) \<Longrightarrow> silent m"
  by (simp add: silent_def)

lemma silentD: "silent m \<Longrightarrow> keeps (\<lambda>w. session_sends (w_trace w) = xs) m"
  by (simp add: silent_def)

lemma silent_basic [silent_rules]:
  "silent (ret a)" "silent (raise e)" "silent (getE f)" "silent (liftR r)" "silent (assertE b c)"
  by (rule silentI, rule keeps_rules)+

lemma silent_bindE [silent_rules]: "silent m \<Longrightarrow> (\<And>a. silent (f a)) \<Longrightarrow> silent (bindE m f)"
  by (rule silentI) (auto intro: keeps_bindE silentD)

lemma silent_thenE [silent_rules]: "silent m \<Longrightarrow> silent n \<Longrightarrow> silent (thenE m n)"
  unfolding thenE_def by (rule silent_bindE)

lemma silent_if [silent_rules]: "silent m \<Longrightarrow> silent n \<Longrightarrow> silent (if b then m else n)"
  by simp

lemma silent_case_option [silent_rules]:
  "silent m \<Longrightarrow> (\<And>a. silent (f a)) \<Longrightarrow> silent (case x of None \<Rightarrow> m | Some a \<Rightarrow> f a)"
  by (cases x) auto

lemma silent_forE [silent_rules]: "(\<And>x. silent (f x)) \<Longrightarrow> silent (forE xs f)"
  by (induction xs) (auto intro: silent_rules)

lemma silent_on [silent_rules]: "silent (on_db m)" "silent (on_env m')"
  by (auto intro!: silentI keeps_on_db keeps_on_env)

lemma silent_emit [silent_rules]: "silent (emit (Http_post q))" "silent (emit (Xmpp_send st))"
  by (rule silentI, rule keeps_emit, simp)+

lemma silent_catch_parse [silent_rules]: "silent m \<Longrightarrow> silent (catch_parse_error m)"
  by (rule silentI, rule keeps_catch_parse, rule silentD)

lemma silent_set_token [silent_rules]: "silent (set_token t)"
  by (simp add: silent_def keeps_def)

lemma answersD: "answers sn Q m \<Longrightarrow> once sn Q (session_sends (w_trace w)) (m w)"
  by (simp add: answers_def)

lemma once_error: "once sn Q xs (Inl e, w) \<longleftrightarrow> session_sends (w_trace w) = xs"
  by (simp add: once_def)

lemma answers_bindE [answer_rules]:
  assumes "silent m" "\<And>a. answers sn Q (f a)"
  shows "answers sn Q (bindE m f)"
  unfolding answers_def
proof
  fix w obtain r w1 where m: "m w = (r, w1)" by fastforce
  have s: "session_sends (w_trace w1) = session_sends (w_trace w)"
    by (rule keepsD [OF silentD [OF assms(1), of "session_sends (w_trace w)"] refl m])
  show "once sn Q (session_sends (w_trace w)) (bindE m f w)"
    using m s answersD [OF assms(2), where w = w1] by (cases r) (simp_all add: once_error)
qed

lemma answers_thenE [answer_rules]: "silent m \<Longrightarrow> answers sn Q n \<Longrightarrow> answers sn Q (thenE m n)"
  unfolding thenE_def by (rule answers_bindE)

lemma answers_if [answer_rules]: "answers sn Q m \<Longrightarrow> answers sn Q n \<Longrightarrow> answers sn Q (if b then m else n)"
  by simp

lemma answers_case_option [answer_rules]:
  "answers sn Q m \<Longrightarrow> (\<And>a. answers sn Q (f a)) \<Longrightarrow> answers sn Q (case x of None \<Rightarrow> m | Some a \<Rightarrow> f a)"
  by (cases x) auto

lemma answers_catchE [answer_rules]:
  assumes "answers sn Q m" "\<And>e. answers sn Q (h e)"
  shows "answers sn Q (catchE m h)"
  unfolding answers_def
proof
  fix w obtain r w1 where m: "m w = (r, w1)" by fastforce
  show "once sn Q (session_sends (w_trace w)) (catchE m h w)"
    using m answersD [OF assms(1), of w] answersD [OF assms(2), where w = w1]
    by (cases r) (simp_all add: once_error once_def [of _ _ _ "(Inr _, _)"])
qed

text \<open>The document of a response of the server.\<close>

fun is_response :: "any_message \<Rightarrow> bool" where
  "is_response (Msg_Success m) \<longleftrightarrow> m = SuccessResponseMessage_new"
| "is_response (Msg_SuccessSetPushAccounts m) \<longleftrightarrow> (\<exists>accs jid. m = SuccessSetPushAccountsMessage_new accs jid)"
| "is_response (Msg_Error m) \<longleftrightarrow> (\<exists>e. m = ErrorResponseMessage_new e)"
| "is_response _ \<longleftrightarrow> False"

definition response_text :: "('j, 'db, 'e, 'st) platform \<Rightarrow> string \<Rightarrow> bool" where
  "response_text P t \<longleftrightarrow> (\<exists>m j. is_response m \<and> msg_to_json (p_asserts P) (p_json P) m (j_null (p_json P)) = Inr j
     \<and> j_dump (p_json P) j = Inr t)"

lemma answers_send:
  fixes P :: "('j, 'db, 'e, 'st) platform"
  assumes "is_response m"
  shows "answers sn (response_text P) (bindE (liftR (msg_to_json (p_asserts P) (p_json P) m (j_null (p_json P)))) (session_send P sn))"
  unfolding answers_def
proof
  fix w :: "('db, 'e, 'st, 'z) world_scheme"
  let ?m = "msg_to_json (p_asserts P) (p_json P) m (j_null (p_json P))"
  show "once sn (response_text P) (session_sends (w_trace w)) (bindE (liftR ?m) (session_send P sn) w)"
  proof (cases "bindR ?m (j_dump (p_json P))")
    case (Inl e)
    then show ?thesis by (auto simp: bindR_eq_Inl session_send_def once_error)
  next
    case (Inr t)
    then obtain j where "?m = Inr j" "j_dump (p_json P) j = Inr t" by (auto simp: bindR_eq_Inr)
    with assms show ?thesis by (auto simp: session_send_def session_send_text_def response_text_def once_def)
  qed
qed

lemma answers_respond [answer_rules]:
  "answers sn (response_text P) (respond_with_success P sn)" "answers sn (response_text P) (respond_with_error P sn e)"
  using answers_send [of "Msg_Success SuccessResponseMessage_new" sn P] answers_send [of "Msg_Error (ErrorResponseMessage_new e)" sn P]
  by (auto simp: respond_with_success_def respond_with_error_def)

lemma silent_wns [silent_rules]: "silent (request_new_token P)" "silent (is_token_valid P)"
  unfolding request_new_token_def post_def token_from_response_def get_expires_date_def store_token_in_db_def
    need_redis_def is_token_valid_def token_is_valid_def
  by (intro silent_rules)+

lemma silent_case_action: "silent m1 \<Longrightarrow> silent m2 \<Longrightarrow> silent m3 \<Longrightarrow>
   silent (case a of SUCCESS \<Rightarrow> m1 | RETRY \<Rightarrow> m2 | ERROR \<Rightarrow> m3)"
  by (cases a) auto

lemma silent_attempts: "silent (send_attempts P q n)"
proof (induction n)
  case 0
  show ?case unfolding send_attempts.simps by (rule silent_rules)
next
  case (Suc n)
  then show ?case unfolding send_attempts.simps post_def handle_response_code_def
    by (intro silent_rules silent_case_action)
qed

lemma silent_notification [silent_rules]: "silent (send_raw_notification P uri content)"
  unfolding send_raw_notification_def by (intro silent_rules silent_attempts)

lemma silent_push_nodes [silent_rules]: "silent (setup_push_node P nd)" "silent (delete_push_node P nd)"
  unfolding setup_push_node_def delete_push_node_def need_conn_def is_connected_def xmpp_pep_publish_empty_new_def
    xmpp_pep_subscribe_new_def xmpp_pep_unsubscribe_new_def xmpp_pep_delete_new_def pep_iq_def need_ctx_def bound_jid_def
    xmpp_send_def Let_def
  by (intro silent_rules)+

lemma silent_add_accounts: "silent (add_accounts P dev accs st)"
proof (induction accs arbitrary: st)
  case Nil
  show ?case unfolding add_accounts.simps by (rule silent_rules)
next
  case (Cons acc accs)
  then show ?case unfolding add_accounts.simps add_account_def Let_def by (intro silent_rules)
qed

lemma silent_setup_nodes: "silent (setup_nodes P m accs)"
proof (induction m accs rule: setup_nodes.induct)
  case (1 P accs)
  show ?case unfolding setup_nodes.simps by (rule silent_rules)
next
  case (2 P nd i rest accs)
  then show ?case unfolding setup_nodes.simps by (intro silent_rules)
qed

lemma dispatch_answers: "answers sn (response_text P) (dispatch_message P sn m)"
proof -
  have a: "answers sn (response_text P) (bindE (liftR (SuccessSetPushAccountsMessage_to_json (p_asserts P) (p_json P)
      (SuccessSetPushAccountsMessage_new accs jid) (j_null (p_json P)))) (session_send P sn))" for accs jid
    using answers_send [of "Msg_SuccessSetPushAccounts (SuccessSetPushAccountsMessage_new accs jid)" sn P] by auto
  show ?thesis
    unfolding dispatch_message_def set_channel_uri_def set_push_accounts_def send_test_push_def
    by (cases m; simp only: any_message.case;
        intro answer_rules silent_rules silent_add_accounts silent_setup_nodes a)
qed

section \<open>Responses\<close>

text \<open>From \<open>w\<close> to \<open>w'\<close> the response \<open>m\<close> was sent, and nothing else happened.\<close>

definition responded ::
  "('j, 'db, 'e, 'st) platform \<Rightarrow> session_id \<Rightarrow> any_message \<Rightarrow> ('db, 'e, 'st, 'z) world_scheme \<Rightarrow> ('db, 'e, 'st, 'z) world_scheme \<Rightarrow> bool" where
  "responded P sn m w w' \<longleftrightarrow> (\<exists>j t. msg_to_json (p_asserts P) (p_json P) m (j_null (p_json P)) = Inr j
     \<and> j_dump (p_json P) j = Inr t \<and> w' = w\<lparr>w_trace := w_trace w @ [Session_send sn (t @ [CHR 0x00])]\<rparr>)"

text \<open>The library can write the response as text (it throws on strings that are not valid UTF-8).\<close>

definition printable :: "('j, 'db, 'e, 'st) platform \<Rightarrow> any_message \<Rightarrow> bool" where
  "printable P m \<longleftrightarrow> (\<exists>j t. msg_to_json (p_asserts P) (p_json P) m (j_null (p_json P)) = Inr j
     \<and> j_dump (p_json P) j = Inr t)"

abbreviation error_response :: "string \<Rightarrow> any_message" where
  "error_response e \<equiv> Msg_Error (ErrorResponseMessage_new e)"

abbreviation success_response :: any_message where
  "success_response \<equiv> Msg_Success SuccessResponseMessage_new"

lemma respond_run:
  "printable P success_response \<Longrightarrow> \<exists>w'. respond_with_success P sn w = (Inr (), w') \<and> responded P sn success_response w w'"
  "printable P (error_response e) \<Longrightarrow> \<exists>w'. respond_with_error P sn e w = (Inr (), w') \<and> responded P sn (error_response e) w w'"
  by (auto simp: printable_def responded_def respond_with_success_def respond_with_error_def session_send_def
      session_send_text_def)

lemma responded_db: "responded P sn m w w' \<Longrightarrow> w_db w' = w_db w"
  by (auto simp: responded_def)

lemma ref_printable: "sendable m \<Longrightarrow> printable (ref_platform a) m"
  using rj.sendable_roundtrip [of m a] by (auto simp: printable_def ref_json_def)

lemma ref_printable_short [simp]: "printable (ref_platform a) success_response" "printable (ref_platform a) (error_response e)"
  by (rule ref_printable, rule sendable.intros)+

lemma received_valid:
  assumes "parse (p_asserts P) (p_json P) s = Inr (Some m)" "msg_is_valid m" "dispatch_message P sn m w = (Inr (), w')"
  shows "on_message_received P sn s w = (Inr (), w')"
  using assms by (simp add: on_message_received_def)

lemma dispatch_valid:
  assumes "msg_is_valid m"
  shows "dispatch_message P sn m = (case m of
       Msg_SetChannelUri m \<Rightarrow> set_channel_uri P sn (uri_deviceId m) (uri_channelUri m)
     | Msg_SetPushAccounts m \<Rightarrow> set_push_accounts P sn (acc_deviceId m) (to_string (version m)) (acc_accounts m)
     | Msg_RequestTestPush m \<Rightarrow> send_test_push P sn (test_deviceId m)
     | _ \<Rightarrow> respond_with_error P sn ''Unsupported message type.'')"
  using assms by (intro ext) (simp add: dispatch_message_def split: any_message.split)

text \<open>Assertions only matter for a message that is not valid.\<close>

lemma parse_json_asserts:
  "parse_json True J j = (case parse_json False J j of
     Inr (Some m) \<Rightarrow> if msg_is_valid m then Inr (Some m) else Inl Assert_failed | r \<Rightarrow> r)"
  unfolding parse_json_def
  by (auto simp: bindR_def split: sum.split option.split)

section \<open>Registering accounts\<close>

text \<open>A new account as \<^verbatim>\<open>PushAccount::create\<close> makes it, whether or not its node could be set up.\<close>

definition fresh_account :: "string \<Rightarrow> push_account \<Rightarrow> bool" where
  "fresh_account acc a \<longleftrightarrow> accountId a = acc \<and> length (node a) = 15 \<and> length (secret a) = 15
     \<and> set (node a) \<subseteq> set alphanum \<and> set (secret a) \<subseteq> set alphanum"

lemma create_run:
  assumes "crypto_lib C"
  shows "\<exists>a e'. PushAccount_create asserts C acc e = (Inr a, e') \<and> fresh_account acc a \<and> \<not> success a"
proof -
  have C: "random_source C" using assms by (simp add: crypto_lib_def)
  obtain n e1 where n: "url_safe_random_token asserts C 15 e = (Inr n, e1)" "length n = 15" "set n \<subseteq> set alphanum"
    using random_source.url_safe_random_token_spec [OF C, of 15 asserts e] by auto
  obtain s e2 where s: "secure_random_password asserts C 15 e1 = (Inr s, e2)" "length s = 15" "set s \<subseteq> set (take 61 alphanum)"
    using random_source.secure_random_password_spec [OF C, of 15 asserts e1] by auto
  have "set s \<subseteq> set alphanum" using s(3) set_take_subset [of 61 alphanum] by blast
  with n s(1,2) show ?thesis
    by (intro exI [of _ "PushAccount_new acc n s False"] exI [of _ e2])
      (simp add: PushAccount_create_def fresh_account_def PushAccount_new_def)
qed

text \<open>
  Every entry of the map of new nodes leads to the account with that node; and if no node was drawn twice,
  every account has its entry.
\<close>

definition indexes :: "(string \<times> nat) list \<Rightarrow> push_account list \<Rightarrow> bool" where
  "indexes m accs \<longleftrightarrow> (\<forall>(nd, i) \<in> set m. i < length accs \<and> node (accs ! i) = nd)"

definition numbered :: "(string \<times> nat) list \<Rightarrow> push_account list \<Rightarrow> bool" where
  "numbered m accs \<longleftrightarrow> indexes m accs \<and> distinct (map fst m) \<and> distinct (map snd m)
     \<and> (distinct (map node accs) \<longrightarrow> snd ` set m = {..<length accs})"

lemma set_map_assign: "set (map_assign k v m) \<subseteq> insert (k, v) (set m)"
  by (induction k v m rule: map_assign.induct) auto

lemma map_assign_new: "k \<notin> fst ` set m \<Longrightarrow> map_assign k v m = m @ [(k, v)]"
  by (induction k v m rule: map_assign.induct) auto

lemma map_assign_distinct:
  "distinct (map fst m) \<Longrightarrow> distinct (map fst (map_assign k v m))"
  "distinct (map snd m) \<Longrightarrow> v \<notin> snd ` set m \<Longrightarrow> distinct (map snd (map_assign k v m))"
  using set_map_assign by (induction k v m rule: map_assign.induct) (auto simp: image_iff, fastforce+)

lemma indexes_assign: "indexes m accs \<Longrightarrow> indexes (map_assign (node a) (length accs) m) (accs @ [a])"
  unfolding indexes_def using set_map_assign [of "node a" "length accs" m] by (fastforce simp: nth_append)

lemma numbered_assign:
  assumes "numbered m accs"
  shows "numbered (map_assign (node a) (length accs) m) (accs @ [a])"
proof -
  from assms have m: "indexes m accs" "distinct (map fst m)" "distinct (map snd m)"
    "distinct (map node accs) \<Longrightarrow> snd ` set m = {..<length accs}" by (simp_all add: numbered_def)
  from m(1) have new: "length accs \<notin> snd ` set m" by (auto simp: indexes_def)
  have "snd ` set (map_assign (node a) (length accs) m) = {..<length (accs @ [a])}" if "distinct (map node (accs @ [a]))"
  proof -
    have "node a \<notin> fst ` set m"
    proof
      assume "node a \<in> fst ` set m"
      then obtain i where "(node a, i) \<in> set m" by auto
      with m(1) have "i < length accs" "node (accs ! i) = node a" by (auto simp: indexes_def)
      then have "node a \<in> node ` set accs" by (metis imageI nth_mem)
      with that show False by simp
    qed
    moreover have "snd ` set m = {..<length accs}" using that m(4) by simp
    ultimately show ?thesis by (simp add: map_assign_new lessThan_Suc)
  qed
  then show ?thesis
    using indexes_assign [OF m(1)] map_assign_distinct(1) [OF m(2)] map_assign_distinct(2) [OF m(3) new] by (simp add: numbered_def)
qed

lemma mset_in_order:
  assumes "distinct (map fst m)" "mset (p_order P (map fst m)) = mset (map fst m)"
  shows "mset (in_order P m) = mset m"
proof -
  have "mset (in_order P m) = image_mset (\<lambda>k. (k, the (map_of m k))) (mset (map fst m))"
    using assms(2) by (simp add: in_order_def)
  also have "\<dots> = mset (map (\<lambda>p. (fst p, the (map_of m (fst p)))) m)" by (simp add: image_mset.compositionality comp_def)
  also have "map (\<lambda>p. (fst p, the (map_of m (fst p)))) m = m"
    by (rule map_idI) (use map_of_is_SomeI [OF assms(1)] in fastforce)
  finally show ?thesis .
qed

lemma numbered_in_order:
  assumes "numbered m accs" "mset (p_order P (map fst m)) = mset (map fst m)"
  shows "numbered (in_order P m) accs"
proof -
  have m: "mset (in_order P m) = mset m" using mset_in_order [OF _ assms(2)] assms(1) by (simp add: numbered_def)
  then have "set (in_order P m) = set m" by (rule mset_eq_setD)
  moreover have "distinct (map fst (in_order P m)) = distinct (map fst m)" "distinct (map snd (in_order P m)) = distinct (map snd m)"
    using m by (auto intro!: mset_eq_imp_distinct_iff)
  ultimately show ?thesis using assms(1) by (simp add: numbered_def indexes_def)
qed

lemma add_account_fresh:
  assumes "crypto_lib (p_crypto P)" "redis_server (p_redis P) view now" "as_delete st = []"
    and "view (w_db w) (gen_account (p_crypto P) dev acc) = None"
  shows "\<exists>a e. add_account P dev acc st w = (Inr (st\<lparr>as_accounts := as_accounts st @ [a],
      as_add := map_assign (node a) (length (as_accounts st)) (as_add st)\<rparr>), w\<lparr>w_env := e\<rparr>) \<and> fresh_account acc a \<and> \<not> success a"
proof -
  from create_run [OF assms(1), of "p_asserts P" acc "w_env w"] obtain a e where
    a: "PushAccount_create (p_asserts P) (p_crypto P) acc (w_env w) = (Inr a, e)" "fresh_account acc a" "\<not> success a" by blast
  then have "load_push_account (p_redis P) (p_crypto P) dev a (w_db w) = (Inr a, w_db w)"
    using redis_server.load_push_account_unknown [OF assms(2), of "w_db w" "p_crypto P" dev a] assms(4)
    by (simp add: fresh_account_def)
  with a assms(3) show ?thesis
    by (intro exI [of _ a] exI [of _ e]) (simp add: add_account_def Let_def)
qed

lemma add_accounts_fresh:
  assumes "crypto_lib (p_crypto P)" "redis_server (p_redis P) view now" "as_delete st = []"
    and "\<forall>acc \<in> set accs. view (w_db w) (gen_account (p_crypto P) dev acc) = None" "numbered (as_add st) (as_accounts st)"
  shows "\<exists>st' as e. add_accounts P dev accs st w = (Inr st', w\<lparr>w_env := e\<rparr>) \<and> as_delete st' = []
    \<and> as_accounts st' = as_accounts st @ as \<and> list_all2 fresh_account accs as \<and> (\<forall>a \<in> set as. \<not> success a)
    \<and> numbered (as_add st') (as_accounts st')"
  using assms(3-5)
proof (induction accs arbitrary: st w)
  case Nil
  then show ?case by (intro exI [of _ st] exI [of _ "[]"] exI [of _ "w_env w"]) simp
next
  case (Cons acc accs)
  from add_account_fresh [OF assms(1,2) Cons.prems(1), of w dev acc] Cons.prems(2) obtain a e where
    a: "add_account P dev acc st w = (Inr (st\<lparr>as_accounts := as_accounts st @ [a],
      as_add := map_assign (node a) (length (as_accounts st)) (as_add st)\<rparr>), w\<lparr>w_env := e\<rparr>)" "fresh_account acc a" "\<not> success a" by auto
  let ?st = "st\<lparr>as_accounts := as_accounts st @ [a], as_add := map_assign (node a) (length (as_accounts st)) (as_add st)\<rparr>"
  have "numbered (as_add ?st) (as_accounts ?st)" using numbered_assign [OF Cons.prems(3)] by simp
  with Cons.IH [of ?st "w\<lparr>w_env := e\<rparr>"] Cons.prems obtain st' as e' where
    "add_accounts P dev accs ?st (w\<lparr>w_env := e\<rparr>) = (Inr st', w\<lparr>w_env := e'\<rparr>)" "as_delete st' = []"
    "as_accounts st' = as_accounts st @ a # as" "list_all2 fresh_account accs as" "\<forall>a \<in> set as. \<not> success a" "numbered (as_add st') (as_accounts st')"
    by auto
  with a show ?case by (intro exI [of _ st'] exI [of _ "a # as"] exI [of _ e']) simp
qed

text \<open>Exactly the requests for the nodes \<open>nds\<close>: for each to create it and to subscribe to it, in this order.\<close>

fun requests_for :: "('j, 'db, 'e, 'st) platform \<Rightarrow> string list \<Rightarrow> 'st list \<Rightarrow> bool" where
  "requests_for P [] sts \<longleftrightarrow> sts = []"
| "requests_for P (nd # nds) (a # b # sts) \<longleftrightarrow> pubsub_request (p_strophe P) ''publish'' (c_str nd) a
     \<and> pubsub_request (p_strophe P) ''subscribe'' (c_str nd) b \<and> requests_for P nds sts"
| "requests_for P (nd # nds) sts \<longleftrightarrow> False"

text \<open>A connection that is up in \<open>e\<close> and that the calls made for the requests do not lose.\<close>

definition keeps_connected :: "('j, 'db, 'e, 'st) platform \<Rightarrow> ('e \<Rightarrow> bool) \<Rightarrow> bool" where
  "keeps_connected P up \<longleftrightarrow> (let S = p_strophe P in \<forall>e. up e \<longrightarrow> fst (conn_is_connected S e)
     \<and> up (snd (conn_is_connected S e)) \<and> up (snd (conn_bound_jid S e)) \<and> (\<forall>st. up (snd (conn_send S st e))))"

definition stays_connected :: "('j, 'db, 'e, 'st) platform \<Rightarrow> 'e \<Rightarrow> bool" where
  "stays_connected P e \<longleftrightarrow> (\<exists>up. keeps_connected P up \<and> up e)"

lemma keeps_run: "keeps I m \<Longrightarrow> m s = (r, s') \<Longrightarrow> I s \<Longrightarrow> I s'"
  by (metis keeps_def snd_conv)

lemma keeps_askE: "(\<And>e. I e \<Longrightarrow> I (snd (f e))) \<Longrightarrow> keeps I (askE f)"
  by (rule keepsI) (simp add: split_beta)

text \<open>A property of the outside world alone.\<close>

abbreviation keeps_env :: "('e \<Rightarrow> bool) \<Rightarrow> (('db, 'e, 'st, 'z) world_scheme, 'a) M \<Rightarrow> bool" where
  "keeps_env I \<equiv> keeps (\<lambda>w. I (w_env w))"

lemma keeps_env_db: "keeps_env I (on_db d)"
  by (rule keeps_on_db) simp

lemma keeps_env_emit: "keeps_env I (emit ev)"
  by (rule keeps_emit) simp

lemma keeps_env_on: "keeps I m \<Longrightarrow> keeps_env I (on_env m)"
  by (rule keepsI) (simp add: keeps_def split_beta)

lemmas env_rules = keeps_rules keeps_env_db keeps_env_emit keeps_env_on

lemma keeps_setup_push_node:
  assumes "keeps_connected P up"
  shows "keeps_env up (setup_push_node P nd)"
proof -
  have ask: "keeps up (askE (conn_is_connected (p_strophe P)))"
    "keeps up (askE (conn_bound_jid (p_strophe P)))" "keeps up (askE (conn_send (p_strophe P) st))" for st
    using assms by (auto simp: keeps_connected_def Let_def intro: keeps_askE)
  show ?thesis
    unfolding setup_push_node_def need_conn_def is_connected_def xmpp_pep_publish_empty_new_def
      xmpp_pep_subscribe_new_def pep_iq_def need_ctx_def bound_jid_def xmpp_send_def Let_def
    by (intro ask env_rules)
qed

lemma stays_connected_setup:
  assumes "stays_connected P (w_env w)" "setup_push_node P nd w = (r, w')"
  shows "stays_connected P (w_env w')"
  using assms(1) keeps_run [OF keeps_setup_push_node assms(2)] unfolding stays_connected_def by blast

lemma stays_connected_connected: "stays_connected P (w_env w) \<Longrightarrow> connected P w"
  by (auto simp: stays_connected_def keeps_connected_def connected_def Let_def)

text \<open>Setting up the nodes changes the flags only, and a flag that is set stands for the two requests.\<close>

lemma setup_nodes_run:
  assumes "strophe_lib (p_strophe P)" "bound P" "ready w" "indexes m accs" "distinct (map snd m)"
  shows "\<exists>accs' sts w'. setup_nodes P m accs w = (Inr accs', w') \<and> sent_only w sts w'
    \<and> map (\<lambda>a. a\<lparr>success := False\<rparr>) accs' = map (\<lambda>a. a\<lparr>success := False\<rparr>) accs
    \<and> (\<forall>i. i \<notin> snd ` set m \<longrightarrow> accs' ! i = accs ! i)
    \<and> requests_for P (map fst (filter (\<lambda>p. success (accs' ! snd p)) m)) sts
    \<and> (stays_connected P (w_env w) \<longrightarrow> (\<forall>i \<in> snd ` set m. success (accs' ! i)))"
  using assms(3-5)
proof (induction m arbitrary: accs w)
  case Nil
  then show ?case using sent_only_env [of w "w_env w"] by (intro exI [of _ accs] exI [of _ "[]"] exI [of _ w]) simp
next
  case (Cons p m)
  obtain nd i where p: "p = (nd, i)" by fastforce
  from setup_push_node_run [OF assms(1,2) Cons.prems(1), of nd] obtain sts1 w1 where
    s: "setup_push_node P nd w = (Inr (connected P w), w1)" "sent_only w sts1 w1"
    "if connected P w then \<exists>st1 st2. sts1 = [st1, st2] \<and> pubsub_request (p_strophe P) ''publish'' (c_str nd) st1
       \<and> pubsub_request (p_strophe P) ''subscribe'' (c_str nd) st2 else sts1 = []" by blast
  let ?accs = "accs[i := (accs ! i)\<lparr>success := connected P w\<rparr>]"
  from Cons.prems(2,3) p have i: "i < length accs" "node (accs ! i) = nd" "indexes m accs" "i \<notin> snd ` set m" "distinct (map snd m)"
    by (auto simp: indexes_def)
  have "node (?accs ! k) = node (accs ! k)" for k using i(1) by (cases "k = i") simp_all
  then have "indexes m ?accs" using i(3) by (simp add: indexes_def case_prod_beta)
  moreover have "ready w1" using Cons.prems(1) sent_only_xmpp [OF s(2)] by (simp add: ready_def)
  ultimately obtain accs' sts w' where r: "setup_nodes P m ?accs w1 = (Inr accs', w')" "sent_only w1 sts w'"
    "map (\<lambda>a. a\<lparr>success := False\<rparr>) accs' = map (\<lambda>a. a\<lparr>success := False\<rparr>) ?accs"
    "\<forall>i. i \<notin> snd ` set m \<longrightarrow> accs' ! i = ?accs ! i" "requests_for P (map fst (filter (\<lambda>p. success (accs' ! snd p)) m)) sts"
    "stays_connected P (w_env w1) \<longrightarrow> (\<forall>i \<in> snd ` set m. success (accs' ! i))"
    using Cons.IH [of w1 ?accs] i(5) by blast
  from r(4) i(1,4) have flag: "success (accs' ! i) = connected P w" by simp
  have "map (\<lambda>a. a\<lparr>success := False\<rparr>) ?accs = map (\<lambda>a. a\<lparr>success := False\<rparr>) accs"
    using i(1) by (simp add: map_update list_update_same_conv)
  moreover have "requests_for P (map fst (filter (\<lambda>p. success (accs' ! snd p)) (p # m))) (sts1 @ sts)"
    using s(3) r(5) flag p by (auto split: if_splits)
  moreover have "\<forall>j. j \<notin> snd ` set (p # m) \<longrightarrow> accs' ! j = accs ! j" using r(4) p by auto
  moreover have "stays_connected P (w_env w) \<longrightarrow> (\<forall>j \<in> snd ` set (p # m). success (accs' ! j))"
    using r(6) flag p stays_connected_setup [OF _ s(1)] stays_connected_connected by auto
  ultimately show ?case using r(1,3) s(1) p sent_only_trans [OF s(2) r(2)]
    by (intro exI [of _ accs'] exI [of _ "sts1 @ sts"] exI [of _ w']) simp
qed

lemma fresh_account_flag: "fresh_account acc (a\<lparr>success := b\<rparr>) = fresh_account acc a"
  by (simp add: fresh_account_def)

lemma fresh_accounts_flags:
  assumes "list_all2 fresh_account accs as" "map (\<lambda>a. a\<lparr>success := False\<rparr>) as' = map (\<lambda>a. a\<lparr>success := False\<rparr>) as"
  shows "list_all2 fresh_account accs as'"
proof -
  have "list_all2 (\<lambda>acc a. fresh_account acc (a\<lparr>success := False\<rparr>)) accs as" using assms(1) by (simp add: fresh_account_flag)
  then have "list_all2 fresh_account accs (map (\<lambda>a. a\<lparr>success := False\<rparr>) as')"
    unfolding assms(2) by (simp add: list.rel_map)
  then show ?thesis by (simp add: list.rel_map fresh_account_flag)
qed

section \<open>Demonstration world\<close>

text \<open>A known device, a connected XMPP client and a valid WNS token, for the witnesses.\<close>

definition demo_server :: "(ref_db, ref_env, stanza) xmpp_world" where
  "demo_server = demo_strophe_world\<lparr>w_db := \<lparr>rd_keys = [''dev'' \<mapsto> (Rlist [demo_uri], None)], rd_now = 1\<rparr>\<rparr>"

lemma demo_server_db [simp]: "w_db demo_server = \<lparr>rd_keys = [''dev'' \<mapsto> (Rlist [demo_uri], None)], rd_now = 1\<rparr>"
  by (simp add: demo_server_def)

lemma ref_parse_sendable: "sendable m \<Longrightarrow> \<exists>s. parse a ref_json s = Inr (Some m)"
proof -
  assume "sendable m"
  then obtain j where "parse_json a ref_json j = Inr (Some m)" using rj.sendable_roundtrip [of m a] by blast
  then have "parse a ref_json (print_json j) = Inr (Some m)" by (simp add: parse_def) (simp add: ref_json_def)
  then show ?thesis by blast
qed

section \<open>Properties\<close>

text \<open>
  C1 (One answer per message). Whatever bytes a client sends on a session, when the server is done with them it has
  sent exactly one message on that session and none on any other: the NUL-terminated text of one of its three kinds of
  response. If the handling ends in an abort or an escaping exception, it has sent none.
\<close>

theorem one_response_per_message:
  fixes w :: "('db, 'e, 'st, 'z) xmpp_world_scheme"
  shows "case on_message_received P sn s w of
     (Inr _, w') \<Rightarrow> \<exists>t. response_text P t \<and> session_sends (w_trace w') = session_sends (w_trace w) @ [(sn, t @ [CHR 0x00])]
   | (Inl e, w') \<Rightarrow> session_sends (w_trace w') = session_sends (w_trace w)"
proof -
  have "answers sn (response_text P) (on_message_received P sn s :: (('db, 'e, 'st, 'z) xmpp_world_scheme, unit) M)"
    unfolding on_message_received_def by (intro answer_rules silent_rules dispatch_answers)
  then show ?thesis unfolding answers_def once_def by (rule spec)
qed

text \<open>
  C30 (Invalid messages). A message that names a known action but lacks or violates a field never gets
  the answer \<^verbatim>\<open>Invalid JSON message.\<close> from a build with assertions: the assertion at the end of
  \<^verbatim>\<open>parse_json\<close> aborts the server. Only without assertions the server answers.
\<close>

theorem invalid_message_aborts:
  assumes "j_parse (p_json P) s = Inr j" "parse_json False (p_json P) j = Inr (Some m)" "\<not> msg_is_valid m"
  shows "on_message_received P sn s w =
    (if p_asserts P then (Inl Assert_failed, w) else respond_with_error P sn ''Invalid JSON message.'' w)"
  using assms parse_json_asserts [of "p_json P" j]
  by (cases "p_asserts P") (simp_all add: on_message_received_def parse_def)

theorem invalid_message_aborts_witness:
  "\<exists>s. on_message_received (ref_platform True) 7 s demo_server = (Inl Assert_failed, demo_server)"
proof -
  let ?j = "Jobj [(''action'', Jstr ''set_channel_uri'')]"
  have "parse_json False ref_json ?j = Inr (Some (Msg_SetChannelUri (abstract_message.extend
      (AbstractMessage_default\<lparr>isValid := False\<rparr>) \<lparr>uri_channelUri = [], uri_deviceId = []\<rparr>)))"
    by (simp add: parse_json_def construct_message_def message_consts SetChannelUriMessage_of_json_def set_valid_def
        SetChannelUriMessage_from_json_def AbstractMessage_from_json_def at_string_def ref_json_def
        AbstractMessage_default_def abstract_message.extend_def)
  moreover have "j_parse ref_json (print_json ?j) = Inr ?j" by (simp add: ref_json_def)
  ultimately show ?thesis
    using invalid_message_aborts [of "ref_platform True" "print_json ?j" ?j _ 7 demo_server]
    by (intro exI [of _ "print_json ?j"]) (simp add: abstract_message.extend_def AbstractMessage_default_def)
qed

text \<open>
  C21 (Setting the channel URI). A valid \<^verbatim>\<open>set_channel_uri\<close> message with an accepted URI stores it as the
  first entry of the device's list, keeps the other entries, renews the time-out and is answered with
  success; with any other URI it is answered with an error and the database stays as it was.
\<close>

theorem channel_uri_message:
  assumes "redis_server (p_redis P) view now" "parse (p_asserts P) (p_json P) s = Inr (Some (Msg_SetChannelUri m))" "isValid m"
    and "no_string (view (w_db w)) (uri_deviceId m)" "printable P success_response"
    and "printable P (error_response ''Invalid channel URI. Has to use the domain 'notify.windows.com'.'')"
  shows "\<exists>d w'. on_message_received P sn s w = (Inr (), w') \<and>
    (if is_valid_channel_uri (p_match P) (uri_channelUri m) then responded P sn success_response (w\<lparr>w_db := d\<rparr>) w'
       \<and> view d = (view (w_db w))(uri_deviceId m \<mapsto> (Rlist (uri_channelUri m # drop 1 (list_at (view (w_db w)) (uri_deviceId m))),
            Some (now (w_db w) + DEFAULT_ENTRY_TIMEOUT)))
     else responded P sn (error_response ''Invalid channel URI. Has to use the domain 'notify.windows.com'.'') w w')"
proof (cases "is_valid_channel_uri (p_match P) (uri_channelUri m)")
  case True
  from redis_server.set_channel_uri_run [OF assms(1,4), of "uri_channelUri m"] obtain d where
    d: "redis_set_channel_uri (p_redis P) (uri_deviceId m) (uri_channelUri m) (w_db w) = (Inr (), d)"
    "view d = (view (w_db w))(uri_deviceId m \<mapsto> (Rlist (uri_channelUri m # drop 1 (list_at (view (w_db w)) (uri_deviceId m))),
            Some (now (w_db w) + DEFAULT_ENTRY_TIMEOUT)))" by blast
  from respond_run(1) [OF assms(5), of sn "w\<lparr>w_db := d\<rparr>"] obtain w' where
    w': "respond_with_success P sn (w\<lparr>w_db := d\<rparr>) = (Inr (), w')" "responded P sn success_response (w\<lparr>w_db := d\<rparr>) w'" by blast
  have "dispatch_message P sn (Msg_SetChannelUri m) w = (Inr (), w')"
    using True d(1) w'(1) assms(3) by (simp add: dispatch_valid set_channel_uri_def)
  from received_valid [OF assms(2) _ this] assms(3) True d(2) w'(2) show ?thesis by auto
next
  case False
  from respond_run(2) [OF assms(6), of sn w] obtain w' where
    w': "respond_with_error P sn ''Invalid channel URI. Has to use the domain 'notify.windows.com'.'' w = (Inr (), w')"
    "responded P sn (error_response ''Invalid channel URI. Has to use the domain 'notify.windows.com'.'') w w'" by blast
  have "dispatch_message P sn (Msg_SetChannelUri m) w = (Inr (), w')"
    using False w'(1) assms(3) by (simp add: dispatch_valid set_channel_uri_def)
  from received_valid [OF assms(2) _ this] assms(3) False w'(2) show ?thesis by auto
qed

theorem channel_uri_message_witness:
  "\<exists>s w'. on_message_received (ref_platform True) 7 s demo_server = (Inr (), w')
     \<and> list_at (rd_keys (w_db w')) ''dev'' = [demo_uri]"
proof -
  let ?m = "SetChannelUriMessage_new demo_uri ''dev''"
  have "sendable (Msg_SetChannelUri ?m)" by (rule send_uri) (simp_all add: demo_uri_def)
  from ref_parse_sendable [OF this, of True] obtain s where s: "parse True ref_json s = Inr (Some (Msg_SetChannelUri ?m))" by blast
  have f: "isValid ?m" "uri_channelUri ?m = demo_uri" "uri_deviceId ?m = ''dev''" by (simp_all add: message_news)
  have "is_valid_channel_uri ref_match demo_uri" using ref_regex.valid_channel_uri_iff demo_uri_form by blast
  with channel_uri_message [of "ref_platform True" rd_keys rd_now s ?m demo_server 7] s f
  obtain d w' where "on_message_received (ref_platform True) 7 s demo_server = (Inr (), w')"
    "responded (ref_platform True) 7 success_response (demo_server\<lparr>w_db := d\<rparr>) w'"
    "rd_keys d = [''dev'' \<mapsto> (Rlist [demo_uri], Some (1 + DEFAULT_ENTRY_TIMEOUT))]"
    by (auto simp: rr.redis_server_axioms no_string_def list_at_def)
  with responded_db [OF this(2)] show ?thesis by (intro exI [of _ s] exI [of _ w']) (simp add: list_at_def)
qed

text \<open>
  Unknown devices. A device without a stored channel URI can neither register accounts nor request a
  test push: the only effect of such a message is the answer \<^verbatim>\<open>Device id unknown.\<close>
\<close>

theorem unknown_device_rejected:
  assumes "redis_server (p_redis P) view now" "parse (p_asserts P) (p_json P) s = Inr (Some msg)" "msg_is_valid msg"
    and "(\<exists>m. msg = Msg_SetPushAccounts m \<and> acc_deviceId m = dev) \<or> (\<exists>m. msg = Msg_RequestTestPush m \<and> test_deviceId m = dev)"
    and "no_string (view (w_db w)) dev" "list_at (view (w_db w)) dev = []"
    and "printable P (error_response ''Device id unknown.'')"
  shows "\<exists>w'. on_message_received P sn s w = (Inr (), w') \<and> responded P sn (error_response ''Device id unknown.'') w w'"
proof -
  have q: "get_channel_uri (p_redis P) dev (w_db w) = (Inr None, w_db w)"
    using redis_server.get_channel_uri_run [OF assms(1,5)] assms(6) by simp
  from respond_run(2) [OF assms(7), of sn w] obtain w' where
    w': "respond_with_error P sn ''Device id unknown.'' w = (Inr (), w')" "responded P sn (error_response ''Device id unknown.'') w w'"
    by blast
  have "dispatch_message P sn msg w = (Inr (), w')"
    using assms(3,4) q w'(1) by (auto simp: dispatch_valid set_push_accounts_def send_test_push_def)
  from received_valid [OF assms(2,3) this] w'(2) show ?thesis by blast
qed

theorem unknown_device_rejected_witness:
  "\<exists>s w'. on_message_received (ref_platform True) 7 s demo_server = (Inr (), w')
     \<and> responded (ref_platform True) 7 (error_response ''Device id unknown.'') demo_server w'"
proof -
  let ?m = "RequestTestPushMessage_new ''other''"
  have "sendable (Msg_RequestTestPush ?m)" by (rule send_test) simp
  from ref_parse_sendable [OF this, of True] obtain s where s: "parse True ref_json s = Inr (Some (Msg_RequestTestPush ?m))" by blast
  have f: "isValid ?m" "test_deviceId ?m = ''other''" by (simp_all add: message_news)
  from unknown_device_rejected [of "ref_platform True" rd_keys rd_now s "Msg_RequestTestPush ?m" "''other''" demo_server 7] s f
  show ?thesis by (auto simp: rr.redis_server_axioms no_string_def list_at_def)
qed

text \<open>A notification whose summary counts three messages, for the witnesses.\<close>

definition demo_form :: stanza where
  "demo_form = summary_form ref_strophe 3 0"

lemma demo_form_child: "st_child_by_name ref_strophe ''x'' (demo_notification [demo_form]) = Some demo_form"
  using rst.name_child rst.name_set
  by (simp add: rst.by_name demo_form_def summary_form_def) (simp add: ref_strophe_def demo_notification_def)

definition demo_registered :: "string \<Rightarrow> (ref_db, ref_env, stanza) xmpp_world" where
  "demo_registered ver = demo_strophe_world\<lparr>w_db := \<lparr>rd_keys =
     [''n1'' \<mapsto> (Rlist [''alice'', ''dev'', ''s1''], None), ''dev'' \<mapsto> (Rlist [demo_uri, ver, ''h''], None)], rd_now = 1\<rparr>\<rparr>"

lemma demo_registered_simps [simp]:
  "rd_keys (w_db (demo_registered v)) ''n1'' = Some (Rlist [''alice'', ''dev'', ''s1''], None)"
  "rd_keys (w_db (demo_registered v)) ''dev'' = Some (Rlist [demo_uri, v, ''h''], None)"
  "xc_redis_set (w_xmpp (demo_registered v))" "xc_jid (w_xmpp (demo_registered v)) = ''push@example.org''"
  by (simp_all add: demo_registered_def demo_strophe_world_def wns_world.defs)

lemma v2_push_sent:
  assumes "strophe_lib (p_strophe P)" "json_lib (p_json P)" "redis_server (p_redis P) view now" "xc_redis_set (w_xmpp w)"
    and "push_event (p_strophe P) (c_str (xc_jid (w_xmpp w))) nd notif stanza"
    and "view (w_db w) nd = Some (Rlist [acc, dev, sec], t)" "view (w_db w) dev = Some (Rlist (uri # ''2'' # hs), t')"
    and "st_child_by_name (p_strophe P) ''x'' notif = Some (summary_form (p_strophe P) mc psc)" "int32 mc" "int32 psc" "acc \<noteq> []"
    and "\<forall>j. PushMessage_of_json (p_json P) j = Inr (PushMessage_new acc mc psc) \<longrightarrow> (\<exists>body. j_dump (p_json P) j = Inr body)"
  shows "\<exists>j body. PushMessage_of_json (p_json P) j = Inr (PushMessage_new acc mc psc) \<and> j_dump (p_json P) j = Inr body
    \<and> on_xmpp_message P stanza w = bindE (send_raw_notification P uri body) (\<lambda>_. ret 1) w"
proof -
  from json_lib.push_message_roundtrip [OF assms(2,11), of mc psc "p_asserts P"] assms(9,10) obtain j where
    j: "PushMessage_to_json (p_asserts P) (p_json P) (PushMessage_new acc mc psc) (j_null (p_json P)) = Inr j"
    "PushMessage_of_json (p_json P) j = Inr (PushMessage_new acc mc psc)" by (auto simp: int32_def)
  with assms(12) obtain body where body: "j_dump (p_json P) j = Inr body" by blast
  have d: "no_string (view (w_db w)) dev" "speaks_v2 (view (w_db w)) dev" "list_at (view (w_db w)) dev = uri # ''2'' # hs"
    using assms(7) by (simp_all add: no_string_def speaks_v2_def list_at_def)
  note n = node_registered [where ks = "view (w_db w)", OF assms(6)]
  have "get_device_id (p_redis P) nd (w_db w) = (Inr (Some dev), w_db w)"
    "get_channel_uri (p_redis P) dev (w_db w) = (Inr (Some uri), w_db w)"
    using node_queries(2) [OF assms(3) n(3)] n(2) redis_server.get_channel_uri_run [OF assms(3) d(1)] d(3) by simp_all
  then have "on_v2_message_for_node P nd acc mc psc w = bindE (send_raw_notification P uri body) (\<lambda>_. ret ()) w"
    using j(1) body by (simp add: on_v2_message_for_node_def)
  with v2_event_forwarded [OF assms(1,3,4,5,6) d(1,2) assms(8-10)] j(2) body show ?thesis
    unfolding on_xmpp_message_def
    by (intro exI [of _ j] exI [of _ body]) (auto split: prod.split sum.split)
qed



lemma v1_push_sent:
  assumes "redis_server (p_redis P) view now" "xc_redis_set (w_xmpp w)"
    and "push_event (p_strophe P) (c_str (xc_jid (w_xmpp w))) nd notif stanza"
    and "view (w_db w) nd = Some (Rlist [acc, dev, sec], t)" "view (w_db w) dev = Some (Rlist (uri # ver # hs), t')" "ver \<noteq> ''2''"
    and "st_to_text (p_strophe P) (st_add_child (p_strophe P) notif (st_set_attribute (p_strophe P) ''id'' (c_str acc)
           (st_set_name (p_strophe P) ''account'' (st_new (p_strophe P))))) = Some msg"
  shows "on_xmpp_message P stanza w = bindE (send_raw_notification P uri
    (if length msg \<le> 4096 then msg else ''New message received!'')) (\<lambda>_. ret 1) w"
proof -
  have d: "no_string (view (w_db w)) dev" "\<not> speaks_v2 (view (w_db w)) dev" "list_at (view (w_db w)) dev = uri # ver # hs"
    using assms(5,6) by (simp_all add: no_string_def speaks_v2_def list_at_def)
  note n = node_registered [where ks = "view (w_db w)", OF assms(4)]
  have "get_device_id (p_redis P) nd (w_db w) = (Inr (Some dev), w_db w)"
    "get_channel_uri (p_redis P) dev (w_db w) = (Inr (Some uri), w_db w)"
    using node_queries(2) [OF assms(1) n(3)] n(2) redis_server.get_channel_uri_run [OF assms(1) d(1)] d(3) by simp_all
  then have "on_v1_message_for_node P nd m w = bindE (send_raw_notification P uri m) (\<lambda>_. ret ()) w" for m
    by (simp add: on_v1_message_for_node_def)
  with v1_event_forwarded [OF assms(1,2,3,4) d(1,2) assms(7)] show ?thesis
    unfolding on_xmpp_message_def by (auto split: prod.split sum.split)
qed

text \<open>
  C8 (From an event to the device, version 1). For a device of any other version the raw notification is
  the text of the event's notification with the account added to it, or a fixed text if that is longer
  than 4096 bytes.
\<close>

theorem v1_push_delivered:
  assumes "redis_server (p_redis P) view now" "xc_redis_set (w_xmpp w)"
    and "push_event (p_strophe P) (c_str (xc_jid (w_xmpp w))) nd notif stanza"
    and "view (w_db w) nd = Some (Rlist [acc, dev, sec], t)" "view (w_db w) dev = Some (Rlist (uri # ver # hs), t')" "ver \<noteq> ''2''"
    and "st_to_text (p_strophe P) (st_add_child (p_strophe P) notif (st_set_attribute (p_strophe P) ''id'' (c_str acc)
           (st_set_name (p_strophe P) ''account'' (st_new (p_strophe P))))) = Some msg"
  shows "on_xmpp_message P stanza w = bindE (send_raw_notification P uri
    (if length msg \<le> 4096 then msg else ''New message received!'')) (\<lambda>_. ret 1) w"
  using assms by (rule v1_push_sent)

theorem v1_push_delivered_witness:
  "\<exists>msg. on_xmpp_message (ref_platform True) (demo_event ''push@example.org'' (demo_notification [])) (demo_registered ''1'')
     = bindE (send_raw_notification (ref_platform True) demo_uri (if length msg \<le> 4096 then msg else ''New message received!''))
         (\<lambda>_. ret 1) (demo_registered ''1'')"
proof -
  obtain msg where "st_to_text ref_strophe (st_add_child ref_strophe (demo_notification []) (st_set_attribute ref_strophe ''id''
    (c_str ''alice'') (st_set_name ref_strophe ''account'' (st_new ref_strophe)))) = Some msg" by (simp add: ref_strophe_def)
  then show ?thesis
    using v1_push_delivered [of "ref_platform True" rd_keys rd_now "demo_registered ''1''" "''n1''" "demo_notification []"
      "demo_event ''push@example.org'' (demo_notification [])" "''alice''" "''dev''" "''s1''" None demo_uri "''1''" "[''h'']" None msg]
    by (intro exI [of _ msg]) (simp add: rr.redis_server_axioms demo_push_event c_str_def)
qed

text \<open>
  The requests of the last loop are those for the accounts it marks, and it marks all accounts if their
  nodes are distinct and the connection stays up.
\<close>

lemma marked_nodes:
  assumes "numbered m accs" "map (\<lambda>a. a\<lparr>success := False\<rparr>) pas = map (\<lambda>a. a\<lparr>success := False\<rparr>) accs"
    and "\<forall>i. i \<notin> snd ` set m \<longrightarrow> pas ! i = accs ! i" "\<forall>a \<in> set accs. \<not> success a"
  shows "distinct (map fst (filter (\<lambda>p. success (pas ! snd p)) m))"
    and "fst ` set (filter (\<lambda>p. success (pas ! snd p)) m) = node ` {a \<in> set pas. success a}"
    and "distinct (map node pas) \<Longrightarrow> set pas = (\<lambda>i. pas ! i) ` snd ` set m"
proof -
  have len: "length pas = length accs" using assms(2) by (rule map_eq_imp_length_eq)
  have nodes: "node (pas ! i) = node (accs ! i)" if "i < length accs" for i
  proof -
    have "(map (\<lambda>a. a\<lparr>success := False\<rparr>) pas) ! i = (map (\<lambda>a. a\<lparr>success := False\<rparr>) accs) ! i" by (simp only: assms(2))
    then have "(pas ! i)\<lparr>success := False\<rparr> = (accs ! i)\<lparr>success := False\<rparr>" using that len by simp
    then show ?thesis by (metis push_account.select_convs(2) push_account.surjective push_account.update_convs(4))
  qed
  have ix: "i < length accs \<and> node (pas ! i) = nd" if "(nd, i) \<in> set m" for nd i
    using assms(1) that nodes by (auto simp: numbered_def indexes_def)
  show "distinct (map fst (filter (\<lambda>p. success (pas ! snd p)) m))"
    using assms(1) by (simp add: numbered_def distinct_map_filter)
  show "fst ` set (filter (\<lambda>p. success (pas ! snd p)) m) = node ` {a \<in> set pas. success a}" (is "?l = ?r")
  proof
    show "?l \<subseteq> ?r" using ix len by (force simp: in_set_conv_nth)
    show "?r \<subseteq> ?l"
    proof
      fix nd assume "nd \<in> ?r"
      then obtain i where i: "i < length pas" "success (pas ! i)" "node (pas ! i) = nd" by (auto simp: in_set_conv_nth)
      with assms(3,4) len obtain nd' where "(nd', i) \<in> set m" by fastforce
      with ix [OF this] i show "nd \<in> ?l" by force
    qed
  qed
  assume "distinct (map node pas)"
  moreover have "map node pas = map node accs" using nodes len by (auto intro: nth_equalityI)
  ultimately have "snd ` set m = {..<length pas}" using assms(1) len by (simp add: numbered_def)
  then show "set pas = (\<lambda>i. pas ! i) ` snd ` set m" by (simp add: set_conv_nth image_def lessThan_def) blast
qed

abbreviation no_accounts :: accounts_state where
  "no_accounts \<equiv> \<lparr>as_delete = [], as_add = [], as_accounts = []\<rparr>"

lemma new_accounts_run:
  assumes "platform_lib P view now" "bound P" "ready w" "no_string (view (w_db w)) dev" "list_at (view (w_db w)) dev = [uri]"
    and "\<forall>acc \<in> set accs. view (w_db w) (gen_account (p_crypto P) dev acc) = None"
    and "set_push_accounts P sn dev ver accs w = (r, w')"
  shows "\<exists>st w1 pas w2 sts nds. add_accounts P dev accs no_accounts w = (Inr st, w1)
    \<and> setup_nodes P (in_order P (as_add st)) (as_accounts st) w1 = (Inr pas, w2)
    \<and> list_all2 fresh_account accs pas
    \<and> sent_only w sts w2 \<and> requests_for P nds sts \<and> distinct nds \<and> set nds = node ` {a \<in> set pas. success a}
    \<and> (distinct (map node pas) \<and> stays_connected P (w_env w1) \<longrightarrow> (\<forall>a \<in> set pas. success a))
    \<and> (keys_separate (gen_account (p_crypto P) dev) dev pas \<and> (\<forall>a \<in> set pas. no_string (view (w_db w)) (node a))
       \<and> printable P (Msg_SuccessSetPushAccounts (SuccessSetPushAccountsMessage_new pas (get_jid w))) \<longrightarrow>
       r = Inr () \<and> (\<exists>d. view d = ks_registered (now (w_db w) + DEFAULT_ENTRY_TIMEOUT) (gen_account (p_crypto P) dev)
             dev uri ver pas (view (w_db w))
         \<and> responded P sn (Msg_SuccessSetPushAccounts (SuccessSetPushAccountsMessage_new pas (get_jid w))) (w2\<lparr>w_db := d\<rparr>) w'))"
proof -
  have lib: "redis_server (p_redis P) view now" "crypto_lib (p_crypto P)" "strophe_lib (p_strophe P)"
    "mset (p_order P xs) = mset xs" for xs
    using assms(1) by (simp_all add: platform_lib_def platform_lib_axioms_def)
  have q: "get_channel_uri (p_redis P) dev (w_db w) = (Inr (Some uri), w_db w)"
    "get_push_nodes (p_asserts P) (p_redis P) dev (w_db w) = (Inr [], w_db w)"
    using redis_server.get_channel_uri_run [OF lib(1) assms(4)] redis_server.lrange_run [OF lib(1) assms(4)] assms(5)
    by (simp_all add: get_push_nodes_def)
  from add_accounts_fresh [OF lib(2,1), of no_accounts accs w dev] assms(6) obtain st as e where
    add: "add_accounts P dev accs no_accounts w = (Inr st, w\<lparr>w_env := e\<rparr>)" "as_delete st = []" "as_accounts st = as"
      "list_all2 fresh_account accs as" "numbered (as_add st) as" "\<forall>a \<in> set as. \<not> success a"
    by (auto simp: numbered_def indexes_def)
  let ?m = "in_order P (as_add st)"
  have rdy: "ready (w\<lparr>w_env := e\<rparr>)" using assms(3) by (simp add: ready_def)
  have ord: "p_order P [] = []" using lib(4) [of "[]"] by simp
  have num: "numbered ?m as" by (rule numbered_in_order [OF add(5) lib(4)])
  then have "indexes ?m as" "distinct (map snd ?m)" by (simp_all add: numbered_def)
  from setup_nodes_run [OF lib(3) assms(2) rdy this] obtain pas sts w2 where
    set: "setup_nodes P ?m as (w\<lparr>w_env := e\<rparr>) = (Inr pas, w2)" "sent_only (w\<lparr>w_env := e\<rparr>) sts w2"
      "map (\<lambda>a. a\<lparr>success := False\<rparr>) pas = map (\<lambda>a. a\<lparr>success := False\<rparr>) as" "\<forall>i. i \<notin> snd ` set ?m \<longrightarrow> pas ! i = as ! i"
      "requests_for P (map fst (filter (\<lambda>p. success (pas ! snd p)) ?m)) sts"
      "stays_connected P e \<longrightarrow> (\<forall>i \<in> snd ` set ?m. success (pas ! i))" by auto
  have sent: "sent_only w sts w2" using sent_only_trans [OF sent_only_env set(2)] by simp
  note frame = sent_only_frame [OF sent] sent_only_xmpp [OF sent]
  note marked = marked_nodes [OF num set(3,4) add(6)]
  have up: "\<forall>a \<in> set pas. success a" if "distinct (map node pas)" "stays_connected P e"
    using set(6) that(2) by (subst marked(3) [OF that(1)]) blast
  have done_: "r = Inr () \<and> (\<exists>d. view d = ks_registered (now (w_db w) + DEFAULT_ENTRY_TIMEOUT) (gen_account (p_crypto P) dev)
             dev uri ver pas (view (w_db w))
         \<and> responded P sn (Msg_SuccessSetPushAccounts (SuccessSetPushAccountsMessage_new pas (get_jid w))) (w2\<lparr>w_db := d\<rparr>) w')"
    if sep: "keys_separate (gen_account (p_crypto P) dev) dev pas" "\<forall>a \<in> set pas. no_string (view (w_db w)) (node a)"
      and pr: "printable P (Msg_SuccessSetPushAccounts (SuccessSetPushAccountsMessage_new pas (get_jid w)))"
  proof -
    from redis_server.set_push_accounts_run [OF lib(1) sep(1) assms(4) sep(2), of uri ver] obtain d where
      d: "redis_set_push_accounts (p_redis P) (p_crypto P) dev uri ver pas (w_db w) = (Inr (), d)"
      "view d = ks_registered (now (w_db w) + DEFAULT_ENTRY_TIMEOUT) (gen_account (p_crypto P) dev) dev uri ver pas (view (w_db w))"
      by blast
    from pr obtain j t where j: "SuccessSetPushAccountsMessage_to_json (p_asserts P) (p_json P)
        (SuccessSetPushAccountsMessage_new pas (get_jid w)) (j_null (p_json P)) = Inr j" "j_dump (p_json P) j = Inr t"
      by (auto simp: printable_def)
    have jid: "get_jid (w2\<lparr>w_db := d\<rparr>) = get_jid w" using frame by (simp add: get_jid_def)
    have "set_push_accounts P sn dev ver accs w =
      (Inr (), (w2\<lparr>w_db := d\<rparr>)\<lparr>w_trace := w_trace w2 @ [Session_send sn (t @ [CHR 0x00])]\<rparr>)"
      using q add(1-3) set(1) ord d(1) j jid frame(1)
      by (simp add: set_push_accounts_def session_send_def session_send_text_def)
    with assms(7) d(2) j show ?thesis by (auto simp: responded_def)
  qed
  show ?thesis
    using add(1,3) set(1,5) fresh_accounts_flags [OF add(4) set(3)] sent marked(1,2) up done_
    by (intro exI [of _ st] exI [of _ "w\<lparr>w_env := e\<rparr>"] exI [of _ pas] exI [of _ w2] exI [of _ sts]
        exI [of _ "map fst (filter (\<lambda>p. success (pas ! snd p)) ?m)"]) simp
qed

text \<open>The registration of one account with the reference libraries, for the witnesses.\<close>

lemma demo_server_ready: "ready demo_server" "get_jid demo_server = ''push@example.org''" "xc_redis_set (w_xmpp demo_server)"
  "xc_jid (w_xmpp demo_server) = ''push@example.org''"
  using demo_ready by (simp_all add: ready_def demo_server_def get_jid_def demo_strophe_world_def wns_world.defs)

lemma demo_server_device: "no_string (rd_keys (w_db demo_server)) ''dev''" "list_at (rd_keys (w_db demo_server)) ''dev'' = [demo_uri]"
  "rd_keys (w_db demo_server) (gen_account ref_crypto ''dev'' acc) = None"
  using gen_account_not_short [of "''dev''" "''dev''" acc] by (auto simp: no_string_def list_at_def)

lemma demo_registration:
  assumes "list_all2 fresh_account [''alice''] pas"
  obtains a where "pas = [a]" "fresh_account ''alice'' a" "keys_separate (gen_account ref_crypto ''dev'') ''dev'' pas"
    "rd_keys (w_db demo_server) (node a) = None"
    "printable (ref_platform True) (Msg_SuccessSetPushAccounts (SuccessSetPushAccountsMessage_new pas (get_jid demo_server)))"
proof -
  from assms obtain a where a: "pas = [a]" "fresh_account ''alice'' a" by (auto simp: list_all2_Cons1)
  then have len: "length (node a) = 15" "length (secret a) = 15" "accountId a = ''alice''" by (auto simp: fresh_account_def)
  have h: "gen_account ref_crypto ''dev'' x \<noteq> ''dev''" "''dev'' \<noteq> gen_account ref_crypto ''dev'' x" for x
    using gen_account_not_short [of "''dev''" "''dev''" x] by auto
  from len have nd: "node a \<noteq> ''dev''" "gen_account ref_crypto ''dev'' (accountId a) \<noteq> node a"
    using gen_account_not_short [of "node a"] by auto
  then have "keys_separate (gen_account ref_crypto ''dev'') ''dev'' pas" using h a(1) by (auto simp: keys_separate_def)
  moreover have "sendable (Msg_SuccessSetPushAccounts (SuccessSetPushAccountsMessage_new pas (get_jid demo_server)))"
    using a(1) len demo_server_ready by (intro send_success_accounts) (auto simp: wf_push_account_def)
  ultimately show thesis using that a nd(1) ref_printable by simp
qed

text \<open>The reference connection stays up, and drawing accounts does not close it.\<close>

lemma ref_stays_connected: "re_connected e \<Longrightarrow> stays_connected (ref_platform a) e"
  unfolding stays_connected_def keeps_connected_def by (intro exI [of _ re_connected]) (simp add: ref_strophe_def)

lemma ref_draws_connected:
  "keeps re_connected (secure_random_loop ref_crypto n)" "keeps re_connected (url_safe_random_loop b ref_crypto n)"
proof -
  have ask: "keeps re_connected (askE (randombytes_uniform ref_crypto k))" "keeps re_connected (askE (uniform_int ref_crypto l k))" for k l
    by (auto intro!: keeps_askE simp: ref_crypto_def ref_draw_def split: prod.split)
  show "keeps re_connected (secure_random_loop ref_crypto n)"
    by (induction n) (unfold secure_random_loop.simps, (intro ask env_rules; assumption)+)
  show "keeps re_connected (url_safe_random_loop b ref_crypto n)"
    by (induction n) (unfold url_safe_random_loop.simps, (intro ask env_rules; assumption)+)
qed

lemma ref_add_accounts_connected: "keeps_env re_connected (add_accounts (ref_platform b) dev accs st)"
proof (induction accs arbitrary: st)
  case Nil
  show ?case unfolding add_accounts.simps by (rule keeps_rules)
next
  case (Cons acc accs)
  then show ?case
    unfolding add_accounts.simps add_account_def PushAccount_create_def url_safe_random_token_def
      secure_random_password_def Let_def ref_platform_simps
    by (intro env_rules ref_draws_connected)
qed

text \<open>
  C6 (Registering new accounts). A device that has only set its channel URI registers accounts the server
  does not know. The loops of the code draw the accounts and set up their nodes: every account gets a node
  and a secret of 15 alphanumeric characters, the stanzas sent are the two requests (create and subscribe,
  in this order) for each node of an account that is marked as set up and no others, and every account is marked
  if the nodes drawn are distinct and the connection stays up. When those nodes are distinct and collide with
  no other key, the database then holds exactly this registration and the client is answered on its session
  with the accounts and their marks.
\<close>

theorem new_accounts_registered:
  assumes "platform_lib P view now" "bound P" "ready w" "no_string (view (w_db w)) dev" "list_at (view (w_db w)) dev = [uri]"
    and "\<forall>acc \<in> set accs. view (w_db w) (gen_account (p_crypto P) dev acc) = None"
    and "set_push_accounts P sn dev ver accs w = (r, w')"
  shows "\<exists>st w1 pas w2 sts nds. add_accounts P dev accs no_accounts w = (Inr st, w1)
    \<and> setup_nodes P (in_order P (as_add st)) (as_accounts st) w1 = (Inr pas, w2)
    \<and> list_all2 fresh_account accs pas
    \<and> sent_only w sts w2 \<and> requests_for P nds sts \<and> distinct nds \<and> set nds = node ` {a \<in> set pas. success a}
    \<and> (distinct (map node pas) \<and> stays_connected P (w_env w1) \<longrightarrow> (\<forall>a \<in> set pas. success a))
    \<and> (keys_separate (gen_account (p_crypto P) dev) dev pas \<and> (\<forall>a \<in> set pas. no_string (view (w_db w)) (node a))
       \<and> printable P (Msg_SuccessSetPushAccounts (SuccessSetPushAccountsMessage_new pas (get_jid w))) \<longrightarrow>
       r = Inr () \<and> (\<exists>d. view d = ks_registered (now (w_db w) + DEFAULT_ENTRY_TIMEOUT) (gen_account (p_crypto P) dev)
             dev uri ver pas (view (w_db w))
         \<and> responded P sn (Msg_SuccessSetPushAccounts (SuccessSetPushAccountsMessage_new pas (get_jid w))) (w2\<lparr>w_db := d\<rparr>) w'))"
  using assms by (rule new_accounts_run)

theorem new_accounts_registered_witness:
  "\<exists>w' a. set_push_accounts (ref_platform True) 7 ''dev'' ''2'' [''alice''] demo_server = (Inr (), w')
     \<and> fresh_account ''alice'' a \<and> success a \<and> get_push_nodes True ref_redis ''dev'' (w_db w') = (Inr [node a], w_db w')"
proof -
  let ?P = "ref_platform True" and ?h = "gen_account ref_crypto ''dev''" and ?g = "gen_account (p_crypto (ref_platform True)) ''dev''" and ?ks = "rd_keys (w_db demo_server)"
  let ?resp = "\<lambda>pas. Msg_SuccessSetPushAccounts (SuccessSetPushAccountsMessage_new pas (get_jid demo_server))"
  obtain r w' where run: "set_push_accounts ?P 7 ''dev'' ''2'' [''alice''] demo_server = (r, w')" by fastforce
  have new: "\<forall>acc \<in> set [''alice'']. ?ks (gen_account (p_crypto ?P) ''dev'' acc) = None"
    using demo_server_device(3) by (simp del: demo_server_db)
  obtain st w1 pas w2 where add: "add_accounts ?P ''dev'' [''alice''] no_accounts demo_server = (Inr st, w1)"
    and up: "distinct (map node pas) \<and> stays_connected ?P (w_env w1) \<longrightarrow> (\<forall>a \<in> set pas. success a)"
    and pas: "list_all2 fresh_account [''alice''] pas"
    "keys_separate ?g ''dev'' pas \<and> (\<forall>a \<in> set pas. no_string ?ks (node a)) \<and> printable ?P (?resp pas) \<longrightarrow>
      r = Inr () \<and> (\<exists>d. rd_keys d = ks_registered (rd_now (w_db demo_server) + DEFAULT_ENTRY_TIMEOUT) ?g ''dev'' demo_uri ''2'' pas ?ks
        \<and> responded ?P 7 (?resp pas) (w2\<lparr>w_db := d\<rparr>) w')"
    using new_accounts_registered [OF rp.platform_lib_axioms ref_bound demo_server_ready(1) demo_server_device(1,2) new run] by blast
  from demo_registration [OF pas(1)] obtain a where a: "pas = [a]" "fresh_account ''alice'' a" "keys_separate ?h ''dev'' pas"
    "?ks (node a) = None" "printable ?P (?resp pas)" .
  with pas(2) obtain d where d: "r = Inr ()"
    "rd_keys d = ks_registered (rd_now (w_db demo_server) + DEFAULT_ENTRY_TIMEOUT) ?h ''dev'' demo_uri ''2'' pas ?ks"
    "responded ?P 7 (?resp pas) (w2\<lparr>w_db := d\<rparr>) w'" by (auto simp: no_string_def simp del: demo_server_db)
  have "re_connected (w_env demo_server)"
    by (simp add: demo_server_def demo_strophe_world_def wns_world.defs demo_wns_def)
  then have "re_connected (w_env w1)"
    by (rule keeps_run [OF ref_add_accounts_connected add])
  then have "success a" using up a(1) ref_stays_connected [of "w_env w1" True] by simp
  moreover have "get_push_nodes True ref_redis ''dev'' d = (Inr (map node pas), d)"
    using rr.registered_queries(3) [OF a(3) d(2)] by simp
  ultimately show ?thesis using d(1) responded_db [OF d(3)] run a(1,2) by auto
qed

text \<open>
  Keeping the token. One round of the server's token check asks for a new token at most twice, and
  not at all while the token it has is valid; nothing else is sent to anyone.
\<close>

theorem token_check_requests:
  assumes "check_setup_wns P w = (r, w')"
  shows "\<exists>qs. w_trace w' = w_trace w @ map Http_post qs \<and> set qs \<subseteq> {token_request (w_wns w)} \<and> length qs \<le> 2
    \<and> (\<forall>t. wns_tok (w_wns w) = Some t \<longrightarrow> before (fst (clock_now (p_net P) (w_env w))) (tok_expires t) \<longrightarrow> qs = [])"
proof -
  obtain v w1 where v: "is_token_valid P w = (v, w1)" by fastforce
  note f = is_token_valid_frame [OF v]
  have valid: "v = Inr (case wns_tok (w_wns w) of None \<Rightarrow> False
      | Some t \<Rightarrow> before (fst (clock_now (p_net P) (w_env w))) (tok_expires t))"
    using v by (auto simp: is_token_valid_def token_is_valid_def split: option.splits prod.splits)
  show ?thesis
  proof (cases "v = Inr True")
    case True
    with assms v f show ?thesis by (intro exI [of _ "[]"]) (simp add: check_setup_wns_def)
  next
    case False
    with valid have nv: "v = Inr False" "\<forall>t. wns_tok (w_wns w) = Some t \<longrightarrow>
      \<not> before (fst (clock_now (p_net P) (w_env w))) (tok_expires t)" by (auto split: option.splits)
    obtain ok w2 where ok: "request_new_token P w1 = (ok, w2)" by fastforce
    from one_token_post [OF ok] f obtain qs where qs: "w_trace w2 = w_trace w @ map Http_post qs"
      "set qs \<subseteq> {token_request (w_wns w)}" "length qs \<le> 1" "token_request (w_wns w2) = token_request (w_wns w)" by auto
    show ?thesis
    proof (cases "ok = Inr False")
      case False
      with assms v nv(1) ok have "w' = w2" by (auto simp: check_setup_wns_def split: sum.splits)
      with qs nv(2) show ?thesis by (intro exI [of _ qs]) auto
    next
      case True
      obtain u e where e: "sleep_ms (p_net P) 10000 (w_env w2) = (u, e)"
        by (cases "sleep_ms (p_net P) 10000 (w_env w2)")
      obtain ok2 w3 where ok2: "request_new_token P (w2\<lparr>w_env := e\<rparr>) = (ok2, w3)" by fastforce
      from one_token_post [OF ok2] obtain qs2 where qs2: "w_trace w3 = w_trace w2 @ map Http_post qs2"
        "set qs2 \<subseteq> {token_request (w_wns w2)}" "length qs2 \<le> 1" by auto
      have "w' = w3" using True assms v nv(1) ok e ok2 by (auto simp: check_setup_wns_def split: sum.splits)
      with qs qs2 nv(2) show ?thesis by (intro exI [of _ "qs @ qs2"]) auto
    qed
  qed
qed

theorem token_check_requests_witness:
  "\<exists>r w' qs. check_setup_wns (ref_platform True) demo_server = (r, w') \<and> w_trace w' = map Http_post qs \<and> qs = []"
proof -
  obtain r w' where run: "check_setup_wns (ref_platform True) demo_server = (r, w')" by fastforce
  have "w_trace demo_server = []" "wns_tok (w_wns demo_server) = Some demo_token"
    "before (fst (clock_now (p_net (ref_platform True)) (w_env demo_server))) (tok_expires demo_token)"
    by (simp_all add: demo_server_def demo_strophe_world_def wns_world.defs demo_wns_def ref_net_def before_def demo_token_def)
  with token_check_requests [OF run] run show ?thesis by auto
qed

text \<open>
  An answer of the token service with a field of the wrong type is not handled: only parse errors are
  caught, so the exception of the JSON library leaves the token check and with it the server's thread.
\<close>

theorem wrong_token_type_escapes:
  assumes "wns_tok (w_wns w) = None" "http_post (p_net P) (token_request (w_wns w)) (w_env w) = (resp, e)"
    and "status_code resp = 200" "j_parse (p_json P) (resp_text resp) = Inr js" "j_contains (p_json P) ''token_type'' js"
    and "at_string (p_json P) ''token_type'' js = Inl Json_type_error"
  shows "fst (check_setup_wns P w) = Inl Json_type_error"
  using assms by (simp add: check_setup_wns_def is_token_valid_def request_new_token_def post_def token_from_response_def catch_parse_error_def)

end
