(* ===== verification/End_To_End.thy ===== *)
theory End_To_End
  imports Server_Correct
begin

text \<open>
  The way from a registration to a push: an account that \<^verbatim>\<open>set_push_accounts\<close> registered receives the
  events of its node through the XMPP client, the database and the WNS client.
\<close>

lemma registered_v2:
  assumes "keys_separate h dev pas" "a \<in> set pas" "ks (node a) = None"
    and "ks' = ks_registered t h dev uri ''2'' pas ks"
  shows "ks' (node a) = Some (Rlist [accountId a, dev, secret a], Some t)"
    and "\<exists>hs. ks' dev = Some (Rlist (uri # ''2'' # hs), Some t)"
  using assms registered_node [OF assms(1,2), of t uri "''2''" ks] by (auto simp: list_at_def)

lemma responded_xmpp: "responded P sn m (w\<lparr>w_db := d\<rparr>) w' \<Longrightarrow> w_db w' = d \<and> w_xmpp w' = w_xmpp w"
  by (auto simp: responded_def)

lemma sent_only_client: "sent_only w sts w' \<Longrightarrow> w_xmpp w' = w_xmpp w"
  by (auto simp: sent_only_def)

text \<open>The push events of a node reach a channel, as documents that say account and counts.\<close>

definition delivers ::
  "('j, 'db, 'e, 'st) platform \<Rightarrow> string \<Rightarrow> string \<Rightarrow> string \<Rightarrow> ('db, 'e, 'st, 'z) xmpp_world_scheme \<Rightarrow> bool" where
  "delivers P uri nd acc w \<longleftrightarrow> (\<forall>notif stanza mc psc. push_event (p_strophe P) (c_str (xc_jid (w_xmpp w))) nd notif stanza
     \<and> st_child_by_name (p_strophe P) ''x'' notif = Some (summary_form (p_strophe P) mc psc) \<and> int32 mc \<and> int32 psc
     \<and> (\<forall>j. PushMessage_of_json (p_json P) j = Inr (PushMessage_new acc mc psc) \<longrightarrow> (\<exists>body. j_dump (p_json P) j = Inr body)) \<longrightarrow>
     (\<exists>j body. PushMessage_of_json (p_json P) j = Inr (PushMessage_new acc mc psc) \<and> j_dump (p_json P) j = Inr body
       \<and> on_xmpp_message P stanza w = bindE (send_raw_notification P uri body) (\<lambda>_. ret 1) w))"

lemma registered_delivers:
  assumes "strophe_lib (p_strophe P)" "json_lib (p_json P)" "redis_server (p_redis P) view now" "xc_redis_set (w_xmpp w)"
    and "view (w_db w) nd = Some (Rlist [acc, dev, sec], t)" "view (w_db w) dev = Some (Rlist (uri # ''2'' # hs), t')" "acc \<noteq> []"
  shows "delivers P uri nd acc w"
  unfolding delivers_def using v2_push_sent [OF assms(1-4) _ assms(5,6) _ _ _ assms(7)] by blast



end
