(* ===== verification/Registry.thy ===== *)
theory Registry
  imports Redis_Correct
begin

text \<open>
  The abstract contract of \<^verbatim>\<open>RedisClient\<close>: a registry of devices and nodes. The lists and strings that
  \<^verbatim>\<open>set_push_accounts\<close> and \<^verbatim>\<open>set_channel_uri\<close> leave in Redis represent the registry after any sequence of
  these operations, and every query answers what the registry says. No time passes between the
  operations; what the time-outs do is the subject of \<^verbatim>\<open>Redis_Correct\<close> and \<^verbatim>\<open>Server_Runs\<close>.
\<close>

section \<open>The registry\<close>

text \<open>
  A device has a channel URI and possibly a registration (version and accounts). A node has every
  owner (account, device, secret) it was ever registered with: nothing removes one.
\<close>

record device_entry =
  de_uri :: string
  de_reg :: "(string \<times> push_account list) option"

record registry =
  rg_device :: "string \<Rightarrow> device_entry option"
  rg_node :: "string \<Rightarrow> (string \<times> string \<times> string) list"

definition empty_registry :: registry where
  "empty_registry = \<lparr>rg_device = (\<lambda>_. None), rg_node = (\<lambda>_. [])\<rparr>"

datatype registry_op =
    Set_channel_uri string string
  | Set_push_accounts string string string "push_account list"

fun apply_op :: "registry_op \<Rightarrow> registry \<Rightarrow> registry" where
  "apply_op (Set_channel_uri d u) g = g\<lparr>rg_device := (rg_device g)(d \<mapsto>
     (case rg_device g d of None \<Rightarrow> \<lparr>de_uri = u, de_reg = None\<rparr> | Some e \<Rightarrow> e\<lparr>de_uri := u\<rparr>))\<rparr>"
| "apply_op (Set_push_accounts d u v accs) g = g\<lparr>
     rg_device := (rg_device g)(d \<mapsto> \<lparr>de_uri = u, de_reg = Some (v, accs)\<rparr>),
     rg_node := (\<lambda>n. rg_node g n @ map (\<lambda>a. (accountId a, d, secret a)) (filter (\<lambda>a. node a = n) accs))\<rparr>"

text \<open>What the registry answers: a node that was registered more than once has no owner any more.\<close>

definition reg_accounts :: "registry \<Rightarrow> string \<Rightarrow> push_account list" where
  "reg_accounts g d = (case rg_device g d of None \<Rightarrow> []
     | Some e \<Rightarrow> case de_reg e of None \<Rightarrow> [] | Some (v, accs) \<Rightarrow> accs)"

definition reg_version :: "registry \<Rightarrow> string \<Rightarrow> string option" where
  "reg_version g d = Option.bind (rg_device g d) (\<lambda>e. map_option fst (de_reg e))"

definition reg_owner :: "registry \<Rightarrow> string \<Rightarrow> (string \<times> string \<times> string) option" where
  "reg_owner g n = (case rg_node g n of [x] \<Rightarrow> Some x | _ \<Rightarrow> None)"

definition reg_loaded :: "registry \<Rightarrow> string \<Rightarrow> push_account \<Rightarrow> push_account" where
  "reg_loaded g d b = (case find (\<lambda>a. accountId a = accountId b) (reg_accounts g d) of None \<Rightarrow> b
     | Some a \<Rightarrow> case reg_owner g (node a) of None \<Rightarrow> b
       | Some (_, _, s) \<Rightarrow> b\<lparr>node := node a, secret := s, success := True\<rparr>)"

text \<open>The operation of the client that implements it.\<close>

fun run_op :: "'db redis_api \<Rightarrow> 'e crypto_api \<Rightarrow> registry_op \<Rightarrow> ('db, unit) M" where
  "run_op R C (Set_channel_uri d u) = redis_set_channel_uri R d u"
| "run_op R C (Set_push_accounts d u v accs) = redis_set_push_accounts R C d u v accs"

text \<open>
  Devices, accounts and nodes are taken from sets whose keys do not collide; the accounts of one
  registration are distinct and so are their nodes. An account or a node may be registered again.
\<close>

definition apart :: "'e crypto_api \<Rightarrow> string set \<Rightarrow> string set \<Rightarrow> string set \<Rightarrow> bool" where
  "apart C D A N \<longleftrightarrow> inj_on (\<lambda>(d, a). gen_account C d a) (D \<times> A)
     \<and> (\<lambda>(d, a). gen_account C d a) ` (D \<times> A) \<inter> (D \<union> N) = {} \<and> D \<inter> N = {}"

definition accounts_ok :: "string set \<Rightarrow> string set \<Rightarrow> push_account list \<Rightarrow> bool" where
  "accounts_ok A N accs \<longleftrightarrow> distinct (map accountId accs) \<and> distinct (map node accs)
     \<and> list_all (\<lambda>a. accountId a \<in> A \<and> node a \<in> N) accs"

fun op_ok :: "string set \<Rightarrow> string set \<Rightarrow> string set \<Rightarrow> registry_op \<Rightarrow> bool" where
  "op_ok D A N (Set_channel_uri d u) \<longleftrightarrow> d \<in> D"
| "op_ok D A N (Set_push_accounts d u v accs) \<longleftrightarrow> d \<in> D \<and> accounts_ok A N accs"

section \<open>The contract\<close>

text \<open>
  A store refines the registry when a representation relation is kept by every operation; a run of
  operations then ends in a state that represents the registry after the run.
\<close>

locale registry_store =
  fixes rep :: "'db \<Rightarrow> registry \<Rightarrow> bool"
    and exec :: "registry_op \<Rightarrow> ('db, unit) M"
    and ok :: "registry_op \<Rightarrow> bool"
  assumes exec_rep: "rep db g \<Longrightarrow> ok x \<Longrightarrow> \<exists>db'. exec x db = (Inr (), db') \<and> rep db' (apply_op x g)"
begin

lemma run_rep:
  "rep db g \<Longrightarrow> list_all ok xs \<Longrightarrow>
   \<exists>db'. forE xs exec db = (Inr (), db') \<and> rep db' (fold apply_op xs g)"
proof (induction xs arbitrary: db g)
  case Nil
  then show ?case by simp
next
  case (Cons x xs)
  from Cons.prems exec_rep [of db g x] obtain db1 where
    "exec x db = (Inr (), db1)" "rep db1 (apply_op x g)" by auto
  with Cons.IH [of db1 "apply_op x g"] Cons.prems show ?case by auto
qed

end

section \<open>The representation in Redis\<close>

definition device_row :: "(string \<Rightarrow> string) \<Rightarrow> device_entry option \<Rightarrow> string list" where
  "device_row h e = (case e of None \<Rightarrow> [] | Some e \<Rightarrow>
     de_uri e # (case de_reg e of None \<Rightarrow> [] | Some (v, accs) \<Rightarrow> v # map (\<lambda>a. h (accountId a)) accs))"

definition node_row :: "(string \<times> string \<times> string) list \<Rightarrow> string list" where
  "node_row os = concat (map (\<lambda>(a, d, s). [a, d, s]) os)"

definition string_at :: "keyspace \<Rightarrow> string \<Rightarrow> string option \<Rightarrow> bool" where
  "string_at ks k v = (case v of None \<Rightarrow> ks k = None | Some s \<Rightarrow> \<exists>t. ks k = Some (Rstr s, t))"

definition node_of :: "push_account list \<Rightarrow> string \<Rightarrow> string option" where
  "node_of accs = map_of (map (\<lambda>a. (accountId a, node a)) accs)"

definition represents ::
  "'e crypto_api \<Rightarrow> string set \<Rightarrow> string set \<Rightarrow> string set \<Rightarrow> keyspace \<Rightarrow> registry \<Rightarrow> bool" where
  "represents C D A N ks g \<longleftrightarrow>
     (\<forall>d\<in>D. no_string ks d \<and> list_at ks d = device_row (gen_account C d) (rg_device g d))
   \<and> (\<forall>n\<in>N. no_string ks n \<and> list_at ks n = node_row (rg_node g n))
   \<and> (\<forall>d\<in>D. \<forall>a\<in>A. string_at ks (gen_account C d a) (node_of (reg_accounts g d) a))
   \<and> (\<forall>d\<in>D. accounts_ok A N (reg_accounts g d))"

lemma node_row_append [simp]: "node_row (xs @ ys) = node_row xs @ node_row ys"
  by (simp add: node_row_def)

lemma node_row_single [simp]: "node_row [(a, d, s)] = [a, d, s]" "node_row [] = []"
  by (simp_all add: node_row_def)

lemma node_row_three: "length (node_row os) = 3 * length os"
  by (induction os) (auto simp: node_row_def)

lemma node_of_Some: "accounts_ok A N accs \<Longrightarrow> a \<in> set accs \<Longrightarrow> node_of accs (accountId a) = Some (node a)"
  by (simp add: node_of_def accounts_ok_def comp_def)

lemma node_of_None: "a \<notin> accountId ` set accs \<Longrightarrow> node_of accs a = None"
  by (simp add: node_of_def map_of_eq_None_iff image_image)

lemma filter_node:
  assumes "distinct (map node accs)" "a \<in> set accs"
  shows "filter (\<lambda>b. node b = node a) accs = [a]"
  using assms by (induction accs) (auto simp: filter_empty_conv image_iff)

lemma drop_row: "set (drop 2 (device_row h (rg_device g d))) = (\<lambda>a. h (accountId a)) ` set (reg_accounts g d)"
  by (auto simp: device_row_def reg_accounts_def split: option.split)

lemma string_at_None [simp]: "string_at ks k None \<longleftrightarrow> ks k = None"
  and string_at_Some [simp]: "string_at ks k (Some s) \<longleftrightarrow> (\<exists>t. ks k = Some (Rstr s, t))"
  by (simp_all add: string_at_def)

lemma string_at_cong: "ks k = ks' k \<Longrightarrow> string_at ks k v = string_at ks' k v"
  by (cases v) simp_all

lemma string_at_upd [simp]: "k \<noteq> k' \<Longrightarrow> string_at (ks(k' := z)) k v = string_at ks k v"
  by (rule string_at_cong) simp

lemma row_cong: "ks k = ks' k \<Longrightarrow> no_string ks k \<and> list_at ks k = xs \<longleftrightarrow> no_string ks' k \<and> list_at ks' k = xs"
  by (simp add: no_string_def list_at_def)

text \<open>The keys of a registry do not collide.\<close>

lemma apart_keys:
  assumes "apart C D A N" "d \<in> D" "a \<in> A"
  shows "d' \<in> D \<Longrightarrow> gen_account C d a \<noteq> d'" "n \<in> N \<Longrightarrow> gen_account C d a \<noteq> n"
    "d' \<in> D \<Longrightarrow> a' \<in> A \<Longrightarrow> gen_account C d a = gen_account C d' a' \<longleftrightarrow> d = d' \<and> a = a'"
  using assms by (force simp: apart_def inj_on_def)+

lemma apart_separate:
  assumes "apart C D A N" "d \<in> D" "accounts_ok A N accs"
  shows "keys_separate (gen_account C d) d accs"
proof -
  have A: "accountId a \<in> A" and N: "node a \<in> N" if "a \<in> set accs" for a
    using assms(3) that by (auto simp: accounts_ok_def list_all_iff)
  have "inj_on (gen_account C d) A" using assms(1,2) by (auto simp: inj_on_def apart_keys(3))
  then have "distinct (map (gen_account C d) (map accountId accs))"
    using assms(3) A by (intro distinct_map [THEN iffD2]) (auto simp: accounts_ok_def inj_on_def)
  moreover have "node ` set accs \<inter> (\<lambda>a. gen_account C d (accountId a)) ` set accs = {}"
  proof -
    have "node b \<noteq> gen_account C d (accountId a)" if "a \<in> set accs" "b \<in> set accs" for a b
      using apart_keys(2) [OF assms(1,2) A [OF that(1)] N [OF that(2)]] by simp
    then show ?thesis by auto
  qed
  moreover have "d \<notin> node ` set accs" using N assms(1,2) by (auto simp: apart_def)
  moreover have "d \<notin> (\<lambda>a. gen_account C d (accountId a)) ` set accs"
  proof
    assume "d \<in> (\<lambda>a. gen_account C d (accountId a)) ` set accs"
    then obtain a where "a \<in> set accs" "gen_account C d (accountId a) = d" by auto
    with apart_keys(1) [OF assms(1,2) A assms(2)] show False by blast
  qed
  ultimately show ?thesis using assms(3) by (simp add: keys_separate_def accounts_ok_def comp_def)
qed

lemma represents_rows:
  assumes "represents C D A N ks g"
  shows "d \<in> D \<Longrightarrow> no_string ks d \<and> list_at ks d = device_row (gen_account C d) (rg_device g d)"
    and "n \<in> N \<Longrightarrow> no_string ks n \<and> list_at ks n = node_row (rg_node g n)"
    and "d \<in> D \<Longrightarrow> a \<in> A \<Longrightarrow> string_at ks (gen_account C d a) (node_of (reg_accounts g d) a)"
    and "d \<in> D \<Longrightarrow> accounts_ok A N (reg_accounts g d)"
  using assms by (auto simp: represents_def)

lemma represents_empty: "represents C D A N (\<lambda>_. None) empty_registry"
  by (simp add: represents_def empty_registry_def no_string_def list_at_def device_row_def reg_accounts_def
      node_of_def accounts_ok_def)

subsection \<open>Setting the channel URI\<close>

lemma reg_accounts_uri [simp]: "reg_accounts (apply_op (Set_channel_uri d u) g) d' = reg_accounts g d'"
  by (auto simp: reg_accounts_def split: option.split)

lemma row_uri: "device_row h (rg_device (apply_op (Set_channel_uri d u) g) d)
    = u # drop 1 (device_row h (rg_device g d))"
  by (auto simp: device_row_def split: option.split)

lemma represents_uri:
  assumes "represents C D A N ks g" "apart C D A N" "d \<in> D"
  shows "represents C D A N (ks(d \<mapsto> (Rlist (u # drop 1 (list_at ks d)), t))) (apply_op (Set_channel_uri d u) g)"
    (is "represents C D A N ?ks ?g")
  unfolding represents_def
proof (intro conjI ballI)
  note rep = represents_rows [OF assms(1)]
  fix d' a n
  assume d': "d' \<in> D"
  show "no_string ?ks d'" "list_at ?ks d' = device_row (gen_account C d') (rg_device ?g d')"
    using rep(1) [OF d'] rep(1) [OF assms(3)] row_uri [of "gen_account C d" d u g] by (auto simp del: drop_Suc_Cons)
  show "accounts_ok A N (reg_accounts ?g d')" using rep(4) [OF d'] by (simp del: apply_op.simps)
  assume "a \<in> A"
  with rep(3) [OF d'] apart_keys(1) [OF assms(2) d' _ assms(3)]
  show "string_at ?ks (gen_account C d' a) (node_of (reg_accounts ?g d') a)"
    by (simp del: apply_op.simps)
next
  fix n assume n: "n \<in> N"
  then have "n \<noteq> d" using assms(2,3) by (auto simp: apart_def)
  with represents_rows(2) [OF assms(1) n] show "no_string ?ks n" "list_at ?ks n = node_row (rg_node ?g n)"
    by simp_all
qed

subsection \<open>Setting the accounts\<close>

lemma reg_accounts_set: "reg_accounts (apply_op (Set_push_accounts d u v accs) g) d' = (if d' = d then accs else reg_accounts g d')"
  by (simp add: reg_accounts_def)

text \<open>The row of a node after the accounts of a device are set again.\<close>

lemma node_row_set:
  assumes "distinct (map node accs)"
  shows "rg_node (apply_op (Set_push_accounts d u v accs) g) n =
    (case find (\<lambda>a. node a = n) accs of None \<Rightarrow> rg_node g n | Some a \<Rightarrow> rg_node g n @ [(accountId a, d, secret a)])"
proof (cases "find (\<lambda>a. node a = n) accs")
  case None
  then have "filter (\<lambda>a. node a = n) accs = []" by (auto simp: find_None_iff filter_empty_conv)
  with None show ?thesis by simp
next
  case (Some a)
  then have "a \<in> set accs" "node a = n" by (auto simp: find_Some_iff in_set_conv_nth)
  with Some filter_node [OF assms] show ?thesis by auto
qed

lemma represents_accounts:
  assumes "represents C D A N ks g" "apart C D A N" "d \<in> D" "accounts_ok A N accs"
  shows "represents C D A N (ks_registered t (gen_account C d) d u v accs ks)
    (apply_op (Set_push_accounts d u v accs) g)" (is "represents C D A N ?ks ?g")
  unfolding represents_def
proof (intro conjI ballI)
  note rep = represents_rows [OF assms(1)]
  note sep = apart_separate [OF assms(2-4)]
  have ids: "accountId a \<in> A" "node a \<in> N" if "a \<in> set accs" for a
    using assms(4) that by (auto simp: accounts_ok_def list_all_iff)
  have old: "set (drop 2 (list_at ks d)) = (\<lambda>a. gen_account C d (accountId a)) ` set (reg_accounts g d)"
    using rep(1) [OF assms(3)] by (simp add: drop_row)
  have old_ids: "accountId a \<in> A" if "a \<in> set (reg_accounts g d)" for a
    using rep(4) [OF assms(3)] that by (auto simp: accounts_ok_def list_all_iff)
  have other: "?ks k = (if k \<in> (\<lambda>a. gen_account C d (accountId a)) ` set (reg_accounts g d) then None else ks k)"
    if "k \<noteq> d" "k \<notin> set (map node accs)" "k \<notin> set (map (\<lambda>a. gen_account C d (accountId a)) accs)" for k
    using registered_other [OF that] by (simp add: old)
  have same: "?ks k = ks k" if "k \<in> D \<union> N" "k \<noteq> d" "k \<notin> set (map node accs)" for k
  proof -
    have nokey: "k \<notin> (\<lambda>a. gen_account C d (accountId a)) ` S" if "\<And>a. a \<in> S \<Longrightarrow> accountId a \<in> A" for S
      using apart_keys(1,2) [OF assms(2,3)] that \<open>k \<in> D \<union> N\<close> by fast
    have "k \<notin> (\<lambda>a. gen_account C d (accountId a)) ` set accs"
      "k \<notin> (\<lambda>a. gen_account C d (accountId a)) ` set (reg_accounts g d)"
      by (rule nokey, erule ids(1) old_ids)+
    with that other [of k] show ?thesis by simp
  qed
  {
    fix d' assume d': "d' \<in> D"
    show "accounts_ok A N (reg_accounts ?g d')" using rep(4) [OF d'] assms(4) by (simp add: reg_accounts_set del: apply_op.simps)
    have "no_string ?ks d' \<and> list_at ?ks d' = device_row (gen_account C d') (rg_device ?g d')"
    proof (cases "d' = d")
      case True
      then show ?thesis by (simp add: no_string_def list_at_def device_row_def)
    next
      case False
      have "d' \<notin> set (map node accs)" using ids(2) d' assms(2) by (auto simp: apart_def)
      with False same [of d'] d' have "?ks d' = ks d'" by simp
      with rep(1) [OF d'] False show ?thesis by (simp add: row_cong [of ?ks d' ks])
    qed
    then show "no_string ?ks d'" "list_at ?ks d' = device_row (gen_account C d') (rg_device ?g d')" by simp_all
    fix a assume a: "a \<in> A"
    show "string_at ?ks (gen_account C d' a) (node_of (reg_accounts ?g d') a)"
    proof (cases "d' = d \<and> a \<in> accountId ` set accs")
      case True
      then obtain b where b: "b \<in> set accs" "accountId b = a" by auto
      with True registered_key [OF sep b(1)] node_of_Some [OF assms(4) b(1)] show ?thesis
        by (simp add: reg_accounts_set del: apply_op.simps)
    next
      case False
      let ?k = "gen_account C d' a"
      note keys = apart_keys [OF assms(2) d' a]
      have "?k \<noteq> d" "?k \<notin> set (map node accs)" using keys(1) [OF assms(3)] keys(2) ids(2) by fastforce+
      moreover have "?k \<notin> set (map (\<lambda>a. gen_account C d (accountId a)) accs)"
        using False keys(3) [OF assms(3)] ids(1) by auto
      ultimately have k: "?ks ?k = (if ?k \<in> (\<lambda>a. gen_account C d (accountId a)) ` set (reg_accounts g d) then None else ks ?k)"
        by (rule other)
      have "?k \<in> (\<lambda>a. gen_account C d (accountId a)) ` set (reg_accounts g d) \<longleftrightarrow> d' = d \<and> a \<in> accountId ` set (reg_accounts g d)"
        using keys(3) [OF assms(3)] old_ids by auto
      with k rep(3) [OF d' a] have "string_at ?ks ?k (if d' = d then None else node_of (reg_accounts g d') a)"
        by (cases "d' = d \<and> a \<in> accountId ` set (reg_accounts g d)")
          (auto simp: node_of_None string_at_cong [of ?ks ?k ks] split: if_splits)
      with False show ?thesis
        by (cases "d' = d") (simp_all add: reg_accounts_set node_of_None del: apply_op.simps)
    qed
  }
  fix n assume n: "n \<in> N"
  then have "n \<noteq> d" using assms(2,3) by (auto simp: apart_def)
  have "distinct (map node accs)" using assms(4) by (simp add: accounts_ok_def)
  note row = node_row_set [OF this, of d u v g n]
  have "no_string ?ks n \<and> list_at ?ks n = node_row (rg_node ?g n)"
  proof (cases "find (\<lambda>a. node a = n) accs")
    case None
    then have "n \<notin> set (map node accs)" by (auto simp: find_None_iff)
    with same [of n] n \<open>n \<noteq> d\<close> have "?ks n = ks n" by simp
    with rep(2) [OF n] None row show ?thesis by (simp add: row_cong [of ?ks n ks] del: apply_op.simps)
  next
    case (Some a)
    then have a: "a \<in> set accs" "node a = n" by (auto simp: find_Some_iff in_set_conv_nth)
    have "n \<notin> set (drop 2 (list_at ks d))" unfolding old using apart_keys(2) [OF assms(2,3) old_ids n] by auto
    with registered_node [OF sep a(1), of t u v ks] a(2) rep(2) [OF n] Some row show ?thesis
      by (simp add: no_string_def list_at_def del: apply_op.simps)
  qed
  then show "no_string ?ks n" "list_at ?ks n = node_row (rg_node ?g n)" by simp_all
qed

section \<open>The Redis client refines the registry\<close>

locale redis_registry = redis_server R view now
  for R :: "'db redis_api" and view :: "'db \<Rightarrow> keyspace" and now :: "'db \<Rightarrow> int" +
  fixes C :: "'e crypto_api" and D A N :: "string set"
  assumes apart: "apart C D A N"
begin

lemma run_op_rep:
  assumes "represents C D A N (view db) g" "op_ok D A N x"
  shows "\<exists>db'. run_op R C x db = (Inr (), db') \<and> represents C D A N (view db') (apply_op x g)"
proof (cases x)
  case (Set_channel_uri d u)
  with assms(2) have d: "d \<in> D" by simp
  from represents_rows(1) [OF assms(1) d] have "no_string (view db) d" by simp
  from set_channel_uri_run [OF this, of u] represents_uri [OF assms(1) apart d, of u] show ?thesis
    by (metis Set_channel_uri run_op.simps(1))
next
  case (Set_push_accounts d u v accs)
  with assms(2) have d: "d \<in> D" and accs: "accounts_ok A N accs" by simp_all
  have "no_string (view db) d" "\<forall>a \<in> set accs. no_string (view db) (node a)"
    using represents_rows(1,2) [OF assms(1)] d accs by (auto simp: accounts_ok_def list_all_iff)
  from set_push_accounts_run [OF apart_separate [OF apart d accs] this, of u v]
    represents_accounts [OF assms(1) apart d accs, of _ u v] show ?thesis
    by (metis Set_push_accounts run_op.simps(2))
qed

text \<open>Every query of a state that represents a registry.\<close>

lemma device_queries_rep:
  assumes "represents C D A N (view db) g" "d \<in> D"
  shows "get_channel_uri R d db = (Inr (map_option de_uri (rg_device g d)), db)"
    and "get_version R d db = (Inr (reg_version g d), db)"
    and "get_push_nodes asserts R d db = (Inr (map node (reg_accounts g d)), db)"
proof -
  let ?h = "gen_account C d"
  note row = represents_rows(1) [OF assms]
  then show "get_channel_uri R d db = (Inr (map_option de_uri (rg_device g d)), db)"
    "get_version R d db = (Inr (reg_version g d), db)"
    by (auto simp: get_channel_uri_run get_version_run device_row_def reg_version_def split: option.split)
  have ok: "accounts_ok A N (reg_accounts g d)" using assms by (rule represents_rows(4))
  have key: "\<exists>t. view db (?h (accountId a)) = Some (Rstr (node a), t)" if "a \<in> set (reg_accounts g d)" for a
    using represents_rows(3) [OF assms, of "accountId a"] ok that node_of_Some [OF ok that]
    by (auto simp: accounts_ok_def list_all_iff)
  define f where "f k = (case view db k of Some (Rstr n, _) \<Rightarrow> n | _ \<Rightarrow> [])" for k
  have f: "f (?h (accountId a)) = node a" if "a \<in> set (reg_accounts g d)" for a
    using key [OF that] by (auto simp: f_def)
  have "push_nodes_loop asserts R (map (\<lambda>a. ?h (accountId a)) (reg_accounts g d)) db
    = (Inr (map f (map (\<lambda>a. ?h (accountId a)) (reg_accounts g d))), db)"
    by (rule push_nodes_loop_run) (use key f in auto)
  moreover have "map f (map (\<lambda>a. ?h (accountId a)) (reg_accounts g d)) = map node (reg_accounts g d)"
    by (simp add: f)
  moreover have "drop 2 (device_row ?h (rg_device g d)) = map (\<lambda>a. ?h (accountId a)) (reg_accounts g d)"
    by (auto simp: device_row_def reg_accounts_def split: option.split)
  ultimately show "get_push_nodes asserts R d db = (Inr (map node (reg_accounts g d)), db)"
    using row by (simp add: get_push_nodes_def lrange_run)
qed

lemma node_queries_rep:
  assumes "represents C D A N (view db) g" "n \<in> N"
  shows "get_account_id R n db = (Inr (map_option fst (reg_owner g n)), db)"
    and "get_device_id R n db = (Inr (map_option (fst \<circ> snd) (reg_owner g n)), db)"
    and "get_node_secret R n db = (Inr (map_option (snd \<circ> snd) (reg_owner g n)), db)"
proof -
  note row = represents_rows(2) [OF assms]
  have "length (list_at (view db) n) = 3 \<longleftrightarrow> length (rg_node g n) = 1" using row by (simp add: node_row_three)
  with row show "get_account_id R n db = (Inr (map_option fst (reg_owner g n)), db)"
    "get_device_id R n db = (Inr (map_option (fst \<circ> snd) (reg_owner g n)), db)"
    "get_node_secret R n db = (Inr (map_option (snd \<circ> snd) (reg_owner g n)), db)"
    by (auto simp: node_queries_run reg_owner_def node_row_three split: list.split)
qed

lemma load_push_account_rep:
  assumes "represents C D A N (view db) g" "d \<in> D" "accountId b \<in> A"
  shows "load_push_account R C d b db = (Inr (reg_loaded g d b), db)"
proof (cases "find (\<lambda>a. accountId a = accountId b) (reg_accounts g d)")
  case None
  then have "node_of (reg_accounts g d) (accountId b) = None" by (intro node_of_None) (auto simp: find_None_iff)
  with represents_rows(3) [OF assms] None show ?thesis by (simp add: load_push_account_unknown reg_loaded_def)
next
  case (Some a)
  then have a: "a \<in> set (reg_accounts g d)" "accountId a = accountId b" by (auto simp: find_Some_iff in_set_conv_nth)
  note ok = represents_rows(4) [OF assms(1,2)]
  from ok a(1) have "node a \<in> N" by (auto simp: accounts_ok_def list_all_iff)
  from node_queries_rep(3) [OF assms(1) this] represents_rows(3) [OF assms] node_of_Some [OF ok a(1)] Some a(2)
  show ?thesis by (auto simp: load_push_account_def get reg_loaded_def split: option.split)
qed

end

sublocale redis_registry \<subseteq> rg: registry_store "\<lambda>db. represents C D A N (view db)" "run_op R C" "op_ok D A N"
  by unfold_locales (rule run_op_rep)

context redis_registry begin

text \<open>A run from an empty key space ends in a state that represents the registry of the run.\<close>

lemma registry_run:
  assumes "view db = (\<lambda>_. None)" "list_all (op_ok D A N) xs" "forE xs (run_op R C) db = (r, db')"
  shows "r = Inr () \<and> represents C D A N (view db') (fold apply_op xs empty_registry)"
  using rg.run_rep [of db empty_registry xs] assms represents_empty [of C D A N] by auto

end

text \<open>On the reference server, for two devices, two accounts and two nodes.\<close>

lemma demo_apart: "apart ref_crypto {''dev'', ''tab''} {''alice'', ''bob''} {''n1'', ''n2''}"
proof -
  let ?h = "gen_account ref_crypto"
  have "distinct [?h ''dev'' ''alice'', ?h ''dev'' ''bob'', ?h ''tab'' ''alice'', ?h ''tab'' ''bob'']"
    by (simp add: gen_account_def hash_sah256_def ref_crypto_def ref_digest_def ref_bin2hex_def hex_of_byte_def
        hex_digits_def code_of_def Let_def)
  then have "inj_on (\<lambda>(d, a). ?h d a) ({''dev'', ''tab''} \<times> {''alice'', ''bob''})"
    by (auto simp: inj_on_def)
  then show ?thesis unfolding apart_def by (auto simp: gen_account_not_short gen_account_not_short [symmetric])
qed

interpretation rgr: redis_registry ref_redis rd_keys rd_now ref_crypto
    "{''dev'', ''tab''}" "{''alice'', ''bob''}" "{''n1'', ''n2''}"
  by unfold_locales (rule demo_apart)

section \<open>Properties\<close>

text \<open>
  C4 (Refinement of the registry). Let devices, accounts and nodes be drawn from sets whose keys do
  not collide. From an empty key space every sequence of \<^verbatim>\<open>set_channel_uri\<close> and \<^verbatim>\<open>set_push_accounts\<close>,
  of any devices, in any order and with any repetition, succeeds, and afterwards every query of every
  device and node answers what the abstract registry says: the last channel URI, the version and nodes
  of the last registration, the owner of a node exactly if it was registered once, and for
  \<^verbatim>\<open>load_push_account\<close> the node and the secret of an account that is still registered.
\<close>

theorem registry_refined:
  assumes "redis_server R view now" "apart C D A N" "view db = (\<lambda>_. None)"
    and "list_all (op_ok D A N) xs" "forE xs (run_op R C) db = (r, db')" "g = fold apply_op xs empty_registry"
  shows "r = Inr ()
    \<and> (\<forall>d\<in>D. get_channel_uri R d db' = (Inr (map_option de_uri (rg_device g d)), db')
        \<and> get_version R d db' = (Inr (reg_version g d), db')
        \<and> get_push_nodes asserts R d db' = (Inr (map node (reg_accounts g d)), db')
        \<and> (\<forall>b. accountId b \<in> A \<longrightarrow> load_push_account R C d b db' = (Inr (reg_loaded g d b), db')))
    \<and> (\<forall>n\<in>N. get_account_id R n db' = (Inr (map_option fst (reg_owner g n)), db')
        \<and> get_device_id R n db' = (Inr (map_option (fst \<circ> snd) (reg_owner g n)), db')
        \<and> get_node_secret R n db' = (Inr (map_option (snd \<circ> snd) (reg_owner g n)), db'))"
proof -
  have L: "redis_registry R view now C D A N"
    using assms(1,2) by (simp add: redis_registry_def redis_registry_axioms_def)
  from redis_registry.registry_run [OF this assms(3-5)] have "r = Inr ()" and rep: "represents C D A N (view db') g"
    by (simp_all add: assms(6))
  then show ?thesis
    using redis_registry.device_queries_rep [OF L rep] redis_registry.node_queries_rep [OF L rep]
      redis_registry.load_push_account_rep [OF L rep] by blast
qed

text \<open>A second registration of the same account and node, with an account more.\<close>

definition demo_ops :: "registry_op list" where
  "demo_ops = [Set_push_accounts ''dev'' ''u'' ''2'' demo_accounts, Set_channel_uri ''tab'' ''v'',
     Set_push_accounts ''dev'' ''w'' ''2''
       (demo_accounts @ [\<lparr>accountId = ''bob'', node = ''n2'', secret = ''s2'', success = True\<rparr>])]"

theorem registry_refined_witness:
  "\<exists>r db'. forE demo_ops (run_op ref_redis ref_crypto) demo_db = (r, db') \<and> r = Inr ()
     \<and> get_push_nodes True ref_redis ''dev'' db' = (Inr [''n1'', ''n2''], db')
     \<and> get_channel_uri ref_redis ''tab'' db' = (Inr (Some ''v''), db')
     \<and> get_node_secret ref_redis ''n1'' db' = (Inr None, db') \<and> get_node_secret ref_redis ''n2'' db' = (Inr (Some ''s2''), db')"
proof -
  obtain r db' where run: "forE demo_ops (run_op ref_redis ref_crypto) demo_db = (r, db')" by fastforce
  have ok: "list_all (op_ok {''dev'', ''tab''} {''alice'', ''bob''} {''n1'', ''n2''}) demo_ops"
    by (simp add: demo_ops_def accounts_ok_def demo_accounts_def)
  have "rd_keys demo_db = (\<lambda>_. None)" by (simp add: demo_db_def)
  from registry_refined [OF rr.redis_server_axioms demo_apart this ok run refl, of True] run show ?thesis
    by (auto simp: demo_ops_def demo_accounts_def reg_accounts_def reg_owner_def empty_registry_def)
qed

end
