(* ===== verification/Reregistration.thy ===== *)
theory Reregistration
  imports End_To_End Registry
begin

text \<open>
  What the refinement of the registry means for the whole server: a device that registers its accounts
  again. The handler finds the stored nodes and keeps them, the database appends to the lists of the
  nodes instead of replacing them, and from then on no event of these nodes reaches the device.
\<close>

section \<open>The handler on accounts that are registered\<close>

lemma fold_set_insert: "distinct (ys @ xs) \<Longrightarrow> fold set_insert xs ys = ys @ xs"
  by (induction xs arbitrary: ys) (auto simp: set_insert_def)

text \<open>The stored account, whatever \<^verbatim>\<open>create\<close> drew for it.\<close>

definition stored :: "push_account \<Rightarrow> push_account" where
  "stored a = a\<lparr>success := True\<rparr>"

lemma stored_simps [simp]: "accountId (stored a) = accountId a" "node (stored a) = node a" "secret (stored a) = secret a"
  by (simp_all add: stored_def)

lemma find_account:
  assumes "distinct (map accountId as)" "a \<in> set as" "accountId b = accountId a"
  shows "find (\<lambda>c. accountId c = accountId b) as = Some a"
  using assms by (induction as) (auto simp: image_iff)

lemma reg_loaded_stored:
  assumes "accounts_ok A N (reg_accounts g d)" "a \<in> set (reg_accounts g d)" "accountId b = accountId a"
    and "reg_owner g (node a) = Some (accountId a, d, secret a)"
  shows "reg_loaded g d b = stored a"
  using find_account [OF _ assms(2,3)] assms
  by (simp add: reg_loaded_def stored_def accounts_ok_def)

lemma add_accounts_known:
  assumes "crypto_lib (p_crypto P)" "distinct (map node as)" "as_delete st = map node as"
    and "\<And>a b. a \<in> set as \<Longrightarrow> accountId b = accountId a \<Longrightarrow>
      load_push_account (p_redis P) (p_crypto P) dev b (w_db w) = (Inr (stored a), w_db w)"
  shows "\<exists>e. add_accounts P dev (map accountId as) st w =
    (Inr (st\<lparr>as_delete := [], as_accounts := as_accounts st @ map stored as\<rparr>), w\<lparr>w_env := e\<rparr>)"
  using assms(2-)
proof (induction as arbitrary: st w)
  case Nil
  then show ?case by (intro exI [of _ "w_env w"]) simp
next
  case (Cons a as)
  from create_run [OF assms(1), of "p_asserts P" "accountId a" "w_env w"] obtain b e where
    b: "PushAccount_create (p_asserts P) (p_crypto P) (accountId a) (w_env w) = (Inr b, e)" "accountId b = accountId a"
    by (auto simp: fresh_account_def)
  have "load_push_account (p_redis P) (p_crypto P) dev b (w_db w) = (Inr (stored a), w_db w)"
    using Cons.prems(3) [of a b] b(2) by simp
  with b Cons.prems(1,2) have "add_account P dev (accountId a) st w =
      (Inr (st\<lparr>as_delete := map node as, as_accounts := as_accounts st @ [stored a]\<rparr>), w\<lparr>w_env := e\<rparr>)"
    by (simp add: add_account_def Let_def)
  moreover have "\<exists>e'. add_accounts P dev (map accountId as) (st\<lparr>as_delete := map node as, as_accounts := as_accounts st @ [stored a]\<rparr>)
      (w\<lparr>w_env := e\<rparr>) = (Inr (st\<lparr>as_delete := [], as_accounts := as_accounts st @ stored a # map stored as\<rparr>), w\<lparr>w_env := e'\<rparr>)"
    using Cons.IH [of "st\<lparr>as_delete := map node as, as_accounts := as_accounts st @ [stored a]\<rparr>" "w\<lparr>w_env := e\<rparr>"] Cons.prems by simp
  ultimately show ?case by auto
qed

text \<open>The whole handler: no request to the XMPP server, the same nodes, and the registry after the operation.\<close>

lemma known_accounts_run:
  assumes "platform_lib P view now" "apart (p_crypto P) D A N" "represents (p_crypto P) D A N (view (w_db w)) g" "dev \<in> D"
    and "rg_device g dev = Some \<lparr>de_uri = uri, de_reg = Some (v, as)\<rparr>"
    and "\<And>a. a \<in> set as \<Longrightarrow> reg_owner g (node a) = Some (accountId a, dev, secret a)"
    and "printable P (Msg_SuccessSetPushAccounts (SuccessSetPushAccountsMessage_new (map stored as) (get_jid w)))"
  shows "\<exists>e d w'. set_push_accounts P sn dev ver (map accountId as) w = (Inr (), w')
    \<and> represents (p_crypto P) D A N (view d) (apply_op (Set_push_accounts dev uri ver (map stored as)) g)
    \<and> responded P sn (Msg_SuccessSetPushAccounts (SuccessSetPushAccountsMessage_new (map stored as) (get_jid w))) (w\<lparr>w_env := e, w_db := d\<rparr>) w'"
proof -
  have lib: "redis_server (p_redis P) view now" "crypto_lib (p_crypto P)" "mset (p_order P xs) = mset xs" for xs
    using assms(1) by (simp_all add: platform_lib_def platform_lib_axioms_def)
  have L: "redis_registry (p_redis P) view now (p_crypto P) D A N"
    using lib(1) assms(2) by (simp add: redis_registry_def redis_registry_axioms_def)
  have accs: "reg_accounts g dev = as" using assms(5) by (simp add: reg_accounts_def)
  have ok: "accounts_ok A N as" using represents_rows(4) [OF assms(3,4)] by (simp add: accs)
  have q: "get_channel_uri (p_redis P) dev (w_db w) = (Inr (Some uri), w_db w)"
    "get_push_nodes (p_asserts P) (p_redis P) dev (w_db w) = (Inr (map node as), w_db w)"
    using redis_registry.device_queries_rep [OF L assms(3,4)] assms(5) by (simp_all add: accs)
  have load: "load_push_account (p_redis P) (p_crypto P) dev b (w_db w) = (Inr (stored a), w_db w)"
    if "a \<in> set as" "accountId b = accountId a" for a b
    using redis_registry.load_push_account_rep [OF L assms(3,4), of b] reg_loaded_stored [of A N g dev a b] that ok assms(6) [OF that(1)]
    by (simp add: accs) (auto simp: accounts_ok_def list_all_iff)
  have dist: "distinct (map node as)" using ok by (simp add: accounts_ok_def)
  let ?st0 = "\<lparr>as_delete = map node as, as_add = [], as_accounts = []\<rparr>"
  from add_accounts_known [OF lib(2) dist, of ?st0 dev w] load obtain e where
    add: "add_accounts P dev (map accountId as) ?st0 w = (Inr \<lparr>as_delete = [], as_add = [], as_accounts = map stored as\<rparr>, w\<lparr>w_env := e\<rparr>)"
    by auto
  have ord: "p_order P [] = []" using lib(3) [of "[]"] by simp
  have "op_ok D A N (Set_push_accounts dev uri ver (map stored as))"
    using ok assms(4) by (simp add: accounts_ok_def list_all_iff comp_def)
  from redis_registry.run_op_rep [OF L assms(3) this] obtain d where
    d: "redis_set_push_accounts (p_redis P) (p_crypto P) dev uri ver (map stored as) (w_db w) = (Inr (), d)"
    "represents (p_crypto P) D A N (view d) (apply_op (Set_push_accounts dev uri ver (map stored as)) g)" by auto
  from assms(7) obtain j t where j: "SuccessSetPushAccountsMessage_to_json (p_asserts P) (p_json P)
      (SuccessSetPushAccountsMessage_new (map stored as) (get_jid w)) (j_null (p_json P)) = Inr j" "j_dump (p_json P) j = Inr t"
    by (auto simp: printable_def)
  have jid: "get_jid (w\<lparr>w_env := e, w_db := d\<rparr>) = get_jid w" by (simp add: get_jid_def)
  have "set_push_accounts P sn dev ver (map accountId as) w =
    (Inr (), (w\<lparr>w_env := e, w_db := d\<rparr>)\<lparr>w_trace := w_trace w @ [Session_send sn (t @ [CHR 0x00])]\<rparr>)"
    using q add ord d(1) j jid dist
    by (simp add: set_push_accounts_def fold_set_insert in_order_def session_send_def session_send_text_def)
  with d(2) j show ?thesis by (intro exI [of _ e] exI [of _ d] exI) (auto simp: responded_def)
qed

section \<open>Events after it\<close>

lemma owned_twice:
  assumes "distinct (map node as)" "a \<in> set as" "reg_owner g (node a) = Some (accountId a, dev, secret a)"
  shows "rg_node (apply_op (Set_push_accounts dev uri ver (map stored as)) g) (node a)
    = [(accountId a, dev, secret a), (accountId a, dev, secret a)]"
proof -
  have "filter (\<lambda>b. node b = node a) (map stored as) = [stored a]"
    using filter_node [of "map stored as" "stored a"] assms(1,2) by (simp add: comp_def)
  moreover have "rg_node g (node a) = [(accountId a, dev, secret a)]"
    using assms(3) by (simp add: reg_owner_def split: list.splits)
  ultimately show ?thesis by simp
qed

text \<open>
  C5 (Registering again). A device whose accounts are registered sends the same accounts again, before
  any of its entries expires. The server answers that every account is set up, with the nodes and secrets
  it had, and asks the XMPP server for nothing; but from then on every push event for one of these nodes is
  dropped without an effect, as long as the database stays as the second registration left it.
\<close>

theorem second_registration_silences:
  fixes P :: "('j, 'db, 'e, 'st) platform" and w :: "('db, 'e, 'st, 'z) xmpp_world_scheme"
  assumes "platform_lib P view now" "apart (p_crypto P) D A N" "represents (p_crypto P) D A N (view (w_db w)) g" "dev \<in> D"
    and "rg_device g dev = Some \<lparr>de_uri = uri, de_reg = Some (v, as)\<rparr>" "xc_redis_set (w_xmpp w)"
    and "\<forall>a \<in> set as. reg_owner g (node a) = Some (accountId a, dev, secret a)"
    and "printable P (Msg_SuccessSetPushAccounts (SuccessSetPushAccountsMessage_new (map stored as) (get_jid w)))"
    and "set_push_accounts P sn dev ver (map accountId as) w = (r, w')"
  shows "r = Inr ()
    \<and> (\<exists>e d. responded P sn (Msg_SuccessSetPushAccounts (SuccessSetPushAccountsMessage_new (map stored as) (get_jid w)))
          (w\<lparr>w_env := e, w_db := d\<rparr>) w')
    \<and> (\<forall>a \<in> set as. \<forall>w2 :: ('db, 'e, 'st, 'z) xmpp_world_scheme. \<forall>notif stanza.
         view (w_db w2) = view (w_db w') \<and> w_xmpp w2 = w_xmpp w'
           \<and> push_event (p_strophe P) (c_str (xc_jid (w_xmpp w))) (node a) notif stanza \<longrightarrow>
         on_xmpp_message P stanza w2 = (Inr 1, w2))"
proof -
  let ?resp = "Msg_SuccessSetPushAccounts (SuccessSetPushAccountsMessage_new (map stored as) (get_jid w))"
  let ?g = "apply_op (Set_push_accounts dev uri ver (map stored as)) g"
  have R: "redis_server (p_redis P) view now" using assms(1) by (simp add: platform_lib_def)
  from known_accounts_run [OF assms(1-5) _ assms(8), of sn ver] assms(7,9) obtain e d where
    rep: "represents (p_crypto P) D A N (view d) ?g" and w': "r = Inr ()" "responded P sn ?resp (w\<lparr>w_env := e, w_db := d\<rparr>) w'"
    by auto
  have frame: "w_db w' = d" "w_xmpp w' = w_xmpp w" using w'(2) by (auto simp: responded_def)
  have ok: "distinct (map node as)" "\<And>a. a \<in> set as \<Longrightarrow> node a \<in> N"
    using represents_rows(4) [OF assms(3,4)] assms(5) by (auto simp: reg_accounts_def accounts_ok_def list_all_iff)
  have "on_xmpp_message P stanza w2 = (Inr 1, w2)"
    if a: "a \<in> set as" and w2: "view (w_db w2) = view (w_db w')" "w_xmpp w2 = w_xmpp w'"
      and ev: "push_event (p_strophe P) (c_str (xc_jid (w_xmpp w))) (node a) notif stanza"
    for a notif stanza and w2 :: "('db, 'e, 'st, 'z) xmpp_world_scheme"
  proof -
    have "no_string (view d) (node a) \<and> length (list_at (view d) (node a)) = 6"
      using represents_rows(2) [OF rep ok(2) [OF a]] owned_twice [OF ok(1) a bspec [OF assms(7) a], of uri ver]
      by (simp add: node_row_three del: apply_op.simps)
    then have row: "no_string (view (w_db w2)) (node a)" "length (list_at (view (w_db w2)) (node a)) = 6"
      using w2(1) frame(1) by simp_all
    then have "node_owner (view (w_db w2)) (node a) = None" "node_device (view (w_db w2)) (node a) = None"
      by (auto simp: node_owner_def node_device_def split: list.split)
    moreover have "push_event (p_strophe P) (c_str (xc_jid (w_xmpp w2))) (node a) notif stanza" "xc_redis_set (w_xmpp w2)"
      using ev w2(2) frame(2) assms(6) by simp_all
    ultimately show ?thesis
      using message_handler_event [OF R _ _ row(1)] by (simp add: on_xmpp_message_def)
  qed
  with w' show ?thesis by blast
qed

theorem second_registration_silences_witness:
  "\<exists>(w :: (ref_db, ref_env, stanza) xmpp_world) w'. get_push_nodes True ref_redis ''dev'' (w_db w) = (Inr [''n1''], w_db w)
     \<and> set_push_accounts (ref_platform True) 7 ''dev'' ''2'' [''alice''] w = (Inr (), w')
     \<and> on_xmpp_message (ref_platform True) (demo_node_event ''n1'' ''push@example.org'' (demo_notification [demo_form])) w' = (Inr 1, w')"
proof -
  let ?P = "ref_platform True" and ?D = "{''dev'', ''tab''}" and ?A = "{''alice'', ''bob''}" and ?N = "{''n1'', ''n2''}"
  let ?ops = "[Set_push_accounts ''dev'' demo_uri ''2'' demo_accounts]"
  let ?g = "fold apply_op ?ops empty_registry"
  obtain r0 db where run0: "forE ?ops (run_op ref_redis ref_crypto) demo_db = (r0, db)" by fastforce
  have "list_all (op_ok ?D ?A ?N) ?ops" by (simp add: accounts_ok_def demo_accounts_def)
  with rgr.registry_run [OF _ this run0] have rep: "represents ref_crypto ?D ?A ?N (rd_keys db) ?g"
    by (simp add: demo_db_def)
  define w where "w = demo_strophe_world\<lparr>w_db := db\<rparr>"
  obtain r w' where run: "set_push_accounts ?P 7 ''dev'' ''2'' (map accountId demo_accounts) w = (r, w')" by fastforce
  have w: "w_db w = db" "w_xmpp w = w_xmpp demo_server" "get_jid w = ''push@example.org''"
    using demo_server_ready(2) by (simp_all add: w_def demo_server_def get_jid_def)
  have pr: "printable ?P (Msg_SuccessSetPushAccounts (SuccessSetPushAccountsMessage_new (map stored demo_accounts) (get_jid w)))"
    by (rule ref_printable, rule send_success_accounts) (simp_all add: w(3) demo_accounts_def wf_push_account_def)
  have dev: "rg_device ?g ''dev'' = Some \<lparr>de_uri = demo_uri, de_reg = Some (''2'', demo_accounts)\<rparr>"
    "\<forall>a \<in> set demo_accounts. reg_owner ?g (node a) = Some (accountId a, ''dev'', secret a)"
    by (simp_all add: empty_registry_def demo_accounts_def reg_owner_def)
  have ev: "push_event (p_strophe ?P) (c_str (xc_jid (w_xmpp w))) ''n1'' (demo_notification [demo_form])
      (demo_node_event ''n1'' ''push@example.org'' (demo_notification [demo_form]))"
    using demo_push_node_event [of "''push@example.org''"] by (simp add: w(2) demo_server_ready c_str_def)
  have rep': "represents (p_crypto ?P) ?D ?A ?N (rd_keys (w_db w)) ?g" using rep by (simp add: w(1))
  have ap: "apart (p_crypto ?P) ?D ?A ?N" using demo_apart by simp
  have rs: "xc_redis_set (w_xmpp w)" by (simp add: w(2) demo_server_ready)
  have n1: "hd demo_accounts \<in> set demo_accounts" "node (hd demo_accounts) = ''n1''" by (simp_all add: demo_accounts_def)
  have "r = Inr () \<and> on_xmpp_message ?P (demo_node_event ''n1'' ''push@example.org'' (demo_notification [demo_form])) w' = (Inr 1, w')"
    using second_registration_silences [OF rp.platform_lib_axioms ap rep' _ dev(1) rs dev(2) pr run] ev n1
    by (metis insertI1)
  moreover have "get_push_nodes True ref_redis ''dev'' db = (Inr [''n1''], db)"
    using rgr.device_queries_rep(3) [OF rep, of "''dev''" True] by (simp add: reg_accounts_def demo_accounts_def)
  ultimately show ?thesis using run w(1) by (intro exI [of _ w] exI [of _ w']) (simp add: demo_accounts_def)
qed

end
