(* ===== verification/Effect_Rules.thy ===== *)
theory Effect_Rules
  imports Wns_Correct
begin

text \<open>
  Triples for effectful operations, one rule per combinator: in a state with \<open>I\<close>, an operation ends in a
  state with \<open>I\<close> whatever its outcome, throws no error of Redis, and returns only values in \<open>Q\<close>.
\<close>

section \<open>Triples\<close>

definition ends :: "('s \<Rightarrow> bool) \<Rightarrow> ('a \<Rightarrow> bool) \<Rightarrow> (exn + 'a) \<times> 's \<Rightarrow> bool" where
  "ends I Q res \<longleftrightarrow> fst res \<noteq> Inl Redis_error \<and> (\<forall>a. fst res = Inr a \<longrightarrow> Q a) \<and> I (snd res)"

definition ensures :: "('s \<Rightarrow> bool) \<Rightarrow> ('s, 'a) M \<Rightarrow> ('a \<Rightarrow> bool) \<Rightarrow> bool" where
  "ensures I m Q \<longleftrightarrow> (\<forall>s. I s \<longrightarrow> ends I Q (m s))"

abbreviation any :: "'a \<Rightarrow> bool" where
  "any \<equiv> \<lambda>_. True"

named_theorems ensures_rules \<open>rules that show what an operation ensures\<close>

lemma ends_simps [simp]:
  "ends I Q (Inr a, s) \<longleftrightarrow> Q a \<and> I s" "ends I Q (Inl e, s) \<longleftrightarrow> e \<noteq> Redis_error \<and> I s"
  by (auto simp: ends_def)

lemma ensuresI: "(\<And>s. I s \<Longrightarrow> ends I Q (m s)) \<Longrightarrow> ensures I m Q"
  by (simp add: ensures_def)

lemma ensures_at: "ensures I m Q \<Longrightarrow> I s \<Longrightarrow> ends I Q (m s)"
  by (simp add: ensures_def)

lemma ends_weaken: "ends I Q res \<Longrightarrow> (\<And>a. Q a \<Longrightarrow> Q' a) \<Longrightarrow> ends I Q' res"
  by (auto simp: ends_def)

lemma ensures_weaken: "ensures I m Q \<Longrightarrow> (\<And>a. Q a \<Longrightarrow> Q' a) \<Longrightarrow> ensures I m Q'"
  unfolding ensures_def by (blast intro: ends_weaken)

lemma ensures_ret [ensures_rules]: "Q a \<Longrightarrow> ensures I (ret a) Q"
  by (simp add: ensures_def)

text \<open>To be tried first, where the values do not matter.\<close>

lemma ensures_ret_any: "ensures I (ret a) any"
  by (simp add: ensures_def)

lemma ensures_raise [ensures_rules]: "e \<noteq> Redis_error \<Longrightarrow> ensures I (raise e) Q"
  by (simp add: ensures_def)

lemma ensures_getE [ensures_rules]: "ensures I (getE f) any"
  by (simp add: ensures_def)

lemma ensures_liftR [ensures_rules]: "r \<noteq> Inl Redis_error \<Longrightarrow> ensures I (liftR r) any"
  by (cases r) (auto simp: ensures_def)

lemma ensures_liftR_value: "r \<noteq> Inl Redis_error \<Longrightarrow> (\<And>a. r = Inr a \<Longrightarrow> Q a) \<Longrightarrow> ensures I (liftR r) Q"
  by (cases r) (auto simp: ensures_def)

lemma ensures_assertE [ensures_rules]: "ensures I (assertE a b) any"
  by (simp add: assertE_def assertR_def ensures_def)

lemma ensures_bindE [ensures_rules]:
  "ensures I m Q \<Longrightarrow> (\<And>a. Q a \<Longrightarrow> ensures I (f a) Q') \<Longrightarrow> ensures I (bindE m f) Q'"
proof (rule ensuresI)
  fix s assume m: "ensures I m Q" and f: "\<And>a. Q a \<Longrightarrow> ensures I (f a) Q'" and s: "I s"
  obtain r s' where run: "m s = (r, s')" by fastforce
  from ensures_at [OF m s] have r: "ends I Q (r, s')" by (simp add: run)
  show "ends I Q' (bindE m f s)"
    using r f [THEN ensures_at, of _ s'] by (cases r) (simp_all add: run)
qed

lemma ensures_thenE [ensures_rules]: "ensures I m any \<Longrightarrow> ensures I n Q \<Longrightarrow> ensures I (thenE m n) Q"
  unfolding thenE_def by (rule ensures_bindE)

lemma ensures_if [ensures_rules]:
  "(b \<Longrightarrow> ensures I m Q) \<Longrightarrow> (\<not> b \<Longrightarrow> ensures I n Q) \<Longrightarrow> ensures I (if b then m else n) Q"
  by simp

lemma ensures_case_option [ensures_rules]:
  "(x = None \<Longrightarrow> ensures I m Q) \<Longrightarrow> (\<And>a. x = Some a \<Longrightarrow> ensures I (f a) Q) \<Longrightarrow>
   ensures I (case x of None \<Rightarrow> m | Some a \<Rightarrow> f a) Q"
  by (cases x) auto

lemma ensures_case_prod [ensures_rules]:
  "(\<And>a b. x = (a, b) \<Longrightarrow> ensures I (f a b) Q) \<Longrightarrow> ensures I (case x of (a, b) \<Rightarrow> f a b) Q"
  by (cases x) auto

lemma ensures_case_action [ensures_rules]:
  "ensures I m1 Q \<Longrightarrow> ensures I m2 Q \<Longrightarrow> ensures I m3 Q \<Longrightarrow>
   ensures I (case a of SUCCESS \<Rightarrow> m1 | RETRY \<Rightarrow> m2 | ERROR \<Rightarrow> m3) Q"
  by (cases a) auto

lemma ensures_catchE [ensures_rules]:
  "ensures I m Q \<Longrightarrow> (\<And>e. ensures I (h e) Q) \<Longrightarrow> ensures I (catchE m h) Q"
proof (rule ensuresI)
  fix s assume m: "ensures I m Q" and h: "\<And>e. ensures I (h e) Q" and s: "I s"
  obtain r s' where run: "m s = (r, s')" by fastforce
  from ensures_at [OF m s] have r: "ends I Q (r, s')" by (simp add: run)
  show "ends I Q (catchE m h s)"
    using r h [THEN ensures_at, of s'] by (cases r) (simp_all add: run)
qed

lemma ensures_catch_parse [ensures_rules]:
  "ensures I m Q \<Longrightarrow> Q None \<Longrightarrow> ensures I (catch_parse_error m) Q"
proof (rule ensuresI)
  fix s assume m: "ensures I m Q" and n: "Q None" and s: "I s"
  obtain r s' where run: "m s = (r, s')" by fastforce
  from ensures_at [OF m s] have r: "ends I Q (r, s')" by (simp add: run)
  show "ends I Q (catch_parse_error m s)"
    using r n by (cases r) (auto simp: catch_parse_error_def run split: exn.split)
qed

lemma ensures_forE:
  "(\<And>x. x \<in> set xs \<Longrightarrow> ensures I (f x) any) \<Longrightarrow> ensures I (forE xs f) any"
  by (induction xs) (auto intro: ensures_rules)

lemma keeps_at: "keeps I m \<Longrightarrow> I s \<Longrightarrow> I (snd (m s))"
  by (simp add: keeps_def)

section \<open>Operations on the world\<close>

text \<open>An invariant of the world made of one of the database and one of the requests sent over HTTP.\<close>

definition store_and_posts :: "('db \<Rightarrow> bool) \<Rightarrow> (http_request \<Rightarrow> bool) \<Rightarrow> ('db, 'e, 'st, 'z) world_scheme \<Rightarrow> bool" where
  "store_and_posts D H w \<longleftrightarrow> D (w_db w) \<and> list_all H (http_posts (w_trace w))"

lemma store_and_posts_simps [simp]:
  "store_and_posts D H (w\<lparr>w_db := d\<rparr>) \<longleftrightarrow> D d \<and> list_all H (http_posts (w_trace w))"
  "store_and_posts D H (w\<lparr>w_env := e\<rparr>) \<longleftrightarrow> store_and_posts D H w"
  "store_and_posts D H (w\<lparr>w_trace := tr\<rparr>) \<longleftrightarrow> D (w_db w) \<and> list_all H (http_posts tr)"
  by (simp_all add: store_and_posts_def)

lemma ensures_on_db [ensures_rules]:
  fixes m :: "('db, 'a) M"
  assumes "ensures D m Q"
  shows "ensures (store_and_posts D H) (on_db m :: (('db, 'e, 'st, 'z) world_scheme, 'a) M) Q"
proof (rule ensuresI)
  fix w :: "('db, 'e, 'st, 'z) world_scheme"
  assume w: "store_and_posts D H w"
  obtain r d where run: "m (w_db w) = (r, d)" by fastforce
  from ensures_at [OF assms, of "w_db w"] w have r: "ends D Q (r, d)" by (simp add: run store_and_posts_def)
  show "ends (store_and_posts D H) Q (on_db m w)"
    using r w by (cases r) (simp_all add: run store_and_posts_def)
qed

lemma ensures_ask [ensures_rules]: "ensures (store_and_posts D H) (on_env (askE f)) any"
  by (simp add: ensures_def split: prod.split)

lemma ensures_emit_other [ensures_rules]:
  "ensures (store_and_posts D H) (emit (Xmpp_send st)) any" "ensures (store_and_posts D H) (emit (Session_send i s)) any"
  by (simp_all add: ensures_def store_and_posts_def)

lemma ensures_emit_post [ensures_rules]: "H q \<Longrightarrow> ensures (store_and_posts D H) (emit (Http_post q)) any"
  by (simp add: ensures_def store_and_posts_def)

lemma ensures_modE:
  "(\<And>w. I w \<Longrightarrow> I (g w)) \<Longrightarrow> ensures I (modE g) any"
  by (simp add: ensures_def)

end
