(* ===== verification/Key_Typing.thy ===== *)
theory Key_Typing
  imports Effect_Rules
begin

text \<open>
  A type system for the keys of the database. The sources use four kinds of keys without any prefix that
  tells them apart: hashes of device and account lead to a node, nodes to the rows registered for them,
  devices to their list and one fixed key to the WNS token. \<open>entry_typed\<close> says what each kind holds, and
  where it comes from: \<open>okU dev uri\<close> and \<open>okA dev acc\<close> are what may be stored as a channel and as an account
  of a device. The lemmas show that the operations of \<^verbatim>\<open>storage/redis/RedisClient.cpp\<close> keep a database typed
  and never meet an entry of the wrong type, as long as a device does not use a key of another kind.
\<close>

section \<open>Kinds of keys\<close>

definition node_key :: "string \<Rightarrow> bool" where
  "node_key k \<longleftrightarrow> length k = 15"

definition device_key :: "'e crypto_api \<Rightarrow> string \<Rightarrow> bool" where
  "device_key C k \<longleftrightarrow> (\<forall>d a. k \<noteq> gen_account C d a) \<and> \<not> node_key k \<and> k \<noteq> WNS_TOKEN_KEY"

text \<open>The entries of a node: one row of account, device and secret for each registration.\<close>

definition rows :: "(string \<times> string \<times> string) list \<Rightarrow> string list" where
  "rows rs = concat (map (\<lambda>(acc, dev, sec). [acc, dev, sec]) rs)"

inductive entry_typed ::
  "'e crypto_api \<Rightarrow> (string \<Rightarrow> string \<Rightarrow> bool) \<Rightarrow> (string \<Rightarrow> string \<Rightarrow> bool) \<Rightarrow> string \<Rightarrow> rvalue \<Rightarrow> bool"
  for C :: "'e crypto_api" and okU okA :: "string \<Rightarrow> string \<Rightarrow> bool" where
  account_entry: "node_key n \<Longrightarrow> okA d a \<Longrightarrow> entry_typed C okU okA (gen_account C d a) (Rstr n)"
| node_entry: "node_key n \<Longrightarrow> rs \<noteq> [] \<Longrightarrow> \<forall>(acc, dev, sec) \<in> set rs. device_key C dev \<and> okA dev acc \<Longrightarrow>
    entry_typed C okU okA n (Rlist (rows rs))"
| device_entry: "device_key C dev \<Longrightarrow> okU dev uri \<Longrightarrow> \<forall>h \<in> set (drop 1 rest). \<exists>acc. h = gen_account C dev acc \<and> okA dev acc \<Longrightarrow>
    entry_typed C okU okA dev (Rlist (uri # rest))"
| token_entry: "entry_typed C okU okA WNS_TOKEN_KEY (Rlist [tok, ty, expires])"

inductive_cases entry_typedE: "entry_typed C okU okA k v"

definition well_typed :: "'e crypto_api \<Rightarrow> (string \<Rightarrow> string \<Rightarrow> bool) \<Rightarrow> (string \<Rightarrow> string \<Rightarrow> bool) \<Rightarrow> keyspace \<Rightarrow> bool" where
  "well_typed C okU okA ks \<longleftrightarrow> (\<forall>k v t. ks k = Some (v, t) \<longrightarrow> entry_typed C okU okA k v)"

lemma entry_typed_mono:
  assumes "entry_typed C okU okA k v" "\<And>d u. okU d u \<Longrightarrow> okU' d u" "\<And>d a. okA d a \<Longrightarrow> okA' d a"
  shows "entry_typed C okU' okA' k v"
  using assms(1)
proof cases
  case (account_entry n d a)
  with assms(3) show ?thesis by (simp add: entry_typed.account_entry)
next
  case (node_entry rs)
  have "\<forall>(acc, dev, sec) \<in> set rs. device_key C dev \<and> okA' dev acc" using node_entry(4) assms(3) by auto
  with node_entry show ?thesis by (simp add: entry_typed.node_entry)
next
  case (device_entry uri rest)
  have "\<forall>h \<in> set (drop 1 rest). \<exists>acc. h = gen_account C k acc \<and> okA' k acc" using device_entry(4) assms(3) by blast
  with device_entry assms(2) show ?thesis by (simp add: entry_typed.device_entry)
next
  case (token_entry tok ty expires)
  then show ?thesis by (simp add: entry_typed.token_entry)
qed

lemma well_typed_mono:
  "well_typed C okU okA ks \<Longrightarrow> (\<And>d u. okU d u \<Longrightarrow> okU' d u) \<Longrightarrow> (\<And>d a. okA d a \<Longrightarrow> okA' d a) \<Longrightarrow>
   well_typed C okU' okA' ks"
  unfolding well_typed_def by (blast intro: entry_typed_mono)

lemma well_typed_empty [simp]: "well_typed C okU okA (\<lambda>_. None)"
  by (simp add: well_typed_def)

lemma well_typed_upd: "well_typed C okU okA ks \<Longrightarrow> entry_typed C okU okA k v \<Longrightarrow> well_typed C okU okA (ks(k \<mapsto> (v, t)))"
  by (simp add: well_typed_def)

lemma well_typed_del: "well_typed C okU okA ks \<Longrightarrow> well_typed C okU okA (ks(k := None))"
  by (simp add: well_typed_def)

lemma well_typedD: "well_typed C okU okA ks \<Longrightarrow> ks k = Some (v, t) \<Longrightarrow> entry_typed C okU okA k v"
  by (auto simp: well_typed_def)

text \<open>Entries that will expire: all but the token have a deadline, at most one time-out away.\<close>

definition expiring :: "int \<Rightarrow> keyspace \<Rightarrow> bool" where
  "expiring n ks \<longleftrightarrow> (\<forall>k v t. ks k = Some (v, t) \<longrightarrow> k \<noteq> WNS_TOKEN_KEY \<longrightarrow> (\<exists>d. t = Some d \<and> d \<le> n + DEFAULT_ENTRY_TIMEOUT))"

definition well_kept :: "'e crypto_api \<Rightarrow> (string \<Rightarrow> string \<Rightarrow> bool) \<Rightarrow> (string \<Rightarrow> string \<Rightarrow> bool) \<Rightarrow> int \<Rightarrow> keyspace \<Rightarrow> bool" where
  "well_kept C okU okA n ks \<longleftrightarrow> well_typed C okU okA ks \<and> expiring n ks"

lemma well_kept_typed: "well_kept C okU okA n ks \<Longrightarrow> well_typed C okU okA ks"
  by (simp add: well_kept_def)

lemma well_kept_mono:
  "well_kept C okU okA n ks \<Longrightarrow> (\<And>d u. okU d u \<Longrightarrow> okU' d u) \<Longrightarrow> (\<And>d a. okA d a \<Longrightarrow> okA' d a) \<Longrightarrow>
   well_kept C okU' okA' n ks"
  unfolding well_kept_def by (blast intro: well_typed_mono)

lemma well_kept_empty [simp]: "well_kept C okU okA n (\<lambda>_. None)"
  by (simp add: well_kept_def expiring_def)

lemma well_kept_del: "well_kept C okU okA n ks \<Longrightarrow> well_kept C okU okA n (ks(k := None))"
  by (simp add: well_kept_def expiring_def well_typed_del)

lemma well_kept_upd:
  "well_kept C okU okA n ks \<Longrightarrow> entry_typed C okU okA k v \<Longrightarrow> k = WNS_TOKEN_KEY \<or> d \<le> n + DEFAULT_ENTRY_TIMEOUT \<Longrightarrow>
   well_kept C okU okA n (ks(k \<mapsto> (v, Some d)))"
  by (auto simp: well_kept_def expiring_def well_typed_upd)

lemma rows_simps [simp]: "rows [] = []" "rows ((a, d, s) # rs) = a # d # s # rows rs" "rows (rs @ rs') = rows rs @ rows rs'"
  by (simp_all add: rows_def)

lemma length_rows [simp]: "length (rows rs) = 3 * length rs"
  by (induction rs) auto

lemma rows_single: "length (rows rs) = 3 \<longleftrightarrow> (\<exists>r. rs = [r])"
  by (auto simp: length_Suc_conv)

section \<open>Kinds are disjoint\<close>

text \<open>A Redis server whose keys are hashed with a library that keeps the length of a hash.\<close>

locale typed_store = redis_server R view now + hashing C
  for R :: "'db redis_api" and view :: "'db \<Rightarrow> keyspace" and now :: "'db \<Rightarrow> int" and C :: "'e crypto_api"
begin

lemma account_length: "length (gen_account C d a) = 64"
  by (simp add: gen_account_def hash_length)

lemma kinds_disjoint [simp]:
  "\<not> node_key (gen_account C d a)" "gen_account C d a \<noteq> WNS_TOKEN_KEY" "WNS_TOKEN_KEY \<noteq> gen_account C d a"
  "\<not> node_key WNS_TOKEN_KEY" "\<not> device_key C (gen_account C d a)" "\<not> device_key C WNS_TOKEN_KEY"
  "node_key k \<Longrightarrow> k \<noteq> gen_account C d a" "node_key k \<Longrightarrow> \<not> device_key C k"
proof -
  show w: "gen_account C d a \<noteq> WNS_TOKEN_KEY" using account_length [of d a] by (auto simp: WNS_TOKEN_KEY_def)
  then show "WNS_TOKEN_KEY \<noteq> gen_account C d a" by metis
qed (use account_length in \<open>auto simp: node_key_def device_key_def WNS_TOKEN_KEY_def\<close>)

lemma typed_account: "entry_typed C okU okA (gen_account C d a) v \<Longrightarrow> \<exists>n. v = Rstr n \<and> node_key n"
  by (erule entry_typedE) (auto simp: device_key_def)

lemma typed_node:
  "node_key n \<Longrightarrow> entry_typed C okU okA n v \<Longrightarrow>
   \<exists>rs. v = Rlist (rows rs) \<and> rs \<noteq> [] \<and> (\<forall>(acc, dev, sec) \<in> set rs. device_key C dev \<and> okA dev acc)"
  by (erule entry_typedE) auto

lemma typed_device:
  "device_key C d \<Longrightarrow> entry_typed C okU okA d v \<Longrightarrow>
   \<exists>uri rest. v = Rlist (uri # rest) \<and> okU d uri \<and> (\<forall>h \<in> set (drop 1 rest). \<exists>acc. h = gen_account C d acc \<and> okA d acc)"
  by (erule entry_typedE) auto

lemma typed_token: "entry_typed C okU okA WNS_TOKEN_KEY v \<Longrightarrow> \<exists>tok ty e. v = Rlist [tok, ty, e]"
  by (erule entry_typedE) auto

section \<open>The operations keep the types\<close>

abbreviation typed :: "(string \<Rightarrow> string \<Rightarrow> bool) \<Rightarrow> (string \<Rightarrow> string \<Rightarrow> bool) \<Rightarrow> 'db \<Rightarrow> bool" where
  "typed okU okA db \<equiv> well_kept C okU okA (now db) (view db)"

lemma typed_no_string: "typed okU okA db \<Longrightarrow> (\<And>d a. k \<noteq> gen_account C d a) \<Longrightarrow> no_string (view db) k"
  unfolding no_string_def by (blast dest: well_kept_typed well_typedD elim: entry_typedE)

lemma typed_cell:
  assumes "typed okU okA db"
  obtains "view db k = None" | v t where "view db k = Some (v, t)" "entry_typed C okU okA k v"
  using assms by (cases "view db k") (auto simp: well_kept_def well_typed_def)

subsection \<open>Commands\<close>

lemma ensures_del [ensures_rules]: "ensures (typed okU okA) (r_del R k) any"
  by (rule ensuresI) (simp add: well_kept_del)

lemma ensures_get_account [ensures_rules]:
  "ensures (typed okU okA) (r_get R (gen_account C d a)) (\<lambda>r. \<forall>n. r = Some n \<longrightarrow> node_key n)"
proof (rule ensuresI)
  fix db assume t: "typed okU okA db"
  then show "ends (typed okU okA) (\<lambda>r. \<forall>n. r = Some n \<longrightarrow> node_key n) (r_get R (gen_account C d a) db)"
    by (cases rule: typed_cell [OF t, where k = "gen_account C d a"]) (auto simp: get dest!: typed_account)
qed

lemma typed_node_list:
  assumes "typed okU okA db" "node_key n"
  obtains rs where "list_at (view db) n = rows rs" "\<forall>(acc, dev, sec) \<in> set rs. device_key C dev \<and> okA dev acc"
  using assms(1)
proof (cases rule: typed_cell [where k = n])
  case 1
  then show ?thesis by (intro that [of "[]"]) (simp_all add: list_at_def)
next
  case (2 v t)
  with typed_node [OF assms(2) 2(2)] that show ?thesis by (auto simp: list_at_def)
qed

text \<open>A device list replaced as a whole.\<close>

lemma ensures_replace_device:
  assumes "device_key C d" "okU d uri" "\<forall>h \<in> set (drop 1 rest). \<exists>acc. h = gen_account C d acc \<and> okA d acc"
  shows "ensures (typed okU okA) (thenE (r_del R d) (thenE (r_rpush R d (uri # rest)) (r_expire R d DEFAULT_ENTRY_TIMEOUT))) any"
  by (rule ensuresI)
    (use assms in \<open>simp add: well_kept_upd well_kept_del device_entry DEFAULT_ENTRY_TIMEOUT_def\<close>)

subsection \<open>Reading lists\<close>

lemma ensures_lrange:
  assumes "\<And>d a. k \<noteq> gen_account C d a" "\<And>db. typed okU okA db \<Longrightarrow> Q (list_at (view db) k)"
  shows "ensures (typed okU okA) (r_lrange R k 0 (- 1)) Q"
  by (rule ensuresI) (simp add: lrange_run typed_no_string assms)

lemma ensures_lrange_device:
  assumes "device_key C d"
  shows "ensures (typed okU okA) (r_lrange R d 0 (- 1)) (\<lambda>keys. (\<forall>h \<in> set (drop 2 keys). \<exists>acc. h = gen_account C d acc \<and> okA d acc)
    \<and> (\<forall>uri rest. keys = uri # rest \<longrightarrow> okU d uri))"
proof (rule ensures_lrange)
  show "d \<noteq> gen_account C d' a" for d' a using assms by (simp add: device_key_def)
  fix db assume t: "typed okU okA db"
  then show "(\<forall>h \<in> set (drop 2 (list_at (view db) d)). \<exists>acc. h = gen_account C d acc \<and> okA d acc)
    \<and> (\<forall>uri rest. list_at (view db) d = uri # rest \<longrightarrow> okU d uri)"
    by (cases rule: typed_cell [OF t, where k = d]) (auto simp: list_at_def numeral_2_eq_2 dest!: typed_device [OF assms])
qed

lemma ensures_lrange_node:
  assumes "node_key n"
  shows "ensures (typed okU okA) (r_lrange R n 0 (- 1)) (\<lambda>keys. length keys = 3 \<longrightarrow> device_key C (keys ! 1) \<and> okA (keys ! 1) (keys ! 0))"
proof (rule ensures_lrange)
  show "n \<noteq> gen_account C d a" for d a using assms by simp
  fix db assume "typed okU okA db"
  then obtain rs where "list_at (view db) n = rows rs" "\<forall>(acc, dev, sec) \<in> set rs. device_key C dev \<and> okA dev acc"
    using assms by (rule typed_node_list)
  then show "length (list_at (view db) n) = 3 \<longrightarrow> device_key C (list_at (view db) n ! 1) \<and> okA (list_at (view db) n ! 1) (list_at (view db) n ! 0)"
    by (auto simp: rows_single simp del: length_rows)
qed

lemma ensures_lrange_token: "ensures (typed okU okA) (r_lrange R WNS_TOKEN_KEY 0 (- 1)) any"
  by (rule ensures_lrange) auto

subsection \<open>Queries\<close>

lemma ensures_channel_uri [ensures_rules]:
  "device_key C d \<Longrightarrow> ensures (typed okU okA) (get_channel_uri R d) (\<lambda>r. \<forall>uri. r = Some uri \<longrightarrow> okU d uri)"
  unfolding get_channel_uri_def
  by (rule ensures_bindE, rule ensures_lrange_device) (auto simp: ensures_def split: list.split)

lemma ensures_version [ensures_rules]: "device_key C d \<Longrightarrow> ensures (typed okU okA) (get_version R d) any"
  unfolding get_version_def by (rule ensures_bindE, rule ensures_lrange_device) (auto intro!: ensures_rules)

lemma ensures_account_id [ensures_rules]: "node_key n \<Longrightarrow> ensures (typed okU okA) (get_account_id R n) any"
  unfolding get_account_id_def by (rule ensures_bindE, rule ensures_lrange_node) (auto intro!: ensures_rules)

lemma ensures_device_id [ensures_rules]:
  "node_key n \<Longrightarrow> ensures (typed okU okA) (get_device_id R n) (\<lambda>r. \<forall>d. r = Some d \<longrightarrow> device_key C d)"
  unfolding get_device_id_def by (rule ensures_bindE, rule ensures_lrange_node) (auto intro!: ensures_rules)

lemma ensures_node_secret [ensures_rules]: "node_key n \<Longrightarrow> ensures (typed okU okA) (get_node_secret R n) any"
  unfolding get_node_secret_def by (rule ensures_bindE, rule ensures_lrange_node) (auto intro!: ensures_rules)

lemma ensures_push_nodes_loop:
  "\<forall>h \<in> set ks. \<exists>acc. h = gen_account C d acc \<Longrightarrow> ensures (typed okU okA) (push_nodes_loop asserts R ks) any"
proof (induction ks)
  case Nil
  show ?case unfolding push_nodes_loop.simps by (rule ensures_ret) simp
next
  case (Cons k ks)
  then obtain acc where k: "k = gen_account C d acc" by auto
  have "deref n \<noteq> Inl Redis_error" for n :: "string option" by (cases n) (simp_all add: deref_def)
  then show ?case
    unfolding push_nodes_loop.simps k using Cons by - (rule ensures_rules | simp)+
qed

lemma ensures_push_nodes [ensures_rules]:
  "device_key C d \<Longrightarrow> ensures (typed okU okA) (get_push_nodes asserts R d) any"
  unfolding get_push_nodes_def
  by (rule ensures_bindE, rule ensures_lrange_device, assumption) (rule ensures_push_nodes_loop, blast)

lemma ensures_wns_token [ensures_rules]:
  "ensures (typed okU okA) (get_wns_token R) any" "ensures (typed okU okA) (get_wns_token_type R) any"
  "ensures (typed okU okA) (get_wns_token_expire_date R) any"
  unfolding get_wns_token_def get_wns_token_type_def get_wns_token_expire_date_def
  by (rule ensures_lrange_token ensures_rules TrueI)+

subsection \<open>Updates\<close>

lemma ensures_remove_account [ensures_rules]:
  "ensures (typed okU okA) (remove_account R (gen_account C d a)) any"
  unfolding remove_account_def by (rule ensures_rules | simp)+

lemma ensures_store_account [ensures_rules]:
  assumes n: "node_key (node a)" and d: "device_key C d" "okA d (accountId a)"
  shows "ensures (typed okU okA) (store_account R C d a) any"
proof (rule ensuresI)
  fix db assume t: "typed okU okA db"
  let ?t = "now db + DEFAULT_ENTRY_TIMEOUT" and ?l = "list_at (view db) (node a) @ [accountId a, d, secret a]"
  from t n obtain rs where rs: "list_at (view db) (node a) = rows rs"
    "\<forall>(acc, dev, sec) \<in> set rs. device_key C dev \<and> okA dev acc" by (rule typed_node_list)
  have "entry_typed C okU okA (node a) (Rlist (rows (rs @ [(accountId a, d, secret a)])))"
    by (rule node_entry [OF n]) (use d rs(2) in auto)
  then have l: "entry_typed C okU okA (node a) (Rlist ?l)" by (simp add: rs(1))
  have "entry_typed C okU okA (gen_account C d (accountId a)) (Rstr (node a))" using n d(2) by (rule account_entry)
  from well_kept_upd [OF well_kept_upd [OF t this] l]
  have "well_kept C okU okA (now db) (ks_account ?t (gen_account C d) d a (view db))" by (simp add: ks_account_def)
  moreover have "gen_account C d (accountId a) \<noteq> node a" using kinds_disjoint(7) [OF n] by metis
  moreover have "no_string (view db) (node a)" using n by (intro typed_no_string [OF t]) simp
  ultimately show "ends (typed okU okA) any (store_account R C d a db)" using store_account_run by fastforce
qed

lemma ensures_set_push_accounts [ensures_rules]:
  assumes "device_key C d" "okU d uri" "\<forall>a \<in> set accs. node_key (node a) \<and> okA d (accountId a)"
  shows "ensures (typed okU okA) (redis_set_push_accounts R C d uri ver accs) any"
proof -
  let ?I = "typed okU okA"
  have old: "ensures ?I (if keys = [] then ret () else thenE (forE (drop 2 keys) (remove_account R)) (r_del R d)) any"
    if old: "\<forall>h \<in> set (drop 2 keys). \<exists>acc. h = gen_account C d acc \<and> okA d acc" for keys
  proof -
    have "ensures ?I (remove_account R h) any" if "h \<in> set (drop 2 keys)" for h
      using that old ensures_remove_account by fastforce
    then show ?thesis by (intro ensures_rules ensures_forE TrueI)
  qed
  have new: "ensures ?I (forE accs (store_account R C d)) any"
    using assms by (intro ensures_forE ensures_rules) auto
  have list: "\<forall>h \<in> set (drop 1 (ver # map (\<lambda>a. gen_account C d (accountId a)) accs)). \<exists>acc. h = gen_account C d acc \<and> okA d acc"
    using assms(3) by auto
  have replace: "ensures ?I (thenE (r_del R d) (thenE (r_rpush R d (uri # ver # map (\<lambda>a. gen_account C d (accountId a)) accs))
      (r_expire R d DEFAULT_ENTRY_TIMEOUT))) any"
    by (rule ensures_replace_device, rule assms, rule assms, rule list)
  show ?thesis
    unfolding redis_set_push_accounts_def
    by (rule ensures_bindE, rule ensures_lrange_device [OF assms(1)]) (intro ensures_thenE old new replace; simp)
qed

lemma ensures_set_channel_uri [ensures_rules]:
  assumes d: "device_key C d" and u: "okU d uri"
  shows "ensures (typed okU okA) (redis_set_channel_uri R d uri) any"
proof (rule ensuresI)
  fix db assume t: "typed okU okA db"
  have "no_string (view db) d" using d by (intro typed_no_string [OF t]) (simp add: device_key_def)
  from set_channel_uri_run [OF this, of uri] obtain db' where run: "redis_set_channel_uri R d uri db = (Inr (), db')"
    "view db' = (view db)(d \<mapsto> (Rlist (uri # drop 1 (list_at (view db) d)), Some (now db + DEFAULT_ENTRY_TIMEOUT)))"
    "now db' = now db" by blast
  have "\<forall>h \<in> set (drop 1 (drop 1 (list_at (view db) d))). \<exists>acc. h = gen_account C d acc \<and> okA d acc"
    by (cases rule: typed_cell [OF t, where k = d]) (auto simp: list_at_def dest!: typed_device [OF d])
  with d u have "entry_typed C okU okA d (Rlist (uri # drop 1 (list_at (view db) d)))" by (rule device_entry)
  from well_kept_upd [OF t this, of "now db + DEFAULT_ENTRY_TIMEOUT"] show "ends (typed okU okA) any (redis_set_channel_uri R d uri db)" by (simp add: run)
qed

lemma ensures_set_wns_token [ensures_rules]: "ensures (typed okU okA) (set_wns_token R tok ty e) any"
proof (rule ensuresI)
  fix db assume t: "typed okU okA db"
  from set_wns_token_run [of tok ty e db] obtain db' where "set_wns_token R tok ty e db = (Inr (), db')"
    "now db' = now db" "view db' = (if to_time_t e \<le> now db then (view db)(WNS_TOKEN_KEY := None)
        else (view db)(WNS_TOKEN_KEY \<mapsto> (Rlist [tok, ty, to_string (to_time_t e)], Some (to_time_t e))))" by blast
  with t show "ends (typed okU okA) any (set_wns_token R tok ty e db)"
    by (simp add: well_kept_del well_kept_upd token_entry)
qed

lemma ensures_load_push_account [ensures_rules]:
  assumes "node_key (node a)" "okA d (accountId a)"
  shows "ensures (typed okU okA) (load_push_account R C d a) (\<lambda>a'. node_key (node a') \<and> okA d (accountId a'))"
  unfolding load_push_account_def using assms by - (rule ensures_rules | simp)+

end

text \<open>Time that passes on the server only removes entries.\<close>

lemma kept_elapse:
  assumes "redis_clock R view now elapse" "well_kept C okU okA (now db) (view db)"
  shows "well_kept C okU okA (now (elapse n db)) (view (elapse n db))"
proof -
  have "view db k = Some (v, t)" if "view (elapse n db) k = Some (v, t)" for k v t
    using that redis_clock.elapse_view [OF assms(1), of n db k] by (auto split: option.splits if_splits)
  with assms(2) show ?thesis
    unfolding well_kept_def well_typed_def expiring_def redis_clock.elapse_now [OF assms(1)] by fastforce
qed

text \<open>A time-out without writes empties the database but for the token.\<close>

lemma expired_elapse:
  assumes "redis_clock R view now elapse" "expiring (now db) (view db)" "DEFAULT_ENTRY_TIMEOUT \<le> int n" "k \<noteq> WNS_TOKEN_KEY"
  shows "view (elapse n db) k = None"
proof (cases "view db k")
  case None
  then show ?thesis by (simp add: redis_clock.elapse_view [OF assms(1)])
next
  case (Some e)
  obtain v t where e: "e = (v, t)" by fastforce
  with Some assms(2,4) obtain d where "t = Some d" "d \<le> now db + DEFAULT_ENTRY_TIMEOUT" unfolding expiring_def by blast
  with Some e assms(3) show ?thesis by (simp add: redis_clock.elapse_view [OF assms(1)])
qed

section \<open>The platform\<close>

sublocale platform_lib \<subseteq> store: typed_store "p_redis P" view now "p_crypto P"
  by unfold_locales

interpretation rt: typed_store ref_redis rd_keys rd_now ref_crypto
  by unfold_locales

end
