(* ===== verification/Server_Runs.thy ===== *)
theory Server_Runs
  imports Key_Typing End_To_End
begin

text \<open>
  Runs of the server: a sequence of inputs, each handled to its end, with time and restarts in between. The
  invariant of all runs is that the database is typed by what the clients have sent so far, and that
  notifications have gone only to channels the clients have registered.
\<close>

section \<open>Errors of the JSON library\<close>

text \<open>The library throws exceptions of its own only.\<close>

locale json_throws =
  fixes J :: "'j json_api"
  assumes parse_error: "j_parse J s \<noteq> Inl Redis_error"
    and dump_error: "j_dump J j \<noteq> Inl Redis_error"
    and set_error: "j_set J k v j \<noteq> Inl Redis_error"
    and at_error: "j_at J k j \<noteq> Inl Redis_error"
    and string_error: "j_get_string J j \<noteq> Inl Redis_error"
    and size_error: "j_get_size_t J j \<noteq> Inl Redis_error"
begin

lemmas json_errors = parse_error dump_error set_error at_error string_error size_error

lemma assertR_error: "assertR asserts b \<noteq> Inl Redis_error"
  by (simp add: assertR_def)

lemma message_errors:
  "AbstractMessage_to_json asserts J m j \<noteq> Inl Redis_error"
  "AbstractResponseMessage_to_json asserts J r j \<noteq> Inl Redis_error"
  "ErrorResponseMessage_to_json asserts J e j \<noteq> Inl Redis_error"
  "PushMessage_to_json asserts J p j \<noteq> Inl Redis_error"
  by (simp_all add: AbstractMessage_to_json_def AbstractResponseMessage_to_json_def ErrorResponseMessage_to_json_def
      PushMessage_to_json_def bindR_eq_Inl json_errors assertR_error)

lemma accounts_errors:
  "PushAccount_to_json J a j \<noteq> Inl Redis_error" "push_accounts_json J accs \<noteq> Inl Redis_error"
  "SuccessSetPushAccountsMessage_to_json asserts J m j \<noteq> Inl Redis_error"
proof -
  show a: "PushAccount_to_json J a j \<noteq> Inl Redis_error" for a j
    by (simp add: PushAccount_to_json_def bindR_eq_Inl json_errors)
  have "push_accounts_json J accs \<noteq> Inl Redis_error" for accs
    by (induction accs) (simp_all add: bindR_eq_Inl a)
  then show "push_accounts_json J accs \<noteq> Inl Redis_error" "SuccessSetPushAccountsMessage_to_json asserts J m j \<noteq> Inl Redis_error"
    by (simp_all add: SuccessSetPushAccountsMessage_to_json_def bindR_eq_Inl message_errors json_errors)
qed

end

lemma rj_errors: "rj_at k j \<noteq> Inl Redis_error" "rj_set k v j \<noteq> Inl Redis_error" "rj_string j \<noteq> Inl Redis_error" "rj_w64 j \<noteq> Inl Redis_error"
  by (cases j; simp split: option.split)+

interpretation ref_throws: json_throws ref_json
  by unfold_locales (simp_all add: ref_json_def rj_errors parse_text_def split: option.split prod.split list.split)

text \<open>A request goes to the token service or to a channel that some device may use.\<close>

fun post_allowed :: "(string \<Rightarrow> string \<Rightarrow> bool) \<Rightarrow> http_request \<Rightarrow> bool" where
  "post_allowed okU (Post_payload url form) \<longleftrightarrow> url = TOKEN_URL"
| "post_allowed okU (Post_body url headers body) \<longleftrightarrow> (\<exists>dev. okU dev url)"

text \<open>A stanza whose event is one of a node the server made.\<close>

definition node_event :: "('st, 'e) strophe_api \<Rightarrow> 'st \<Rightarrow> bool" where
  "node_event S stanza \<longleftrightarrow> (\<forall>items nd. get_items_node S stanza = Inr (Some items)
     \<longrightarrow> st_attribute S ''node'' items = Some nd \<longrightarrow> node_key nd)"

section \<open>Inputs\<close>

text \<open>
  What the server reacts to: a text from a client, a stanza or a connection event from the XMPP server, a
  round of the token check, the start of its thread; and what happens around it: time passes and the
  outside world changes, or the process is restarted with new clients for WNS and XMPP.
\<close>

datatype ('e, 'st) input =
    Client session_id string
  | Event 'st
  | Connection xmpp_conn_event
  | Token_check
  | Load_token
  | Elapse nat 'e
  | Restart wns_client xmpp_client

fun handle :: "('j, 'db, 'e, 'st) platform \<Rightarrow> (nat \<Rightarrow> 'db \<Rightarrow> 'db) \<Rightarrow> ('e, 'st) input \<Rightarrow>
    ('db, 'e, 'st, 'z) xmpp_world_scheme \<Rightarrow> ('db, 'e, 'st, 'z) xmpp_world_scheme" where
  "handle P elapse (Client sn s) w = snd (on_message_received P sn s w)"
| "handle P elapse (Event stanza) w = snd (on_xmpp_message P stanza w)"
| "handle P elapse (Connection ev) w = snd (conn_handler P ev w)"
| "handle P elapse Token_check w = snd (check_setup_wns P w)"
| "handle P elapse Load_token w = snd (load_token_from_db P w)"
| "handle P elapse (Elapse n e) w = w\<lparr>w_db := elapse n (w_db w), w_env := e\<rparr>"
| "handle P elapse (Restart c x) w = w\<lparr>w_wns := c, w_xmpp := x\<rparr>"

definition server_run :: "('j, 'db, 'e, 'st) platform \<Rightarrow> (nat \<Rightarrow> 'db \<Rightarrow> 'db) \<Rightarrow>
    ('db, 'e, 'st, 'z) xmpp_world_scheme \<Rightarrow> ('e, 'st) input list \<Rightarrow> ('db, 'e, 'st, 'z) xmpp_world_scheme" where
  "server_run P elapse w is = foldl (\<lambda>w i. handle P elapse i w) w is"

text \<open>The device a message names, and what it registers.\<close>

fun message_device :: "any_message \<Rightarrow> string option" where
  "message_device (Msg_SetChannelUri m) = Some (uri_deviceId m)"
| "message_device (Msg_SetPushAccounts m) = Some (acc_deviceId m)"
| "message_device (Msg_RequestTestPush m) = Some (test_deviceId m)"
| "message_device m = None"

fun message_channel :: "('j, 'db, 'e, 'st) platform \<Rightarrow> any_message \<Rightarrow> (string \<times> string) set" where
  "message_channel P (Msg_SetChannelUri m) =
     (if is_valid_channel_uri (p_match P) (uri_channelUri m) then {(uri_deviceId m, uri_channelUri m)} else {})"
| "message_channel P m = {}"

fun message_accounts :: "any_message \<Rightarrow> (string \<times> string) set" where
  "message_accounts (Msg_SetPushAccounts m) = {acc_deviceId m} \<times> set (acc_accounts m)"
| "message_accounts m = {}"

text \<open>The valid message in an input, if there is one.\<close>

definition message_of :: "('j, 'db, 'e, 'st) platform \<Rightarrow> ('e, 'st) input \<Rightarrow> any_message option" where
  "message_of P i = (case i of
     Client sn s \<Rightarrow> (case parse (p_asserts P) (p_json P) s of Inr (Some m) \<Rightarrow> if msg_is_valid m then Some m else None | _ \<Rightarrow> None)
   | _ \<Rightarrow> None)"

definition channels_of :: "('j, 'db, 'e, 'st) platform \<Rightarrow> ('e, 'st) input \<Rightarrow> (string \<times> string) set" where
  "channels_of P i = (case message_of P i of None \<Rightarrow> {} | Some m \<Rightarrow> message_channel P m)"

definition accounts_of :: "('j, 'db, 'e, 'st) platform \<Rightarrow> ('e, 'st) input \<Rightarrow> (string \<times> string) set" where
  "accounts_of P i = (case message_of P i of None \<Rightarrow> {} | Some m \<Rightarrow> message_accounts m)"

text \<open>
  Inputs that respect the kinds of keys: a client that names a device uses a key of its own, and the events
  are for nodes.
\<close>

definition input_allowed :: "('j, 'db, 'e, 'st) platform \<Rightarrow> ('e, 'st) input \<Rightarrow> bool" where
  "input_allowed P i \<longleftrightarrow> (case i of
     Event stanza \<Rightarrow> node_event (p_strophe P) stanza
   | _ \<Rightarrow> (\<forall>m d. message_of P i = Some m \<longrightarrow> message_device m = Some d \<longrightarrow> device_key (p_crypto P) d))"

definition registered_channel :: "('j, 'db, 'e, 'st) platform \<Rightarrow> ('e, 'st) input list \<Rightarrow> string \<Rightarrow> string \<Rightarrow> bool" where
  "registered_channel P is dev uri \<longleftrightarrow> (dev, uri) \<in> (\<Union>i \<in> set is. channels_of P i)"

definition registered_account :: "('j, 'db, 'e, 'st) platform \<Rightarrow> ('e, 'st) input list \<Rightarrow> string \<Rightarrow> string \<Rightarrow> bool" where
  "registered_account P is dev acc \<longleftrightarrow> (dev, acc) \<in> (\<Union>i \<in> set is. accounts_of P i)"

section \<open>The handlers\<close>

locale server_platform = platform_lib P view now + json_throws "p_json P"
  for P :: "('j, 'db, 'e, 'st) platform" and view :: "'db \<Rightarrow> keyspace" and now :: "'db \<Rightarrow> int"
begin

abbreviation sound :: "(string \<Rightarrow> string \<Rightarrow> bool) \<Rightarrow> (string \<Rightarrow> string \<Rightarrow> bool) \<Rightarrow> ('db, 'e, 'st, 'z) world_scheme \<Rightarrow> bool" where
  "sound okU okA \<equiv> store_and_posts (\<lambda>db. well_kept (p_crypto P) okU okA (now db) (view db)) (post_allowed okU)"

lemma deref_error [simp]: "deref x \<noteq> Inl Redis_error"
  by (simp add: deref_def split: option.split)

subsection \<open>The WNS client\<close>

lemma ensures_set_token [ensures_rules]: "ensures (sound okU okA) (set_token t) any"
  unfolding set_token_def by (rule ensures_modE) (simp add: store_and_posts_def)

lemma ensures_set_redis [ensures_rules]: "ensures (sound okU okA) set_redis_client any"
  unfolding set_redis_client_def by (rule ensures_modE) (simp add: store_and_posts_def)

lemma ensures_need_redis [ensures_rules]: "ensures (sound okU okA) (need_redis P) any"
  unfolding need_redis_def by (rule ensures_ret_any ensures_rules | simp)+

lemma ensures_post [ensures_rules]: "post_allowed okU q \<Longrightarrow> ensures (sound okU okA) (post P q) any"
  unfolding post_def by (rule ensures_ret_any ensures_rules | assumption | simp)+

lemma ensures_token_valid [ensures_rules]: "ensures (sound okU okA) (is_token_valid P) any"
  unfolding is_token_valid_def token_is_valid_def by (rule ensures_ret_any ensures_rules | simp)+

lemma ensures_token_response [ensures_rules]: "ensures (sound okU okA) (token_from_response P s) any"
  unfolding token_from_response_def get_expires_date_def
  by (rule ensures_ret_any ensures_rules | simp add: at_string_def bindR_eq_Inl json_errors)+

lemma ensures_store_token [ensures_rules]: "ensures (sound okU okA) (store_token_in_db P) any"
  unfolding store_token_in_db_def by (rule ensures_ret_any ensures_rules | simp)+

lemma ensures_load_token [ensures_rules]: "ensures (sound okU okA) (load_token_from_db P) any"
  unfolding load_token_from_db_def by (rule ensures_ret_any ensures_rules | simp)+

lemma ensures_request_token [ensures_rules]: "ensures (sound okU okA) (request_new_token P) any"
proof -
  have t: "ensures (sound okU okA) (getE (\<lambda>w. token_request (w_wns w))) (post_allowed okU)"
    by (simp add: ensures_def token_request_def)
  show ?thesis
    unfolding request_new_token_def by (rule ensures_bindE [OF t]) (rule ensures_ret_any ensures_rules | assumption | simp)+
qed

lemma ensures_check_setup_wns [ensures_rules]: "ensures (sound okU okA) (check_setup_wns P) any"
  unfolding check_setup_wns_def by (rule ensures_ret_any ensures_rules | simp)+

lemma ensures_response_code [ensures_rules]: "ensures (sound okU okA) (handle_response_code P code) any"
  unfolding handle_response_code_def by (rule ensures_ret_any ensures_rules | simp)+

lemma ensures_attempts: "post_allowed okU q \<Longrightarrow> ensures (sound okU okA) (send_attempts P q n) any"
proof (induction n)
  case 0
  show ?case unfolding send_attempts.simps by (rule ensures_ret) simp
next
  case (Suc n)
  then show ?case unfolding send_attempts.simps by - (rule ensures_ret_any ensures_rules | assumption | simp)+
qed

lemma ensures_notification [ensures_rules]:
  "okU dev uri \<Longrightarrow> ensures (sound okU okA) (send_raw_notification P uri content) any"
  unfolding send_raw_notification_def
  by (rule ensures_ret_any ensures_rules ensures_attempts | auto simp: notification_request_def)+

subsection \<open>The XMPP client\<close>

lemma ensures_need_ptr [ensures_rules]: "ensures (sound okU okA) (need_conn P) any" "ensures (sound okU okA) (need_ctx P) any"
  unfolding need_conn_def need_ctx_def by (rule ensures_ret_any ensures_rules | simp)+

lemma ensures_xmpp_send [ensures_rules]: "ensures (sound okU okA) (xmpp_send P st) any"
  unfolding xmpp_send_def by (rule ensures_rules)+

lemma ensures_pep_iq [ensures_rules]: "ensures (sound okU okA) (pep_iq P i st) any"
  unfolding pep_iq_def bound_jid_def by (rule ensures_ret_any ensures_rules)+

lemma ensures_pep_requests [ensures_rules]:
  "ensures (sound okU okA) (xmpp_pep_publish_empty_new P nd i) any" "ensures (sound okU okA) (xmpp_pep_subscribe_new P nd i) any"
  "ensures (sound okU okA) (xmpp_pep_unsubscribe_new P nd i) any" "ensures (sound okU okA) (xmpp_pep_delete_new P nd i) any"
  unfolding xmpp_pep_publish_empty_new_def xmpp_pep_subscribe_new_def xmpp_pep_unsubscribe_new_def xmpp_pep_delete_new_def Let_def
  by (rule ensures_rules)+

lemma ensures_push_node [ensures_rules]:
  "ensures (sound okU okA) (setup_push_node P nd) any" "ensures (sound okU okA) (delete_push_node P nd) any"
  unfolding setup_push_node_def delete_push_node_def is_connected_def by (rule ensures_ret_any ensures_rules | simp)+

lemma ensures_conn_handler [ensures_rules]: "ensures (sound okU okA) (conn_handler P ev) any"
  unfolding conn_handler_def send_presence_online_def bound_jid_def by (rule ensures_ret_any ensures_rules)+

lemma stanza_errors:
  "get_items_node S st \<noteq> Inl Redis_error" "get_notification_node S st \<noteq> Inl Redis_error" "summary_of S st \<noteq> Inl Redis_error"
  using read_summary_error [of S _ 0 0 Redis_error]
  by (auto simp: get_items_node_def get_notification_node_def summary_of_def bindR_eq_Inl split: option.split)

lemma ensures_v1_message [ensures_rules]: "node_key nd \<Longrightarrow> ensures (sound okU okA) (on_v1_message_for_node P nd msg) any"
  unfolding on_v1_message_for_node_def by (rule ensures_ret_any ensures_rules | assumption | simp)+

lemma ensures_v2_message [ensures_rules]: "node_key nd \<Longrightarrow> ensures (sound okU okA) (on_v2_message_for_node P nd acc mc psc) any"
  unfolding on_v2_message_for_node_def
  by (rule ensures_ret_any ensures_rules | assumption | simp add: bindR_eq_Inl message_errors json_errors)+

lemma ensures_v1_push [ensures_rules]:
  "node_key nd \<Longrightarrow> ensures (sound okU okA) (send_v1_push P (on_v1_message_for_node P) acc nd st) any"
  unfolding send_v1_push_def Let_def by (rule ensures_ret_any ensures_rules | assumption)+

lemma ensures_v2_push [ensures_rules]:
  "node_key nd \<Longrightarrow> ensures (sound okU okA) (send_v2_push P (on_v2_message_for_node P) acc nd st) any"
  unfolding send_v2_push_def by (rule ensures_ret_any ensures_rules | assumption | simp add: stanza_errors)+

lemma ensures_version_of [ensures_rules]:
  assumes "\<forall>d. dev = Some d \<longrightarrow> device_key (p_crypto P) d"
  shows "ensures (sound okU okA) (case dev of None \<Rightarrow> ret None | Some d \<Rightarrow> on_db (get_version (p_redis P) d)) any"
  using assms by - (rule ensures_ret_any ensures_rules | simp)+

lemma ensures_xmpp_message:
  assumes "node_event (p_strophe P) stanza"
  shows "ensures (sound okU okA) (on_xmpp_message P stanza) any"
proof -
  let ?S = "p_strophe P"
  have items: "ensures (sound okU okA) (liftR (get_items_node ?S stanza))
      (\<lambda>r. \<forall>items nd. r = Some items \<longrightarrow> st_attribute ?S ''node'' items = Some nd \<longrightarrow> node_key nd)"
    using assms by (intro ensures_liftR_value) (auto simp: stanza_errors node_event_def)
  have nd: "ensures (sound okU okA) (liftR (deref (st_attribute ?S ''node'' items))) node_key"
    if "\<forall>nd. st_attribute ?S ''node'' items = Some nd \<longrightarrow> node_key nd" for items
    using that by (intro ensures_liftR_value) (auto simp: deref_def split: option.splits)
  have node: "ensures (sound okU okA) (bindE (on_db (get_account_id (p_redis P) n)) (\<lambda>acc. case acc of
         None \<Rightarrow> ret ()
       | Some acc \<Rightarrow>
           bindE (on_db (get_device_id (p_redis P) n)) (\<lambda>dev.
           bindE (case dev of None \<Rightarrow> ret None | Some d \<Rightarrow> on_db (get_version (p_redis P) d)) (\<lambda>ver.
           if ver = Some ''2'' then send_v2_push P (on_v2_message_for_node P) acc n notificationNode
           else send_v1_push P (on_v1_message_for_node P) acc n notificationNode)))) any"
    if "node_key n" for n notificationNode
    using that by - (rule ensures_ret_any ensures_version_of ensures_rules | assumption)+
  show ?thesis
    unfolding on_xmpp_message_def message_handler_def Let_def
    by (rule ensures_ret_any ensures_bindE [OF items] ensures_bindE [OF nd] node ensures_rules | simp add: stanza_errors)+
qed

subsection \<open>Messages of the clients\<close>

lemma ensures_respond [ensures_rules]:
  "ensures (sound okU okA) (respond_with_success P sn) any" "ensures (sound okU okA) (respond_with_error P sn e) any"
  unfolding respond_with_success_def respond_with_error_def session_send_def session_send_text_def
  by (rule ensures_rules | simp add: message_errors json_errors)+

lemma ensures_test_push [ensures_rules]:
  "device_key (p_crypto P) dev \<Longrightarrow> ensures (sound okU okA) (send_test_push P sn dev) any"
  unfolding send_test_push_def test_push_text_def
  by (rule ensures_ret_any ensures_rules | assumption | simp add: bindR_eq_Inl message_errors json_errors)+

lemma ensures_uri_message [ensures_rules]:
  assumes "device_key (p_crypto P) dev" "is_valid_channel_uri (p_match P) uri \<Longrightarrow> okU dev uri"
  shows "ensures (sound okU okA) (set_channel_uri P sn dev uri) any"
  unfolding set_channel_uri_def using assms by - (rule ensures_rules | simp)+

text \<open>The accounts of a registration: nodes of the right kind, and accounts the device has named.\<close>

abbreviation good_accounts :: "(string \<Rightarrow> string \<Rightarrow> bool) \<Rightarrow> string \<Rightarrow> push_account list \<Rightarrow> bool" where
  "good_accounts okA dev accs \<equiv> \<forall>a \<in> set accs. node_key (node a) \<and> okA dev (accountId a)"

lemma ensures_create [ensures_rules]:
  "ensures (sound okU okA) (on_env (PushAccount_create asserts (p_crypto P) acc)) (\<lambda>a. node_key (node a) \<and> accountId a = acc)"
proof (rule ensuresI)
  fix w :: "('db, 'e, 'st, 'z) world_scheme" assume "sound okU okA w"
  moreover obtain a e where "PushAccount_create asserts (p_crypto P) acc (w_env w) = (Inr a, e)" "fresh_account acc a"
    using create_run [OF crypto_lib_axioms, of asserts acc "w_env w"] by blast
  ultimately show "ends (sound okU okA) (\<lambda>a. node_key (node a) \<and> accountId a = acc) (on_env (PushAccount_create asserts (p_crypto P) acc) w)"
    by (simp add: fresh_account_def node_key_def)
qed

lemma ensures_add_account:
  assumes "okA dev acc" "good_accounts okA dev (as_accounts st)"
  shows "ensures (sound okU okA) (add_account P dev acc st) (\<lambda>st. good_accounts okA dev (as_accounts st))"
  unfolding add_account_def Let_def using assms
  by - (rule ensures_rules | simp; fail | elim conjE)+

lemma ensures_add_accounts:
  assumes "\<forall>acc \<in> set accs. okA dev acc" "good_accounts okA dev (as_accounts st)"
  shows "ensures (sound okU okA) (add_accounts P dev accs st) (\<lambda>st. good_accounts okA dev (as_accounts st))"
  using assms
proof (induction accs arbitrary: st)
  case Nil
  then show ?case unfolding add_accounts.simps by (intro ensures_ret)
next
  case (Cons acc accs)
  then show ?case unfolding add_accounts.simps
    by (intro ensures_bindE [OF ensures_add_account]) simp_all
qed

lemma good_accounts_flag:
  assumes "good_accounts okA dev accs"
  shows "good_accounts okA dev (accs[i := (accs ! i)\<lparr>success := b\<rparr>])"
proof (cases "i < length accs")
  case True
  with assms show ?thesis using set_update_subset_insert [of accs i] by fastforce
next
  case False
  then have "accs[i := (accs ! i)\<lparr>success := b\<rparr>] = accs" by (simp add: list_update_beyond)
  with assms show ?thesis by simp
qed

lemma ensures_setup_nodes:
  "good_accounts okA dev accs \<Longrightarrow> ensures (sound okU okA) (setup_nodes P m accs) (good_accounts okA dev)"
proof (induction m arbitrary: accs)
  case Nil
  then show ?case unfolding setup_nodes.simps by (intro ensures_ret)
next
  case (Cons p m)
  obtain nd i where p: "p = (nd, i)" by fastforce
  show ?case unfolding p setup_nodes.simps
    by (rule ensures_bindE, rule ensures_push_node) (rule Cons.IH, rule good_accounts_flag, rule Cons.prems)
qed

lemma ensures_accounts_message [ensures_rules]:
  assumes "device_key (p_crypto P) dev" "\<forall>acc \<in> set accs. okA dev acc"
  shows "ensures (sound okU okA) (set_push_accounts P sn dev ver accs) any"
proof -
  have add: "ensures (sound okU okA) (add_accounts P dev accs \<lparr>as_delete = del, as_add = [], as_accounts = []\<rparr>)
      (\<lambda>st. good_accounts okA dev (as_accounts st))" for del
    using assms(2) by (intro ensures_add_accounts) simp_all
  show ?thesis
    unfolding set_push_accounts_def session_send_def session_send_text_def using assms(1)
    by - (rule ensures_bindE [OF add] ensures_bindE [OF ensures_setup_nodes] ensures_forE ensures_rules | assumption
      | simp add: accounts_errors json_errors; fail)+
qed

lemma ensures_dispatch:
  assumes "\<forall>d. message_device m = Some d \<longrightarrow> device_key (p_crypto P) d"
    and "\<forall>(d, u) \<in> message_channel P m. okU d u" "\<forall>(d, a) \<in> message_accounts m. okA d a"
  shows "ensures (sound okU okA) (dispatch_message P sn m) any"
  unfolding dispatch_message_def using assms
  by (cases m) (auto intro!: ensures_rules)

lemma ensures_message:
  assumes "input_allowed P (Client sn s)" "\<forall>(d, u) \<in> channels_of P (Client sn s). okU d u" "\<forall>(d, a) \<in> accounts_of P (Client sn s). okA d a"
  shows "ensures (sound okU okA) (on_message_received P sn s) any"
proof -
  have p: "parse (p_asserts P) (p_json P) s \<noteq> Inl Redis_error" using parse_no_exception [of _ "p_json P" s Redis_error] by auto
  show ?thesis
  proof (cases "parse (p_asserts P) (p_json P) s")
    case (Inl e)
    with p show ?thesis by (simp add: on_message_received_def ensures_def)
  next
    case (Inr r)
    have "ensures (sound okU okA) (case r of None \<Rightarrow> respond_with_error P sn ''Malformed JSON.''
       | Some m \<Rightarrow> if \<not> msg_is_valid m then respond_with_error P sn ''Invalid JSON message.''
         else catchE (dispatch_message P sn m)
           (\<lambda>e. respond_with_error P sn ''Internal server error... Failed to process received JSON message.'')) any"
      using assms Inr
      by (intro ensures_rules ensures_dispatch) (auto simp: input_allowed_def channels_of_def accounts_of_def message_of_def)
    with Inr show ?thesis by (simp add: on_message_received_def ensures_def)
  qed
qed

section \<open>Runs\<close>

lemma sound_mono:
  assumes "sound okU okA w" "\<And>d u. okU d u \<Longrightarrow> okU' d u" "\<And>d a. okA d a \<Longrightarrow> okA' d a"
  shows "sound okU' okA' w"
proof -
  have "post_allowed okU' q" if "post_allowed okU q" for q
    using that assms(2) by (cases q) auto
  with assms show ?thesis
    by (auto simp: store_and_posts_def list_all_iff intro: well_kept_mono)
qed

lemma ensures_keeps: "ensures I m any \<Longrightarrow> I w \<Longrightarrow> I (snd (m w))"
  using ensures_at [of I m any w] by (simp add: ends_def)

lemma handle_sound:
  assumes "redis_clock (p_redis P) view now elapse" "input_allowed P i" "sound okU okA w"
    and "\<forall>(d, u) \<in> channels_of P i. okU d u" "\<forall>(d, a) \<in> accounts_of P i. okA d a"
  shows "sound okU okA (handle P elapse i w)"
proof (cases i)
  case (Client sn s)
  with assms ensures_keeps [OF ensures_message] show ?thesis by simp
next
  case (Event stanza)
  with assms(2,3) ensures_keeps [OF ensures_xmpp_message] show ?thesis by (simp add: input_allowed_def)
next
  case (Connection ev)
  with assms(3) ensures_keeps [OF ensures_conn_handler] show ?thesis by simp
next
  case Token_check
  with assms(3) ensures_keeps [OF ensures_check_setup_wns] show ?thesis by simp
next
  case Load_token
  with assms(3) ensures_keeps [OF ensures_load_token] show ?thesis by simp
next
  case (Elapse n e)
  with assms(3) show ?thesis by (simp add: store_and_posts_def kept_elapse [OF assms(1)])
next
  case (Restart c x)
  with assms(3) show ?thesis by (simp add: store_and_posts_def)
qed

lemma run_sound:
  assumes "redis_clock (p_redis P) view now elapse" "\<forall>i \<in> set is. input_allowed P i" "sound (\<lambda>_ _. False) (\<lambda>_ _. False) w"
  shows "sound (registered_channel P is) (registered_account P is) (server_run P elapse w is)"
  using assms(2)
proof (induction "is" rule: rev_induct)
  case Nil
  show ?case using assms(3) by (simp add: server_run_def registered_channel_def registered_account_def)
next
  case (snoc i "is")
  let ?U = "registered_channel P (is @ [i])" and ?A = "registered_account P (is @ [i])"
  have "sound ?U ?A (server_run P elapse w is)"
    using sound_mono [OF snoc.IH, of ?U ?A] snoc.prems by (simp add: registered_channel_def registered_account_def)
  from handle_sound [OF assms(1) _ this, of i] have "sound ?U ?A (handle P elapse i (server_run P elapse w is))"
    using snoc.prems by (auto simp: registered_channel_def registered_account_def)
  then show ?case by (simp add: server_run_def)
qed

lemma sound_any: "sound okU okA w \<Longrightarrow> sound (\<lambda>_ _. True) (\<lambda>_ _. True) w"
  by (rule sound_mono) auto

lemma no_redis_error: "ensures I m any \<Longrightarrow> I w \<Longrightarrow> fst (m w) \<noteq> Inl Redis_error"
  using ensures_at [of I m any w] by (simp add: ends_def)

lemma sound_no_error:
  assumes "sound okU okA w"
  shows "(\<forall>d. message_device m = Some d \<longrightarrow> device_key (p_crypto P) d) \<Longrightarrow> fst (dispatch_message P sn m w) \<noteq> Inl Redis_error"
    and "node_event (p_strophe P) stanza \<Longrightarrow> fst (on_xmpp_message P stanza w) \<noteq> Inl Redis_error"
    and "fst (check_setup_wns P w) \<noteq> Inl Redis_error" "fst (load_token_from_db P w) \<noteq> Inl Redis_error"
proof -
  note s = sound_any [OF assms]
  show "(\<forall>d. message_device m = Some d \<longrightarrow> device_key (p_crypto P) d) \<Longrightarrow> fst (dispatch_message P sn m w) \<noteq> Inl Redis_error"
    by (rule no_redis_error [OF ensures_dispatch s]) auto
  show "node_event (p_strophe P) stanza \<Longrightarrow> fst (on_xmpp_message P stanza w) \<noteq> Inl Redis_error"
    by (rule no_redis_error [OF ensures_xmpp_message s])
  show "fst (check_setup_wns P w) \<noteq> Inl Redis_error" "fst (load_token_from_db P w) \<noteq> Inl Redis_error"
    by (rule no_redis_error [OF ensures_check_setup_wns s] no_redis_error [OF ensures_load_token s])+
qed

end

interpretation rs: server_platform "ref_platform a" rd_keys rd_now for a
  by (intro server_platform.intro) (simp_all add: rp.platform_lib_axioms ref_throws.json_throws_axioms)

section \<open>Requests that cannot be taken back\<close>

definition posted :: "http_request list \<Rightarrow> ('db, 'e, 'st, 'z) world_scheme \<Rightarrow> bool" where
  "posted qs w \<longleftrightarrow> (\<exists>rest. http_posts (w_trace w) = qs @ rest)"

lemma posted_simps [simp]:
  "posted qs (w\<lparr>w_db := d\<rparr>) = posted qs w" "posted qs (w\<lparr>w_env := e\<rparr>) = posted qs w"
  "posted qs w \<Longrightarrow> posted qs (w\<lparr>w_trace := w_trace w @ tr\<rparr>)"
  by (auto simp: posted_def)

lemma posted_wns [simp]: "posted qs (w\<lparr>w_wns := c\<rparr>) = posted qs w"
  by (simp add: posted_def)

lemma keeps_posted [keeps_rules]: "keeps (posted qs) (on_db m)" "keeps (posted qs) (on_env m')" "keeps (posted qs) (emit ev)"
  "keeps (posted qs) (set_token t)"
  by (auto intro!: keepsI split: prod.split)

lemma keeps_posted_request [keeps_rules]: "keeps (posted qs) (request_new_token P)"
  unfolding request_new_token_def post_def token_from_response_def get_expires_date_def store_token_in_db_def need_redis_def
  by (intro keeps_rules keeps_catch_parse)

lemma keeps_posted_attempts [keeps_rules]: "keeps (posted qs) (send_attempts P q n)"
proof (induction n)
  case 0
  show ?case unfolding send_attempts.simps by (rule keeps_rules)
next
  case (Suc n)
  then show ?case unfolding send_attempts.simps post_def handle_response_code_def
    by (intro keeps_rules keeps_case_action)
qed

lemma keeps_posted_respond [keeps_rules]: "keeps (posted qs) (respond_with_success P sn)" "keeps (posted qs) (respond_with_error P sn e)"
  unfolding respond_with_success_def respond_with_error_def session_send_def session_send_text_def
  by (intro keeps_rules)+

text \<open>With a valid token the first request of a notification is the notification.\<close>

lemma notification_posted:
  assumes "wns_tok (w_wns w) = Some t" "clock_now (p_net P) (w_env w) = (n, e)" "before n (tok_expires t)"
  shows "posted (http_posts (w_trace w) @ [notification_request uri content t]) (snd (send_raw_notification P uri content w))"
proof -
  let ?q = "notification_request uri content t"
  obtain resp w1 where 1: "post P ?q (w\<lparr>w_env := e\<rparr>) = (Inr resp, w1)"
    "posted (http_posts (w_trace w) @ [?q]) w1"
    by (cases "http_post (p_net P) ?q e") (simp add: post_def posted_def)
  let ?rest = "if \<not> error_ok resp then send_attempts P ?q 2 else
     bindE (handle_response_code P (status_code resp)) (\<lambda>result. case result of
       SUCCESS \<Rightarrow> ret True | RETRY \<Rightarrow> send_attempts P ?q 2 | ERROR \<Rightarrow> ret False)"
  have k: "keeps (posted (http_posts (w_trace w) @ [?q])) ?rest"
    unfolding handle_response_code_def by (intro keeps_rules keeps_case_action)
  have run: "send_raw_notification P uri content w = ?rest w1"
    unfolding send_with_token [OF assms] three_attempts send_attempts.simps bindE_def 1(1) by simp
  show ?thesis unfolding run by (rule keeps_at [OF k 1(2)])
qed

section \<open>Properties\<close>

text \<open>A device and a run on the reference platform, for the witnesses.\<close>

lemma demo_device_key: "device_key ref_crypto ''dev''"
  using gen_account_not_short [of "''dev''"] by (force simp: device_key_def node_key_def WNS_TOKEN_KEY_def)

lemma demo_empty: "rd_keys (w_db demo_strophe_world) = (\<lambda>_. None)" "http_posts (w_trace demo_strophe_world) = []"
  by (simp_all add: demo_strophe_world_def wns_world.defs demo_wns_def)

lemma demo_inputs:
  obtains s1 s2 where
    "message_of (ref_platform True) (Client 7 s1) = Some (Msg_SetChannelUri (SetChannelUriMessage_new demo_uri ''dev''))"
    "message_of (ref_platform True) (Client 8 s2) = Some (Msg_RequestTestPush (RequestTestPushMessage_new ''dev''))"
    "input_allowed (ref_platform True) (Client 7 s1)" "input_allowed (ref_platform True) (Client 8 s2)"
proof -
  let ?m1 = "SetChannelUriMessage_new demo_uri ''dev''" and ?m2 = "RequestTestPushMessage_new ''dev''"
  have "sendable (Msg_SetChannelUri ?m1)" by (rule send_uri) (simp_all add: demo_uri_def)
  from ref_parse_sendable [OF this, of True] obtain s1 where s1: "parse True ref_json s1 = Inr (Some (Msg_SetChannelUri ?m1))" by blast
  have "sendable (Msg_RequestTestPush ?m2)" by (rule send_test) simp
  from ref_parse_sendable [OF this, of True] obtain s2 where s2: "parse True ref_json s2 = Inr (Some (Msg_RequestTestPush ?m2))" by blast
  have v: "isValid ?m1" "uri_deviceId ?m1 = ''dev''" "isValid ?m2" "test_deviceId ?m2 = ''dev''" by (simp_all add: message_news)
  have "message_of (ref_platform True) (Client 7 s1) = Some (Msg_SetChannelUri ?m1)"
    "message_of (ref_platform True) (Client 8 s2) = Some (Msg_RequestTestPush ?m2)"
    using s1 s2 v by (simp_all add: message_of_def)
  moreover have "input_allowed (ref_platform True) (Client 7 s1)" "input_allowed (ref_platform True) (Client 8 s2)"
    using s1 s2 v demo_device_key by (auto simp: input_allowed_def message_of_def)
  ultimately show thesis by (rule that)
qed

text \<open>
  C3 (Where pushes go). From an empty database, after any sequence of client messages, XMPP events, token
  checks, time-outs and restarts, handled one after the other, in which every input is allowed (no message names a
  device whose id is 15 characters long, like a node, or is the hash of an account or the key of the token, and every event names a
  node of 15 characters), every entry of the database has the type of its key, with channels, devices and accounts that
  some client has registered, and every request the server has sent over HTTP went to the token service or
  to a channel that a client has registered and that the check of channel URIs accepts.
\<close>

theorem pushes_go_to_registered_channels:
  assumes "server_platform P view now" "redis_clock (p_redis P) view now elapse"
    and "view (w_db w) = (\<lambda>_. None)" "http_posts (w_trace w) = []" "\<forall>i \<in> set inputs. input_allowed P i"
  shows "well_typed (p_crypto P) (registered_channel P inputs) (registered_account P inputs) (view (w_db (server_run P elapse w inputs)))
    \<and> list_all (post_allowed (registered_channel P inputs)) (http_posts (w_trace (server_run P elapse w inputs)))"
  using server_platform.run_sound [OF assms(1,2,5), of w] assms(3,4) by (simp add: store_and_posts_def) (simp add: well_kept_def)

theorem pushes_go_to_registered_channels_witness:
  "\<exists>s1 s2. registered_channel (ref_platform True) [Client 7 s1, Client 8 s2] ''dev'' = (\<lambda>u. u = demo_uri)
     \<and> list_all (post_allowed (registered_channel (ref_platform True) [Client 7 s1, Client 8 s2]))
         (http_posts (w_trace (server_run (ref_platform True) ref_elapse demo_strophe_world [Client 7 s1, Client 8 s2])))"
proof -
  obtain s1 s2 where s:
    "message_of (ref_platform True) (Client 7 s1) = Some (Msg_SetChannelUri (SetChannelUriMessage_new demo_uri ''dev''))"
    "message_of (ref_platform True) (Client 8 s2) = Some (Msg_RequestTestPush (RequestTestPushMessage_new ''dev''))"
    "input_allowed (ref_platform True) (Client 7 s1)" "input_allowed (ref_platform True) (Client 8 s2)" by (rule demo_inputs)
  have "is_valid_channel_uri ref_match demo_uri" using ref_regex.valid_channel_uri_iff demo_uri_form by blast
  with s(1,2) have "registered_channel (ref_platform True) [Client 7 s1, Client 8 s2] ''dev'' = (\<lambda>u. u = demo_uri)"
    by (auto simp: fun_eq_iff registered_channel_def channels_of_def message_news)
  moreover have "\<forall>i \<in> set [Client 7 s1, Client 8 s2]. input_allowed (ref_platform True) i" using s(3,4) by simp
  from pushes_go_to_registered_channels [OF rs.server_platform_axioms _ demo_empty this, of ref_elapse]
  have "list_all (post_allowed (registered_channel (ref_platform True) [Client 7 s1, Client 8 s2]))
         (http_posts (w_trace (server_run (ref_platform True) ref_elapse demo_strophe_world [Client 7 s1, Client 8 s2])))"
    by (simp add: ref_is_redis_clock)
  ultimately show ?thesis by blast
qed

text \<open>
  C10 (No key of the wrong type). After any sequence of allowed inputs from an empty database, handled one after
  the other, none of these meets a key that holds the wrong type of value and fails with an error of Redis: the
  handling of a message whose device has a key of its own (\<open>device_key\<close>), that of an event for a node
  (\<open>node_event\<close>), the token check and the loading of the token.
\<close>

theorem runs_without_redis_errors:
  assumes "server_platform P view now" "redis_clock (p_redis P) view now elapse"
    and "view (w_db w0) = (\<lambda>_. None)" "http_posts (w_trace w0) = []" "\<forall>i \<in> set inputs. input_allowed P i"
    and "w = server_run P elapse w0 inputs"
  shows "((\<forall>d. message_device m = Some d \<longrightarrow> device_key (p_crypto P) d) \<longrightarrow> fst (dispatch_message P sn m w) \<noteq> Inl Redis_error)
    \<and> (node_event (p_strophe P) stanza \<longrightarrow> fst (on_xmpp_message P stanza w) \<noteq> Inl Redis_error)
    \<and> fst (check_setup_wns P w) \<noteq> Inl Redis_error \<and> fst (load_token_from_db P w) \<noteq> Inl Redis_error"
  using server_platform.sound_no_error [OF assms(1) server_platform.run_sound [OF assms(1,2,5), of w0]] assms(3,4,6)
  by (simp add: store_and_posts_def)

theorem runs_without_redis_errors_witness:
  "\<exists>s1 s2. fst (dispatch_message (ref_platform True) 7 (Msg_RequestTestPush (RequestTestPushMessage_new ''dev''))
     (server_run (ref_platform True) ref_elapse demo_strophe_world [Client 7 s1, Client 8 s2])) \<noteq> Inl Redis_error"
proof -
  obtain s1 s2 where s: "input_allowed (ref_platform True) (Client 7 s1)" "input_allowed (ref_platform True) (Client 8 s2)" by (rule demo_inputs)
  then have "\<forall>i \<in> set [Client 7 s1, Client 8 s2]. input_allowed (ref_platform True) i" by simp
  from runs_without_redis_errors [OF rs.server_platform_axioms _ demo_empty this refl, of ref_elapse
      "Msg_RequestTestPush (RequestTestPushMessage_new ''dev'')"]
  show ?thesis by (auto simp: ref_is_redis_clock message_news demo_device_key)
qed

text \<open>
  C11 (Registrations expire). After any sequence of allowed inputs from an empty database, once the time-out of 210
  days passes without another input the database holds nothing any more but possibly the token. The source
  writes \<^verbatim>\<open>30 * 7\<close> days; its comment says 30 days and the README seven.
\<close>

theorem registrations_expire:
  assumes "server_platform P view now" "redis_clock (p_redis P) view now elapse"
    and "view (w_db w) = (\<lambda>_. None)" "http_posts (w_trace w) = []" "\<forall>i \<in> set inputs. input_allowed P i"
    and "DEFAULT_ENTRY_TIMEOUT \<le> int n" "k \<noteq> WNS_TOKEN_KEY"
  shows "view (w_db (server_run P elapse w (inputs @ [Elapse n e]))) k = None"
proof -
  have "expiring (now (w_db (server_run P elapse w inputs))) (view (w_db (server_run P elapse w inputs)))"
    using server_platform.run_sound [OF assms(1,2,5), of w] assms(3,4) by (simp add: store_and_posts_def) (simp add: well_kept_def)
  from expired_elapse [OF assms(2) this assms(6,7)] show ?thesis by (simp add: server_run_def)
qed

theorem registrations_expire_witness:
  "\<exists>s1 s2. rd_keys (w_db (server_run (ref_platform True) ref_elapse demo_strophe_world
     [Client 7 s1, Client 8 s2, Elapse 18144000 (w_env demo_strophe_world)])) ''dev'' = None"
proof -
  obtain s1 s2 where s: "input_allowed (ref_platform True) (Client 7 s1)" "input_allowed (ref_platform True) (Client 8 s2)" by (rule demo_inputs)
  then have "\<forall>i \<in> set [Client 7 s1, Client 8 s2]. input_allowed (ref_platform True) i" by simp
  from registrations_expire [OF rs.server_platform_axioms _ demo_empty this, of ref_elapse 18144000 "''dev''" "w_env demo_strophe_world"]
  show ?thesis by (auto simp: ref_is_redis_clock DEFAULT_ENTRY_TIMEOUT_def WNS_TOKEN_KEY_def)
qed

text \<open>
  C19 (A node is not a device). The assumption on the keys of devices is needed, and nothing enforces it.
  A client that has registered an account learns its node; when it then asks for a test push and gives the
  node as its device, the server takes the account for the channel URI and posts to whatever the client
  chose as the name of the account, with the token of the server in the \<^verbatim>\<open>Authorization\<close> header.
\<close>

theorem node_as_device_leaks_token:
  assumes "redis_server (p_redis P) view now" "parse (p_asserts P) (p_json P) s = Inr (Some (Msg_RequestTestPush m))" "isValid m"
    and "view (w_db w) (test_deviceId m) = Some (Rlist [acc, dev, sec], t)" "dev \<noteq> ''2''"
    and "wns_tok (w_wns w) = Some tok" "clock_now (p_net P) (w_env w) = (n, e)" "before n (tok_expires tok)"
    and "on_message_received P sn s w = (r, w')"
  shows "\<exists>rest. http_posts (w_trace w') = http_posts (w_trace w) @ notification_request acc ''<test/>'' tok # rest"
proof -
  let ?Q = "posted (http_posts (w_trace w) @ [notification_request acc ''<test/>'' tok])"
  have "no_string (view (w_db w)) (test_deviceId m)" "list_at (view (w_db w)) (test_deviceId m) = [acc, dev, sec]"
    using assms(4) by (simp_all add: no_string_def list_at_def)
  with redis_server.get_channel_uri_run [OF assms(1)] redis_server.get_version_run [OF assms(1)] assms(5)
  have test: "send_test_push P sn (test_deviceId m) w = bindE (send_raw_notification P acc ''<test/>'') (\<lambda>result.
      if result then respond_with_success P sn
      else respond_with_error P sn ''Failed to send test push. Something went wrong...'') w"
    by (simp add: send_test_push_def test_push_text_def)
  obtain b w1 where b: "send_raw_notification P acc ''<test/>'' w = (b, w1)" by fastforce
  with notification_posted [OF assms(6-8), of acc "''<test/>''"] have q: "?Q w1" by simp
  let ?answer = "bindE (liftR b) (\<lambda>result. if result then respond_with_success P sn
      else respond_with_error P sn ''Failed to send test push. Something went wrong...'')"
  have k: "keeps ?Q ?answer" by (intro keeps_rules)
  have eq: "dispatch_message P sn (Msg_RequestTestPush m) w = ?answer w1"
    using b assms(3) by (simp add: dispatch_valid test)
  obtain r1 w2 where run: "dispatch_message P sn (Msg_RequestTestPush m) w = (r1, w2)" by fastforce
  then have ans: "?answer w1 = (r1, w2)" by (simp only: eq)
  from k q ans have d: "?Q w2" by (rule keepsD)
  have "w' = w2 \<or> w' = snd (respond_with_error P sn ''Internal server error... Failed to process received JSON message.'' w2)"
    using assms(2,3,9) run by (cases r1) (simp_all add: on_message_received_def split: if_splits)
  then have "?Q w'" using d keeps_at [OF keeps_posted_respond(2)] by blast
  then show ?thesis by (auto simp: posted_def)
qed

theorem node_as_device_leaks_token_witness:
  "\<exists>s r w' rest. on_message_received (ref_platform True) 7 s (demo_registered ''1'') = (r, w')
     \<and> http_posts (w_trace w') = notification_request ''alice'' ''<test/>'' demo_token # rest"
proof -
  let ?m = "RequestTestPushMessage_new ''n1''" and ?w = "demo_registered ''1''"
  have "sendable (Msg_RequestTestPush ?m)" by (rule send_test) simp
  from ref_parse_sendable [OF this, of True] obtain s where s: "parse True ref_json s = Inr (Some (Msg_RequestTestPush ?m))" by blast
  obtain r w' where run: "on_message_received (ref_platform True) 7 s ?w = (r, w')" by fastforce
  have f: "isValid ?m" "test_deviceId ?m = ''n1''" by (simp_all add: message_news)
  have w: "w_trace ?w = []" "wns_tok (w_wns ?w) = Some demo_token"
    "clock_now (p_net (ref_platform True)) (w_env ?w) = (1000000000, w_env ?w)" "before 1000000000 (tok_expires demo_token)"
    by (simp_all add: demo_registered_def demo_strophe_world_def wns_world.defs demo_wns_def ref_net_def before_def demo_token_def)
  from node_as_device_leaks_token [of "ref_platform True" rd_keys rd_now s ?m ?w "''alice''" "''dev''" "''s1''" None demo_token
      1000000000 "w_env ?w" 7 r w'] s f w run
  show ?thesis by (simp add: rr.redis_server_axioms) blast
qed

text \<open>
  Accounts of two devices can have the same key, since the separator may occur in both names; the second
  device to register then gets the node and the secret of the first.
\<close>

lemma account_keys_ambiguous: "gen_account C (d @ ''_'' @ b) a = gen_account C d (b @ ''_'' @ a)"
  by (simp add: gen_account_def)

end
