(* ===== verification/Config_Storage.thy ===== *)
theory Config_Storage
  imports Json_Api Chrono
begin

text \<open>
  \<^verbatim>\<open>src/storage/Serializer.hpp\<close>, \<^verbatim>\<open>Serializer.cpp\<close>, \<^verbatim>\<open>ConfigurationStorage.hpp\<close> and
  \<^verbatim>\<open>ConfigurationStorage.cpp\<close>: the configuration of the server, its JSON form and the file it is kept
  in. Log messages are left out.
\<close>

section \<open>The configuration\<close>

record wns_configuration =
  packetId :: string
  clientSecret :: string

record xmpp_configuration =
  bareJid :: string
  password :: string
  xmpp_port :: "16 word"
  host :: string

record tls_configuration =
  serverKeyPath :: string
  serverCertPath :: string

record tcp_configuration =
  tcp_port :: "16 word"
  tls :: tls_configuration

record db_configuration =
  url :: string

record configuration =
  wns :: wns_configuration
  xmpp :: xmpp_configuration
  tcp :: tcp_configuration
  db :: db_configuration

text \<open>The initialisers of the members.\<close>

definition WnsConfiguration :: wns_configuration where
  "WnsConfiguration = \<lparr>packetId = ''The UWP package ID starting with: 'ms-app://...'' @ [CHR 0x27],
     clientSecret = ''The secret obtained from the Devcenter.''\<rparr>"

definition XmppConfiguration :: xmpp_configuration where
  "XmppConfiguration = \<lparr>bareJid = ''The bare JID of the push XMPP client (e.g. 'pushServer@xmpp.example.com').'',
     password = ''The password for the push XMPP client.'', xmpp_port = 5222,
     host = ''The hostname of the XMPP server.''\<rparr>"

definition TlsConfiguration :: tls_configuration where
  "TlsConfiguration = \<lparr>serverKeyPath = ''Path to your 'domain.key' file.'',
     serverCertPath = ''Path to your 'domain.cert' file.''\<rparr>"

definition TcpConfiguration :: tcp_configuration where
  "TcpConfiguration = \<lparr>tcp_port = 1997, tls = TlsConfiguration\<rparr>"

definition DbConfiguration :: db_configuration where
  "DbConfiguration = \<lparr>url = []\<rparr>"

definition Configuration :: configuration where
  "Configuration = \<lparr>wns = WnsConfiguration, xmpp = XmppConfiguration, tcp = TcpConfiguration,
     db = DbConfiguration\<rparr>"

section \<open>Its JSON form\<close>

text \<open>
  \<^verbatim>\<open>j.at(k).get_to(x)\<close> for a conversion \<open>get\<close>; every \<open>from_json\<close> takes the object it fills in as its
  last argument.
\<close>

definition at_get :: "'j json_api \<Rightarrow> string \<Rightarrow> ('j \<Rightarrow> exn + 'a) \<Rightarrow> 'j \<Rightarrow> exn + 'a" where
  "at_get J k get j = bindR (j_at J k j) get"

definition wns_to_json :: "'j json_api \<Rightarrow> wns_configuration \<Rightarrow> 'j" where
  "wns_to_json J c = j_object J [(''packetId'', j_of_string J (packetId c)),
     (''clientSecret'', j_of_string J (clientSecret c))]"

definition wns_from_json :: "'j json_api \<Rightarrow> 'j \<Rightarrow> wns_configuration \<Rightarrow> exn + wns_configuration" where
  "wns_from_json J j c =
     bindR (at_get J ''packetId'' (j_get_string J) j) (\<lambda>x. let c = c\<lparr>packetId := x\<rparr> in
     bindR (at_get J ''clientSecret'' (j_get_string J) j) (\<lambda>x. Inr (c\<lparr>clientSecret := x\<rparr>)))"

definition xmpp_to_json :: "'j json_api \<Rightarrow> xmpp_configuration \<Rightarrow> 'j" where
  "xmpp_to_json J c = j_object J [(''bareJid'', j_of_string J (bareJid c)),
     (''password'', j_of_string J (password c)), (''port'', j_of_int J (uint (xmpp_port c))),
     (''host'', j_of_string J (host c))]"

definition xmpp_from_json :: "'j json_api \<Rightarrow> 'j \<Rightarrow> xmpp_configuration \<Rightarrow> exn + xmpp_configuration" where
  "xmpp_from_json J j c =
     bindR (at_get J ''bareJid'' (j_get_string J) j) (\<lambda>x. let c = c\<lparr>bareJid := x\<rparr> in
     bindR (at_get J ''password'' (j_get_string J) j) (\<lambda>x. let c = c\<lparr>password := x\<rparr> in
     bindR (at_get J ''port'' (j_get_u16 J) j) (\<lambda>x. let c = c\<lparr>xmpp_port := x\<rparr> in
     bindR (at_get J ''host'' (j_get_string J) j) (\<lambda>x. Inr (c\<lparr>host := x\<rparr>)))))"

definition tls_to_json :: "'j json_api \<Rightarrow> tls_configuration \<Rightarrow> 'j" where
  "tls_to_json J c = j_object J [(''serverCertPath'', j_of_string J (serverCertPath c)),
     (''serverKeyPath'', j_of_string J (serverKeyPath c))]"

definition tls_from_json :: "'j json_api \<Rightarrow> 'j \<Rightarrow> tls_configuration \<Rightarrow> exn + tls_configuration" where
  "tls_from_json J j c =
     bindR (at_get J ''serverCertPath'' (j_get_string J) j) (\<lambda>x. let c = c\<lparr>serverCertPath := x\<rparr> in
     bindR (at_get J ''serverKeyPath'' (j_get_string J) j) (\<lambda>x. Inr (c\<lparr>serverKeyPath := x\<rparr>)))"

definition tcp_to_json :: "'j json_api \<Rightarrow> tcp_configuration \<Rightarrow> 'j" where
  "tcp_to_json J c = j_object J [(''port'', j_of_int J (uint (tcp_port c))), (''tls'', tls_to_json J (tls c))]"

definition tcp_from_json :: "'j json_api \<Rightarrow> 'j \<Rightarrow> tcp_configuration \<Rightarrow> exn + tcp_configuration" where
  "tcp_from_json J j c =
     bindR (at_get J ''port'' (j_get_u16 J) j) (\<lambda>x. let c = c\<lparr>tcp_port := x\<rparr> in
     bindR (at_get J ''tls'' (\<lambda>j. tls_from_json J j (tls c)) j) (\<lambda>x. Inr (c\<lparr>tls := x\<rparr>)))"

definition db_to_json :: "'j json_api \<Rightarrow> db_configuration \<Rightarrow> 'j" where
  "db_to_json J c = j_object J [(''url'', j_of_string J (url c))]"

definition db_from_json :: "'j json_api \<Rightarrow> 'j \<Rightarrow> db_configuration \<Rightarrow> exn + db_configuration" where
  "db_from_json J j c = bindR (at_get J ''url'' (j_get_string J) j) (\<lambda>x. Inr (c\<lparr>url := x\<rparr>))"

definition configuration_to_json :: "'j json_api \<Rightarrow> configuration \<Rightarrow> 'j" where
  "configuration_to_json J c = j_object J [(''wns'', wns_to_json J (wns c)), (''xmpp'', xmpp_to_json J (xmpp c)),
     (''tcp'', tcp_to_json J (tcp c)), (''db'', db_to_json J (db c))]"

definition configuration_from_json :: "'j json_api \<Rightarrow> 'j \<Rightarrow> configuration \<Rightarrow> exn + configuration" where
  "configuration_from_json J j c =
     bindR (at_get J ''wns'' (\<lambda>j. wns_from_json J j (wns c)) j) (\<lambda>x. let c = c\<lparr>wns := x\<rparr> in
     bindR (at_get J ''xmpp'' (\<lambda>j. xmpp_from_json J j (xmpp c)) j) (\<lambda>x. let c = c\<lparr>xmpp := x\<rparr> in
     bindR (at_get J ''tcp'' (\<lambda>j. tcp_from_json J j (tcp c)) j) (\<lambda>x. let c = c\<lparr>tcp := x\<rparr> in
     bindR (at_get J ''db'' (\<lambda>j. db_from_json J j (db c)) j) (\<lambda>x. Inr (c\<lparr>db := x\<rparr>)))))"

text \<open>\<^verbatim>\<open>std::optional\<close>, \<^verbatim>\<open>std::shared_ptr\<close> (a pointer as an option) and time points.\<close>

definition optional_to_json :: "'j json_api \<Rightarrow> ('a \<Rightarrow> 'j) \<Rightarrow> 'a option \<Rightarrow> 'j" where
  "optional_to_json J to_j opt = (case opt of Some x \<Rightarrow> to_j x | None \<Rightarrow> j_null J)"

definition optional_from_json :: "'j json_api \<Rightarrow> ('j \<Rightarrow> exn + 'a) \<Rightarrow> 'j \<Rightarrow> exn + 'a option" where
  "optional_from_json J get j = (if j_is_null J j then Inr None else bindR (get j) (\<lambda>x. Inr (Some x)))"

definition shared_ptr_to_json :: "'j json_api \<Rightarrow> ('a \<Rightarrow> 'j) \<Rightarrow> 'a option \<Rightarrow> 'j" where
  "shared_ptr_to_json J to_j ptr = (case ptr of Some x \<Rightarrow> to_j x | None \<Rightarrow> j_null J)"

definition shared_ptr_from_json :: "'j json_api \<Rightarrow> ('j \<Rightarrow> exn + 'a) \<Rightarrow> 'j \<Rightarrow> exn + 'a option" where
  "shared_ptr_from_json J get j = (if j_is_null J j then Inr None else bindR (get j) (\<lambda>x. Inr (Some x)))"

definition time_point_to_json :: "'j json_api \<Rightarrow> time_point \<Rightarrow> 'j" where
  "time_point_to_json J tp = j_of_int J (to_time_t tp)"

definition time_point_from_json :: "'j json_api \<Rightarrow> 'j \<Rightarrow> exn + time_point" where
  "time_point_from_json J j = bindR (j_get_time_t J j) (\<lambda>t. Inr (from_time_t (sint t)))"

section \<open>Files and the streams of the JSON library\<close>

text \<open>
  The files by their path with their text, and the paths that can be opened for reading and for
  writing. Reading from and writing to an open file succeeds.
\<close>

record file_system =
  fs_files :: "string \<rightharpoonup> string"
  fs_can_read :: "string \<Rightarrow> bool"
  fs_can_write :: "string \<Rightarrow> bool"

definition read_file :: "file_system \<Rightarrow> string \<Rightarrow> string option" where
  "read_file fs p = (if fs_can_read fs p then fs_files fs p else None)"

text \<open>
  \<open>js_read t j\<close>: \<^verbatim>\<open>stream >> j\<close> on the text \<open>t\<close>, the exception it throws and the value left in \<^verbatim>\<open>j\<close>;
  \<open>js_write n j\<close>: \<^verbatim>\<open>stream << std::setw(n) << j\<close>, the exception and the text that reached the stream.
\<close>

record 'j json_stream =
  js_read :: "string \<Rightarrow> 'j \<Rightarrow> exn option \<times> 'j"
  js_write :: "nat \<Rightarrow> 'j \<Rightarrow> exn option \<times> string"

definition ascii :: "string \<Rightarrow> bool" where
  "ascii s \<longleftrightarrow> (\<forall>c \<in> set s. code_of c < 128)"

text \<open>Documents of 7-bit text and 64-bit integers are written without an exception and read back.\<close>

locale json_files = json_lib J for J :: "'j json_api" +
  fixes T :: "'j json_stream" and printable :: "'j \<Rightarrow> bool"
  assumes print_text: "ascii s \<Longrightarrow> printable (j_of_string J s)"
    and print_int: "- (2 ^ 63) \<le> i \<Longrightarrow> i < 2 ^ 64 \<Longrightarrow> printable (j_of_int J i)"
    and print_object: "\<forall>(k, v) \<in> set kvs. ascii k \<and> printable v \<Longrightarrow> distinct (map fst kvs) \<Longrightarrow>
      printable (j_object J kvs)"
    and write_ok: "printable j \<Longrightarrow> fst (js_write T n j) = None"
    and read_back: "printable j \<Longrightarrow> js_read T (snd (js_write T n j)) j' = (None, j)"

section \<open>The serializer\<close>

record 'j serializer =
  filename :: string
  js_int :: 'j

definition Serializer :: "'j json_api \<Rightarrow> string \<Rightarrow> 'j serializer" where
  "Serializer J p = \<lparr>filename = p, js_int = j_object J []\<rparr>"

definition read_in :: "'j json_stream \<Rightarrow> file_system \<Rightarrow> ('j serializer, bool) M" where
  "read_in T fs = (\<lambda>s. case read_file fs (filename s) of
     None \<Rightarrow> (Inr False, s)
   | Some t \<Rightarrow> (case js_read T t (js_int s) of
       (None, j) \<Rightarrow> (Inr True, s\<lparr>js_int := j\<rparr>)
     | (Some e, j) \<Rightarrow> if e = Json_parse_error then (Inr False, s\<lparr>js_int := j\<rparr>) else (Inl e, s\<lparr>js_int := j\<rparr>)))"

definition write_out :: "'j json_stream \<Rightarrow> 'j serializer \<Rightarrow> (file_system, unit) M" where
  "write_out T s = (\<lambda>fs. if \<not> fs_can_write fs (filename s) then (Inr (), fs) else
     (case js_write T 1 (js_int s) of (e, t) \<Rightarrow>
       (case e of None \<Rightarrow> Inr () | Some x \<Rightarrow> Inl x, fs\<lparr>fs_files := (fs_files fs)(filename s \<mapsto> t)\<rparr>)))"

definition exists :: "'j json_api \<Rightarrow> 'j serializer \<Rightarrow> string \<Rightarrow> bool" where
  "exists J s k = j_contains J k (js_int s)"

text \<open>\<^verbatim>\<open>get_data<T>\<close> and \<^verbatim>\<open>get_to\<close> for the conversion \<open>get\<close> of the type \<^verbatim>\<open>T\<close>.\<close>

definition get_data :: "'j json_api \<Rightarrow> ('j \<Rightarrow> exn + 'a) \<Rightarrow> 'j serializer \<Rightarrow> string \<Rightarrow> exn + 'a option" where
  "get_data J get s k = (if \<not> j_contains J k (js_int s) then Inr None
     else bindR (at_get J k get (js_int s)) (\<lambda>t. Inr (Some t)))"

definition get_to :: "'j json_api \<Rightarrow> ('j \<Rightarrow> exn + 'a) \<Rightarrow> 'j serializer \<Rightarrow> string \<Rightarrow> 'a \<Rightarrow> exn + bool \<times> 'a" where
  "get_to J get s k t = (if \<not> exists J s k then Inr (False, t)
     else bindR (at_get J k get (js_int s)) (\<lambda>t. Inr (True, t)))"

definition set_data :: "'j json_api \<Rightarrow> ('a \<Rightarrow> 'j) \<Rightarrow> string \<Rightarrow> 'a \<Rightarrow> ('j serializer, unit) M" where
  "set_data J to_j k v = (\<lambda>s. case j_emplace J k (to_j v) (js_int s) of
     Inl e \<Rightarrow> (Inl e, s) | Inr j \<Rightarrow> (Inr (), s\<lparr>js_int := j\<rparr>))"

section \<open>The configuration file\<close>

record 'j configuration_storage =
  config :: configuration
  fileHandle :: "'j serializer"

definition write_configuration ::
  "'j json_api \<Rightarrow> 'j json_stream \<Rightarrow> 'j configuration_storage \<Rightarrow> (file_system, 'j configuration_storage) M" where
  "write_configuration J T st =
     (let st = st\<lparr>fileHandle := (fileHandle st)\<lparr>js_int := configuration_to_json J (config st)\<rparr>\<rparr> in
      thenE (write_out T (fileHandle st)) (ret st))"

definition ConfigurationStorage ::
  "'j json_api \<Rightarrow> 'j json_stream \<Rightarrow> string \<Rightarrow> (file_system, 'j configuration_storage) M" where
  "ConfigurationStorage J T configFilePath =
     (let st = \<lparr>config = Configuration, fileHandle = Serializer J configFilePath\<rparr> in
      bindE (getE (\<lambda>fs. fs)) (\<lambda>fs.
      if fs_files fs configFilePath \<noteq> None then
        (case read_in T fs (fileHandle st) of
           (Inl e, h) \<Rightarrow> raise e
         | (Inr ok, h) \<Rightarrow>
             let st = st\<lparr>fileHandle := h\<rparr> in
             if ok then bindE (liftR (configuration_from_json J (js_int h) Configuration)) (\<lambda>c. ret (st\<lparr>config := c\<rparr>))
             else ret st)
      else write_configuration J T st))"

text \<open>The one instance of the process: the first call decides the path.\<close>

definition get_configuration_storage_instance ::
  "'j json_api \<Rightarrow> 'j json_stream \<Rightarrow> string \<Rightarrow>
   (file_system \<times> 'j configuration_storage option, 'j configuration_storage) M" where
  "get_configuration_storage_instance J T path = (\<lambda>(fs, inst). case inst of
     Some st \<Rightarrow> (Inr st, (fs, inst))
   | None \<Rightarrow> (case ConfigurationStorage J T path fs of
       (Inl e, fs') \<Rightarrow> (Inl e, (fs', None)) | (Inr st, fs') \<Rightarrow> (Inr st, (fs', Some st))))"

end
