(* ===== verification/Sessions.thy ===== *)
theory Sessions
  imports Server_Correct Config_Storage
begin

text \<open>
  The TCP server with its sessions: the constructor of \<^verbatim>\<open>tcp/TcpServer.cpp\<close>, \<^verbatim>\<open>tcp/SslServer.cpp\<close> and the
  construction of a session in \<^verbatim>\<open>tcp/ClientSslSession.cpp\<close>, and the network library as a sequence of
  events: clients connect, chunks of bytes arrive, clients disconnect. \<open>'h\<close> is the type of the message handler.
\<close>

section \<open>The server\<close>

record ssl_context =
  certificate_file :: string
  private_key_file :: string

datatype internet_protocol = IPv4 | IPv6

record 'h ssl_server =
  ss_context :: ssl_context
  ss_protocol :: internet_protocol
  ss_port :: "16 word"
  ss_messageHandler :: 'h

record 'h client_ssl_session =
  cs_messageHandler :: 'h

record 'h tcp_server =
  ts_sslCtx :: ssl_context
  ts_server :: "'h ssl_server"

definition SslServer_new :: "ssl_context \<Rightarrow> internet_protocol \<Rightarrow> 16 word \<Rightarrow> 'h \<Rightarrow> 'h ssl_server" where
  "SslServer_new sslCtx protocol port messageHandler =
     \<lparr>ss_context = sslCtx, ss_protocol = protocol, ss_port = port, ss_messageHandler = messageHandler\<rparr>"

definition ClientSslSession_new :: "'h \<Rightarrow> 'h client_ssl_session" where
  "ClientSslSession_new messageHandler = \<lparr>cs_messageHandler = messageHandler\<rparr>"

definition CreateSession :: "'h ssl_server \<Rightarrow> 'h client_ssl_session" where
  "CreateSession server = ClientSslSession_new (ss_messageHandler server)"

definition TcpServer_new :: "tcp_configuration \<Rightarrow> 'h \<Rightarrow> 'h tcp_server" where
  "TcpServer_new cfg messageHandler =
     (let sslCtx = \<lparr>certificate_file = serverCertPath (tls cfg), private_key_file = serverKeyPath (tls cfg)\<rparr>
      in \<lparr>ts_sslCtx = sslCtx, ts_server = SslServer_new sslCtx IPv4 (tcp_port cfg) messageHandler\<rparr>)"

section \<open>The network\<close>

text \<open>
  What the network library does around the code above, as it documents it: it creates a session for a client that
  connects, calls \<^verbatim>\<open>onReceived\<close> of the session that a chunk of bytes arrived on, and forgets a session that
  disconnects. A session object is known by its number. What the code sends on which session is not decided
  here: it is what the code records in the trace of the world.
\<close>

datatype net_event = Connect session_id | Chunk session_id string | Disconnect session_id

type_synonym ('db, 'e, 'st, 'z) handler = "string \<Rightarrow> session_id \<Rightarrow> (('db, 'e, 'st, 'z) xmpp_world_scheme, unit) M"

record ('w, 'h) network =
  nw_world :: 'w
  nw_sessions :: "session_id \<Rightarrow> 'h client_ssl_session option"

text \<open>An exception that leaves a callback, and an abort, end the server.\<close>

fun net_step :: "('db, 'e, 'st, 'z) handler ssl_server \<Rightarrow> net_event \<Rightarrow>
    (('db, 'e, 'st, 'z) xmpp_world_scheme, ('db, 'e, 'st, 'z) handler) network \<Rightarrow>
    exn + (('db, 'e, 'st, 'z) xmpp_world_scheme, ('db, 'e, 'st, 'z) handler) network" where
  "net_step server (Connect i) n = Inr (n\<lparr>nw_sessions := (nw_sessions n)(i \<mapsto> CreateSession server)\<rparr>)"
| "net_step server (Disconnect i) n = Inr (n\<lparr>nw_sessions := (nw_sessions n)(i := None)\<rparr>)"
| "net_step server (Chunk i s) n = (case nw_sessions n i of
     None \<Rightarrow> Inr n
   | Some session \<Rightarrow> (case onReceived i (cs_messageHandler session) s (nw_world n) of
       (Inl e, _) \<Rightarrow> Inl e
     | (Inr _, w) \<Rightarrow> Inr (n\<lparr>nw_world := w\<rparr>)))"

fun net_run :: "('db, 'e, 'st, 'z) handler ssl_server \<Rightarrow> net_event list \<Rightarrow>
    (('db, 'e, 'st, 'z) xmpp_world_scheme, ('db, 'e, 'st, 'z) handler) network \<Rightarrow>
    exn + (('db, 'e, 'st, 'z) xmpp_world_scheme, ('db, 'e, 'st, 'z) handler) network" where
  "net_run server [] n = Inr n"
| "net_run server (ev # evs) n = bindR (net_step server ev n) (net_run server evs)"

text \<open>The sessions of the chunks that arrive while they are open, in the order of arrival.\<close>

fun chunk_sessions :: "session_id set \<Rightarrow> net_event list \<Rightarrow> session_id list" where
  "chunk_sessions S [] = []"
| "chunk_sessions S (Connect i # evs) = chunk_sessions (insert i S) evs"
| "chunk_sessions S (Disconnect i # evs) = chunk_sessions (S - {i}) evs"
| "chunk_sessions S (Chunk i s # evs) = (if i \<in> S then i # chunk_sessions S evs else chunk_sessions S evs)"

section \<open>Every chunk is answered on its session\<close>

definition is_answer :: "('j, 'db, 'e, 'st) platform \<Rightarrow> string \<Rightarrow> bool" where
  "is_answer P t \<longleftrightarrow> (\<exists>r. response_text P r \<and> t = r @ [CHR 0x00])"

text \<open>The handler of the server answers a chunk with one text, on the session it was given.\<close>

lemma received_once:
  fixes w :: "('db, 'e, 'st, 'z) xmpp_world_scheme"
  assumes "tcp_handler P s i w = (Inr u, w')"
  shows "\<exists>t. is_answer P t \<and> session_sends (w_trace w') = session_sends (w_trace w) @ [(i, t)]"
proof -
  have "answers i (response_text P) (on_message_received P i s :: (('db, 'e, 'st, 'z) xmpp_world_scheme, unit) M)"
    unfolding on_message_received_def by (intro answer_rules silent_rules dispatch_answers)
  from answersD [OF this, of w] assms show ?thesis
    by (auto simp: once_def is_answer_def tcp_handler_def)
qed

lemma net_run_answers:
  assumes "ss_messageHandler server = tcp_handler P"
    and "\<forall>i session. nw_sessions n i = Some session \<longrightarrow> cs_messageHandler session = tcp_handler P"
    and "net_run server evs n = Inr n'"
  shows "\<exists>answers. session_sends (w_trace (nw_world n')) = session_sends (w_trace (nw_world n)) @ answers
    \<and> map fst answers = chunk_sessions (dom (nw_sessions n)) evs \<and> list_all (is_answer P) (map snd answers)"
  using assms(2,3)
proof (induction evs arbitrary: n)
  case Nil
  then show ?case by simp
next
  case (Cons ev evs)
  show ?case
  proof (cases ev)
    case (Connect i)
    let ?n = "n\<lparr>nw_sessions := (nw_sessions n)(i \<mapsto> CreateSession server)\<rparr>"
    have "\<forall>j session. nw_sessions ?n j = Some session \<longrightarrow> cs_messageHandler session = tcp_handler P"
      using Cons.prems(1) assms(1) by (simp add: CreateSession_def ClientSslSession_new_def)
    moreover have "dom (nw_sessions ?n) = insert i (dom (nw_sessions n))" by simp
    ultimately show ?thesis
      using Cons.IH [of ?n] Cons.prems(2) Connect by (simp del: fun_upd_apply)
  next
    case (Disconnect i)
    let ?n = "n\<lparr>nw_sessions := (nw_sessions n)(i := None)\<rparr>"
    have "\<forall>j session. nw_sessions ?n j = Some session \<longrightarrow> cs_messageHandler session = tcp_handler P"
      using Cons.prems(1) by simp
    moreover have "dom (nw_sessions ?n) = dom (nw_sessions n) - {i}" by simp
    ultimately show ?thesis
      using Cons.IH [of ?n] Cons.prems(2) Disconnect by (simp del: fun_upd_apply)
  next
    case (Chunk i s)
    show ?thesis
    proof (cases "nw_sessions n i")
      case None
      then have "i \<notin> dom (nw_sessions n)" by auto
      with Cons.prems Chunk None show ?thesis using Cons.IH [of n] by simp
    next
      case (Some session)
      then have i: "i \<in> dom (nw_sessions n)" and h: "cs_messageHandler session = tcp_handler P"
        using Cons.prems(1) by auto
      obtain r w where run: "tcp_handler P s i (nw_world n) = (r, w)" by fastforce
      with Cons.prems(2) Chunk Some h obtain u where r: "r = Inr u" by (cases r) (auto simp: onReceived_def)
      from received_once [OF run [unfolded r]] obtain t where
        t: "is_answer P t" "session_sends (w_trace w) = session_sends (w_trace (nw_world n)) @ [(i, t)]" by blast
      let ?n = "n\<lparr>nw_world := w\<rparr>"
      have "net_run server evs ?n = Inr n'" using Cons.prems(2) Chunk Some h run r by (simp add: onReceived_def)
      with Cons.IH [of ?n] Cons.prems(1) t(2) obtain as where
        "session_sends (w_trace (nw_world n')) = session_sends (w_trace (nw_world n)) @ (i, t) # as"
        "map fst as = chunk_sessions (dom (nw_sessions n)) evs" "list_all (is_answer P) (map snd as)" by auto
      with Chunk i t(1) show ?thesis by (intro exI [of _ "(i, t) # as"]) simp
    qed
  qed
qed

section \<open>Properties\<close>

text \<open>
  C26 (Sessions). The TCP server is made with the server's handler. Whichever clients connect, send and
  disconnect in whatever order, as long as the server runs the code has sent one response for every chunk that
  arrived on an open session, in the order of the chunks, each on the session of its chunk, and nothing else:
  what belongs together as a message is not looked at, so a message that arrives in two chunks gets two
  answers.
\<close>

theorem every_chunk_answered_on_its_session:
  assumes "net_run (ts_server (TcpServer_new cfg (tcp_handler P))) evs \<lparr>nw_world = w, nw_sessions = (\<lambda>_. None)\<rparr> = Inr n"
  shows "\<exists>answers. session_sends (w_trace (nw_world n)) = session_sends (w_trace w) @ answers
    \<and> map fst answers = chunk_sessions {} evs \<and> list_all (is_answer P) (map snd answers)"
  using net_run_answers [OF _ _ assms, of P] by (simp add: TcpServer_new_def SslServer_new_def Let_def)

theorem every_chunk_answered_on_its_session_witness:
  "\<exists>n t. net_run (ts_server (TcpServer_new \<lparr>tcp_port = 1997, tls = \<lparr>serverKeyPath = ''key'', serverCertPath = ''cert''\<rparr>\<rparr>
        (tcp_handler (ref_platform True)))) [Connect 1, Connect 2, Chunk 2 ''{'', Disconnect 1, Chunk 1 ''}'']
      \<lparr>nw_world = demo_server, nw_sessions = (\<lambda>_. None)\<rparr> = Inr n
     \<and> session_sends (w_trace (nw_world n)) = [(2, t)] \<and> is_answer (ref_platform True) t"
proof -
  let ?evs = "[Connect 1, Connect 2, Chunk 2 ''{'', Disconnect 1, Chunk 1 ''}'']"
  let ?run = "net_run (ts_server (TcpServer_new \<lparr>tcp_port = 1997, tls = \<lparr>serverKeyPath = ''key'', serverCertPath = ''cert''\<rparr>\<rparr>
        (tcp_handler (ref_platform True)))) ?evs \<lparr>nw_world = demo_server, nw_sessions = (\<lambda>_. None)\<rparr>"
  have "parse_text ''{'' = Inl Json_parse_error" by code_simp
  then have "parse True ref_json ''{'' = Inr None" by (simp add: parse_def ref_json_def)
  then have "tcp_handler (ref_platform True) ''{'' 2 demo_server = respond_with_error (ref_platform True) 2 ''Malformed JSON.'' demo_server"
    by (simp add: on_message_received_def tcp_handler_def del: demo_server_db)
  with respond_run(2) [of "ref_platform True" "''Malformed JSON.''" 2 demo_server] obtain w where
    "tcp_handler (ref_platform True) ''{'' 2 demo_server = (Inr (), w)" by auto
  then obtain n where n: "?run = Inr n"
    by (simp add: TcpServer_new_def SslServer_new_def CreateSession_def ClientSslSession_new_def onReceived_def
      Let_def del: demo_server_db)
  have "session_sends (w_trace demo_server) = []"
    by (simp add: demo_server_def demo_strophe_world_def wns_world.defs demo_wns_def)
  with every_chunk_answered_on_its_session [OF n] obtain as where
    "session_sends (w_trace (nw_world n)) = as" "map fst as = [2]" "list_all (is_answer (ref_platform True)) (map snd as)" by auto
  then obtain t where "session_sends (w_trace (nw_world n)) = [(2, t)]" "is_answer (ref_platform True) t"
    by (auto simp: map_eq_Cons_conv)
  with n show ?thesis by blast
qed

end
