(* ===== verification/Interleaving.thy ===== *)
theory Interleaving
  imports End_To_End
begin

text \<open>
  Two threads on one database: the messages of the clients are handled by the thread of the network
  library, the events of the XMPP server by the thread of the XMPP client, and neither holds a lock. Redis
  runs single commands atomically, so an update is the sequence of its commands and an event can be
  handled, or have read a part of what it needs, after any of them.
\<close>

section \<open>An update as its commands\<close>

definition in_sequence :: "('s, unit) M list \<Rightarrow> ('s, unit) M" where
  "in_sequence ms = foldr thenE ms (ret ())"

text \<open>The writing commands of \<^verbatim>\<open>RedisClient::set_channel_uri\<close>, once it has read the device's list.\<close>

definition uri_commands :: "'db redis_api \<Rightarrow> string \<Rightarrow> string \<Rightarrow> string list \<Rightarrow> ('db, unit) M list" where
  "uri_commands R deviceId channelUri keys =
     [if keys = [] then ret () else r_del R deviceId,
      r_rpush R deviceId (if keys = [] then [channelUri] else keys[0 := channelUri]),
      r_expire R deviceId DEFAULT_ENTRY_TIMEOUT]"

lemma in_sequence_simps [simp]:
  "in_sequence [] = ret ()" "in_sequence (m # ms) = thenE m (in_sequence ms)"
  by (simp_all add: in_sequence_def)

lemma thenE_ret: "thenE m (ret ()) = m"
  by (rule ext) (simp split: prod.split sum.split)

lemma set_channel_uri_commands:
  "redis_set_channel_uri R dev uri = bindE (r_lrange R dev 0 (- 1)) (\<lambda>keys. in_sequence (uri_commands R dev uri keys))"
  by (simp add: redis_set_channel_uri_def uri_commands_def thenE_ret)

text \<open>The state after \<open>k\<close> of the commands.\<close>

definition update_until :: "('j, 'db, 'e, 'st) platform \<Rightarrow> string \<Rightarrow> string \<Rightarrow> string list \<Rightarrow> nat \<Rightarrow>
    (('db, 'e, 'st, 'z) world_scheme, unit) M" where
  "update_until P dev uri keys k = on_db (in_sequence (take k (uri_commands (p_redis P) dev uri keys)))"

definition update_from :: "('j, 'db, 'e, 'st) platform \<Rightarrow> string \<Rightarrow> string \<Rightarrow> string list \<Rightarrow> nat \<Rightarrow>
    (('db, 'e, 'st, 'z) world_scheme, unit) M" where
  "update_from P dev uri keys k = on_db (in_sequence (drop k (uri_commands (p_redis P) dev uri keys)))"

lemma update_split: "thenE (update_until P dev uri keys k) (update_from P dev uri keys k) w
  = on_db (in_sequence (uri_commands (p_redis P) dev uri keys)) w"
proof -
  have "in_sequence (xs @ ys) d = thenE (in_sequence xs) (in_sequence ys) d" for xs ys :: "('db, unit) M list" and d
    by (induction xs arbitrary: d) (simp_all split: prod.split sum.split)
  from this [of "take k (uri_commands (p_redis P) dev uri keys)" "drop k (uri_commands (p_redis P) dev uri keys)" "w_db w"]
  show ?thesis by (simp add: update_until_def update_from_def split: prod.split sum.split)
qed

lemma update_whole:
  assumes "redis_server (p_redis P) view now" "view (w_db w) dev = Some (Rlist keys, t)"
  shows "thenE (update_until P dev uri keys k) (update_from P dev uri keys k) w = on_db (redis_set_channel_uri (p_redis P) dev uri) w"
  unfolding update_split set_channel_uri_commands using redis_server.lrange_run [OF assms(1), of "w_db w" dev] assms(2)
  by (simp add: no_string_def list_at_def)

text \<open>What the list of the device is in between.\<close>

lemma list_at_Cons: "list_at ks k = x # xs \<Longrightarrow> \<exists>t. ks k = Some (Rlist (x # xs), t)"
  by (auto simp: list_at_def split: option.splits prod.splits rvalue.splits)

lemma db_update_inject [simp]: "w\<lparr>w_db := a\<rparr> = w\<lparr>w_db := b\<rparr> \<longleftrightarrow> a = b"
proof
  assume "w\<lparr>w_db := a\<rparr> = w\<lparr>w_db := b\<rparr>"
  then have "w_db (w\<lparr>w_db := a\<rparr>) = w_db (w\<lparr>w_db := b\<rparr>)" by (rule arg_cong)
  then show "a = b" by simp
qed simp

lemma update_until_run:
  assumes "redis_server (p_redis P) view now" "view (w_db w) dev = Some (Rlist (old # rest), t)"
  shows "\<exists>d. update_until P dev uri (old # rest) k w = (Inr (), w\<lparr>w_db := d\<rparr>) \<and> (\<forall>x. x \<noteq> dev \<longrightarrow> view d x = view (w_db w) x)
    \<and> no_string (view d) dev
    \<and> list_at (view d) dev = (if k = 0 then old # rest else if k = 1 then [] else uri # rest)"
proof -
  note run = redis_server.del_run [OF assms(1)] redis_server.rpush_run [OF assms(1)] redis_server.expire_run [OF assms(1)]
  consider "k = 0" | "k = 1" | "k = 2" | "3 \<le> k" by linarith
  then show ?thesis
  proof cases
    case 1
    then show ?thesis using assms(2)
      by (intro exI [of _ "w_db w"]) (simp add: update_until_def no_string_def list_at_def)
  next
    case 2
    then show ?thesis
      by (simp add: update_until_def uri_commands_def run)
  next
    case 3
    then show ?thesis
      by (simp add: update_until_def uri_commands_def run numeral_2_eq_2 deadline_at_def)
  next
    case 4
    then show ?thesis
      by (simp add: update_until_def uri_commands_def run deadline_at_def DEFAULT_ENTRY_TIMEOUT_def)
  qed
qed

section \<open>Properties\<close>

text \<open>
  C22 (An event during an update). A client replaces the channel of its device while an event for one of
  the device's nodes is handled, after \<open>k\<close> of the commands of \<^verbatim>\<open>set_channel_uri\<close>. Before the first command
  the push goes to the old channel, after the second to the new one, for both versions of the protocol and on
  the whole way from the stanza to the notification; in between the device has no list, and
  the event is dropped: nothing is sent and nobody is told. The same holds for the two handlers of the server on
  their own, which the XMPP client can have chosen before.
\<close>

theorem event_during_uri_update:
  assumes "strophe_lib (p_strophe P)" "json_lib (p_json P)" "redis_server (p_redis P) view now" "xc_redis_set (w_xmpp w)"
    and "push_event (p_strophe P) (c_str (xc_jid (w_xmpp w))) nd notif stanza"
    and "view (w_db w) nd = Some (Rlist [acc, dev, sec], t)" "view (w_db w) dev = Some (Rlist (old # rest), t')" "nd \<noteq> dev"
    and "update_until P dev uri (old # rest) k w = (r, w1)"
  shows "r = Inr () \<and> thenE (update_until P dev uri (old # rest) k) (update_from P dev uri (old # rest) k) w
        = on_db (redis_set_channel_uri (p_redis P) dev uri) w
    \<and> (k = 1 \<longrightarrow> on_xmpp_message P stanza w1 = (Inr 1, w1))
    \<and> (k \<noteq> 1 \<and> (\<exists>hs. rest = ''2'' # hs) \<and> acc \<noteq> [] \<longrightarrow> delivers P (if k = 0 then old else uri) nd acc w1)
    \<and> (k \<noteq> 1 \<and> (\<exists>ver hs. rest = ver # hs \<and> ver \<noteq> ''2'')
       \<and> st_to_text (p_strophe P) (st_add_child (p_strophe P) notif (st_set_attribute (p_strophe P) ''id'' (c_str acc)
           (st_set_name (p_strophe P) ''account'' (st_new (p_strophe P))))) = Some msg \<longrightarrow>
       on_xmpp_message P stanza w1 = bindE (send_raw_notification P (if k = 0 then old else uri)
         (if length msg \<le> 4096 then msg else ''New message received!'')) (\<lambda>_. ret 1) w1)
    \<and> on_v1_message_for_node P nd msg w1 = (if k = 1 then (Inr (), w1)
        else bindE (send_raw_notification P (if k = 0 then old else uri) msg) (\<lambda>_. ret ()) w1)
    \<and> on_v2_message_for_node P nd acc mc psc w1 = (if k = 1 then (Inr (), w1)
        else bindE (liftR (bindR (PushMessage_to_json (p_asserts P) (p_json P) (PushMessage_new acc mc psc) (j_null (p_json P)))
            (j_dump (p_json P)))) (\<lambda>body. bindE (send_raw_notification P (if k = 0 then old else uri) body) (\<lambda>_. ret ())) w1)"
proof -
  let ?chan = "if k = 0 then old else uri"
  from update_until_run [OF assms(3,7), of uri k] assms(9) obtain d where d: "r = Inr ()" "w1 = w\<lparr>w_db := d\<rparr>"
    "view d nd = view (w_db w) nd" "no_string (view d) dev"
    "list_at (view d) dev = (if k = 0 then old # rest else if k = 1 then [] else uri # rest)"
    using assms(8) by auto
  have nd: "view (w_db w1) nd = Some (Rlist [acc, dev, sec], t)" using d(2,3) assms(6) by simp
  note n = node_registered [where ks = "view (w_db w1)", OF nd]
  have q: "get_device_id (p_redis P) nd (w_db w1) = (Inr (Some dev), w_db w1)"
    "get_channel_uri (p_redis P) dev (w_db w1) = (Inr (if k = 1 then None else Some ?chan), w_db w1)"
    using node_queries(2) [OF assms(3) n(3)] n(2) redis_server.get_channel_uri_run [OF assms(3), of "w_db w1" dev] d(2,4,5)
    by simp_all
  then have v1: "on_v1_message_for_node P nd m w1 = (if k = 1 then (Inr (), w1)
      else bindE (send_raw_notification P ?chan m) (\<lambda>_. ret ()) w1)" for m
    by (simp add: on_v1_message_for_node_def)
  from q have v2: "on_v2_message_for_node P nd acc mc psc w1 = (if k = 1 then (Inr (), w1)
      else bindE (liftR (bindR (PushMessage_to_json (p_asserts P) (p_json P) (PushMessage_new acc mc psc) (j_null (p_json P)))
          (j_dump (p_json P)))) (\<lambda>body. bindE (send_raw_notification P ?chan body) (\<lambda>_. ret ())) w1)"
    by (simp add: on_v2_message_for_node_def)
  have w1: "xc_redis_set (w_xmpp w1)" "push_event (p_strophe P) (c_str (xc_jid (w_xmpp w1))) nd notif stanza"
    using assms(4,5) d(2) by simp_all
  have dropped: "on_xmpp_message P stanza w1 = (Inr 1, w1)" if k: "k = 1"
  proof -
    have "\<not> speaks_v2 (view (w_db w1)) dev" "no_string (view (w_db w1)) dev" using d k by (simp_all add: speaks_v2_def)
    with message_handler_event [OF assms(3) w1, of "on_v1_message_for_node P" "on_v2_message_for_node P"] n v1 k
    show ?thesis by (simp add: on_xmpp_message_def send_v1_push_def Let_def split: option.split)
  qed
  have dev: "\<exists>t. view (w_db w1) dev = Some (Rlist (?chan # rest), t)" if "k \<noteq> 1"
    using list_at_Cons [of "view (w_db w1)" dev ?chan rest] d(2,5) that by auto
  have "delivers P ?chan nd acc w1" if "k \<noteq> 1" "rest = ''2'' # hs" "acc \<noteq> []" for hs
    using dev [OF that(1)] registered_delivers [OF assms(1-3) w1(1) nd] that(2,3) by auto
  moreover have "on_xmpp_message P stanza w1 = bindE (send_raw_notification P ?chan
      (if length msg \<le> 4096 then msg else ''New message received!'')) (\<lambda>_. ret 1) w1"
    if "k \<noteq> 1" "rest = ver # hs" "ver \<noteq> ''2''"
      "st_to_text (p_strophe P) (st_add_child (p_strophe P) notif (st_set_attribute (p_strophe P) ''id'' (c_str acc)
         (st_set_name (p_strophe P) ''account'' (st_new (p_strophe P))))) = Some msg" for ver hs
    using dev [OF that(1)] v1_push_sent [OF assms(3) w1 nd _ that(3,4)] that(2) by auto
  ultimately show ?thesis using d(1) v1 v2 dropped update_whole [OF assms(3,7), of uri k] by blast
qed

theorem event_during_uri_update_witness:
  "\<exists>w1 w2. update_until (ref_platform True) ''dev'' ''new'' [demo_uri, ''2'', ''h''] 1 (demo_registered ''2'') = (Inr (), w1)
     \<and> on_xmpp_message (ref_platform True) (demo_event ''push@example.org'' (demo_notification [])) w1 = (Inr 1, w1)
     \<and> update_until (ref_platform True) ''dev'' ''new'' [demo_uri, ''2'', ''h''] 2 (demo_registered ''2'') = (Inr (), w2)
     \<and> delivers (ref_platform True) ''new'' ''n1'' ''alice'' w2"
proof -
  obtain r w1 where run: "update_until (ref_platform True) ''dev'' ''new'' [demo_uri, ''2'', ''h''] 1 (demo_registered ''2'') = (r, w1)"
    by fastforce
  obtain r' w2 where run2: "update_until (ref_platform True) ''dev'' ''new'' [demo_uri, ''2'', ''h''] 2 (demo_registered ''2'') = (r', w2)"
    by fastforce
  note upd = event_during_uri_update [of "ref_platform True" rd_keys rd_now "demo_registered ''2''" "''n1''" "demo_notification []"
      "demo_event ''push@example.org'' (demo_notification [])" "''alice''" "''dev''" "''s1''" None demo_uri "[''2'', ''h'']" None "''new''"]
  have lib: "strophe_lib (p_strophe (ref_platform True))" "json_lib (p_json (ref_platform True))" "redis_server (p_redis (ref_platform True)) rd_keys rd_now"
    by (simp_all add: rst.strophe_lib_axioms rj.json_lib_axioms rr.redis_server_axioms)
  have ev: "push_event (p_strophe (ref_platform True)) (c_str (xc_jid (w_xmpp (demo_registered ''2'')))) ''n1'' (demo_notification [])
      (demo_event ''push@example.org'' (demo_notification []))" by (simp add: demo_push_event c_str_def)
  have world: "xc_redis_set (w_xmpp (demo_registered ''2''))"
    "rd_keys (w_db (demo_registered ''2'')) ''n1'' = Some (Rlist [''alice'', ''dev'', ''s1''], None)"
    "rd_keys (w_db (demo_registered ''2'')) ''dev'' = Some (Rlist [demo_uri, ''2'', ''h''], None)" "''n1'' \<noteq> ''dev''" by simp_all
  from upd [OF lib world(1) ev world(2-4) run] have 1: "r = Inr ()"
    "on_xmpp_message (ref_platform True) (demo_event ''push@example.org'' (demo_notification [])) w1 = (Inr 1, w1)" by simp_all
  from upd [OF lib world(1) ev world(2-4) run2] have 2: "r' = Inr ()" "delivers (ref_platform True) ''new'' ''n1'' ''alice'' w2"
    by simp_all
  from 1 2 run run2 show ?thesis by blast
qed

text \<open>
  Between the reads of one event. When the update deletes the list before the event's handler reads the
  version of the device, and writes it again before the handler reads the channel, a device of version 2 is
  sent the text that is meant for version 1.
\<close>

theorem version_lost_during_update:
  assumes "redis_server (p_redis P) view now" "xc_redis_set (w_xmpp w)"
    and "push_event (p_strophe P) (c_str (xc_jid (w_xmpp w))) nd notif stanza"
    and "view (w_db w) nd = Some (Rlist [acc, dev, sec], t)" "view (w_db w) dev = Some (Rlist (old # ''2'' # hs), t')" "nd \<noteq> dev"
    and "st_to_text (p_strophe P) (st_add_child (p_strophe P) notif (st_set_attribute (p_strophe P) ''id'' (c_str acc)
           (st_set_name (p_strophe P) ''account'' (st_new (p_strophe P))))) = Some msg"
    and "update_until P dev uri (old # ''2'' # hs) 1 w = (r, w1)" "update_from P dev uri (old # ''2'' # hs) 1 w1 = (r', w2)"
  shows "message_handler P (\<lambda>n m. thenE (update_from P dev uri (old # ''2'' # hs) 1) (on_v1_message_for_node P n m))
      (\<lambda>n a mc psc. thenE (update_from P dev uri (old # ''2'' # hs) 1) (on_v2_message_for_node P n a mc psc)) stanza w1
    = bindE (send_raw_notification P uri (if length msg \<le> 4096 then msg else ''New message received!'')) (\<lambda>_. ret 1) w2"
proof -
  let ?rest = "''2'' # hs" and ?m = "if length msg \<le> 4096 then msg else ''New message received!''"
  from update_until_run [OF assms(1,5), of uri 1] assms(6,8) obtain d where d: "w1 = w\<lparr>w_db := d\<rparr>"
    "view d nd = view (w_db w) nd" "no_string (view d) dev" "list_at (view d) dev = []" by auto
  from update_until_run [OF assms(1,5), of uri 3] update_split [of P dev uri "old # ?rest" 1 w] assms(6,8,9) obtain d2 where
    d2: "r' = Inr ()" "w2 = w\<lparr>w_db := d2\<rparr>" "view d2 nd = view (w_db w) nd" "no_string (view d2) dev" "list_at (view d2) dev = uri # ?rest"
    by (auto simp: update_until_def [of _ _ _ _ 3] uri_commands_def split: sum.splits prod.splits)
  have 1: "view (w_db w1) nd = Some (Rlist [acc, dev, sec], t)" "no_string (view (w_db w1)) dev" "\<not> speaks_v2 (view (w_db w1)) dev"
    using d assms(4) by (simp_all add: speaks_v2_def)
  have 2: "view (w_db w2) nd = Some (Rlist [acc, dev, sec], t)" using d2 assms(4) by simp
  note n = node_registered [where ks = "view (w_db w2)", OF 2]
  have "get_device_id (p_redis P) nd (w_db w2) = (Inr (Some dev), w_db w2)"
    "get_channel_uri (p_redis P) dev (w_db w2) = (Inr (Some uri), w_db w2)"
    using node_queries(2) [OF assms(1) n(3)] n(2) redis_server.get_channel_uri_run [OF assms(1), of "w_db w2" dev] d2 by simp_all
  then have v1: "on_v1_message_for_node P nd m w2 = bindE (send_raw_notification P uri m) (\<lambda>_. ret ()) w2" for m
    by (simp add: on_v1_message_for_node_def)
  have w1: "xc_redis_set (w_xmpp w1)" "push_event (p_strophe P) (c_str (xc_jid (w_xmpp w1))) nd notif stanza"
    using assms(2,3) d(1) by simp_all
  show ?thesis
    unfolding v1_event_forwarded [OF assms(1) w1 1 assms(7)] using assms(9) d2(1) v1 [of ?m] by (simp split: prod.split sum.split)
qed

end
