(* ===== verification/Races.thy ===== *)
theory Races
  imports Interleaving
begin

text \<open>
  Two more overlaps of the threads. The WNS client is shared by the thread of the push server, which renews the
  token, and by the handlers of messages and events, which use it; a registration of accounts is a long sequence
  of Redis commands during which events arrive.
\<close>

section \<open>Sending in two phases\<close>

text \<open>
  A notification first makes sure of a valid token and then, in another statement, follows the pointer to it.
  The check of the push server begins with the same phase, so it can run in between.
\<close>

definition ensure_token ::
  "('j, 'db, 'e, 'st) platform \<Rightarrow> (('db, 'e, 'st, 'z) wns_world_scheme, bool) M" where
  "ensure_token P = bindE (is_token_valid P) (\<lambda>valid. if valid then ret True else request_new_token P)"

definition use_token ::
  "('j, 'db, 'e, 'st) platform \<Rightarrow> string \<Rightarrow> string \<Rightarrow> bool \<Rightarrow> (('db, 'e, 'st, 'z) wns_world_scheme, bool) M" where
  "use_token P channelUri content ok = (if \<not> ok then ret False else
     bindE (getE (\<lambda>w. wns_tok (w_wns w))) (\<lambda>t.
     bindE (liftR (deref t)) (\<lambda>t.
     send_attempts P (notification_request channelUri content t) MAX_ATTEMPTS)))"

lemma send_in_phases: "send_raw_notification P uri content = bindE (ensure_token P) (use_token P uri content)"
  by (rule ext) (simp add: send_raw_notification_def ensure_token_def use_token_def split: prod.split sum.split)

lemma check_in_phases: "check_setup_wns P = bindE (ensure_token P) (\<lambda>ok. if ok then ret () else
    thenE (on_env (askE (sleep_ms (p_net P) 10000))) (bindE (request_new_token P) (\<lambda>ok. ret ())))"
  by (rule ext) (simp add: check_setup_wns_def ensure_token_def split: prod.split sum.split)

lemma store_token_keeps: "store_token_in_db P w = (r, w') \<Longrightarrow> wns_tok (w_wns w') = wns_tok (w_wns w)"
  by (auto simp: store_token_in_db_def need_redis_def assertE_def split: sum.splits prod.splits if_splits)

lemma request_new_token_holds:
  assumes "request_new_token P w = (Inr True, w')"
  shows "wns_tok (w_wns w') \<noteq> None"
proof -
  obtain response w1 where p: "post P (token_request (w_wns w)) w = (response, w1)" by fastforce
  then obtain a where a: "response = Inr a" using assms by (cases response) (simp_all add: request_new_token_def)
  obtain x w2 where x: "token_from_response P (resp_text a) w1 = (x, w2)" by fastforce
  from assms p a x obtain t where "store_token_in_db P (snd (set_token (Some t) w2)) = (Inr (), w')"
    by (auto simp: request_new_token_def split: sum.splits if_splits option.splits prod.splits)
  then show ?thesis using store_token_keeps by fastforce
qed

lemma ensure_token_holds:
  assumes "ensure_token P w = (Inr True, w')"
  shows "wns_tok (w_wns w') \<noteq> None"
proof -
  obtain v w1 where v: "is_token_valid P w = (v, w1)" by fastforce
  show ?thesis
  proof (cases "v = Inr True")
    case True
    then have "wns_tok (w_wns w) \<noteq> None" using v by (auto simp: is_token_valid_def split: option.splits)
    with True assms v is_token_valid_frame [OF v] show ?thesis by (simp add: ensure_token_def)
  next
    case False
    with assms v have "request_new_token P w1 = (Inr True, w')" by (auto simp: ensure_token_def split: sum.splits)
    then show ?thesis by (rule request_new_token_holds)
  qed
qed

section \<open>A registration as its commands\<close>

definition removal_commands :: "'db redis_api \<Rightarrow> string \<Rightarrow> string list \<Rightarrow> ('db, unit) M list" where
  "removal_commands R deviceId keys = (if keys = [] then [] else map (remove_account R) (drop 2 keys) @ [r_del R deviceId])"

definition account_commands :: "'db redis_api \<Rightarrow> 'e crypto_api \<Rightarrow> string \<Rightarrow> push_account \<Rightarrow> ('db, unit) M list" where
  "account_commands R C deviceId a = (let account = gen_account C deviceId (accountId a) in
     [r_set R account (node a), r_expire R account DEFAULT_ENTRY_TIMEOUT,
      r_rpush R (node a) [accountId a, deviceId, secret a], r_expire R (node a) DEFAULT_ENTRY_TIMEOUT])"

definition device_commands :: "'db redis_api \<Rightarrow> 'e crypto_api \<Rightarrow> string \<Rightarrow> string \<Rightarrow> string \<Rightarrow> push_account list \<Rightarrow> ('db, unit) M list" where
  "device_commands R C deviceId channelUri ver accounts =
     [r_del R deviceId, r_rpush R deviceId (channelUri # ver # map (\<lambda>a. gen_account C deviceId (accountId a)) accounts),
      r_expire R deviceId DEFAULT_ENTRY_TIMEOUT]"

definition registration_commands :: "'db redis_api \<Rightarrow> 'e crypto_api \<Rightarrow> string \<Rightarrow> string \<Rightarrow> string \<Rightarrow> push_account list \<Rightarrow>
    string list \<Rightarrow> ('db, unit) M list" where
  "registration_commands R C deviceId channelUri ver accounts keys = removal_commands R deviceId keys
     @ concat (map (account_commands R C deviceId) accounts) @ device_commands R C deviceId channelUri ver accounts"

lemma thenE_assoc: "thenE (thenE a b) c = thenE a (thenE b c)"
  by (rule ext) (simp split: prod.split sum.split)

lemma ret_thenE: "thenE (ret x) m = m"
  by (rule ext) simp

lemma in_sequence_append: "in_sequence (xs @ ys) = thenE (in_sequence xs) (in_sequence ys)"
  by (induction xs) (auto simp: fun_eq_iff split: prod.split sum.split)

lemma forE_in_sequence: "forE xs f = in_sequence (map f xs)"
  by (induction xs) simp_all

lemma store_account_commands: "store_account R C dev a = in_sequence (account_commands R C dev a)"
  by (simp add: store_account_def account_commands_def Let_def thenE_ret)

lemma in_sequence_concat: "in_sequence (map (\<lambda>x. in_sequence (f x)) xs) = in_sequence (concat (map f xs))"
  by (induction xs) (simp_all add: in_sequence_append)

lemma set_push_accounts_commands: "redis_set_push_accounts R C dev uri ver accounts
  = bindE (r_lrange R dev 0 (- 1)) (\<lambda>keys. in_sequence (registration_commands R C dev uri ver accounts keys))"
  unfolding redis_set_push_accounts_def store_account_commands forE_in_sequence in_sequence_concat
  by (rule arg_cong [where f = "bindE _"], rule ext)
    (simp add: registration_commands_def removal_commands_def device_commands_def in_sequence_append thenE_ret thenE_assoc ret_thenE)

text \<open>Until the device is written again, nothing else of the registration touches its key.\<close>

lemma keeps_in_sequence: "list_all (keeps I) ms \<Longrightarrow> keeps I (in_sequence ms)"
  by (induction ms) auto

lemma account_commands_keep:
  assumes "redis_server R view now" "node a \<noteq> dev" "gen_account C dev (accountId a) \<noteq> dev"
  shows "list_all (keeps (\<lambda>d. view d dev = None)) (account_commands R C dev a)"
proof -
  note run = redis_server.set_run [OF assms(1)] redis_server.expire_run [OF assms(1)]
  have p: "view (snd (r_rpush R (node a) vs d)) dev = None" if "view d dev = None" "vs \<noteq> []" for d vs
  proof (cases "no_string (view d) (node a)")
    case True
    with redis_server.rpush_cases [OF assms(1) this that(2)] that(1) assms(2) show ?thesis by auto
  next
    case False
    then obtain s t where "view d (node a) = Some (Rstr s, t)"
      by (auto simp: no_string_def)
    with redis_server.rpush_string [OF assms(1) this] that(1) show ?thesis by simp
  qed
  show ?thesis using assms(2,3) p by (simp add: account_commands_def Let_def keeps_def run ks_expire_def split: option.split)
qed

lemma registration_window:
  assumes "redis_server R view now" "\<forall>a\<in>set accounts. node a \<noteq> dev \<and> gen_account C dev (accountId a) \<noteq> dev"
    and "keys \<noteq> []" "length (drop 2 keys) < k" "k \<le> length (drop 2 keys) + 4 * length accounts + 2"
    and "in_sequence (take k (registration_commands R C dev uri ver accounts keys)) d = (r, d')"
  shows "view d' dev = None"
proof -
  define A B where "A = map (remove_account R) (drop 2 keys) @ [r_del R dev]"
    and "B = concat (map (account_commands R C dev) accounts) @ [r_del R dev]"
  let ?j = "k - length A"
  have lB: "length B = 4 * length accounts + 1"
    by (simp add: B_def length_concat comp_def account_commands_def Let_def sum_list_triv)
  have lA: "length A = Suc (length (drop 2 keys))" by (simp add: A_def)
  have "registration_commands R C dev uri ver accounts keys = A @ B @ tl (device_commands R C dev uri ver accounts)"
    using assms(3) by (simp add: registration_commands_def removal_commands_def device_commands_def A_def B_def)
  moreover have "length A \<le> k" "?j \<le> length B" using assms(4,5) lA lB by simp_all
  ultimately have t: "take k (registration_commands R C dev uri ver accounts keys) = A @ take ?j B" by simp
  obtain d1 where d1: "in_sequence A d = (Inr (), d1)" "view d1 dev = None"
    using redis_server.remove_accounts_run [OF assms(1), of "drop 2 keys" d] redis_server.del_run [OF assms(1)]
    by (auto simp: A_def in_sequence_append forE_in_sequence)
  have "list_all (keeps (\<lambda>d. view d dev = None)) B"
    using account_commands_keep [OF assms(1), of _ dev C] assms(2) redis_server.del_run [OF assms(1)]
    by (auto simp: B_def list_all_iff keeps_def)
  then have "keeps (\<lambda>d. view d dev = None) (in_sequence (take ?j B))"
    by (intro keeps_in_sequence) (auto simp: list_all_iff dest: in_set_takeD)
  moreover have "in_sequence (take ?j B) d1 = (r, d')" using assms(6) d1(1) by (simp add: t in_sequence_append)
  ultimately show ?thesis using d1(2) by (auto dest: keepsD)
qed

section \<open>Properties\<close>

text \<open>
  C38 (The token under a notification). Alone, a notification that gets past the check has a token. When another
  thread goes through the check in between and its renewal fails, the client may be left without a token: the
  notification then follows a null pointer. Otherwise it is sent with the token there is.
\<close>

theorem token_race:
  assumes "ensure_token P w = (Inr True, w1)" "ensure_token P w1 = (Inr ok, w2)"
  shows "send_raw_notification P uri content w = use_token P uri content True w1
    \<and> (\<exists>t. wns_tok (w_wns w1) = Some t
        \<and> use_token P uri content True w1 = send_attempts P (notification_request uri content t) MAX_ATTEMPTS w1)
    \<and> (case wns_tok (w_wns w2) of
         None \<Rightarrow> \<not> ok \<and> use_token P uri content True w2 = (Inl Undefined_behaviour, w2)
       | Some t \<Rightarrow> use_token P uri content True w2 = send_attempts P (notification_request uri content t) MAX_ATTEMPTS w2)"
proof -
  have "send_raw_notification P uri content w = use_token P uri content True w1" by (simp add: send_in_phases assms(1))
  moreover have "wns_tok (w_wns w1) \<noteq> None" "ok \<Longrightarrow> wns_tok (w_wns w2) \<noteq> None" using assms ensure_token_holds by auto
  ultimately show ?thesis by (auto simp: use_token_def deref_def split: option.split)
qed

text \<open>A clock that moves on by five seconds whenever it is read.\<close>

definition ticking_platform :: "(json, ref_db, ref_env, stanza) platform" where
  "ticking_platform = (ref_platform True)\<lparr>p_net := ref_net\<lparr>clock_now := (\<lambda>e. (re_clock e, e\<lparr>re_clock := re_clock e + 5000000000\<rparr>))\<rparr>\<rparr>"

theorem token_race_witness:
  "\<exists>w1 w2. ensure_token ticking_platform (demo_wns [status_response 200]) = (Inr True, w1)
     \<and> ensure_token ticking_platform w1 = (Inr False, w2)
     \<and> use_token ticking_platform ''u'' ''m'' True w2 = (Inl Undefined_behaviour, w2)"
proof -
  let ?w = "demo_wns [status_response 200]" and ?T = ticking_platform
  let ?w1 = "?w\<lparr>w_env := (w_env ?w)\<lparr>re_clock := 6000000000\<rparr>\<rparr>"
  have net: "clock_now (p_net ?T) e = (re_clock e, e\<lparr>re_clock := re_clock e + 5000000000\<rparr>)" "p_json ?T = ref_json"
    "http_post (p_net ?T) = http_post ref_net" for e
    by (simp_all add: ticking_platform_def)
  have 1: "ensure_token ?T ?w = (Inr True, ?w1)"
    by (simp add: ensure_token_def is_token_valid_def token_is_valid_def net demo_wns_defs)
  have "parse_text [] = Inl Json_parse_error" by code_simp
  moreover obtain r w2 where 2: "ensure_token ?T ?w1 = (r, w2)" by fastforce
  ultimately have "r = Inr False \<and> wns_tok (w_wns w2) = None"
    by (auto simp: ensure_token_def is_token_valid_def token_is_valid_def net demo_wns_defs request_new_token_def
        post_def token_from_response_def catch_parse_error_def ref_json_def)
  with 1 2 token_race [OF 1, of False w2 "''u''" "''m''"] show ?thesis by (intro exI conjI) auto
qed

text \<open>
  C32 (Events during a registration). From the moment \<^verbatim>\<open>set_push_accounts\<close> has deleted the list of the device until
  it writes it again, four commands for each account later, every event for a node of the device is
  dropped: nothing is sent and nobody is told.
\<close>

theorem event_during_registration:
  assumes "redis_server (p_redis P) view now" "view (w_db w) dev = Some (Rlist keys, t0)" "keys \<noteq> []"
    and "\<forall>a\<in>set accounts. node a \<noteq> dev \<and> gen_account (p_crypto P) dev (accountId a) \<noteq> dev"
    and "length (drop 2 keys) < k" "k \<le> length (drop 2 keys) + 4 * length accounts + 2"
    and "on_db (in_sequence (take k (registration_commands (p_redis P) (p_crypto P) dev uri ver accounts keys))) w = (r, w1)"
    and "view (w_db w1) nd = Some (Rlist [acc, dev, sec], t)"
  shows "on_db (redis_set_push_accounts (p_redis P) (p_crypto P) dev uri ver accounts) w
      = on_db (in_sequence (registration_commands (p_redis P) (p_crypto P) dev uri ver accounts keys)) w
    \<and> on_v1_message_for_node P nd msg w1 = (Inr (), w1) \<and> on_v2_message_for_node P nd acc mc psc w1 = (Inr (), w1)"
proof -
  have "view (w_db w1) dev = None"
    using assms(7) registration_window [OF assms(1,4,3,5,6)] by (auto split: prod.splits)
  then have "get_channel_uri (p_redis P) dev (w_db w1) = (Inr None, w_db w1)"
    using redis_server.get_channel_uri_run [OF assms(1), of "w_db w1" dev] by (simp add: no_string_def list_at_def)
  moreover have "get_device_id (p_redis P) nd (w_db w1) = (Inr (Some dev), w_db w1)"
    using redis_server.node_queries_run(2) [OF assms(1), of "w_db w1" nd] assms(8) by (simp add: no_string_def list_at_def)
  moreover have "r_lrange (p_redis P) dev 0 (- 1) (w_db w) = (Inr keys, w_db w)"
    using redis_server.lrange_run [OF assms(1), of "w_db w" dev] assms(2) by (simp add: no_string_def list_at_def)
  ultimately show ?thesis
    by (simp add: set_push_accounts_commands on_v1_message_for_node_def on_v2_message_for_node_def)
qed

theorem event_during_registration_witness:
  "\<exists>w1. on_db (in_sequence (take 5 (registration_commands ref_redis ref_crypto ''dev'' demo_uri ''2'' demo_accounts [demo_uri]))) demo_server
       = (Inr (), w1)
     \<and> rd_keys (w_db w1) ''n1'' \<noteq> None \<and> on_v2_message_for_node (ref_platform True) ''n1'' ''alice'' 1 0 w1 = (Inr (), w1)"
proof -
  let ?h = "gen_account ref_crypto ''dev'' ''alice''"
  have h: "?h \<noteq> ''dev''" "?h \<noteq> ''n1''" by (simp_all add: gen_account_not_short)
  let ?cs = "take 5 (registration_commands ref_redis ref_crypto ''dev'' demo_uri ''2'' demo_accounts [demo_uri])"
  have cs: "?cs = r_del ref_redis ''dev'' # account_commands ref_redis ref_crypto ''dev'' (hd demo_accounts)"
    by (simp add: registration_commands_def removal_commands_def account_commands_def Let_def demo_accounts_def eval_nat_numeral)
  obtain d where d: "in_sequence ?cs (w_db demo_server) = (Inr (), d)" "rd_keys d ''n1'' = Some (Rlist [''alice'', ''dev'', ''s1''], Some (rd_now d + DEFAULT_ENTRY_TIMEOUT))"
    unfolding cs using h by (simp add: account_commands_def Let_def demo_accounts_def ks_expire_def no_string_def list_at_def deadline_at_def
        DEFAULT_ENTRY_TIMEOUT_def)
  have run: "on_db (in_sequence ?cs) demo_server = (Inr (), demo_server\<lparr>w_db := d\<rparr>)" by (simp add: d(1) del: demo_server_db)
  have "on_v2_message_for_node (ref_platform True) ''n1'' ''alice'' 1 0 (demo_server\<lparr>w_db := d\<rparr>) = (Inr (), demo_server\<lparr>w_db := d\<rparr>)"
    using event_during_registration [of "ref_platform True" rd_keys rd_now demo_server "''dev''" "[demo_uri]" None demo_accounts 5
      demo_uri "''2''" "Inr ()" "demo_server\<lparr>w_db := d\<rparr>" "''n1''" "''alice''" "''s1''"
      "Some (rd_now d + DEFAULT_ENTRY_TIMEOUT)"] rr.redis_server_axioms h run d(2)
    by (simp add: demo_accounts_def)
  with run d(2) show ?thesis by (intro exI [of _ "demo_server\<lparr>w_db := d\<rparr>"]) simp
qed

end
