(* ===== verification/Unit_Tests.thy ===== *)
theory Unit_Tests
  imports Parser
begin

text \<open>
  The test cases of \<^verbatim>\<open>src/tests\<close> on the model, evaluated with the reference libraries in a build with
  assertions: \<open>Inr True\<close> is a test that passes, \<open>Inr False\<close> a failed \<^verbatim>\<open>REQUIRE\<close>, \<open>Inl Assert_failed\<close> an
  abort. The tests that serialise a message first pass. Those that parse a fixed text do not: the texts
  carry version 1 and are required to have the current version, which is 2, and two of them use field
  names the parser does not know. The loops over random texts look at the character after the last one.
\<close>

section \<open>Messages\<close>

fun msg_get_version :: "any_message \<Rightarrow> int" where
  "msg_get_version (Msg_SetChannelUri m) = version m"
| "msg_get_version (Msg_SetPushAccounts m) = version m"
| "msg_get_version (Msg_RequestTestPush m) = version m"
| "msg_get_version (Msg_Success m) = version m"
| "msg_get_version (Msg_SuccessSetPushAccounts m) = version m"
| "msg_get_version (Msg_Error m) = version m"

fun msg_get_action :: "any_message \<Rightarrow> string" where
  "msg_get_action (Msg_SetChannelUri m) = action m"
| "msg_get_action (Msg_SetPushAccounts m) = action m"
| "msg_get_action (Msg_RequestTestPush m) = action m"
| "msg_get_action (Msg_Success m) = action m"
| "msg_get_action (Msg_SuccessSetPushAccounts m) = action m"
| "msg_get_action (Msg_Error m) = action m"

text \<open>The checks all tests share, and those of the class.\<close>

definition required :: "string \<Rightarrow> message_type \<Rightarrow> (any_message \<Rightarrow> bool) \<Rightarrow> exn + any_message option \<Rightarrow> exn + bool" where
  "required act ty chk r = bindR r (\<lambda>m. Inr (case m of None \<Rightarrow> False
     | Some m \<Rightarrow> msg_is_valid m \<and> msg_get_action m = act \<and> msg_get_type m = ty \<and> msg_get_version m = VERSION \<and> chk m))"

definition serialized :: "bool \<Rightarrow> 'j json_api \<Rightarrow> any_message \<Rightarrow> exn + any_message option" where
  "serialized asserts J m = bindR (msg_to_json asserts J m (j_null J)) (\<lambda>j. bindR (j_dump J j) (parse asserts J))"

text \<open>A C++ literal, with \<open>~\<close> for the quotation mark; the white space between the lines is one space here.\<close>

definition quoted :: "string \<Rightarrow> string" where
  "quoted s = map (\<lambda>c. if c = CHR ''~'' then CHR 0x22 else c) s"

fun error_fields :: "string \<Rightarrow> any_message \<Rightarrow> bool" where
  "error_fields e (Msg_Error m) \<longleftrightarrow> err_text m = e \<and> status m = ERROR_STATUS"
| "error_fields e _ \<longleftrightarrow> False"

fun success_fields :: "any_message \<Rightarrow> bool" where
  "success_fields (Msg_Success m) \<longleftrightarrow> status m = SUCCESS_STATUS"
| "success_fields _ \<longleftrightarrow> False"

fun test_push_fields :: "string \<Rightarrow> any_message \<Rightarrow> bool" where
  "test_push_fields d (Msg_RequestTestPush m) \<longleftrightarrow> test_deviceId m = d"
| "test_push_fields d _ \<longleftrightarrow> False"

fun channel_fields :: "string \<Rightarrow> string \<Rightarrow> any_message \<Rightarrow> bool" where
  "channel_fields d u (Msg_SetChannelUri m) \<longleftrightarrow> uri_deviceId m = d \<and> uri_channelUri m = u"
| "channel_fields d u _ \<longleftrightarrow> False"

fun account_fields :: "string \<Rightarrow> string list \<Rightarrow> any_message \<Rightarrow> bool" where
  "account_fields d accs (Msg_SetPushAccounts m) \<longleftrightarrow> acc_deviceId m = d \<and> acc_accounts m = accs"
| "account_fields d accs _ \<longleftrightarrow> False"

fun registered_fields :: "string \<Rightarrow> push_account list \<Rightarrow> any_message \<Rightarrow> bool" where
  "registered_fields jid accs (Msg_SuccessSetPushAccounts m) \<longleftrightarrow> ssp_pushBareJid m = jid \<and> ssp_accounts m = accs"
| "registered_fields jid accs _ \<longleftrightarrow> False"

definition TEST_DEVICE :: string where
  "TEST_DEVICE = ''5486bd868050a620141f4e81c9f1d2c67ab0de27e5e26d218ca41c9394ee806b''"

definition TEST_URI :: string where
  "TEST_URI = ''ms-app://s-1-15-2-3598129719-3378870262-4208132049-182512184-2493220926-1891298429-4035237700''"

section \<open>Serializing and parsing\<close>

definition test_serialize_error :: "bool \<Rightarrow> 'j json_api \<Rightarrow> exn + bool" where
  "test_serialize_error asserts J = required ''response'' ERROR_RESPONSE_MESSAGE (error_fields ''SOME Error'')
     (serialized asserts J (Msg_Error (ErrorResponseMessage_new ''SOME Error'')))"

definition test_serialize_success :: "bool \<Rightarrow> 'j json_api \<Rightarrow> exn + bool" where
  "test_serialize_success asserts J = required ''response'' SUCCESS_RESPONSE_MESSAGE success_fields
     (serialized asserts J (Msg_Success SuccessResponseMessage_new))"

definition test_serialize_test_push :: "bool \<Rightarrow> 'j json_api \<Rightarrow> exn + bool" where
  "test_serialize_test_push asserts J = required ''request_test_push'' REQUEST_TEST_PUSH_MESSAGE (test_push_fields ''adawdafsefse'')
     (serialized asserts J (Msg_RequestTestPush (RequestTestPushMessage_new ''adawdafsefse'')))"

definition test_serialize_channel_uri :: "bool \<Rightarrow> 'j json_api \<Rightarrow> exn + bool" where
  "test_serialize_channel_uri asserts J = required ''set_channel_uri'' SET_CHANNEL_URI_MESSAGE (channel_fields ''adawdafsefse'' ''sersesfefes'')
     (serialized asserts J (Msg_SetChannelUri (SetChannelUriMessage_new ''sersesfefes'' ''adawdafsefse'')))"

definition test_serialize_accounts :: "bool \<Rightarrow> 'j json_api \<Rightarrow> exn + bool" where
  "test_serialize_accounts asserts J = required ''set_push_accounts'' SET_PUSH_ACCOUNT_MESSAGE (account_fields ''adawdafsefse'' [''a1'', ''a2''])
     (serialized asserts J (Msg_SetPushAccounts (SetPushAccountsMessage_new [''a1'', ''a2''] ''adawdafsefse'')))"

definition test_serialize_registered :: "bool \<Rightarrow> 'j json_api \<Rightarrow> exn + bool" where
  "test_serialize_registered asserts J =
     required ''response'' SUCCESS_SET_PUSH_ACCOUNT_MESSAGE (registered_fields ''adawdafsefse'' [PushAccount_new ''1'' ''2'' ''3'' True])
       (serialized asserts J (Msg_SuccessSetPushAccounts
         (SuccessSetPushAccountsMessage_new [PushAccount_new ''1'' ''2'' ''3'' True] ''adawdafsefse'')))"

lemma serialize_tests_pass:
  "test_serialize_error True ref_json = Inr True" "test_serialize_success True ref_json = Inr True"
  "test_serialize_test_push True ref_json = Inr True" "test_serialize_channel_uri True ref_json = Inr True"
  "test_serialize_accounts True ref_json = Inr True" "test_serialize_registered True ref_json = Inr True"
  by code_simp+

section \<open>Parsing fixed texts\<close>

definition test_parse_error :: "bool \<Rightarrow> 'j json_api \<Rightarrow> exn + bool" where
  "test_parse_error asserts J = required ''response'' ERROR_RESPONSE_MESSAGE (error_fields ''Some error message e.g. Invalid JSON format.'')
     (parse asserts J (quoted ''{~version~: 1, ~action~: ~response~, ~status~: 0, ~error~: ~Some error message e.g. Invalid JSON format.~}''))"

definition test_parse_success :: "bool \<Rightarrow> 'j json_api \<Rightarrow> exn + bool" where
  "test_parse_success asserts J = required ''response'' SUCCESS_RESPONSE_MESSAGE success_fields
     (parse asserts J (quoted ''{~version~: 1, ~action~: ~response~, ~status~: 1}''))"

definition test_parse_test_push :: "bool \<Rightarrow> 'j json_api \<Rightarrow> exn + bool" where
  "test_parse_test_push asserts J = required ''request_test_push'' REQUEST_TEST_PUSH_MESSAGE (test_push_fields TEST_DEVICE)
     (parse asserts J (quoted (''{~version~: 1, ~action~: ~request_test_push~, ~device_id~: ~'' @ TEST_DEVICE @ ''~}'')))"

definition test_parse_channel_uri :: "bool \<Rightarrow> 'j json_api \<Rightarrow> exn + bool" where
  "test_parse_channel_uri asserts J = required ''set_channel_uri'' SET_CHANNEL_URI_MESSAGE (channel_fields TEST_DEVICE TEST_URI)
     (parse asserts J (quoted (''{~version~: 1, ~action~: ~set_channel_uri~, ~device_id~: ~'' @ TEST_DEVICE
        @ ''~, ~channel_uri~: ~'' @ TEST_URI @ ''~}'')))"

definition test_parse_accounts :: "bool \<Rightarrow> 'j json_api \<Rightarrow> exn + bool" where
  "test_parse_accounts asserts J = required ''set_push_accounts'' SET_PUSH_ACCOUNT_MESSAGE
     (account_fields TEST_DEVICE [''someClient@xmpp.uwpx.org'', ''someOtherClient@xmpp.uwpx.org''])
     (parse asserts J (quoted (''{~version~: 1, ~action~: ~set_push_accounts~, ~device_id~: ~'' @ TEST_DEVICE
        @ ''~, ~accounts~: [{~bare_jid~: ~someClient@xmpp.uwpx.org~}, {~bare_jid~: ~someOtherClient@xmpp.uwpx.org~}]}'')))"

definition TEST_ACCOUNTS :: "push_account list" where
  "TEST_ACCOUNTS =
     [PushAccount_new ''DADBBB9327C711E4B626F7820FB299871D23D6020683BBD1E08D37E0246C7E90'' ''773bds9nf932'' ''sdf/82h)=1'' False,
      PushAccount_new ''16ECAB1875791E2B6ED0C9A6DAE5A12A79D92120E1C3AFBD3A9C8535CE44666D'' ''8w3rn0MB3m38z2'' ''j$o909mN87!n/0m'' True]"

definition test_parse_registered :: "bool \<Rightarrow> 'j json_api \<Rightarrow> exn + bool" where
  "test_parse_registered asserts J = required ''response'' SUCCESS_SET_PUSH_ACCOUNT_MESSAGE (registered_fields ''push@xmpp.uwpx.org'' TEST_ACCOUNTS)
     (parse asserts J (quoted (''{~version~: 1, ~action~: ~response~, ~status~: 1, ~push_bare_jid~: ~push@xmpp.uwpx.org~, ~accounts~: [''
        @ ''{~accountId~: ~DADBBB9327C711E4B626F7820FB299871D23D6020683BBD1E08D37E0246C7E90~, ~node~: ~773bds9nf932~, ~secret~: ~sdf/82h)=1~, ~success~: false}, ''
        @ ''{~accountId~: ~16ECAB1875791E2B6ED0C9A6DAE5A12A79D92120E1C3AFBD3A9C8535CE44666D~, ~node~: ~8w3rn0MB3m38z2~, ~secret~: ~j$o909mN87!n/0m~, ~success~: true}]}'')))"

lemma parse_tests_fail:
  "test_parse_error True ref_json = Inr False" "test_parse_success True ref_json = Inr False"
  "test_parse_test_push True ref_json = Inr False" "test_parse_channel_uri True ref_json = Inr False"
  by code_simp+

lemma parse_tests_abort:
  "test_parse_accounts True ref_json = Inl Assert_failed" "test_parse_registered True ref_json = Inl Assert_failed"
  by code_simp+

section \<open>Random texts\<close>

text \<open>
  One round of the loop in \<^verbatim>\<open>URL save random token\<close> and of the one in \<^verbatim>\<open>Secure random password\<close>: the inner
  loop runs over \<open>e\<close> but reads the character at \<open>i\<close>, the length of the text.
\<close>

definition random_text_round :: "nat \<Rightarrow> string \<Rightarrow> exn + bool" where
  "random_text_round i result = (if length result \<noteq> i then Inr False
     else bindR (string_at result i) (\<lambda>c. Inr (\<forall>e \<in> {0..<length result}. is_alnum c)))"

lemma random_text_round_fails: "0 < length result \<Longrightarrow> random_text_round (length result) result = Inr False"
  using alnum_not_nul by (auto simp: random_text_round_def string_at_def)

end
