(* ===== verification/Service_Thread.thy ===== *)
theory Service_Thread
  imports Prelude
begin

text \<open>
  The threads of the server. \<^verbatim>\<open>PushServer\<close>, \<^verbatim>\<open>TcpServer\<close>, \<^verbatim>\<open>XmppClient\<close> and \<^verbatim>\<open>IoThread\<close> each own one
  thread and share one protocol: a \<^verbatim>\<open>state\<close> member that both sides read and write, \<^verbatim>\<open>start()\<close> and \<^verbatim>\<open>stop()\<close>
  called by the owner, and a thread function. A run interleaves the statements of the owner and of the
  thread: each step evaluates one condition or executes one statement, and reads and writes of
  \<^verbatim>\<open>state\<close>, a plain enum in the sources, are taken as atomic. What is particular to a class (its thread
  function, what \<^verbatim>\<open>stop()\<close> does besides setting the state) is a record \<open>service_class\<close>.
\<close>

section \<open>The state\<close>

datatype thread_state = NOT_RUNNING | STARTING | RUNNING | STOP_REQUESTED | WAITING_FOR_JOIN

text \<open>Where the owner is: outside, in \<^verbatim>\<open>start()\<close> or in \<^verbatim>\<open>stop()\<close>, before the statement named.\<close>

datatype caller_pc =
    Idle
  | Start_set | Start_spawn
  | Stop_test | Stop_inner | Stop_set | Stop_signal | Stop_join | Stop_reset | Stop_clear

text \<open>
  \<open>sv_thread\<close>: the \<^verbatim>\<open>std::optional<std::thread>\<close>, with the position of the thread in its function;
  \<open>sv_ext\<close>: what else the owner and the thread share.
\<close>

record ('w, 'x) service =
  sv_state :: thread_state
  sv_thread :: "'w option"
  sv_caller :: caller_pc
  sv_ext :: 'x

text \<open>
  \<open>sc_run\<close>: the possible next steps of the thread function (none: it blocks or has returned); an
  exception or a failed assertion ends the process. \<open>sc_signal\<close>: what \<^verbatim>\<open>stop()\<close> does after setting the
  state. \<open>sc_env\<close>: steps of other threads the shared part has.
\<close>

record ('w, 'x) service_class =
  sc_asserts :: bool
  sc_entry :: 'w
  sc_done :: "'w \<Rightarrow> bool"
  sc_run :: "'w \<Rightarrow> thread_state \<Rightarrow> 'x \<Rightarrow> (exn + 'w \<times> thread_state \<times> 'x) list"
  sc_signal :: "'x \<Rightarrow> exn + 'x"
  sc_env :: "'x \<Rightarrow> (exn + 'x) list"

definition service_new :: "'x \<Rightarrow> ('w, 'x) service" where
  "service_new x = \<lparr>sv_state = NOT_RUNNING, sv_thread = None, sv_caller = Idle, sv_ext = x\<rparr>"

section \<open>Steps\<close>

text \<open>The calls of the owner. \<^verbatim>\<open>start()\<close> begins with its assertion.\<close>

definition call_start :: "('w, 'x) service_class \<Rightarrow> ('w, 'x) service \<Rightarrow> exn + ('w, 'x) service" where
  "call_start C s = bindR (assertR (sc_asserts C) (sv_state s = NOT_RUNNING)) (\<lambda>_. Inr (s\<lparr>sv_caller := Start_set\<rparr>))"

definition call_stop :: "('w, 'x) service \<Rightarrow> ('w, 'x) service" where
  "call_stop s = s\<lparr>sv_caller := Stop_test\<rparr>"

text \<open>
  The statements of \<^verbatim>\<open>start()\<close> and \<^verbatim>\<open>stop()\<close>. Assigning over a thread that was not joined calls
  \<^verbatim>\<open>std::terminate\<close>, which aborts as a failed assertion does, joining without a thread is undefined, and joining waits until the thread function returned.
\<close>

fun caller_step :: "('w, 'x) service_class \<Rightarrow> ('w, 'x) service \<Rightarrow> (exn + ('w, 'x) service) list" where
  "caller_step C s = (case sv_caller s of
     Idle \<Rightarrow> []
   | Start_set \<Rightarrow> [Inr (s\<lparr>sv_state := STARTING, sv_caller := Start_spawn\<rparr>)]
   | Start_spawn \<Rightarrow> [if sv_thread s = None then Inr (s\<lparr>sv_thread := Some (sc_entry C), sv_caller := Idle\<rparr>) else Inl Assert_failed]
   | Stop_test \<Rightarrow> [Inr (s\<lparr>sv_caller := if sv_state s \<in> {STARTING, RUNNING, WAITING_FOR_JOIN} then Stop_inner else Idle\<rparr>)]
   | Stop_inner \<Rightarrow> [Inr (s\<lparr>sv_caller := if sv_state s \<noteq> WAITING_FOR_JOIN then Stop_set else Stop_join\<rparr>)]
   | Stop_set \<Rightarrow> [Inr (s\<lparr>sv_state := STOP_REQUESTED, sv_caller := Stop_signal\<rparr>)]
   | Stop_signal \<Rightarrow> [bindR (sc_signal C (sv_ext s)) (\<lambda>x. Inr (s\<lparr>sv_ext := x, sv_caller := Stop_join\<rparr>))]
   | Stop_join \<Rightarrow> (case sv_thread s of None \<Rightarrow> [Inl Undefined_behaviour]
       | Some w \<Rightarrow> if sc_done C w then [Inr (s\<lparr>sv_caller := Stop_reset\<rparr>)] else [])
   | Stop_reset \<Rightarrow> [Inr (s\<lparr>sv_state := NOT_RUNNING, sv_caller := Stop_clear\<rparr>)]
   | Stop_clear \<Rightarrow> [Inr (s\<lparr>sv_thread := None, sv_caller := Idle\<rparr>)])"

definition thread_step :: "('w, 'x) service_class \<Rightarrow> ('w, 'x) service \<Rightarrow> (exn + ('w, 'x) service) list" where
  "thread_step C s = (case sv_thread s of None \<Rightarrow> []
   | Some w \<Rightarrow> map (\<lambda>r. bindR r (\<lambda>(w', st, x). Inr (s\<lparr>sv_state := st, sv_thread := Some w', sv_ext := x\<rparr>)))
       (sc_run C w (sv_state s) (sv_ext s)))"

definition env_step :: "('w, 'x) service_class \<Rightarrow> ('w, 'x) service \<Rightarrow> (exn + ('w, 'x) service) list" where
  "env_step C s = map (\<lambda>r. bindR r (\<lambda>x. Inr (s\<lparr>sv_ext := x\<rparr>))) (sc_env C (sv_ext s))"

text \<open>All steps, and those that are left when the owner starts nothing new.\<close>

definition internal_step :: "('w, 'x) service_class \<Rightarrow> ('w, 'x) service \<Rightarrow> (exn + ('w, 'x) service) list" where
  "internal_step C s = caller_step C s @ thread_step C s @ env_step C s"

inductive service_step :: "('w, 'x) service_class \<Rightarrow> ('w, 'x) service \<Rightarrow> exn + ('w, 'x) service \<Rightarrow> bool"
  for C :: "('w, 'x) service_class" where
  start: "sv_caller s = Idle \<Longrightarrow> service_step C s (call_start C s)"
| stop: "sv_caller s = Idle \<Longrightarrow> service_step C s (Inr (call_stop s))"
| internal: "r \<in> set (internal_step C s) \<Longrightarrow> service_step C s r"

inductive_cases service_stepE: "service_step C s r"

inductive reachable :: "('w, 'x) service_class \<Rightarrow> 'x \<Rightarrow> ('w, 'x) service \<Rightarrow> bool"
  for C :: "('w, 'x) service_class" and x0 :: 'x where
  initial: "reachable C x0 (service_new x0)"
| step: "reachable C x0 s \<Longrightarrow> service_step C s (Inr s') \<Longrightarrow> reachable C x0 s'"

text \<open>A run of \<open>n\<close> steps during which the owner stays inside its call.\<close>

fun busy_run :: "('w, 'x) service_class \<Rightarrow> nat \<Rightarrow> ('w, 'x) service \<Rightarrow> ('w, 'x) service \<Rightarrow> bool" where
  "busy_run C 0 s t \<longleftrightarrow> s = t"
| "busy_run C (Suc n) s t \<longleftrightarrow> sv_caller s \<noteq> Idle \<and> (\<exists>u. service_step C s (Inr u) \<and> busy_run C n u t)"

text \<open>A schedule for executing the model: the number of the internal step to take.\<close>

fun run_schedule :: "('w, 'x) service_class \<Rightarrow> nat list \<Rightarrow> ('w, 'x) service \<Rightarrow> exn + ('w, 'x) service" where
  "run_schedule C [] s = Inr s"
| "run_schedule C (i # is) s = (if i < length (internal_step C s)
     then bindR (internal_step C s ! i) (run_schedule C is) else Inr s)"

text \<open>The destructors assert that the service was stopped.\<close>

definition service_destroy :: "bool \<Rightarrow> ('w, 'x) service \<Rightarrow> exn + unit" where
  "service_destroy asserts s = assertR asserts (sv_state s = NOT_RUNNING)"

section \<open>The classes\<close>

subsection \<open>TcpServer\<close>

text \<open>The shared part: the server is listening.\<close>

datatype tcp_pc = T_entry | T_test | T_running | T_start | T_loop | T_sleep | T_stop | T_finish | T_done

fun tcp_threadRun :: "bool \<Rightarrow> tcp_pc \<Rightarrow> thread_state \<Rightarrow> bool \<Rightarrow> (exn + tcp_pc \<times> thread_state \<times> bool) list" where
  "tcp_threadRun asserts T_entry st l =
     [bindR (assertR asserts (st = STARTING \<or> st = STOP_REQUESTED)) (\<lambda>_. Inr (T_test, st, l))]"
| "tcp_threadRun asserts T_test st l = [Inr (if st \<noteq> STARTING then T_done else T_running, st, l)]"
| "tcp_threadRun asserts T_running st l = [Inr (T_start, RUNNING, l)]"
| "tcp_threadRun asserts T_start st l = [Inr (T_loop, st, True)]"
| "tcp_threadRun asserts T_loop st l = [Inr (if st = RUNNING then T_sleep else T_stop, st, l)]"
| "tcp_threadRun asserts T_sleep st l = [Inr (T_loop, st, l)]"
| "tcp_threadRun asserts T_stop st l = [Inr (T_finish, st, False)]"
| "tcp_threadRun asserts T_finish st l = [Inr (T_done, WAITING_FOR_JOIN, l)]"
| "tcp_threadRun asserts T_done st l = []"

definition TcpServer :: "bool \<Rightarrow> (tcp_pc, bool) service_class" where
  "TcpServer asserts = \<lparr>sc_asserts = asserts, sc_entry = T_entry, sc_done = (\<lambda>w. w = T_done),
     sc_run = tcp_threadRun asserts, sc_signal = Inr, sc_env = (\<lambda>_. [])\<rparr>"

subsection \<open>XmppClient\<close>

text \<open>
  The shared part: the context is not null, and its event loop was told to stop. \<^verbatim>\<open>xmpp_run\<close> returns when
  the loop was stopped, by \<^verbatim>\<open>stop()\<close> or by the connection handler when the connection is lost.
\<close>

record xmpp_shared =
  xs_ctx :: bool
  xs_stop :: bool

datatype xmpp_pc = X_entry | X_test | X_running | X_setup | X_loop | X_connect | X_run | X_wait nat
  | X_cleanup | X_finish | X_done

fun xmpp_thread_run :: "bool \<Rightarrow> xmpp_pc \<Rightarrow> thread_state \<Rightarrow> xmpp_shared \<Rightarrow> (exn + xmpp_pc \<times> thread_state \<times> xmpp_shared) list" where
  "xmpp_thread_run asserts X_entry st x =
     [bindR (assertR asserts (st = STARTING \<or> st = STOP_REQUESTED)) (\<lambda>_. Inr (X_test, st, x))]"
| "xmpp_thread_run asserts X_test st x = [Inr (if st \<noteq> STARTING then X_done else X_running, st, x)]"
| "xmpp_thread_run asserts X_running st x = [Inr (X_setup, RUNNING, x)]"
| "xmpp_thread_run asserts X_setup st x = [Inr (X_loop, st, x\<lparr>xs_ctx := True\<rparr>)]"
| "xmpp_thread_run asserts X_loop st x = [Inr (if st = RUNNING then X_connect else X_cleanup, st, x)]"
| "xmpp_thread_run asserts X_connect st x = [Inr (X_run, st, x\<lparr>xs_stop := False\<rparr>)]"
| "xmpp_thread_run asserts X_run st x =
     (if xs_stop x then [Inr (X_wait 0, st, x)] else [Inr (X_run, st, x\<lparr>xs_stop := True\<rparr>)])"
| "xmpp_thread_run asserts (X_wait i) st x = [Inr (if i < 20 \<and> st = RUNNING then X_wait (Suc i) else X_loop, st, x)]"
| "xmpp_thread_run asserts X_cleanup st x =
     [bindR (assertR asserts (xs_ctx x)) (\<lambda>_. if xs_ctx x then Inr (X_finish, st, x\<lparr>xs_ctx := False\<rparr>) else Inl Undefined_behaviour)]"
| "xmpp_thread_run asserts X_finish st x = [Inr (X_done, WAITING_FOR_JOIN, x)]"
| "xmpp_thread_run asserts X_done st x = []"

definition xmpp_shared_new :: xmpp_shared where
  "xmpp_shared_new = \<lparr>xs_ctx = False, xs_stop = False\<rparr>"

text \<open>\<^verbatim>\<open>xmpp_stop(ctx)\<close> needs a context.\<close>

definition xmpp_stop :: "xmpp_shared \<Rightarrow> exn + xmpp_shared" where
  "xmpp_stop x = (if xs_ctx x then Inr (x\<lparr>xs_stop := True\<rparr>) else Inl Undefined_behaviour)"

definition XmppClient :: "bool \<Rightarrow> (xmpp_pc, xmpp_shared) service_class" where
  "XmppClient asserts = \<lparr>sc_asserts = asserts, sc_entry = X_entry, sc_done = (\<lambda>w. w = X_done),
     sc_run = xmpp_thread_run asserts, sc_signal = xmpp_stop, sc_env = (\<lambda>_. [])\<rparr>"

subsection \<open>IoThread\<close>

text \<open>
  The shared part: the scheduler of the command line was stopped. The exit command sets the state and
  stops the scheduler, the other commands print a line.
\<close>

datatype io_pc = I_entry | I_test | I_running | I_menus | I_run | I_exit | I_finish | I_done

fun io_threadRun :: "bool \<Rightarrow> io_pc \<Rightarrow> thread_state \<Rightarrow> bool \<Rightarrow> (exn + io_pc \<times> thread_state \<times> bool) list" where
  "io_threadRun asserts I_entry st x =
     [bindR (assertR asserts (st = STARTING \<or> st = STOP_REQUESTED)) (\<lambda>_. Inr (I_test, st, x))]"
| "io_threadRun asserts I_test st x = [Inr (if st \<noteq> STARTING then I_done else I_running, st, x)]"
| "io_threadRun asserts I_running st x = [Inr (I_menus, RUNNING, x)]"
| "io_threadRun asserts I_menus st x = [Inr (I_run, st, x)]"
| "io_threadRun asserts I_run st x =
     (if x then [Inr (I_finish, st, x)] else [Inr (I_run, st, x), Inr (I_exit, STOP_REQUESTED, x)])"
| "io_threadRun asserts I_exit st x = [Inr (I_run, st, True)]"
| "io_threadRun asserts I_finish st x = [Inr (I_done, WAITING_FOR_JOIN, x)]"
| "io_threadRun asserts I_done st x = []"

definition IoThread :: "bool \<Rightarrow> (io_pc, bool) service_class" where
  "IoThread asserts = \<lparr>sc_asserts = asserts, sc_entry = I_entry, sc_done = (\<lambda>w. w = I_done),
     sc_run = io_threadRun asserts, sc_signal = (\<lambda>_. Inr True), sc_env = (\<lambda>_. [])\<rparr>"

subsection \<open>PushServer\<close>

text \<open>
  The server's thread owns the TCP server and the XMPP client; their threads run beside it, and it is
  inside one of their calls while their caller is not idle. \<open>ps_redis\<close>: the Redis connection was opened.
  \<open>P_init\<close> opens it, which asserts that it is the first time, and loads the token; \<open>P_check\<close> stands for
  \<^verbatim>\<open>check_setup_wns()\<close>. What they do besides is in the theories of the clients and of the server.
\<close>

record push_shared =
  ps_redis :: bool
  ps_tcp :: "(tcp_pc, bool) service"
  ps_xmpp :: "(xmpp_pc, xmpp_shared) service"

datatype push_pc = P_entry | P_test | P_running | P_init | P_tcp_start | P_xmpp_start | P_started
  | P_loop | P_check | P_sleep | P_tcp_stop | P_xmpp_stop | P_stopped | P_finish | P_done

text \<open>A call goes through once the earlier call on the same object has returned.\<close>

definition when_idle :: "('w, 'x) service \<Rightarrow> (exn + 'a) \<Rightarrow> (exn + 'a) list" where
  "when_idle s r = (if sv_caller s = Idle then [r] else [])"

fun push_thread_run :: "bool \<Rightarrow> push_pc \<Rightarrow> thread_state \<Rightarrow> push_shared \<Rightarrow> (exn + push_pc \<times> thread_state \<times> push_shared) list" where
  "push_thread_run asserts P_entry st x =
     [bindR (assertR asserts (st = STARTING \<or> st = STOP_REQUESTED)) (\<lambda>_. Inr (P_test, st, x))]"
| "push_thread_run asserts P_test st x = [Inr (if st \<noteq> STARTING then P_done else P_running, st, x)]"
| "push_thread_run asserts P_running st x = [Inr (P_init, RUNNING, x)]"
| "push_thread_run asserts P_init st x =
     [bindR (assertR asserts (\<not> ps_redis x)) (\<lambda>_. Inr (P_tcp_start, st, x\<lparr>ps_redis := True\<rparr>))]"
| "push_thread_run asserts P_tcp_start st x =
     [bindR (call_start (TcpServer asserts) (ps_tcp x)) (\<lambda>t. Inr (P_xmpp_start, st, x\<lparr>ps_tcp := t\<rparr>))]"
| "push_thread_run asserts P_xmpp_start st x = when_idle (ps_tcp x)
     (bindR (call_start (XmppClient asserts) (ps_xmpp x)) (\<lambda>c. Inr (P_started, st, x\<lparr>ps_xmpp := c\<rparr>)))"
| "push_thread_run asserts P_started st x = when_idle (ps_xmpp x) (Inr (P_loop, st, x))"
| "push_thread_run asserts P_loop st x = [Inr (if st = RUNNING then P_check else P_tcp_stop, st, x)]"
| "push_thread_run asserts P_check st x = [Inr (P_sleep, st, x)]"
| "push_thread_run asserts P_sleep st x = [Inr (P_loop, st, x)]"
| "push_thread_run asserts P_tcp_stop st x = [Inr (P_xmpp_stop, st, x\<lparr>ps_tcp := call_stop (ps_tcp x)\<rparr>)]"
| "push_thread_run asserts P_xmpp_stop st x = when_idle (ps_tcp x) (Inr (P_stopped, st, x\<lparr>ps_xmpp := call_stop (ps_xmpp x)\<rparr>))"
| "push_thread_run asserts P_stopped st x = when_idle (ps_xmpp x) (Inr (P_finish, st, x))"
| "push_thread_run asserts P_finish st x = [Inr (P_done, WAITING_FOR_JOIN, x)]"
| "push_thread_run asserts P_done st x = []"

definition push_env :: "bool \<Rightarrow> push_shared \<Rightarrow> (exn + push_shared) list" where
  "push_env asserts x =
     map (\<lambda>r. bindR r (\<lambda>t. Inr (x\<lparr>ps_tcp := t\<rparr>))) (internal_step (TcpServer asserts) (ps_tcp x))
     @ map (\<lambda>r. bindR r (\<lambda>c. Inr (x\<lparr>ps_xmpp := c\<rparr>))) (internal_step (XmppClient asserts) (ps_xmpp x))"

definition PushServer :: "bool \<Rightarrow> (push_pc, push_shared) service_class" where
  "PushServer asserts = \<lparr>sc_asserts = asserts, sc_entry = P_entry, sc_done = (\<lambda>w. w = P_done),
     sc_run = push_thread_run asserts, sc_signal = Inr, sc_env = push_env asserts\<rparr>"

definition push_shared_new :: push_shared where
  "push_shared_new = \<lparr>ps_redis = False, ps_tcp = service_new False, ps_xmpp = service_new xmpp_shared_new\<rparr>"

end
