(* ===== verification/Service_Correct.thy ===== *)
theory Service_Correct
  imports Service_Thread
begin

text \<open>
  Properties of the threads. Every thread function goes through the same phases; the locale
  \<open>service_worker\<close> says that a class does, and holds what follows for the owner and the thread
  together. All four classes are interpretations of it.
\<close>

section \<open>Runs\<close>

lemma internal_reachable:
  "reachable C x0 s \<Longrightarrow> Inr t \<in> set (internal_step C s) \<Longrightarrow> reachable C x0 t"
  by (rule reachable.step) (auto intro: service_step.internal)

lemma start_reachable: "reachable C x0 s \<Longrightarrow> sv_caller s = Idle \<Longrightarrow> call_start C s = Inr t \<Longrightarrow> reachable C x0 t"
  by (metis reachable.step service_step.start)

lemma stop_reachable: "reachable C x0 s \<Longrightarrow> sv_caller s = Idle \<Longrightarrow> reachable C x0 (call_stop s)"
  by (metis reachable.step service_step.stop)

lemma schedule_reachable:
  "reachable C x0 s \<Longrightarrow> run_schedule C sched s = Inr t \<Longrightarrow> reachable C x0 t"
proof (induction sched arbitrary: s)
  case (Cons i sched)
  then show ?case
    by (auto simp: bindR_eq_Inr split: if_splits intro: internal_reachable)
       (metis internal_reachable nth_mem)
qed simp

lemma schedule_steps:
  "run_schedule C sched s = Inr t \<Longrightarrow> (\<lambda>a b. service_step C a (Inr b))\<^sup>*\<^sup>* s t"
proof (induction sched arbitrary: s)
  case (Cons i sched)
  show ?case
  proof (cases "i < length (internal_step C s)")
    case True
    with Cons.prems obtain u where u: "internal_step C s ! i = Inr u" "run_schedule C sched u = Inr t"
      by (auto simp: bindR_eq_Inr)
    from True u(1) have "service_step C s (Inr u)" by (metis nth_mem service_step.internal)
    with Cons.IH [OF u(2)] show ?thesis by (simp add: converse_rtranclp_into_rtranclp)
  qed (use Cons.prems in auto)
qed simp

lemma thread_stepE:
  assumes "Inr t \<in> set (thread_step C s)"
  obtains w w' st' x' where "sv_thread s = Some w" "Inr (w', st', x') \<in> set (sc_run C w (sv_state s) (sv_ext s))"
    "t = s\<lparr>sv_state := st', sv_thread := Some w', sv_ext := x'\<rparr>"
  using assms by (cases "sv_thread s") (auto simp: thread_step_def Inr_eq_bindR)

lemma env_stepE:
  assumes "Inr t \<in> set (env_step C s)"
  obtains x where "Inr x \<in> set (sc_env C (sv_ext s))" "t = s\<lparr>sv_ext := x\<rparr>"
  using assms by (auto simp: env_step_def Inr_eq_bindR)

lemma internal_stepE:
  assumes "r \<in> set (internal_step C s)"
  obtains "r \<in> set (caller_step C s)" | "r \<in> set (thread_step C s)" | "r \<in> set (env_step C s)"
  using assms by (auto simp: internal_step_def simp del: caller_step.simps)

lemma busy_stepE:
  assumes "service_step C s (Inr u)" "sv_caller s \<noteq> Idle"
  obtains "Inr u \<in> set (caller_step C s)" | "Inr u \<in> set (thread_step C s)" | "Inr u \<in> set (env_step C s)"
  using assms by (auto simp: internal_step_def simp del: caller_step.simps elim!: service_stepE)

lemma caller_service_step: "r \<in> set (caller_step C s) \<Longrightarrow> service_step C s r"
  by (rule service_step.internal) (simp add: internal_step_def del: caller_step.simps)

lemma thread_service_step: "r \<in> set (thread_step C s) \<Longrightarrow> service_step C s r"
  by (rule service_step.internal) (simp add: internal_step_def del: caller_step.simps)

text \<open>Runs whose every step decreases a measure are short, and end when the call returns.\<close>

lemma busy_run_bound:
  assumes step: "\<And>s u. I s \<Longrightarrow> sv_caller s \<noteq> Idle \<Longrightarrow> service_step C s (Inr u) \<Longrightarrow> I u \<and> m u < (m s :: nat)"
    and progress: "\<And>s. I s \<Longrightarrow> sv_caller s \<noteq> Idle \<Longrightarrow> \<exists>u. service_step C s (Inr u)"
    and start: "I s" and run: "busy_run C n s t"
  shows "n + m t \<le> m s \<and> I t \<and> (sv_caller t \<noteq> Idle \<longrightarrow> (\<exists>u. service_step C t (Inr u)))"
  using start run
proof (induction n arbitrary: s)
  case 0
  then show ?case using progress by auto
next
  case (Suc n)
  from Suc.prems obtain u where u: "sv_caller s \<noteq> Idle" "service_step C s (Inr u)" "busy_run C n u t" by auto
  with step Suc.prems have "I u" "m u < m s" by blast+
  with Suc.IH u show ?case by fastforce
qed

section \<open>Phases\<close>

datatype phase = Entering | Testing | Setting | Working | Leaving | Returned

text \<open>
  What a step of a thread function may do to its phase and to the state. \<open>own_stop\<close>: the thread may end
  its work by itself (the exit command of the command line).
\<close>

fun phase_step :: "bool \<Rightarrow> phase \<Rightarrow> thread_state \<Rightarrow> (phase \<times> thread_state) list" where
  "phase_step own_stop Entering st = [(Testing, st)]"
| "phase_step own_stop Testing st = [(if st = STARTING then Setting else Returned, st)]"
| "phase_step own_stop Setting st = [(Working, RUNNING)]"
| "phase_step own_stop Working st = (Working, st)
     # (if own_stop then [(Working, STOP_REQUESTED)] else [])
     @ (if own_stop \<or> st \<noteq> RUNNING then [(Leaving, st)] else [])"
| "phase_step own_stop Leaving st = [(Leaving, st), (Returned, WAITING_FOR_JOIN)]"
| "phase_step own_stop Returned st = []"

text \<open>The states the owner and the thread can be in together, by where the owner is.\<close>

fun together :: "bool \<Rightarrow> caller_pc \<Rightarrow> phase option \<Rightarrow> thread_state \<Rightarrow> bool" where
  "together own_stop c None st \<longleftrightarrow> c \<in> {Idle, Stop_test, Start_set} \<and> st = NOT_RUNNING \<or> c = Start_spawn \<and> st = STARTING"
| "together own_stop c (Some ph) st \<longleftrightarrow> (case c of
     Start_set \<Rightarrow> False
   | Start_spawn \<Rightarrow> False
   | Stop_clear \<Rightarrow> ph = Returned \<and> st = NOT_RUNNING
   | Stop_reset \<Rightarrow> ph = Returned \<and> st \<in> {STOP_REQUESTED, WAITING_FOR_JOIN}
   | _ \<Rightarrow> if c \<in> {Stop_signal, Stop_join} then
         ph \<in> {Entering, Testing, Setting} \<and> st = STOP_REQUESTED
       \<or> ph = Working \<and> st \<in> {RUNNING, STOP_REQUESTED}
       \<or> ph = Leaving \<and> (st = STOP_REQUESTED \<or> own_stop \<and> st = RUNNING)
       \<or> ph = Returned \<and> st \<in> {STOP_REQUESTED, WAITING_FOR_JOIN}
     else
         ph \<in> {Entering, Testing, Setting} \<and> st = STARTING
       \<or> ph = Working \<and> (st = RUNNING \<or> own_stop \<and> st = STOP_REQUESTED)
       \<or> own_stop \<and> (ph = Leaving \<and> st \<in> {RUNNING, STOP_REQUESTED} \<or> ph = Returned \<and> st = WAITING_FOR_JOIN))"

lemma together_thread_step:
  "together own c (Some ph) st \<Longrightarrow> (ph', st') \<in> set (phase_step own ph st) \<Longrightarrow> together own c (Some ph') st'"
  by (cases ph; cases c; auto split: if_splits)

text \<open>The changes of the state that everybody sees, for a thread that only the owner stops.\<close>

inductive lifecycle :: "thread_state \<Rightarrow> thread_state \<Rightarrow> bool" where
  "lifecycle NOT_RUNNING STARTING"
| "lifecycle STARTING RUNNING"
| "lifecycle STARTING STOP_REQUESTED"
| "lifecycle RUNNING STOP_REQUESTED"
| "lifecycle STOP_REQUESTED RUNNING"
| "lifecycle STOP_REQUESTED WAITING_FOR_JOIN"
| "lifecycle STOP_REQUESTED NOT_RUNNING"
| "lifecycle WAITING_FOR_JOIN NOT_RUNNING"

code_pred lifecycle .

inductive_simps lifecycle_from: "lifecycle NOT_RUNNING st" "lifecycle STARTING st" "lifecycle RUNNING st"
  "lifecycle STOP_REQUESTED st" "lifecycle WAITING_FOR_JOIN st"

lemma phase_step_lifecycle:
  "together False c (Some ph) st \<Longrightarrow> (ph', st') \<in> set (phase_step False ph st) \<Longrightarrow> st' = st \<or> lifecycle st st'"
  by (cases ph; cases c; auto simp: lifecycle_from split: if_splits)

text \<open>How an object that owns a service sees it: off, being started, on, being stopped.\<close>

definition quiet :: "('w, 'x) service \<Rightarrow> bool" where
  "quiet s \<longleftrightarrow> sv_caller s = Idle \<and> sv_state s = NOT_RUNNING \<and> sv_thread s = None"

definition live :: "('w, 'x) service \<Rightarrow> bool" where
  "live s \<longleftrightarrow> sv_caller s = Idle \<and> sv_thread s \<noteq> None"

definition starting :: "('w, 'x) service \<Rightarrow> bool" where
  "starting s \<longleftrightarrow> sv_caller s \<in> {Start_set, Start_spawn} \<or> live s"

definition in_stop :: "caller_pc \<Rightarrow> bool" where
  "in_stop c \<longleftrightarrow> c \<in> {Stop_test, Stop_inner, Stop_set, Stop_signal, Stop_join, Stop_reset, Stop_clear}"

definition stopping :: "('w, 'x) service \<Rightarrow> bool" where
  "stopping s \<longleftrightarrow> in_stop (sv_caller s) \<or> quiet s"

lemmas service_views = quiet_def live_def starting_def stopping_def in_stop_def

lemma idle_starting: "starting s \<Longrightarrow> sv_caller s = Idle \<Longrightarrow> live s"
  and idle_stopping: "stopping s \<Longrightarrow> sv_caller s = Idle \<Longrightarrow> quiet s"
  by (auto simp: service_views)

lemma quiet_idle: "quiet s \<Longrightarrow> sv_caller s = Idle"
  and live_idle: "live s \<Longrightarrow> sv_caller s = Idle"
  and in_stop_busy: "in_stop (sv_caller s) \<Longrightarrow> \<not> quiet s \<and> \<not> live s \<and> \<not> starting s"
  by (auto simp: service_views)

lemma quiet_start: "quiet s \<Longrightarrow> \<exists>t. call_start C s = Inr t \<and> starting t"
  by (simp add: call_start_def service_views)

lemma live_stop: "live s \<Longrightarrow> stopping (call_stop s)"
  by (simp add: call_stop_def service_views)

locale service_worker =
  fixes C :: "('w, 'x) service_class" and own_stop :: bool and phase :: "'w \<Rightarrow> phase"
  assumes asserts: "sc_asserts C"
    and entry: "phase (sc_entry C) = Entering"
    and returned: "sc_done C w \<longleftrightarrow> phase w = Returned"
    and simulates: "Inr (w', st', x') \<in> set (sc_run C w st x) \<Longrightarrow> (phase w', st') \<in> set (phase_step own_stop (phase w) st)"
    and entry_fails: "phase w = Entering \<Longrightarrow> Inl e \<in> set (sc_run C w st x) \<Longrightarrow> st \<noteq> STARTING \<and> st \<noteq> STOP_REQUESTED"
begin

definition good :: "('w, 'x) service \<Rightarrow> bool" where
  "good s \<longleftrightarrow> together own_stop (sv_caller s) (map_option phase (sv_thread s)) (sv_state s)"

lemma caller_good:
  assumes "good s" "Inr t \<in> set (caller_step C s)"
  shows "good t"
  using assms returned entry
  by (cases "sv_caller s"; cases "sv_thread s"; auto simp: good_def Inr_eq_bindR split: if_splits)

lemma thread_good:
  assumes "good s" "Inr t \<in> set (thread_step C s)"
  shows "good t"
  using assms(2)
proof (cases rule: thread_stepE)
  case (1 w w' st' x')
  from 1(1) assms(1) have "together own_stop (sv_caller s) (Some (phase w)) (sv_state s)" by (simp add: good_def)
  from together_thread_step [OF this simulates [OF 1(2)]] 1(3) show ?thesis by (simp add: good_def)
qed

lemma env_good: "good s \<Longrightarrow> Inr t \<in> set (env_step C s) \<Longrightarrow> good t"
  by (erule env_stepE) (simp add: good_def)

lemma internal_good: "good s \<Longrightarrow> Inr t \<in> set (internal_step C s) \<Longrightarrow> good t"
  by (auto simp: internal_step_def intro: caller_good thread_good env_good)

lemma call_start_good: "good s \<Longrightarrow> sv_caller s = Idle \<Longrightarrow> call_start C s = Inr t \<Longrightarrow> good t"
  using asserts by (cases "sv_thread s"; cases "sv_state s = NOT_RUNNING") (auto simp: call_start_def good_def)

lemma call_stop_good: "good s \<Longrightarrow> sv_caller s = Idle \<Longrightarrow> good (call_stop s)"
  by (cases "sv_thread s") (auto simp: call_stop_def good_def)

lemma step_good: "good s \<Longrightarrow> service_step C s r \<Longrightarrow> r = Inr t \<Longrightarrow> good t"
  by (erule service_stepE) (auto intro: call_start_good call_stop_good internal_good)

lemma reachable_good: "reachable C x0 s \<Longrightarrow> good s"
proof (induction rule: reachable.induct)
  case initial
  then show ?case by (simp add: good_def service_new_def)
next
  case (step s s')
  then show ?case using step_good by blast
qed

lemma clear_returned: "good s \<Longrightarrow> sv_caller s = Stop_clear \<Longrightarrow> \<exists>w. sv_thread s = Some w \<and> phase w = Returned"
  by (cases "sv_thread s") (auto simp: good_def)

text \<open>With the owner outside its calls there is a thread exactly while the state says so.\<close>

lemma idle_thread: "reachable C x0 s \<Longrightarrow> sv_caller s = Idle \<Longrightarrow> sv_thread s = None \<longleftrightarrow> sv_state s = NOT_RUNNING"
  by (drule reachable_good, cases "sv_thread s") (auto simp: good_def)

lemma internal_views:
  assumes g: "good s" and t: "Inr t \<in> set (internal_step C s)"
  shows "(quiet s \<longrightarrow> quiet t) \<and> (live s \<longrightarrow> live t) \<and> (starting s \<longrightarrow> starting t)"
  using t
proof (cases rule: internal_stepE)
  case 1
  with g show ?thesis by (cases "sv_caller s") (auto simp: good_def service_views split: if_splits)
next
  case 2
  then show ?thesis by (cases rule: thread_stepE) (auto simp: service_views)
next
  case 3
  then show ?thesis by (cases rule: env_stepE) (auto simp: service_views)
qed

text \<open>
  What can fail: the assertion of \<^verbatim>\<open>start()\<close>, what is particular to the class in \<^verbatim>\<open>stop()\<close>, the body of
  the thread function and the other threads. Joining and the assertion of the thread function do not.
\<close>

lemma caller_fails:
  "good s \<Longrightarrow> Inl e \<in> set (caller_step C s) \<Longrightarrow> sv_caller s = Stop_signal \<and> sc_signal C (sv_ext s) = Inl e"
  by (cases "sv_caller s"; cases "sv_thread s"; auto simp: good_def Inl_eq_bindR split: if_splits)

lemma thread_fails:
  assumes "good s" "Inl e \<in> set (thread_step C s)"
  shows "\<exists>w. sv_thread s = Some w \<and> phase w \<noteq> Entering \<and> Inl e \<in> set (sc_run C w (sv_state s) (sv_ext s))"
proof -
  obtain w where w: "sv_thread s = Some w" "Inl e \<in> set (sc_run C w (sv_state s) (sv_ext s))"
    using assms(2) by (cases "sv_thread s") (auto simp: thread_step_def Inl_eq_bindR)
  moreover have "phase w \<noteq> Entering"
  proof
    assume "phase w = Entering"
    with entry_fails [OF this w(2)] assms(1) w(1) show False
      by (cases "sv_caller s") (auto simp: good_def)
  qed
  ultimately show ?thesis by blast
qed

lemma failures:
  assumes "reachable C x0 s" "service_step C s (Inl e)"
  shows "sv_caller s = Idle \<and> sv_state s \<noteq> NOT_RUNNING \<and> e = Assert_failed
    \<or> sv_caller s = Stop_signal \<and> sc_signal C (sv_ext s) = Inl e
    \<or> (\<exists>w. sv_thread s = Some w \<and> phase w \<noteq> Entering \<and> Inl e \<in> set (sc_run C w (sv_state s) (sv_ext s)))
    \<or> Inl e \<in> set (sc_env C (sv_ext s))"
  using assms(2)
proof (cases rule: service_step.cases)
  case start
  then show ?thesis using asserts
    by (cases "sv_state s = NOT_RUNNING") (auto simp: call_start_def)
next
  case internal
  then consider "Inl e \<in> set (caller_step C s)" | "Inl e \<in> set (thread_step C s)" | "Inl e \<in> set (env_step C s)"
    by (auto simp: internal_step_def)
  then show ?thesis
  proof cases
    case 1
    then show ?thesis using caller_fails [OF reachable_good [OF assms(1)]] by blast
  next
    case 2
    then show ?thesis using thread_fails [OF reachable_good [OF assms(1)]] by blast
  next
    case 3
    then have "Inl e \<in> set (sc_env C (sv_ext s))" by (auto simp: env_step_def Inl_eq_bindR)
    then show ?thesis by blast
  qed
qed

end

section \<open>Threads that only the owner stops\<close>

locale polled_worker = service_worker C False phase for C :: "('w, 'x) service_class" and phase :: "'w \<Rightarrow> phase"
begin

lemma step_lifecycle:
  assumes "good s" "service_step C s (Inr t)"
  shows "sv_state t = sv_state s \<or> lifecycle (sv_state s) (sv_state t)"
  using assms(2)
proof (cases rule: service_step.cases)
  case start
  then show ?thesis by (auto simp: call_start_def Inr_eq_bindR)
next
  case stop
  then show ?thesis by (auto simp: call_stop_def)
next
  case internal
  then consider "Inr t \<in> set (caller_step C s)" | "Inr t \<in> set (thread_step C s)" | "Inr t \<in> set (env_step C s)"
    by (auto simp: internal_step_def)
  then show ?thesis
  proof cases
    case 1
    with assms(1) show ?thesis
      by (cases "sv_caller s"; cases "sv_thread s"; auto simp: good_def Inr_eq_bindR lifecycle_from split: if_splits)
  next
    case 2
    then show ?thesis
    proof (cases rule: thread_stepE)
      case (1 w w' st' x')
      from 1(1) assms(1) have "together False (sv_caller s) (Some (phase w)) (sv_state s)" by (simp add: good_def)
      from phase_step_lifecycle [OF this simulates [OF 1(2)]] 1(3) show ?thesis by simp
    qed
  next
    case 3
    then show ?thesis by (auto elim: env_stepE)
  qed
qed

lemma internal_stopping:
  assumes g: "good s" and t: "Inr t \<in> set (internal_step C s)" and s: "stopping s"
  shows "stopping t"
  using t
proof (cases rule: internal_stepE)
  case 1
  with g s show ?thesis
    by (cases "sv_caller s"; cases "sv_thread s"; auto simp: good_def service_views Inr_eq_bindR split: if_splits)
next
  case 2
  then show ?thesis using s by (cases rule: thread_stepE) (auto simp: service_views)
next
  case 3
  then show ?thesis using s by (cases rule: env_stepE) (auto simp: service_views)
qed

text \<open>A request that the thread overwrote with \<^verbatim>\<open>RUNNING\<close> is never seen again.\<close>

definition lost :: "('w, 'x) service \<Rightarrow> bool" where
  "lost s \<longleftrightarrow> sv_caller s = Stop_join \<and> sv_state s = RUNNING \<and> (\<exists>w. sv_thread s = Some w \<and> phase w = Working)"

lemma lost_step:
  assumes "lost s" "service_step C s (Inr t)"
  shows "lost t"
  using assms(2)
proof (cases rule: service_step.cases)
  case internal
  obtain w where w: "sv_caller s = Stop_join" "sv_state s = RUNNING" "sv_thread s = Some w" "phase w = Working"
    using assms(1) by (auto simp: lost_def)
  then have "caller_step C s = []" using returned by simp
  with internal consider "Inr t \<in> set (thread_step C s)" | "Inr t \<in> set (env_step C s)"
    by (auto simp: internal_step_def)
  then show ?thesis
  proof cases
    case 1
    then show ?thesis
    proof (cases rule: thread_stepE)
      case (1 w1 w' st' x')
      with w simulates [OF 1(2)] show ?thesis by (auto simp: lost_def)
    qed
  next
    case 2
    with assms(1) show ?thesis by (auto simp: lost_def elim: env_stepE)
  qed
qed (use assms(1) in \<open>auto simp: lost_def\<close>)

lemma lost_forever: "(\<lambda>a b. service_step C a (Inr b))\<^sup>*\<^sup>* s t \<Longrightarrow> lost s \<Longrightarrow> lost t"
  by (induction rule: rtranclp_induct) (auto intro: lost_step)

end

end
