(* ===== verification/Server_Threads.thy ===== *)
theory Server_Threads
  imports Service_Correct
begin

text \<open>
  The four classes with a thread as instances of the thread protocol: what starting and stopping them
  guarantees, the races of \<^verbatim>\<open>stop()\<close> with the start of the thread, and the server's thread with the two
  services it owns. All statements are about builds with assertions.
\<close>

section \<open>The classes are instances\<close>

fun tcp_phase :: "tcp_pc \<Rightarrow> phase" where
  "tcp_phase T_entry = Entering" | "tcp_phase T_test = Testing" | "tcp_phase T_running = Setting"
| "tcp_phase T_start = Working" | "tcp_phase T_loop = Working" | "tcp_phase T_sleep = Working"
| "tcp_phase T_stop = Leaving" | "tcp_phase T_finish = Leaving" | "tcp_phase T_done = Returned"

fun xmpp_phase :: "xmpp_pc \<Rightarrow> phase" where
  "xmpp_phase X_entry = Entering" | "xmpp_phase X_test = Testing" | "xmpp_phase X_running = Setting"
| "xmpp_phase X_cleanup = Leaving" | "xmpp_phase X_finish = Leaving" | "xmpp_phase X_done = Returned"
| "xmpp_phase _ = Working"

fun io_phase :: "io_pc \<Rightarrow> phase" where
  "io_phase I_entry = Entering" | "io_phase I_test = Testing" | "io_phase I_running = Setting"
| "io_phase I_menus = Working" | "io_phase I_run = Working" | "io_phase I_exit = Working"
| "io_phase I_finish = Leaving" | "io_phase I_done = Returned"

fun push_phase :: "push_pc \<Rightarrow> phase" where
  "push_phase P_entry = Entering" | "push_phase P_test = Testing" | "push_phase P_running = Setting"
| "push_phase P_tcp_stop = Leaving" | "push_phase P_xmpp_stop = Leaving" | "push_phase P_stopped = Leaving"
| "push_phase P_finish = Leaving" | "push_phase P_done = Returned"
| "push_phase _ = Working"

interpretation tcp: polled_worker "TcpServer True" tcp_phase
proof (unfold_locales, goal_cases)
  case (3 w)
  then show ?case by (cases w) (auto simp: TcpServer_def)
next
  case (4 w' st' x' w st x)
  then show ?case by (cases w) (auto simp: TcpServer_def Inr_eq_bindR split: if_splits)
next
  case (5 w e st x)
  then show ?case by (cases w) (auto simp: TcpServer_def Inl_eq_bindR assertR_def split: if_splits)
qed (simp_all add: TcpServer_def)

interpretation xmppc: polled_worker "XmppClient True" xmpp_phase
proof (unfold_locales, goal_cases)
  case (3 w)
  then show ?case by (cases w) (auto simp: XmppClient_def)
next
  case (4 w' st' x' w st x)
  then show ?case by (cases w) (auto simp: XmppClient_def Inr_eq_bindR split: if_splits)
next
  case (5 w e st x)
  then show ?case by (cases w) (auto simp: XmppClient_def Inl_eq_bindR assertR_def split: if_splits)
qed (simp_all add: XmppClient_def)

interpretation io: service_worker "IoThread True" True io_phase
proof (unfold_locales, goal_cases)
  case (3 w)
  then show ?case by (cases w) (auto simp: IoThread_def)
next
  case (4 w' st' x' w st x)
  then show ?case by (cases w) (auto simp: IoThread_def Inr_eq_bindR split: if_splits)
next
  case (5 w e st x)
  then show ?case by (cases w) (auto simp: IoThread_def Inl_eq_bindR assertR_def split: if_splits)
qed (simp_all add: IoThread_def)

interpretation psrv: polled_worker "PushServer True" push_phase
proof (unfold_locales, goal_cases)
  case (3 w)
  then show ?case by (cases w) (auto simp: PushServer_def)
next
  case (4 w' st' x' w st x)
  then show ?case by (cases w) (auto simp: PushServer_def Inr_eq_bindR when_idle_def split: if_splits)
next
  case (5 w e st x)
  then show ?case by (cases w) (auto simp: PushServer_def Inl_eq_bindR assertR_def split: if_splits)
qed (simp_all add: PushServer_def)

section \<open>The states\<close>

text \<open>
  C17 (States change along the life cycle). Every change of the state of the TCP server, the XMPP client
  and the push server is one of the life cycle: started from \<^verbatim>\<open>NOT_RUNNING\<close> only, ready to be joined
  only after a stop was requested, and back to \<^verbatim>\<open>NOT_RUNNING\<close> only from there.
\<close>

theorem states_follow_lifecycle:
  "{(sv_state s, sv_state t) | s t. reachable (TcpServer True) x s \<and> service_step (TcpServer True) s (Inr t)}
     \<subseteq> {(a, b). a = b \<or> lifecycle a b}
   \<and> {(sv_state s, sv_state t) | s t. reachable (XmppClient True) y s \<and> service_step (XmppClient True) s (Inr t)}
     \<subseteq> {(a, b). a = b \<or> lifecycle a b}
   \<and> {(sv_state s, sv_state t) | s t. reachable (PushServer True) z s \<and> service_step (PushServer True) s (Inr t)}
     \<subseteq> {(a, b). a = b \<or> lifecycle a b}"
  using tcp.step_lifecycle tcp.reachable_good xmppc.step_lifecycle xmppc.reachable_good
    psrv.step_lifecycle psrv.reachable_good by (intro conjI; auto; metis)

section \<open>Starting and stopping\<close>

text \<open>
  C12 (Starting and stopping is safe). For the TCP server and the command line the only failure is the
  assertion of a \<^verbatim>\<open>start()\<close> while not \<^verbatim>\<open>NOT_RUNNING\<close>: no thread is overwritten, joined twice or joined
  without being there, and outside its calls the owner has a thread unless the state is \<^verbatim>\<open>NOT_RUNNING\<close>.
\<close>

theorem start_stop_safe:
  "{(sv_caller s, sv_state s = NOT_RUNNING, e) | s e. reachable (TcpServer True) x s \<and> service_step (TcpServer True) s (Inl e)}
     \<subseteq> {(Idle, False, Assert_failed)}
   \<and> {(sv_caller s, sv_state s = NOT_RUNNING, e) | s e. reachable (IoThread True) y s \<and> service_step (IoThread True) s (Inl e)}
     \<subseteq> {(Idle, False, Assert_failed)}
   \<and> {s. reachable (TcpServer True) x s \<and> sv_caller s = Idle \<and> sv_thread s = None} =
   {s. reachable (TcpServer True) x s \<and> sv_caller s = Idle \<and> sv_state s = NOT_RUNNING}
   \<and> {s. reachable (IoThread True) y s \<and> sv_caller s = Idle \<and> sv_thread s = None} =
   {s. reachable (IoThread True) y s \<and> sv_caller s = Idle \<and> sv_state s = NOT_RUNNING}"
proof -
  have tcp_body: "Inl e \<notin> set (tcp_threadRun True w st x)" if "tcp_phase w \<noteq> Entering" for w st x e
    using that by (cases w) auto
  have io_body: "Inl e \<notin> set (io_threadRun True w st x)" if "io_phase w \<noteq> Entering" for w st x e
    using that by (cases w) auto
  have a: "{(sv_caller s, sv_state s = NOT_RUNNING, e) | s e. reachable (TcpServer True) x s \<and> service_step (TcpServer True) s (Inl e)}
     \<subseteq> {(Idle, False, Assert_failed)}"
    using tcp.failures tcp_body by (fastforce simp: TcpServer_def)
  have b: "{(sv_caller s, sv_state s = NOT_RUNNING, e) | s e. reachable (IoThread True) y s \<and> service_step (IoThread True) s (Inl e)}
     \<subseteq> {(Idle, False, Assert_failed)}"
    using io.failures io_body by (fastforce simp: IoThread_def)
  have "{s. reachable (TcpServer True) x s \<and> sv_caller s = Idle \<and> sv_thread s = None} =
    {s. reachable (TcpServer True) x s \<and> sv_caller s = Idle \<and> sv_state s = NOT_RUNNING}"
    using tcp.idle_thread by blast
  moreover have "{s. reachable (IoThread True) y s \<and> sv_caller s = Idle \<and> sv_thread s = None} =
    {s. reachable (IoThread True) y s \<and> sv_caller s = Idle \<and> sv_state s = NOT_RUNNING}"
    using io.idle_thread by blast
  ultimately show ?thesis using a b by (intro conjI)
qed

text \<open>The race: the request arrives between the thread's test of the state and its next statement.\<close>

definition after_start :: "('w, 'x) service_class \<Rightarrow> 'x \<Rightarrow> ('w, 'x) service" where
  "after_start C x = \<lparr>sv_state = STARTING, sv_thread = Some (sc_entry C), sv_caller = Idle, sv_ext = x\<rparr>"

lemma after_start_reachable: "reachable C x (after_start C x)"
proof -
  have "call_start C (service_new x) = Inr ((service_new x)\<lparr>sv_caller := Start_set\<rparr>)"
    by (simp add: call_start_def service_new_def)
  from start_reachable [OF reachable.initial _ this]
  have "reachable C x ((service_new x)\<lparr>sv_caller := Start_set\<rparr>)" by (simp add: service_new_def)
  then show ?thesis
    by (rule schedule_reachable [where sched = "[0, 0]"])
       (simp add: service_new_def after_start_def internal_step_def)
qed

lemma tcp_lost: "\<exists>s. reachable (TcpServer True) False s \<and> tcp.lost s"
proof -
  let ?C = "TcpServer True"
  have "run_schedule ?C [0, 0] (after_start ?C False) = Inr ((after_start ?C False)\<lparr>sv_thread := Some T_running\<rparr>)"
    by (simp add: after_start_def internal_step_def thread_step_def env_step_def TcpServer_def)
  from stop_reachable [OF schedule_reachable [OF after_start_reachable this]]
  have "reachable ?C False ((after_start ?C False)\<lparr>sv_thread := Some T_running, sv_caller := Stop_test\<rparr>)"
    by (simp add: call_stop_def after_start_def)
  moreover have "run_schedule ?C [0, 0, 0, 0, 0] ((after_start ?C False)\<lparr>sv_thread := Some T_running, sv_caller := Stop_test\<rparr>)
      = Inr \<lparr>sv_state = RUNNING, sv_thread = Some T_start, sv_caller = Stop_join, sv_ext = False\<rparr>"
    by (simp add: after_start_def internal_step_def thread_step_def env_step_def TcpServer_def)
  ultimately have "reachable ?C False \<lparr>sv_state = RUNNING, sv_thread = Some T_start, sv_caller = Stop_join, sv_ext = False\<rparr>"
    by (rule schedule_reachable)
  then show ?thesis by (auto simp: tcp.lost_def)
qed

lemma push_lost: "\<exists>s. reachable (PushServer True) push_shared_new s \<and> psrv.lost s"
proof -
  let ?C = "PushServer True" and ?x = push_shared_new
  have "run_schedule ?C [0, 0] (after_start ?C ?x) = Inr ((after_start ?C ?x)\<lparr>sv_thread := Some P_running\<rparr>)"
    by (simp add: after_start_def internal_step_def thread_step_def env_step_def PushServer_def)
  from stop_reachable [OF schedule_reachable [OF after_start_reachable this]]
  have "reachable ?C ?x ((after_start ?C ?x)\<lparr>sv_thread := Some P_running, sv_caller := Stop_test\<rparr>)"
    by (simp add: call_stop_def after_start_def)
  moreover have "run_schedule ?C [0, 0, 0, 0, 0] ((after_start ?C ?x)\<lparr>sv_thread := Some P_running, sv_caller := Stop_test\<rparr>)
      = Inr \<lparr>sv_state = RUNNING, sv_thread = Some P_init, sv_caller = Stop_join, sv_ext = ?x\<rparr>"
    by (simp add: after_start_def internal_step_def thread_step_def env_step_def PushServer_def)
  ultimately have "reachable ?C ?x \<lparr>sv_state = RUNNING, sv_thread = Some P_init, sv_caller = Stop_join, sv_ext = ?x\<rparr>"
    by (rule schedule_reachable)
  then show ?thesis by (auto simp: psrv.lost_def)
qed

text \<open>
  C35 (A stop request can be lost). The thread function sets the state to \<^verbatim>\<open>RUNNING\<close> after it has tested
  it. There are runs of the TCP server and of the push server in which that overwrites the request of
  \<^verbatim>\<open>stop()\<close>; from there on \<^verbatim>\<open>stop()\<close> stays in its join, whatever happens.
\<close>

theorem lost_stop_never_returns:
  "(\<exists>s. reachable (TcpServer True) False s \<and> sv_state s = RUNNING
     \<and> sv_caller ` {t. (\<lambda>a b. service_step (TcpServer True) a (Inr b))\<^sup>*\<^sup>* s t} = {Stop_join})
   \<and> (\<exists>s. reachable (PushServer True) push_shared_new s \<and> sv_state s = RUNNING
     \<and> sv_caller ` {t. (\<lambda>a b. service_step (PushServer True) a (Inr b))\<^sup>*\<^sup>* s t} = {Stop_join})"
proof
  obtain s where s: "reachable (TcpServer True) False s" "tcp.lost s" using tcp_lost by blast
  from s(2) have "sv_state s = RUNNING" "sv_caller s = Stop_join" by (simp_all add: tcp.lost_def)
  moreover from s(2) have "sv_caller t = Stop_join" if "(\<lambda>a b. service_step (TcpServer True) a (Inr b))\<^sup>*\<^sup>* s t" for t
    using tcp.lost_forever [OF that] by (simp add: tcp.lost_def)
  ultimately show "\<exists>s. reachable (TcpServer True) False s \<and> sv_state s = RUNNING
     \<and> sv_caller ` {t. (\<lambda>a b. service_step (TcpServer True) a (Inr b))\<^sup>*\<^sup>* s t} = {Stop_join}"
    using s(1) by (intro exI [of _ s]) (auto intro: rev_image_eqI [of s])
next
  obtain s where s: "reachable (PushServer True) push_shared_new s" "psrv.lost s" using push_lost by blast
  from s(2) have "sv_state s = RUNNING" "sv_caller s = Stop_join" by (simp_all add: psrv.lost_def)
  moreover from s(2) have "sv_caller t = Stop_join" if "(\<lambda>a b. service_step (PushServer True) a (Inr b))\<^sup>*\<^sup>* s t" for t
    using psrv.lost_forever [OF that] by (simp add: psrv.lost_def)
  ultimately show "\<exists>s. reachable (PushServer True) push_shared_new s \<and> sv_state s = RUNNING
     \<and> sv_caller ` {t. (\<lambda>a b. service_step (PushServer True) a (Inr b))\<^sup>*\<^sup>* s t} = {Stop_join}"
    using s(1) by (intro exI [of _ s]) (auto intro: rev_image_eqI [of s])
qed

section \<open>Stopping ends\<close>

text \<open>The steps left in \<^verbatim>\<open>stop()\<close> and, while it joins, in the thread function.\<close>

definition steps_left :: "('w \<Rightarrow> nat) \<Rightarrow> ('w, 'x) service \<Rightarrow> nat" where
  "steps_left rank s = (case sv_caller s of
     Stop_join \<Rightarrow> 3 + (case sv_thread s of None \<Rightarrow> 0 | Some w \<Rightarrow> rank w)
   | Stop_reset \<Rightarrow> 2 | Stop_clear \<Rightarrow> 1 | _ \<Rightarrow> 0)"

text \<open>In the last part of \<^verbatim>\<open>stop()\<close>, with a thread that satisfies \<open>ok\<close> while it is joined.\<close>

definition joining :: "('w \<Rightarrow> bool) \<Rightarrow> ('w \<Rightarrow> thread_state \<Rightarrow> 'x \<Rightarrow> bool) \<Rightarrow> ('w, 'x) service \<Rightarrow> bool" where
  "joining fin ok s \<longleftrightarrow> (case sv_caller s of
     Stop_join \<Rightarrow> (\<exists>w. sv_thread s = Some w \<and> ok w (sv_state s) (sv_ext s))
   | Stop_reset \<Rightarrow> (\<exists>w. sv_thread s = Some w \<and> fin w)
   | Stop_clear \<Rightarrow> (\<exists>w. sv_thread s = Some w \<and> fin w) \<and> sv_state s = NOT_RUNNING
   | Idle \<Rightarrow> sv_state s = NOT_RUNNING \<and> sv_thread s = None
   | _ \<Rightarrow> False)"

locale joinable =
  fixes C :: "('w, 'x) service_class" and ok :: "'w \<Rightarrow> thread_state \<Rightarrow> 'x \<Rightarrow> bool" and rank :: "'w \<Rightarrow> nat"
  assumes run_ok: "ok w st x \<Longrightarrow> Inr (w', st', x') \<in> set (sc_run C w st x) \<Longrightarrow> ok w' st' x' \<and> rank w' < rank w"
    and run_progress: "ok w st x \<Longrightarrow> \<not> sc_done C w \<Longrightarrow> \<exists>r. Inr r \<in> set (sc_run C w st x)"
    and run_done: "sc_done C w \<Longrightarrow> sc_run C w st x = []"
    and no_env: "sc_env C x = []"
begin

lemma joining_step:
  assumes j: "joining (sc_done C) ok s" and busy: "sv_caller s \<noteq> Idle" and u: "service_step C s (Inr u)"
  shows "joining (sc_done C) ok u \<and> steps_left rank u < steps_left rank s"
  using u busy
proof (cases rule: busy_stepE)
  case 1
  with j show ?thesis by (cases "sv_caller s") (auto simp: joining_def steps_left_def split: if_splits)
next
  case 2
  then show ?thesis
  proof (cases rule: thread_stepE)
    case (1 w w' st' x')
    then have "\<not> sc_done C w" using run_done by fastforce
    with j busy 1(1) have "sv_caller s = Stop_join" "ok w (sv_state s) (sv_ext s)"
      by (cases "sv_caller s"; simp add: joining_def)+
    with run_ok [OF this(2) 1(2)] 1(1,3) show ?thesis by (simp add: joining_def steps_left_def)
  qed
next
  case 3
  then show ?thesis by (simp add: env_step_def no_env)
qed

lemma joining_progress:
  assumes "joining (sc_done C) ok s" "sv_caller s \<noteq> Idle"
  shows "\<exists>u. service_step C s (Inr u)"
proof (cases "\<exists>u. Inr u \<in> set (caller_step C s)")
  case True
  then show ?thesis using caller_service_step by blast
next
  case False
  with assms obtain w where w: "sv_thread s = Some w" "ok w (sv_state s) (sv_ext s)" "\<not> sc_done C w"
    by (cases "sv_caller s") (auto simp: joining_def split: if_splits)
  with run_progress obtain r where "Inr r \<in> set (sc_run C w (sv_state s) (sv_ext s))" by blast
  with w(1) have "Inr (s\<lparr>sv_state := fst (snd r), sv_thread := Some (fst r), sv_ext := snd (snd r)\<rparr>) \<in> set (thread_step C s)"
    by (cases r) (force simp: thread_step_def)
  then show ?thesis using thread_service_step by blast
qed

lemma joining_run:
  assumes "joining (sc_done C) ok s" "busy_run C n s t"
  shows "n + steps_left rank t \<le> steps_left rank s \<and> joining (sc_done C) ok t
    \<and> (sv_caller t \<noteq> Idle \<longrightarrow> (\<exists>u. service_step C t (Inr u)))"
  using joining_step joining_progress assms by (rule busy_run_bound)

end

text \<open>The TCP server, unless the request is about to be lost; the command line, always.\<close>

fun tcp_rank :: "tcp_pc \<Rightarrow> nat" where
  "tcp_rank T_entry = 2" | "tcp_rank T_test = 1" | "tcp_rank T_running = 5" | "tcp_rank T_start = 4"
| "tcp_rank T_sleep = 4" | "tcp_rank T_loop = 3" | "tcp_rank T_stop = 2" | "tcp_rank T_finish = 1" | "tcp_rank T_done = 0"

definition tcp_stopped :: "tcp_pc \<Rightarrow> thread_state \<Rightarrow> bool \<Rightarrow> bool" where
  "tcp_stopped w st l \<longleftrightarrow> w = T_done \<or> w \<noteq> T_running \<and> st = STOP_REQUESTED"

interpretation tcpj: joinable "TcpServer True" tcp_stopped tcp_rank
proof (unfold_locales, goal_cases)
  case (1 w st x w' st' x')
  then show ?case by (cases w) (auto simp: TcpServer_def tcp_stopped_def)
next
  case (2 w st x)
  then show ?case by (cases w) (auto simp: TcpServer_def tcp_stopped_def)
qed (auto simp: TcpServer_def)

fun io_rank :: "io_pc \<Rightarrow> nat" where
  "io_rank I_entry = 6" | "io_rank I_test = 5" | "io_rank I_running = 4" | "io_rank I_menus = 3"
| "io_rank I_exit = 3" | "io_rank I_run = 2" | "io_rank I_finish = 1" | "io_rank I_done = 0"

definition io_stopped :: "io_pc \<Rightarrow> thread_state \<Rightarrow> bool \<Rightarrow> bool" where
  "io_stopped w st stopped \<longleftrightarrow> w = I_done \<or> stopped \<and> (w = I_entry \<longrightarrow> st \<in> {STARTING, STOP_REQUESTED})"

interpretation ioj: joinable "IoThread True" io_stopped io_rank
proof (unfold_locales, goal_cases)
  case (1 w st x w' st' x')
  then show ?case by (cases w) (auto simp: IoThread_def io_stopped_def Inr_eq_bindR split: if_splits)
next
  case (2 w st x)
  then show ?case by (cases w) (auto simp: IoThread_def io_stopped_def)
qed (auto simp: IoThread_def)

text \<open>
  C13 (Stopping the TCP server ends). Once \<^verbatim>\<open>stop()\<close> joins a thread that has not lost the request, at most
  seven more steps happen before it returns, one can always be taken, and it returns with the state
  \<^verbatim>\<open>NOT_RUNNING\<close> and no thread.
\<close>

theorem tcp_stop_returns:
  assumes "reachable (TcpServer True) x s" "sv_caller s = Stop_join" "sv_state s \<noteq> RUNNING"
    "sv_thread s \<noteq> Some T_running" "busy_run (TcpServer True) n s t"
  shows "n \<le> 7 \<and> (sv_caller t \<noteq> Idle \<longrightarrow> (\<exists>u. service_step (TcpServer True) t (Inr u)))
    \<and> (sv_caller t = Idle \<longrightarrow> sv_state t = NOT_RUNNING \<and> sv_thread t = None)"
proof -
  obtain w where w: "sv_thread s = Some w" using tcp.reachable_good [OF assms(1)] assms(2)
    by (cases "sv_thread s") (auto simp: tcp.good_def)
  with tcp.reachable_good [OF assms(1)] assms(2-4) have "tcp_stopped w (sv_state s) (sv_ext s)"
    by (cases w) (auto simp: tcp.good_def tcp_stopped_def)
  with assms(2) w have j: "joining (sc_done (TcpServer True)) tcp_stopped s" "steps_left tcp_rank s \<le> 7"
    by (cases w; simp add: joining_def steps_left_def tcp_stopped_def; fail)+
  from tcpj.joining_run [OF j(1) assms(5)] j(2) show ?thesis
    by (auto simp: joining_def)
qed

theorem tcp_stop_returns_witness:
  "busy_run (TcpServer True) 1
     \<lparr>sv_state = STOP_REQUESTED, sv_thread = Some T_entry, sv_caller = Stop_join, sv_ext = False\<rparr>
     \<lparr>sv_state = STOP_REQUESTED, sv_thread = Some T_test, sv_caller = Stop_join, sv_ext = False\<rparr>
   \<and> (\<exists>u. service_step (TcpServer True)
     \<lparr>sv_state = STOP_REQUESTED, sv_thread = Some T_test, sv_caller = Stop_join, sv_ext = False\<rparr> (Inr u))"
proof -
  let ?C = "TcpServer True"
  let ?s = "\<lparr>sv_state = STOP_REQUESTED, sv_thread = Some T_entry, sv_caller = Stop_join, sv_ext = False\<rparr>"
  let ?t = "\<lparr>sv_state = STOP_REQUESTED, sv_thread = Some T_test, sv_caller = Stop_join, sv_ext = False\<rparr>"
  have "run_schedule ?C [0, 0, 0, 0] (call_stop (after_start ?C False)) = Inr ?s"
    by (simp add: after_start_def call_stop_def internal_step_def TcpServer_def)
  moreover have "reachable ?C False (call_stop (after_start ?C False))"
    by (rule stop_reachable [OF after_start_reachable]) (simp add: after_start_def)
  ultimately have r: "reachable ?C False ?s" by (rule schedule_reachable [rotated])
  have "service_step ?C ?s (Inr ?t)"
    by (rule thread_service_step) (simp add: thread_step_def TcpServer_def)
  then have b: "busy_run ?C 1 ?s ?t" by simp
  from tcp_stop_returns [OF r _ _ _ b] b show ?thesis by simp
qed

lemma io_phase_returned: "io_phase w = Returned \<longleftrightarrow> w = I_done"
  by (cases w) auto

text \<open>A \<^verbatim>\<open>stop()\<close> that joins has stopped the scheduler, or the thread had returned by itself.\<close>

lemma io_signalled:
  "reachable (IoThread True) x s \<Longrightarrow> sv_caller s = Stop_join \<Longrightarrow> sv_ext s \<or> sv_thread s = Some I_done"
proof (induction rule: reachable.induct)
  case initial
  then show ?case by (simp add: service_new_def)
next
  case (step s s')
  have g: "io.good s" by (rule io.reachable_good [OF step.hyps(1)])
  from step.hyps(2) show ?case
  proof (cases rule: service_step.cases)
    case start
    with step.prems show ?thesis by (auto simp: call_start_def Inr_eq_bindR)
  next
    case stop
    with step.prems show ?thesis by (simp add: call_stop_def)
  next
    case internal
    then consider "Inr s' \<in> set (caller_step (IoThread True) s)" | "Inr s' \<in> set (thread_step (IoThread True) s)"
      by (auto simp: internal_step_def env_step_def IoThread_def simp del: caller_step.simps)
    then show ?thesis
    proof cases
      case 1
      with step.prems g show ?thesis
        by (cases "sv_caller s"; cases "sv_thread s"; auto simp: IoThread_def io.good_def io_phase_returned split: if_splits)
    next
      case 2
      then show ?thesis
      proof (cases rule: thread_stepE)
        case (1 w w' st' x')
        with step.prems step.IH show ?thesis by (cases w) (auto simp: IoThread_def Inr_eq_bindR split: if_splits)
      qed
    qed
  qed
qed

text \<open>
  Stopping the command line ends. The scheduler is stopped as well as the state set, so a \<^verbatim>\<open>stop()\<close>
  of the command line returns from every reachable state in which it joins, within nine steps.
\<close>


theorem io_stop_returns:
  assumes "reachable (IoThread True) x s" "sv_caller s = Stop_join" "busy_run (IoThread True) n s t"
  shows "n \<le> 9 \<and> (sv_caller t \<noteq> Idle \<longrightarrow> (\<exists>u. service_step (IoThread True) t (Inr u)))
    \<and> (sv_caller t = Idle \<longrightarrow> sv_state t = NOT_RUNNING \<and> sv_thread t = None)"
proof -
  have g: "io.good s" by (rule io.reachable_good [OF assms(1)])
  then obtain w where w: "sv_thread s = Some w" using assms(2)
    by (cases "sv_thread s") (auto simp: io.good_def)
  with g io_signalled [OF assms(1,2)] assms(2) have ok: "io_stopped w (sv_state s) (sv_ext s)"
    by (auto simp: io.good_def io_stopped_def)
  have "io_rank w \<le> 6" by (cases w) auto
  with assms(2) w ok have j: "joining (sc_done (IoThread True)) io_stopped s" "steps_left io_rank s \<le> 9"
    by (simp_all add: joining_def steps_left_def)
  from ioj.joining_run [OF j(1) assms(3)] j(2) show ?thesis
    by (auto simp: joining_def)
qed

theorem io_stop_returns_witness:
  "busy_run (IoThread True) 1
     \<lparr>sv_state = RUNNING, sv_thread = Some I_menus, sv_caller = Stop_join, sv_ext = True\<rparr>
     \<lparr>sv_state = RUNNING, sv_thread = Some I_run, sv_caller = Stop_join, sv_ext = True\<rparr>
   \<and> (\<exists>u. service_step (IoThread True)
     \<lparr>sv_state = RUNNING, sv_thread = Some I_run, sv_caller = Stop_join, sv_ext = True\<rparr> (Inr u))"
proof -
  let ?C = "IoThread True"
  let ?s = "\<lparr>sv_state = RUNNING, sv_thread = Some I_menus, sv_caller = Stop_join, sv_ext = True\<rparr>"
  let ?t = "\<lparr>sv_state = RUNNING, sv_thread = Some I_run, sv_caller = Stop_join, sv_ext = True\<rparr>"
  have "run_schedule ?C [0, 0] (after_start ?C False) = Inr ((after_start ?C False)\<lparr>sv_thread := Some I_running\<rparr>)"
    by (simp add: after_start_def internal_step_def thread_step_def env_step_def IoThread_def)
  from stop_reachable [OF schedule_reachable [OF after_start_reachable this]]
  have "reachable ?C False ((after_start ?C False)\<lparr>sv_thread := Some I_running, sv_caller := Stop_test\<rparr>)"
    by (simp add: call_stop_def after_start_def)
  moreover have "run_schedule ?C [0, 0, 0, 0, 0] ((after_start ?C False)\<lparr>sv_thread := Some I_running, sv_caller := Stop_test\<rparr>)
      = Inr ?s"
    by (simp add: after_start_def internal_step_def thread_step_def env_step_def IoThread_def)
  ultimately have r: "reachable ?C False ?s" by (rule schedule_reachable)
  have "service_step ?C ?s (Inr ?t)"
    by (rule thread_service_step) (simp add: thread_step_def IoThread_def)
  then have b: "busy_run ?C 1 ?s ?t" by simp
  from io_stop_returns [OF r _ b] b show ?thesis by simp
qed

end
