(* ===== verification/Push_Threads.thy ===== *)
theory Push_Threads
  imports Server_Threads
begin

text \<open>
  The XMPP client's \<^verbatim>\<open>stop()\<close>, which uses a context that only the thread makes and releases, and the
  server's thread with the TCP server and the XMPP client it owns.
\<close>

section \<open>The context of the XMPP client\<close>

fun with_ctx :: "xmpp_pc option \<Rightarrow> bool" where
  "with_ctx None = False"
| "with_ctx (Some w) \<longleftrightarrow> (case w of X_loop \<Rightarrow> True | X_connect \<Rightarrow> True | X_run \<Rightarrow> True | X_wait i \<Rightarrow> True
     | X_cleanup \<Rightarrow> True | _ \<Rightarrow> False)"

lemma xmpp_ctx:
  "reachable (XmppClient True) xmpp_shared_new s \<Longrightarrow> xs_ctx (sv_ext s) \<longleftrightarrow> with_ctx (sv_thread s)"
proof (induction rule: reachable.induct)
  case initial
  then show ?case by (simp add: service_new_def xmpp_shared_new_def)
next
  case (step s s')
  have g: "xmppc.good s" by (rule xmppc.reachable_good [OF step.hyps(1)])
  from step.hyps(2) show ?case
  proof (cases rule: service_step.cases)
    case start
    with step.IH show ?thesis by (auto simp: call_start_def Inr_eq_bindR)
  next
    case stop
    with step.IH show ?thesis by (simp add: call_stop_def)
  next
    case internal
    then consider "Inr s' \<in> set (caller_step (XmppClient True) s)" | "Inr s' \<in> set (thread_step (XmppClient True) s)"
      by (auto simp: internal_step_def env_step_def XmppClient_def simp del: caller_step.simps)
    then show ?thesis
    proof cases
      case 1
      have "xmpp_phase w = Returned \<longleftrightarrow> w = X_done" for w by (cases w) auto
      with xmppc.clear_returned [OF g] have "sv_caller s = Stop_clear \<Longrightarrow> sv_thread s = Some X_done" by auto
      with 1 step.IH show ?thesis
        by (cases "sv_caller s"; auto simp: XmppClient_def xmpp_stop_def Inr_eq_bindR split: if_splits option.splits)
    next
      case 2
      then show ?thesis
      proof (cases rule: thread_stepE)
        case (1 w w' st' x')
        with step.IH show ?thesis by (cases w) (auto simp: XmppClient_def Inr_eq_bindR split: if_splits)
      qed
    qed
  qed
qed

text \<open>
  C36 (The XMPP client is stopped through a null context). Apart from a \<^verbatim>\<open>start()\<close> while not
  \<^verbatim>\<open>NOT_RUNNING\<close>, the threads of the XMPP client fail only in \<^verbatim>\<open>xmpp_stop(ctx)\<close>; there they do when the
  thread has not made the context yet, and when it has already seen the request and released it.
\<close>

theorem xmpp_stop_null_context:
  "{(sv_caller s, e) | s e. reachable (XmppClient True) xmpp_shared_new s \<and> service_step (XmppClient True) s (Inl e)}
     \<subseteq> {(Idle, Assert_failed), (Stop_signal, Undefined_behaviour)}
   \<and> (\<exists>s. reachable (XmppClient True) xmpp_shared_new s \<and> sv_thread s = Some X_entry
     \<and> service_step (XmppClient True) s (Inl Undefined_behaviour))
   \<and> (\<exists>s. reachable (XmppClient True) xmpp_shared_new s \<and> sv_thread s = Some X_finish
     \<and> service_step (XmppClient True) s (Inl Undefined_behaviour))"
proof -
  let ?C = "XmppClient True" and ?x = xmpp_shared_new
  have "(sv_caller s, e) \<in> {(Idle, Assert_failed), (Stop_signal, Undefined_behaviour)}"
    if r: "reachable ?C ?x s" and e: "service_step ?C s (Inl e)" for s e
  proof -
    have "\<not> (\<exists>w. sv_thread s = Some w \<and> xmpp_phase w \<noteq> Entering \<and> Inl e \<in> set (sc_run ?C w (sv_state s) (sv_ext s)))"
    proof
      assume "\<exists>w. sv_thread s = Some w \<and> xmpp_phase w \<noteq> Entering \<and> Inl e \<in> set (sc_run ?C w (sv_state s) (sv_ext s))"
      then obtain w where "sv_thread s = Some w" "xmpp_phase w \<noteq> Entering" "Inl e \<in> set (sc_run ?C w (sv_state s) (sv_ext s))"
        by blast
      with xmpp_ctx [OF r] show False by (cases w) (auto simp: XmppClient_def Inl_eq_bindR split: if_splits)
    qed
    with xmppc.failures [OF r e] show ?thesis
      by (auto simp: XmppClient_def xmpp_stop_def split: if_splits)
  qed
  then have f: "{(sv_caller s, e) | s e. reachable ?C ?x s \<and> service_step ?C s (Inl e)}
     \<subseteq> {(Idle, Assert_failed), (Stop_signal, Undefined_behaviour)}" by blast
  have "run_schedule ?C [0, 0, 0] (call_stop (after_start ?C ?x))
      = Inr ((after_start ?C ?x)\<lparr>sv_state := STOP_REQUESTED, sv_caller := Stop_signal\<rparr>)"
    by (simp add: after_start_def call_stop_def internal_step_def XmppClient_def)
  moreover have stop: "reachable ?C ?x (call_stop (after_start ?C ?x))"
    by (rule stop_reachable [OF after_start_reachable]) (simp add: after_start_def)
  ultimately have r: "reachable ?C ?x ((after_start ?C ?x)\<lparr>sv_state := STOP_REQUESTED, sv_caller := Stop_signal\<rparr>)"
    by (rule schedule_reachable [rotated])
  have "service_step ?C ((after_start ?C ?x)\<lparr>sv_state := STOP_REQUESTED, sv_caller := Stop_signal\<rparr>) (Inl Undefined_behaviour)"
    by (rule caller_service_step) (simp add: XmppClient_def after_start_def xmpp_shared_new_def xmpp_stop_def)
  with r have e: "\<exists>s. reachable ?C ?x s \<and> sv_thread s = Some X_entry \<and> service_step ?C s (Inl Undefined_behaviour)"
    by (intro exI conjI) (auto simp: after_start_def XmppClient_def)
  let ?t = "\<lparr>sv_state = STOP_REQUESTED, sv_thread = Some X_finish, sv_caller = Stop_signal, sv_ext = \<lparr>xs_ctx = False, xs_stop = False\<rparr>\<rparr>"
  have "run_schedule ?C [1, 1, 1, 1, 0, 0, 0, 1, 1] (call_stop (after_start ?C ?x)) = Inr ?t"
    by (simp add: after_start_def call_stop_def internal_step_def thread_step_def XmppClient_def xmpp_shared_new_def)
  with stop have "reachable ?C ?x ?t" by (rule schedule_reachable)
  moreover have "service_step ?C ?t (Inl Undefined_behaviour)"
    by (rule caller_service_step) (simp add: XmppClient_def xmpp_stop_def)
  ultimately have "\<exists>s. reachable ?C ?x s \<and> sv_thread s = Some X_finish \<and> service_step ?C s (Inl Undefined_behaviour)"
    by (intro exI conjI) (assumption | simp)+
  with f e show ?thesis by (intro conjI)
qed

section \<open>The server and its services\<close>

text \<open>The two services, by where the server's thread is.\<close>

fun services :: "push_pc option \<Rightarrow> push_shared \<Rightarrow> bool" where
  "services None x \<longleftrightarrow> quiet (ps_tcp x) \<and> quiet (ps_xmpp x)"
| "services (Some w) x \<longleftrightarrow> (case w of
     P_xmpp_start \<Rightarrow> starting (ps_tcp x) \<and> quiet (ps_xmpp x)
   | P_started \<Rightarrow> live (ps_tcp x) \<and> starting (ps_xmpp x)
   | P_loop \<Rightarrow> live (ps_tcp x) \<and> live (ps_xmpp x)
   | P_check \<Rightarrow> live (ps_tcp x) \<and> live (ps_xmpp x)
   | P_sleep \<Rightarrow> live (ps_tcp x) \<and> live (ps_xmpp x)
   | P_tcp_stop \<Rightarrow> live (ps_tcp x) \<and> live (ps_xmpp x)
   | P_xmpp_stop \<Rightarrow> stopping (ps_tcp x) \<and> live (ps_xmpp x)
   | P_stopped \<Rightarrow> quiet (ps_tcp x) \<and> stopping (ps_xmpp x)
   | _ \<Rightarrow> quiet (ps_tcp x) \<and> quiet (ps_xmpp x))"

definition push_good :: "(push_pc, push_shared) service \<Rightarrow> bool" where
  "push_good s \<longleftrightarrow> tcp.good (ps_tcp (sv_ext s)) \<and> xmppc.good (ps_xmpp (sv_ext s)) \<and> services (sv_thread s) (sv_ext s)"

lemma push_env_good:
  assumes "tcp.good (ps_tcp x)" "xmppc.good (ps_xmpp x)" "services w x" "Inr y \<in> set (push_env True x)"
  shows "tcp.good (ps_tcp y) \<and> xmppc.good (ps_xmpp y) \<and> services w y"
proof -
  from assms(4) consider t where "Inr t \<in> set (internal_step (TcpServer True) (ps_tcp x))" "y = x\<lparr>ps_tcp := t\<rparr>"
    | c where "Inr c \<in> set (internal_step (XmppClient True) (ps_xmpp x))" "y = x\<lparr>ps_xmpp := c\<rparr>"
    by (auto simp: push_env_def Inr_eq_bindR)
  then show ?thesis
  proof cases
    case 1
    from tcp.internal_good [OF assms(1) 1(1)] tcp.internal_views [OF assms(1) 1(1)] tcp.internal_stopping [OF assms(1) 1(1)] 1(2) assms(2,3)
    show ?thesis by (cases w) (auto split: push_pc.splits)
  next
    case 2
    from xmppc.internal_good [OF assms(2) 2(1)] xmppc.internal_views [OF assms(2) 2(1)] xmppc.internal_stopping [OF assms(2) 2(1)] 2(2) assms(1,3)
    show ?thesis by (cases w) (auto split: push_pc.splits)
  qed
qed

lemma push_run_good:
  assumes "tcp.good (ps_tcp x)" "xmppc.good (ps_xmpp x)" "services (Some w) x"
    "Inr (w', st', y) \<in> set (push_thread_run True w st x)"
  shows "tcp.good (ps_tcp y) \<and> xmppc.good (ps_xmpp y) \<and> services (Some w') y"
proof -
  note calls = quiet_idle [of "ps_tcp x"] quiet_idle [of "ps_xmpp x"] live_idle [of "ps_tcp x"] live_idle [of "ps_xmpp x"]
  show ?thesis
  proof (cases "w = P_tcp_start \<or> w = P_xmpp_start")
    case True
    with assms calls quiet_start [of "ps_tcp x" "TcpServer True"] quiet_start [of "ps_xmpp x" "XmppClient True"]
      tcp.call_start_good [of "ps_tcp x"] xmppc.call_start_good [of "ps_xmpp x"] idle_starting [of "ps_tcp x"]
    show ?thesis by (auto simp: Inr_eq_bindR when_idle_def split: if_splits)
  next
    case False
    with assms calls tcp.call_stop_good [of "ps_tcp x"] xmppc.call_stop_good [of "ps_xmpp x"]
      live_stop [of "ps_tcp x"] live_stop [of "ps_xmpp x"] idle_starting [of "ps_xmpp x"]
      idle_stopping [of "ps_tcp x"] idle_stopping [of "ps_xmpp x"]
    show ?thesis by (cases w) (auto simp: Inr_eq_bindR when_idle_def split: if_splits)
  qed
qed

lemma push_reachable_good: "reachable (PushServer True) push_shared_new s \<Longrightarrow> push_good s"
proof (induction rule: reachable.induct)
  case initial
  then show ?case
    by (simp add: push_good_def service_new_def push_shared_new_def quiet_def tcp.good_def xmppc.good_def)
next
  case (step s s')
  have g: "psrv.good s" by (rule psrv.reachable_good [OF step.hyps(1)])
  from step.hyps(2) show ?case
  proof (cases rule: service_step.cases)
    case start
    with step.IH show ?thesis by (auto simp: call_start_def Inr_eq_bindR push_good_def)
  next
    case stop
    with step.IH show ?thesis by (simp add: call_stop_def push_good_def)
  next
    case internal
    then consider "Inr s' \<in> set (caller_step (PushServer True) s)" | "Inr s' \<in> set (thread_step (PushServer True) s)"
      | "Inr s' \<in> set (env_step (PushServer True) s)"
      by (auto simp: internal_step_def simp del: caller_step.simps)
    then show ?thesis
    proof cases
      case 1
      have "push_phase w = Returned \<longleftrightarrow> w = P_done" for w by (cases w) auto
      with psrv.clear_returned [OF g] have "sv_caller s = Stop_clear \<Longrightarrow> sv_thread s = Some P_done" by auto
      with 1 step.IH show ?thesis
        by (cases "sv_caller s"; auto simp: PushServer_def push_good_def split: if_splits option.splits)
    next
      case 2
      then show ?thesis
      proof (cases rule: thread_stepE)
        case (1 w w' st' x')
        with step.IH push_run_good [of "sv_ext s" w w' st' x'] show ?thesis
          by (auto simp: push_good_def PushServer_def)
      qed
    next
      case 3
      then show ?thesis
      proof (cases rule: env_stepE)
        case (1 x)
        with step.IH push_env_good [of "sv_ext s" "sv_thread s" x] show ?thesis
          by (auto simp: push_good_def PushServer_def)
      qed
    qed
  qed
qed

text \<open>
  C14 (The server leaves no thread behind). When the server has no thread, or its thread function has
  returned, the TCP server and the XMPP client are \<^verbatim>\<open>NOT_RUNNING\<close>, without a thread and outside their
  calls; and the XMPP client is being stopped only after the TCP server has been.
\<close>

theorem push_server_leaves_no_thread:
  assumes "reachable (PushServer True) push_shared_new s"
  shows "(sv_thread s \<in> {None, Some P_done} \<longrightarrow> quiet (ps_tcp (sv_ext s)) \<and> quiet (ps_xmpp (sv_ext s)))
    \<and> (in_stop (sv_caller (ps_xmpp (sv_ext s))) \<longrightarrow> quiet (ps_tcp (sv_ext s)))"
proof
  have g: "push_good s" by (rule push_reachable_good [OF assms])
  then show "sv_thread s \<in> {None, Some P_done} \<longrightarrow> quiet (ps_tcp (sv_ext s)) \<and> quiet (ps_xmpp (sv_ext s))"
    by (auto simp: push_good_def)
  from in_stop_busy [of "ps_xmpp (sv_ext s)"] g show "in_stop (sv_caller (ps_xmpp (sv_ext s))) \<longrightarrow> quiet (ps_tcp (sv_ext s))"
    by (cases "sv_thread s") (auto simp: push_good_def split: push_pc.splits)
qed

theorem push_server_leaves_no_thread_witness:
  "quiet (ps_tcp push_shared_new) \<and> quiet (ps_xmpp push_shared_new)"
proof -
  let ?C = "PushServer True" and ?x = push_shared_new
  let ?t = "\<lparr>sv_state = STOP_REQUESTED, sv_thread = Some P_done, sv_caller = Stop_join, sv_ext = ?x\<rparr>"
  have "run_schedule ?C [0, 0, 0, 0, 0, 0] (call_stop (after_start ?C ?x)) = Inr ?t"
    by (simp add: after_start_def call_stop_def internal_step_def thread_step_def PushServer_def)
  moreover have "reachable ?C ?x (call_stop (after_start ?C ?x))"
    by (rule stop_reachable [OF after_start_reachable]) (simp add: after_start_def)
  ultimately have "reachable ?C ?x ?t" by (rule schedule_reachable [rotated])
  from push_server_leaves_no_thread [OF this] show ?thesis by simp
qed

section \<open>A second start\<close>

text \<open>A server that was started and, once its services ran, stopped; nothing but the Redis connection is left.\<close>

definition stopped_server :: "(push_pc, push_shared) service" where
  "stopped_server = service_new (push_shared_new\<lparr>ps_redis := True, ps_xmpp := service_new \<lparr>xs_ctx = False, xs_stop = True\<rparr>\<rparr>)"

lemma stopped_server_reachable: "reachable (PushServer True) push_shared_new stopped_server"
proof -
  let ?C = "PushServer True" and ?x = push_shared_new
  let ?x1 = "?x\<lparr>ps_redis := True\<rparr>"
  let ?tcp = "\<lparr>sv_state = STARTING, sv_thread = Some T_entry, sv_caller = Idle, sv_ext = False\<rparr>"
  let ?xmpp = "\<lambda>p. \<lparr>sv_state = RUNNING, sv_thread = Some p, sv_caller = Idle, sv_ext = \<lparr>xs_ctx = True, xs_stop = False\<rparr>\<rparr>"
  let ?at = "\<lambda>p x. \<lparr>sv_state = STOP_REQUESTED, sv_thread = Some p, sv_caller = Stop_join, sv_ext = x\<rparr>"
  note defs = internal_step_def thread_step_def env_step_def push_env_def call_start_def call_stop_def service_new_def
    when_idle_def PushServer_def TcpServer_def XmppClient_def push_shared_new_def xmpp_shared_new_def xmpp_stop_def
  have "run_schedule ?C [0, 0, 0, 0] (after_start ?C ?x)
      = Inr \<lparr>sv_state = RUNNING, sv_thread = Some P_tcp_start, sv_caller = Idle, sv_ext = ?x1\<rparr>"
    by (simp add: defs after_start_def)
  from stop_reachable [OF schedule_reachable [OF after_start_reachable this]]
  have "reachable ?C ?x \<lparr>sv_state = RUNNING, sv_thread = Some P_tcp_start, sv_caller = Stop_test, sv_ext = ?x1\<rparr>"
    by (simp add: call_stop_def)
  moreover have "run_schedule ?C [0, 0, 0, 0, 0, 0, 0, 0, 1, 1, 2, 2, 2, 2]
      \<lparr>sv_state = RUNNING, sv_thread = Some P_tcp_start, sv_caller = Stop_test, sv_ext = ?x1\<rparr>
      = Inr (?at P_started (?x1\<lparr>ps_tcp := ?tcp, ps_xmpp := ?xmpp X_loop\<rparr>))"
    by (simp add: defs)
  ultimately have "reachable ?C ?x (?at P_started (?x1\<lparr>ps_tcp := ?tcp, ps_xmpp := ?xmpp X_loop\<rparr>))"
    by (rule schedule_reachable)
  moreover have "run_schedule ?C [0, 0, 0, 0, 0, 0, 0, 0, 0, 0, 0, 0] (?at P_started (?x1\<lparr>ps_tcp := ?tcp, ps_xmpp := ?xmpp X_loop\<rparr>))
      = Inr (?at P_xmpp_stop (?x1\<lparr>ps_xmpp := ?xmpp X_loop\<rparr>))"
    by (simp add: defs)
  ultimately have "reachable ?C ?x (?at P_xmpp_stop (?x1\<lparr>ps_xmpp := ?xmpp X_loop\<rparr>))" by (rule schedule_reachable)
  moreover have "run_schedule ?C [0, 0, 0, 0, 0, 0, 0, 0, 0, 0, 0, 0, 0, 0, 0, 0] (?at P_xmpp_stop (?x1\<lparr>ps_xmpp := ?xmpp X_loop\<rparr>))
      = Inr stopped_server"
    by (simp add: defs stopped_server_def)
  ultimately show ?thesis by (rule schedule_reachable)
qed

text \<open>
  A stopped server cannot be started again. There is a run in which the server was started, ran its
  services, and was stopped, so that it and its services are \<^verbatim>\<open>NOT_RUNNING\<close> without threads; when it is
  started again its thread fails the assertion of \<^verbatim>\<open>RedisClient::init()\<close>.
\<close>

theorem restart_aborts:
  "\<exists>s t. reachable (PushServer True) push_shared_new s \<and> quiet s \<and> quiet (ps_tcp (sv_ext s)) \<and> quiet (ps_xmpp (sv_ext s))
     \<and> call_start (PushServer True) s = Inr t
     \<and> (\<exists>u. (\<lambda>a b. service_step (PushServer True) a (Inr b))\<^sup>*\<^sup>* t u \<and> sv_thread u = Some P_init
        \<and> Inl Assert_failed \<in> set (thread_step (PushServer True) u))"
proof (intro exI conjI)
  let ?C = "PushServer True"
  let ?u = "stopped_server\<lparr>sv_state := RUNNING, sv_thread := Some P_init\<rparr>"
  show "reachable ?C push_shared_new stopped_server" by (rule stopped_server_reachable)
  show "quiet stopped_server" "quiet (ps_tcp (sv_ext stopped_server))" "quiet (ps_xmpp (sv_ext stopped_server))"
    by (simp_all add: stopped_server_def quiet_def service_new_def push_shared_new_def)
  show "call_start ?C stopped_server = Inr (stopped_server\<lparr>sv_caller := Start_set\<rparr>)"
    by (simp add: call_start_def stopped_server_def service_new_def)
  show "(\<lambda>a b. service_step ?C a (Inr b))\<^sup>*\<^sup>* (stopped_server\<lparr>sv_caller := Start_set\<rparr>) ?u"
    by (rule schedule_steps [where sched = "[0, 0, 0, 0, 0]"])
       (simp add: stopped_server_def service_new_def push_shared_new_def internal_step_def thread_step_def PushServer_def)
  show "sv_thread ?u = Some P_init" by simp
  show "Inl Assert_failed \<in> set (thread_step ?C ?u)"
    by (simp add: thread_step_def PushServer_def stopped_server_def service_new_def push_shared_new_def)
qed

end
