(* ===== verification/Server_Boot.thy ===== *)
theory Server_Boot
  imports Server_Correct Config_Storage Push_Threads
begin

text \<open>
  How the program comes up: the arguments of \<^verbatim>\<open>src/main.cpp\<close>, the members the constructor of
  \<^verbatim>\<open>PushServer\<close> makes from the configuration, the part of the server's thread before its loop, and
  \<^verbatim>\<open>main\<close> as the owner of the server and of the command line.
\<close>

section \<open>Arguments\<close>

text \<open>The path and the flag so far; None: the help was printed and the program ended.\<close>

fun parse_args :: "string list \<Rightarrow> string \<times> bool \<Rightarrow> (string \<times> bool) option" where
  "parse_args [] opts = Some opts"
| "parse_args (arg # args) (configPath, noInput) =
     (if arg = ''--noInput'' then parse_args args (configPath, True)
      else if arg = ''--help'' then None
      else parse_args args (arg, noInput))"

definition main_args :: "bool \<Rightarrow> string list \<Rightarrow> exn + (string \<times> bool) option" where
  "main_args asserts argv = bindR (assertR asserts (1 \<le> length argv))
     (\<lambda>_. Inr (parse_args (tl argv) (''configuration.json'', False)))"

text \<open>The arguments, then the configuration they name; None as above.\<close>

definition main_setup :: "bool \<Rightarrow> 'j json_api \<Rightarrow> 'j json_stream \<Rightarrow> string list \<Rightarrow>
    (file_system \<times> 'j configuration_storage option, (configuration \<times> bool) option) M" where
  "main_setup asserts J T argv = bindE (liftR (main_args asserts argv)) (\<lambda>opts. case opts of
     None \<Rightarrow> ret None
   | Some (configPath, noInput) \<Rightarrow>
       bindE (get_configuration_storage_instance J T configPath) (\<lambda>st. ret (Some (config st, noInput))))"

section \<open>Construction\<close>

record redis_client =
  rc_url :: string
  rc_connected :: bool

definition RedisClient_new :: "db_configuration \<Rightarrow> redis_client" where
  "RedisClient_new c = \<lparr>rc_url = url c, rc_connected = False\<rparr>"

definition redis_init :: "bool \<Rightarrow> redis_client \<Rightarrow> exn + redis_client" where
  "redis_init asserts rc = bindR (assertR asserts (\<not> rc_connected rc)) (\<lambda>_. Inr (rc\<lparr>rc_connected := True\<rparr>))"

text \<open>The server's members and the world it acts on, before anything was sent.\<close>

definition PushServer_new :: "configuration \<Rightarrow> 'db \<Rightarrow> 'e \<Rightarrow> redis_client \<times> ('db, 'e, 'st) xmpp_world" where
  "PushServer_new c d e = (RedisClient_new (db c),
     \<lparr>w_db = d, w_env = e, w_trace = [], w_wns = WnsClient_new (packetId (wns c)) (wns_configuration.clientSecret (wns c)),
      w_xmpp = (XmppClient_new (bareJid (xmpp c)) (password (xmpp c)) (xmpp_port (xmpp c)) (host (xmpp c)))\<lparr>xc_redis_set := True\<rparr>\<rparr>)"

text \<open>The server's thread before it starts the services.\<close>

definition server_setup ::
  "('j, 'db, 'e, 'st) platform \<Rightarrow> redis_client \<Rightarrow> (('db, 'e, 'st, 'z) xmpp_world_scheme, redis_client) M" where
  "server_setup P rc = bindE (liftR (redis_init (p_asserts P) rc)) (\<lambda>rc.
     thenE set_redis_client (thenE (load_token_from_db P) (ret rc)))"

section \<open>The main thread\<close>

text \<open>
  \<open>mn_ptr\<close>: \<^verbatim>\<open>serverPtr\<close> is not null; \<open>mn_io\<close>: the command line, made only when there is input. The
  handler of SIGINT runs on the main thread, between two of its steps, and only the mode without input
  installs it. At the end the destructors of the command line and of the server check their states.
\<close>

datatype main_pc = M_start | M_started | M_wait_signal | M_handler | M_io_start | M_io_wait
  | M_server_stop | M_io_stop | M_return | M_exit

record main_state =
  mn_pc :: main_pc
  mn_ptr :: bool
  mn_server :: "(push_pc, push_shared) service"
  mn_io :: "(io_pc, bool) service"

definition main_new :: main_state where
  "main_new = \<lparr>mn_pc = M_start, mn_ptr = False, mn_server = service_new push_shared_new, mn_io = service_new False\<rparr>"

fun main_next :: "bool \<Rightarrow> bool \<Rightarrow> main_state \<Rightarrow> (exn + main_state) list" where
  "main_next asserts noInput m = (case mn_pc m of
     M_start \<Rightarrow> [bindR (call_start (PushServer asserts) (mn_server m)) (\<lambda>s. Inr (m\<lparr>mn_server := s, mn_pc := M_started\<rparr>))]
   | M_started \<Rightarrow> when_idle (mn_server m)
       (Inr (if noInput then m\<lparr>mn_ptr := True, mn_pc := M_wait_signal\<rparr> else m\<lparr>mn_pc := M_io_start\<rparr>))
   | M_wait_signal \<Rightarrow> [Inr (if mn_ptr m then m else m\<lparr>mn_pc := M_return\<rparr>)]
   | M_handler \<Rightarrow> when_idle (mn_server m) (Inr (m\<lparr>mn_ptr := False, mn_pc := M_wait_signal\<rparr>))
   | M_io_start \<Rightarrow> [bindR (call_start (IoThread asserts) (mn_io m)) (\<lambda>s. Inr (m\<lparr>mn_io := s, mn_pc := M_io_wait\<rparr>))]
   | M_io_wait \<Rightarrow> when_idle (mn_io m)
       (Inr (if sv_state (mn_io m) \<noteq> WAITING_FOR_JOIN then m else m\<lparr>mn_pc := M_server_stop\<rparr>))
   | M_server_stop \<Rightarrow> [Inr (m\<lparr>mn_server := call_stop (mn_server m), mn_pc := M_io_stop\<rparr>)]
   | M_io_stop \<Rightarrow> when_idle (mn_server m) (Inr (m\<lparr>mn_io := call_stop (mn_io m), mn_pc := M_return\<rparr>))
   | M_return \<Rightarrow> when_idle (mn_io m)
       (bindR (service_destroy asserts (mn_io m)) (\<lambda>_.
        bindR (service_destroy asserts (mn_server m)) (\<lambda>_. Inr (m\<lparr>mn_pc := M_exit\<rparr>))))
   | M_exit \<Rightarrow> [])"

text \<open>A SIGINT: the handler calls \<^verbatim>\<open>stop()\<close> and then clears the pointer.\<close>

definition signal_handler :: "bool \<Rightarrow> main_state \<Rightarrow> main_state" where
  "signal_handler noInput m = (if noInput \<and> mn_pc m = M_wait_signal \<and> mn_ptr m
     then m\<lparr>mn_server := call_stop (mn_server m), mn_pc := M_handler\<rparr> else m)"

inductive main_step :: "bool \<Rightarrow> bool \<Rightarrow> main_state \<Rightarrow> exn + main_state \<Rightarrow> bool" for asserts :: bool and noInput :: bool where
  main_own: "r \<in> set (main_next asserts noInput m) \<Longrightarrow> main_step asserts noInput m r"
| main_signal: "main_step asserts noInput m (Inr (signal_handler noInput m))"
| main_server: "r \<in> set (internal_step (PushServer asserts) (mn_server m)) \<Longrightarrow>
    main_step asserts noInput m (bindR r (\<lambda>s. Inr (m\<lparr>mn_server := s\<rparr>)))"
| main_io: "r \<in> set (internal_step (IoThread asserts) (mn_io m)) \<Longrightarrow>
    main_step asserts noInput m (bindR r (\<lambda>s. Inr (m\<lparr>mn_io := s\<rparr>)))"

inductive main_reachable :: "bool \<Rightarrow> bool \<Rightarrow> main_state \<Rightarrow> bool" for asserts :: bool and noInput :: bool where
  main_init: "main_reachable asserts noInput main_new"
| main_run: "main_reachable asserts noInput m \<Longrightarrow> main_step asserts noInput m (Inr m') \<Longrightarrow> main_reachable asserts noInput m'"

end
