(* ===== verification/Boot_Correct.thy ===== *)
theory Boot_Correct
  imports Server_Boot
begin

text \<open>
  Properties of the start of the program: what the arguments select, and that \<^verbatim>\<open>main\<close> returns with the
  server, its services and the command line stopped.
\<close>

section \<open>Arguments\<close>

text \<open>The last argument that is no option, if any.\<close>

definition paths :: "string list \<Rightarrow> string list" where
  "paths args = filter (\<lambda>a. a \<noteq> ''--noInput'' \<and> a \<noteq> ''--help'') args"

lemma parse_args_spec:
  "parse_args args (p, n) = (if ''--help'' \<in> set args then None
     else Some (last (p # paths args), n \<or> ''--noInput'' \<in> set args))"
  by (induction args arbitrary: p n) (auto simp: paths_def)

text \<open>
  The arguments. \<^verbatim>\<open>--help\<close> anywhere prints the help; otherwise the last argument that is not an option
  is the configuration file, \<^verbatim>\<open>configuration.json\<close> without any, and \<^verbatim>\<open>--noInput\<close> anywhere sets its flag.
\<close>

theorem main_args_spec:
  "main_args asserts (prog # args) = Inr (if ''--help'' \<in> set args then None
     else Some (last (''configuration.json'' # paths args), ''--noInput'' \<in> set args))"
  by (simp add: main_args_def parse_args_spec)

section \<open>The main thread\<close>

text \<open>A command line whose thread has ended by itself, and one that is stopped after that.\<close>

definition io_ended :: "(io_pc, bool) service \<Rightarrow> bool" where
  "io_ended s \<longleftrightarrow> live s \<and> sv_state s = WAITING_FOR_JOIN"

definition io_joined :: "(io_pc, bool) service \<Rightarrow> bool" where
  "io_joined s \<longleftrightarrow> quiet s \<or> sv_caller s \<in> {Stop_test, Stop_inner, Stop_join} \<and> sv_state s = WAITING_FOR_JOIN
     \<or> sv_caller s = Stop_reset \<or> sv_caller s = Stop_clear \<and> sv_state s = NOT_RUNNING"

lemma io_ended_no_thread_step:
  assumes "io.good s" "sv_state s = WAITING_FOR_JOIN \<or> sv_caller s \<in> {Stop_reset, Stop_clear}"
  shows "thread_step (IoThread True) s = []"
proof (cases "sv_thread s")
  case (Some w)
  with assms have "w = I_done" by (cases "sv_caller s") (auto simp: io.good_def io_phase_returned split: if_splits)
  with Some show ?thesis by (simp add: thread_step_def IoThread_def)
qed (simp add: thread_step_def)

lemma io_ended_step:
  assumes "io.good s" "Inr t \<in> set (internal_step (IoThread True) s)"
  shows "\<not> io_ended s" "io_joined s \<longrightarrow> io_joined t"
proof -
  have env: "env_step (IoThread True) s = []" by (simp add: env_step_def IoThread_def)
  show "\<not> io_ended s"
  proof
    assume "io_ended s"
    with io_ended_no_thread_step [OF assms(1)] env assms(2) show False
      by (simp add: internal_step_def io_ended_def live_def)
  qed
  show "io_joined s \<longrightarrow> io_joined t"
  proof
    assume j: "io_joined s"
    then consider "quiet s" | "thread_step (IoThread True) s = []"
      using io_ended_no_thread_step [OF assms(1)] by (auto simp: io_joined_def)
    then show "io_joined t"
    proof cases
      case 1
      with io.internal_views [OF assms] show ?thesis by (simp add: io_joined_def)
    next
      case 2
      with env assms(2) have "Inr t \<in> set (caller_step (IoThread True) s)" by (simp add: internal_step_def del: caller_step.simps)
      with j show ?thesis
        by (cases "sv_caller s"; auto simp: io_joined_def quiet_def IoThread_def split: option.splits if_splits)
    qed
  qed
qed

definition main_view :: "main_state \<Rightarrow> bool" where
  "main_view m \<longleftrightarrow> (let s = mn_server m; i = mn_io m in case mn_pc m of
     M_start \<Rightarrow> quiet s \<and> quiet i
   | M_started \<Rightarrow> starting s \<and> quiet i
   | M_wait_signal \<Rightarrow> (if mn_ptr m then live s else quiet s) \<and> quiet i
   | M_handler \<Rightarrow> stopping s \<and> quiet i
   | M_io_start \<Rightarrow> live s \<and> quiet i
   | M_io_wait \<Rightarrow> live s \<and> starting i
   | M_server_stop \<Rightarrow> live s \<and> io_ended i
   | M_io_stop \<Rightarrow> stopping s \<and> io_ended i
   | M_return \<Rightarrow> quiet s \<and> io_joined i
   | M_exit \<Rightarrow> quiet s \<and> quiet i)"

definition main_good :: "main_state \<Rightarrow> bool" where
  "main_good m \<longleftrightarrow> reachable (PushServer True) push_shared_new (mn_server m) \<and> reachable (IoThread True) False (mn_io m)
     \<and> main_view m"

lemma io_waiting_live:
  "reachable (IoThread True) x s \<Longrightarrow> sv_caller s = Idle \<Longrightarrow> sv_state s = WAITING_FOR_JOIN \<Longrightarrow> io_ended s"
  using io.idle_thread [of x s] by (simp add: io_ended_def live_def)

lemma io_stop_joined: "io_ended s \<Longrightarrow> io_joined (call_stop s)"
  by (simp add: io_ended_def io_joined_def call_stop_def)

lemma io_joined_idle: "io_joined s \<Longrightarrow> sv_caller s = Idle \<Longrightarrow> quiet s"
  by (auto simp: io_joined_def)

lemma main_own_good:
  assumes "main_good m" "r \<in> set (main_next True noInput m)"
  shows "\<exists>m'. r = Inr m' \<and> main_good m'"
proof -
  let ?s = "mn_server m" and ?i = "mn_io m"
  have r: "reachable (PushServer True) push_shared_new ?s" "reachable (IoThread True) False ?i" "main_view m"
    using assms(1) by (simp_all add: main_good_def)
  have calls: "quiet t \<Longrightarrow> sv_caller t = Idle \<and> sv_state t = NOT_RUNNING" for t :: "(io_pc, bool) service"
    by (simp add: quiet_def)
  have idle: "sv_caller ?s = Idle" if "quiet ?s \<or> live ?s" using that by (auto simp: quiet_def live_def)
  have idle_io: "sv_caller ?i = Idle" if "quiet ?i \<or> io_ended ?i" using that by (auto simp: quiet_def live_def io_ended_def)
  show ?thesis
  proof (cases "mn_pc m")
    case M_start
    with r(3) have q: "quiet ?s" "quiet ?i" by (simp_all add: main_view_def Let_def)
    then obtain t where t: "call_start (PushServer True) ?s = Inr t" "starting t" using quiet_start by blast
    with start_reachable [OF r(1) _ t(1)] idle q M_start assms(2) r(2) show ?thesis
      by (simp add: main_good_def main_view_def)
  next
    case M_io_start
    with r(3) have q: "live ?s" "quiet ?i" by (simp_all add: main_view_def Let_def)
    then obtain t where t: "call_start (IoThread True) ?i = Inr t" "starting t" using quiet_start by blast
    with start_reachable [OF r(2) _ t(1)] idle_io q M_io_start assms(2) r(1) show ?thesis
      by (simp add: main_good_def main_view_def)
  next
    case M_server_stop
    with r(3) have q: "live ?s" "io_ended ?i" by (simp_all add: main_view_def Let_def)
    with stop_reachable [OF r(1)] idle M_server_stop assms(2) r(2) live_stop [OF q(1)] show ?thesis
      by (simp add: main_good_def main_view_def)
  next
    case M_io_stop
    with r(3) have q: "stopping ?s" "io_ended ?i" by (simp_all add: main_view_def Let_def)
    with stop_reachable [OF r(2)] idle_io M_io_stop assms(2) r(1) io_stop_joined [OF q(2)] idle_stopping [of ?s] show ?thesis
      by (auto simp: main_good_def main_view_def when_idle_def split: if_splits)
  next
    case M_return
    with r(3) have q: "quiet ?s" "io_joined ?i" by (simp_all add: main_view_def Let_def)
    with M_return assms(2) r(1,2) io_joined_idle [OF q(2)] show ?thesis
      by (auto simp: main_good_def main_view_def when_idle_def quiet_def service_destroy_def split: if_splits)
  next
    case M_io_wait
    with assms(2) r io_waiting_live [OF r(2)] show ?thesis
      by (auto simp: main_good_def main_view_def when_idle_def split: if_splits)
  qed (use assms(2) r idle_starting [of ?s] idle_stopping [of ?s] in
        \<open>auto simp: main_good_def main_view_def when_idle_def io_joined_def split: if_splits\<close>)
qed

lemma main_step_good:
  assumes "main_good m" "main_step True noInput m (Inr m')"
  shows "main_good m'"
  using assms(2)
proof (cases rule: main_step.cases)
  case main_own
  with main_own_good [OF assms(1)] show ?thesis by blast
next
  case main_signal
  with assms(1) stop_reachable [of "PushServer True" push_shared_new "mn_server m"] live_stop [of "mn_server m"]
    live_idle [of "mn_server m"] show ?thesis
    by (auto simp: signal_handler_def main_good_def main_view_def)
next
  case (main_server r)
  then obtain t where t: "Inr t \<in> set (internal_step (PushServer True) (mn_server m))" "m' = m\<lparr>mn_server := t\<rparr>"
    by (auto simp: Inr_eq_bindR)
  have r: "reachable (PushServer True) push_shared_new (mn_server m)" using assms(1) by (simp add: main_good_def)
  from psrv.internal_views [OF psrv.reachable_good [OF r] t(1)] psrv.internal_stopping [OF psrv.reachable_good [OF r] t(1)]
    internal_reachable [OF r t(1)] assms(1) t(2) show ?thesis
    by (cases "mn_pc m") (auto simp: main_good_def main_view_def Let_def)
next
  case (main_io r)
  then obtain t where t: "Inr t \<in> set (internal_step (IoThread True) (mn_io m))" "m' = m\<lparr>mn_io := t\<rparr>"
    by (auto simp: Inr_eq_bindR)
  have r: "reachable (IoThread True) False (mn_io m)" using assms(1) by (simp add: main_good_def)
  from io.internal_views [OF io.reachable_good [OF r] t(1)] io_ended_step [OF io.reachable_good [OF r] t(1)]
    internal_reachable [OF r t(1)] assms(1) t(2) show ?thesis
    by (cases "mn_pc m") (auto simp: main_good_def main_view_def Let_def)
qed

lemma main_reachable_good: "main_reachable True noInput m \<Longrightarrow> main_good m"
proof (induction rule: main_reachable.induct)
  case main_init
  then show ?case
    using reachable.initial [of "PushServer True" push_shared_new] reachable.initial [of "IoThread True" False]
    by (simp add: main_good_def main_view_def main_new_def quiet_def service_new_def)
next
  case (main_run m m')
  then show ?case using main_step_good by blast
qed

text \<open>The server runs by itself between two steps of the main thread.\<close>

lemma server_schedule_reachable:
  assumes "main_reachable asserts noInput m" "run_schedule (PushServer asserts) sched (mn_server m) = Inr s"
  shows "main_reachable asserts noInput (m\<lparr>mn_server := s\<rparr>)"
  using assms
proof (induction sched arbitrary: m)
  case (Cons i sched)
  show ?case
  proof (cases "i < length (internal_step (PushServer asserts) (mn_server m))")
    case True
    with Cons.prems(2) obtain u where u: "internal_step (PushServer asserts) (mn_server m) ! i = Inr u"
      and run: "run_schedule (PushServer asserts) sched u = Inr s"
      by (cases "internal_step (PushServer asserts) (mn_server m) ! i") auto
    from True u have "Inr u \<in> set (internal_step (PushServer asserts) (mn_server m))" by (metis nth_mem)
    from main_run [OF Cons.prems(1)] main_server [OF this]
    have "main_reachable asserts noInput (m\<lparr>mn_server := u\<rparr>)" by simp
    from Cons.IH [OF this] run show ?thesis by simp
  next
    case False
    with Cons.prems show ?thesis by auto
  qed
qed auto

lemma main_own_reachable:
  "main_reachable asserts noInput m \<Longrightarrow> main_next asserts noInput m = [Inr m'] \<Longrightarrow> main_reachable asserts noInput m'"
  by (rule main_run) (auto intro: main_own)

text \<open>
  C15 (The program ends with everything stopped). None of the main thread's own assertions fails, those
  of the two calls of \<^verbatim>\<open>start()\<close> and of the destructors included; and when it returns, the command line, the
  server and the server's services are \<^verbatim>\<open>NOT_RUNNING\<close> and have no thread.
\<close>

theorem main_exits_stopped:
  assumes "main_reachable True noInput m"
  shows "Inl e \<notin> set (main_next True noInput m)
    \<and> (mn_pc m = M_exit \<longrightarrow> quiet (mn_io m) \<and> quiet (mn_server m)
      \<and> quiet (ps_tcp (sv_ext (mn_server m))) \<and> quiet (ps_xmpp (sv_ext (mn_server m))))"
proof
  have g: "main_good m" by (rule main_reachable_good [OF assms])
  from main_own_good [OF g] show "Inl e \<notin> set (main_next True noInput m)" by blast
  show "mn_pc m = M_exit \<longrightarrow> quiet (mn_io m) \<and> quiet (mn_server m)
      \<and> quiet (ps_tcp (sv_ext (mn_server m))) \<and> quiet (ps_xmpp (sv_ext (mn_server m)))"
  proof
    assume "mn_pc m = M_exit"
    with g have q: "quiet (mn_io m)" "quiet (mn_server m)" "push_good (mn_server m)"
      using push_reachable_good by (auto simp: main_good_def main_view_def Let_def)
    then show "quiet (mn_io m) \<and> quiet (mn_server m)
      \<and> quiet (ps_tcp (sv_ext (mn_server m))) \<and> quiet (ps_xmpp (sv_ext (mn_server m)))"
      by (simp add: push_good_def quiet_def [of "mn_server m"])
  qed
qed

text \<open>A run without input: SIGINT arrives before the server's thread has begun, and the program ends.\<close>

theorem main_exits_stopped_witness:
  "\<exists>m. main_reachable True True m \<and> mn_pc m = M_exit \<and> quiet (mn_server m)
    \<and> quiet (ps_tcp (sv_ext (mn_server m))) \<and> (\<forall>e. Inl e \<notin> set (main_next True True m))"
proof -
  let ?C = "PushServer True" and ?x = push_shared_new
  let ?at = "\<lambda>pc ptr s. \<lparr>mn_pc = pc, mn_ptr = ptr, mn_server = s, mn_io = service_new False\<rparr>"
  have "main_reachable True True (?at M_started False ((service_new ?x)\<lparr>sv_caller := Start_set\<rparr>))"
    by (rule main_own_reachable [OF main_init]) (simp add: main_new_def call_start_def service_new_def)
  from server_schedule_reachable [OF this, of "[0, 0]" "after_start ?C ?x"]
  have "main_reachable True True (?at M_started False (after_start ?C ?x))"
    by (simp add: internal_step_def after_start_def service_new_def)
  then have "main_reachable True True (?at M_wait_signal True (after_start ?C ?x))"
    by (rule main_own_reachable) (simp add: when_idle_def after_start_def)
  from main_run [OF this main_signal]
  have "main_reachable True True (?at M_handler True (call_stop (after_start ?C ?x)))"
    by (simp add: signal_handler_def)
  from server_schedule_reachable [OF this, of "[0, 0, 0, 0, 0, 0, 0, 0, 0]" "service_new ?x"]
  have "main_reachable True True (?at M_handler True (service_new ?x))"
    by (simp add: internal_step_def thread_step_def after_start_def call_stop_def service_new_def PushServer_def)
  then have "main_reachable True True (?at M_wait_signal False (service_new ?x))"
    by (rule main_own_reachable) (simp add: when_idle_def service_new_def)
  then have "main_reachable True True (?at M_return False (service_new ?x))"
    by (rule main_own_reachable) simp
  then have exit: "main_reachable True True (?at M_exit False (service_new ?x))"
    by (rule main_own_reachable) (simp add: when_idle_def service_new_def service_destroy_def)
  from main_exits_stopped [OF this] exit show ?thesis by (intro exI) (auto simp del: main_next.simps)
qed

end
