(* ===== verification/Config_Correct.thy ===== *)
theory Config_Correct
  imports Config_Storage
begin

text \<open>
  Properties of the configuration and its file: the JSON forms are read back, a configuration survives
  a restart, and what a start does with a missing, broken or incomplete file.
\<close>

section \<open>Reading back the JSON forms\<close>

context json_lib
begin

lemmas at_get_object = at_get_def object_at

lemma wns_roundtrip [simp]: "wns_from_json J (wns_to_json J c) c' = Inr c"
  by (simp add: wns_from_json_def wns_to_json_def at_get_object Let_def)

lemma xmpp_roundtrip [simp]: "xmpp_from_json J (xmpp_to_json J c) c' = Inr c"
  by (simp add: xmpp_from_json_def xmpp_to_json_def at_get_object Let_def)

lemma tls_roundtrip [simp]: "tls_from_json J (tls_to_json J c) c' = Inr c"
  by (simp add: tls_from_json_def tls_to_json_def at_get_object Let_def)

lemma tcp_roundtrip [simp]: "tcp_from_json J (tcp_to_json J c) c' = Inr c"
  by (simp add: tcp_from_json_def tcp_to_json_def at_get_object Let_def)

lemma db_roundtrip [simp]: "db_from_json J (db_to_json J c) c' = Inr c"
  by (simp add: db_from_json_def db_to_json_def at_get_object)

lemma configuration_roundtrip [simp]: "configuration_from_json J (configuration_to_json J c) c' = Inr c"
  by (simp add: configuration_from_json_def configuration_to_json_def at_get_object Let_def)

lemma missing_part:
  assumes "\<not> j_contains J ''wns'' j \<or> \<not> j_contains J ''xmpp'' j \<or> \<not> j_contains J ''tcp'' j \<or> \<not> j_contains J ''db'' j"
  shows "\<exists>e. configuration_from_json J j c = Inl e"
proof (rule ccontr)
  assume "\<not> ?thesis"
  then obtain c' where "configuration_from_json J j c = Inr c'" by (cases "configuration_from_json J j c") auto
  then show False
    using assms at_missing [of _ j] by (fastforce simp: configuration_from_json_def at_get_def bindR_eq_Inr Let_def)
qed

lemma time_point_roundtrip:
  "time_point_from_json J (time_point_to_json J tp) = Inr (from_time_t (to_time_t tp))"
proof -
  have "sint (word_of_int (to_time_t tp) :: 64 word) = to_time_t tp"
    using to_time_t_range [of tp] by (intro sint_of_int64) auto
  then show ?thesis using time_t_get [of "word_of_int (to_time_t tp)"]
    by (simp add: time_point_from_json_def time_point_to_json_def)
qed

text \<open>A value whose own JSON form is read back and is not null survives \<^verbatim>\<open>std::optional\<close>.\<close>

lemma optional_roundtrip:
  assumes "\<And>x. get (to_j x) = Inr x" "\<And>x. \<not> j_is_null J (to_j x)"
  shows "optional_from_json J get (optional_to_json J to_j opt) = Inr opt"
    and "shared_ptr_from_json J get (shared_ptr_to_json J to_j opt) = Inr opt"
  using assms by (auto simp: optional_from_json_def optional_to_json_def shared_ptr_from_json_def
      shared_ptr_to_json_def null_is_null split: option.split)

lemma set_data_new:
  assumes "\<not> j_contains J k (js_int s)" "settable J (js_int s)" "get (to_j v) = Inr v"
  shows "\<exists>s'. set_data J to_j k v s = (Inr (), s') \<and> get_data J get s' k = Inr (Some v) \<and> settable J (js_int s')"
proof -
  obtain j' where j': "j_emplace J k (to_j v) (js_int s) = Inr j'" using emplace_ok assms(2) by blast
  then have "j_contains J k j'" "j_at J k j' = Inr (to_j v)" "j_is_object J j'"
    using emplace_contains [OF j', of k] emplace_at [OF j', of k] emplace_object [OF j'] assms(1) by simp_all
  with j' assms(3) show ?thesis by (simp add: set_data_def get_data_def at_get_def settable_def)
qed

lemma set_data_old:
  assumes "j_contains J k (js_int s)" "settable J (js_int s)"
  shows "\<exists>s'. set_data J to_j k v s = (Inr (), s') \<and> (\<forall>(get :: 'j \<Rightarrow> exn + 'b) k'. get_data J get s' k' = get_data J get s k')"
proof -
  obtain j' where j': "j_emplace J k (to_j v) (js_int s) = Inr j'" using emplace_ok assms(2) by blast
  have c: "j_contains J k' j' \<longleftrightarrow> j_contains J k' (js_int s)" for k'
    using emplace_contains [OF j', of k'] assms(1) by auto
  have a: "j_contains J k' (js_int s) \<Longrightarrow> j_at J k' j' = j_at J k' (js_int s)" for k'
    using emplace_at [OF j', of k'] assms(1) by auto
  from j' c a show ?thesis by (auto simp: set_data_def get_data_def at_get_def)
qed

end

section \<open>The file\<close>

definition ascii_config :: "configuration \<Rightarrow> bool" where
  "ascii_config c \<longleftrightarrow> ascii (packetId (wns c)) \<and> ascii (clientSecret (wns c))
     \<and> ascii (bareJid (xmpp c)) \<and> ascii (password (xmpp c)) \<and> ascii (host (xmpp c))
     \<and> ascii (serverKeyPath (tls (tcp c))) \<and> ascii (serverCertPath (tls (tcp c))) \<and> ascii (url (db c))"

lemma ascii_Nil [simp]: "ascii []"
  by (simp add: ascii_def)

lemma ascii_Cons [simp]: "ascii (c # cs) \<longleftrightarrow> code_of c < 128 \<and> ascii cs"
  by (simp add: ascii_def)

lemma ascii_defaults: "ascii_config Configuration"
  by (simp add: ascii_config_def Configuration_def WnsConfiguration_def XmppConfiguration_def
      TlsConfiguration_def TcpConfiguration_def DbConfiguration_def code_of_def)

text \<open>What a constructor does, by what it finds at the path.\<close>

lemma ConfigurationStorage_simps:
  "fs_files fs p = None \<Longrightarrow> ConfigurationStorage J T p fs =
     write_configuration J T \<lparr>config = Configuration, fileHandle = Serializer J p\<rparr> fs"
  "fs_files fs p = Some t \<Longrightarrow> \<not> fs_can_read fs p \<Longrightarrow>
     ConfigurationStorage J T p fs = (Inr \<lparr>config = Configuration, fileHandle = Serializer J p\<rparr>, fs)"
  "fs_files fs p = Some t \<Longrightarrow> fs_can_read fs p \<Longrightarrow> js_read T t (j_object J []) = (Some Json_parse_error, j) \<Longrightarrow>
     ConfigurationStorage J T p fs = (Inr \<lparr>config = Configuration, fileHandle = (Serializer J p)\<lparr>js_int := j\<rparr>\<rparr>, fs)"
  "fs_files fs p = Some t \<Longrightarrow> fs_can_read fs p \<Longrightarrow> js_read T t (j_object J []) = (None, j) \<Longrightarrow>
     ConfigurationStorage J T p fs = (case configuration_from_json J j Configuration of Inl e \<Rightarrow> (Inl e, fs)
       | Inr c \<Rightarrow> (Inr \<lparr>config = c, fileHandle = (Serializer J p)\<lparr>js_int := j\<rparr>\<rparr>, fs))"
  by (simp_all add: ConfigurationStorage_def read_in_def read_file_def Serializer_def Let_def split: sum.split)

context json_files
begin

lemma printable_config:
  assumes "ascii_config c"
  shows "printable (configuration_to_json J c)"
proof -
  have u16: "printable (j_of_int J (uint (u :: 16 word)))" for u
  proof (rule print_int)
    show "- (2 ^ 63) \<le> uint u" by (rule order_trans [OF _ uint_ge_0]) simp
    show "uint u < 2 ^ 64" using uint_lt2p [of u] by simp
  qed
  have obj: "printable (j_object J kvs)"
    if "\<forall>kv \<in> set kvs. ascii (fst kv) \<and> printable (snd kv)" "distinct (map fst kvs)" for kvs
    using that print_object by (simp add: case_prod_beta)
  have "printable (wns_to_json J (wns c))" "printable (xmpp_to_json J (xmpp c))"
    "printable (tls_to_json J (tls (tcp c)))" "printable (db_to_json J (db c))"
    unfolding wns_to_json_def xmpp_to_json_def tls_to_json_def db_to_json_def
    using assms by (auto intro!: obj print_text u16 simp: ascii_config_def code_of_def)
  moreover from this(3) have "printable (tcp_to_json J (tcp c))"
    unfolding tcp_to_json_def by (auto intro!: obj u16 simp: code_of_def)
  ultimately show ?thesis
    unfolding configuration_to_json_def by (auto intro!: obj simp: code_of_def)
qed

lemma restart:
  assumes "ascii_config (config st)" "fs_can_write fs p" "fs_can_read fs p" "filename (fileHandle st) = p"
  shows "\<exists>st' fs'. write_configuration J T st fs = (Inr st', fs') \<and> config st' = config st
    \<and> fs_files fs' p \<noteq> None \<and> (\<forall>q. q \<noteq> p \<longrightarrow> fs_files fs' q = fs_files fs q)
    \<and> (\<exists>st''. ConfigurationStorage J T p fs' = (Inr st'', fs') \<and> config st'' = config st)"
proof -
  let ?j = "configuration_to_json J (config st)"
  obtain t where t: "js_write T 1 ?j = (None, t)" "\<And>j'. js_read T t j' = (None, ?j)"
    using write_ok [OF printable_config [OF assms(1)], of 1] read_back [OF printable_config [OF assms(1)], of 1]
    by (metis prod.exhaust_sel)
  define fs' where "fs' = fs\<lparr>fs_files := (fs_files fs)(p \<mapsto> t)\<rparr>"
  have "write_configuration J T st fs = (Inr (st\<lparr>fileHandle := (fileHandle st)\<lparr>js_int := ?j\<rparr>\<rparr>), fs')"
    using assms t(1) by (simp add: write_configuration_def write_out_def Let_def fs'_def)
  moreover have "fs_files fs' p = Some t" "fs_can_read fs' p" using assms by (simp_all add: fs'_def)
  note ConfigurationStorage_simps(4) [OF this t(2)]
  ultimately show ?thesis by (simp add: fs'_def)
qed

end

section \<open>A reference stream\<close>

definition ref_stream :: "json json_stream" where
  "ref_stream = \<lparr>js_read = (\<lambda>t j. case read_json (2 * length t + 2) t of
       None \<Rightarrow> (Some Json_parse_error, j) | Some (d, r) \<Rightarrow> (None, d)),
     js_write = (\<lambda>n j. (None, print_json j))\<rparr>"

lemma ref_stream_back: "js_read ref_stream (print_json j) j' = (None, j)"
proof -
  have "read_json (2 * length (print_json j) + 2) (print_json j @ []) = Some (j, [])"
    using reads_back [of j] unfolding reads_back_def by (metis digit_free_simps(1) le_add1 mult_2 add.assoc)
  then show ?thesis by (simp add: ref_stream_def)
qed

lemma ref_stream_write [simp]: "js_write ref_stream n j = (None, print_json j)"
  by (simp add: ref_stream_def)

interpretation rjf: json_files ref_json ref_stream "\<lambda>j. True"
  by unfold_locales (simp_all add: ref_stream_back)

definition demo_config :: configuration where
  "demo_config = Configuration\<lparr>wns := \<lparr>packetId = ''ms-app://s-1'', clientSecret = ''s''\<rparr>,
     db := \<lparr>url = ''tcp://127.0.0.1''\<rparr>\<rparr>"

definition demo_files :: file_system where
  "demo_files = \<lparr>fs_files = Map.empty, fs_can_read = (\<lambda>p. True), fs_can_write = (\<lambda>p. True)\<rparr>"

section \<open>Properties\<close>

text \<open>
  C16 (A configuration survives a restart). Written to its file, a configuration of 7-bit texts is what
  the next construction from that path yields; no other file changes.
\<close>

theorem config_survives_restart:
  assumes "json_files J T printable" "ascii_config (config st)"
    "fs_can_write fs p" "fs_can_read fs p" "filename (fileHandle st) = p"
  shows "\<exists>st' fs'. write_configuration J T st fs = (Inr st', fs') \<and> config st' = config st
    \<and> fs_files fs' p \<noteq> None \<and> (\<forall>q. q \<noteq> p \<longrightarrow> fs_files fs' q = fs_files fs q)
    \<and> (\<exists>st''. ConfigurationStorage J T p fs' = (Inr st'', fs') \<and> config st'' = config st)"
  by (rule json_files.restart [OF assms])

theorem config_survives_restart_witness:
  "\<exists>st' fs'. write_configuration ref_json ref_stream
      \<lparr>config = demo_config, fileHandle = Serializer ref_json ''c''\<rparr> demo_files = (Inr st', fs')
    \<and> config st' = demo_config \<and> fs_files fs' ''c'' \<noteq> None
    \<and> (\<exists>st''. ConfigurationStorage ref_json ref_stream ''c'' fs' = (Inr st'', fs') \<and> config st'' = demo_config)"
proof -
  have "ascii_config demo_config"
    using ascii_defaults by (simp add: ascii_config_def demo_config_def code_of_def)
  with config_survives_restart [OF rjf.json_files_axioms, of "\<lparr>config = demo_config, fileHandle = Serializer ref_json ''c''\<rparr>" demo_files "''c''"]
  show ?thesis by (auto simp: demo_files_def Serializer_def)
qed

text \<open>
  What a start does with a bad file. A configuration file that cannot be opened or is not JSON
  leaves the server with the built-in place holders as its configuration, and the file as it is; a JSON
  file without one of the four parts ends the construction with an exception.
\<close>

theorem config_load_outcomes:
  assumes "json_lib J" "fs_files fs p = Some t"
  shows "(\<not> fs_can_read fs p \<or> (\<exists>j. js_read T t (j_object J []) = (Some Json_parse_error, j)) \<longrightarrow>
      (\<exists>st. ConfigurationStorage J T p fs = (Inr st, fs) \<and> config st = Configuration))
    \<and> (\<forall>j. fs_can_read fs p \<and> js_read T t (j_object J []) = (None, j)
         \<and> (\<exists>k \<in> {''wns'', ''xmpp'', ''tcp'', ''db''}. \<not> j_contains J k j) \<longrightarrow>
      (\<exists>e. ConfigurationStorage J T p fs = (Inl e, fs)))"
proof (intro conjI impI allI)
  assume "\<not> fs_can_read fs p \<or> (\<exists>j. js_read T t (j_object J []) = (Some Json_parse_error, j))"
  then show "\<exists>st. ConfigurationStorage J T p fs = (Inr st, fs) \<and> config st = Configuration"
    using ConfigurationStorage_simps(2) [OF assms(2), of J T] ConfigurationStorage_simps(3) [OF assms(2), of T J]
    by (cases "fs_can_read fs p") fastforce+
next
  fix j
  assume j: "fs_can_read fs p \<and> js_read T t (j_object J []) = (None, j)
    \<and> (\<exists>k \<in> {''wns'', ''xmpp'', ''tcp'', ''db''}. \<not> j_contains J k j)"
  then obtain e where "configuration_from_json J j Configuration = Inl e"
    using json_lib.missing_part [OF assms(1), of j Configuration] by blast
  with j ConfigurationStorage_simps(4) [OF assms(2), of T J j] show "\<exists>e. ConfigurationStorage J T p fs = (Inl e, fs)"
    by simp
qed

theorem config_load_outcomes_witness:
  "(\<exists>st. ConfigurationStorage ref_json ref_stream ''c'' (demo_files\<lparr>fs_files := [''c'' \<mapsto> ''x'']\<rparr>)
      = (Inr st, demo_files\<lparr>fs_files := [''c'' \<mapsto> ''x'']\<rparr>) \<and> config st = Configuration)
   \<and> (\<exists>e. ConfigurationStorage ref_json ref_stream ''c'' (demo_files\<lparr>fs_files := [''c'' \<mapsto> print_json (Jobj [])]\<rparr>)
      = (Inl e, demo_files\<lparr>fs_files := [''c'' \<mapsto> print_json (Jobj [])]\<rparr>))"
proof -
  have "js_read ref_stream ''x'' j = (Some Json_parse_error, j)" for j
    by (simp add: ref_stream_def read_json.simps skip_ws_def is_space_def code_of_def read_number_def is_digit_def numeral_2_eq_2)
  moreover have "\<not> j_contains ref_json ''db'' (Jobj [])" by (simp add: ref_json_def)
  ultimately show ?thesis
    using config_load_outcomes [OF rj.json_lib_axioms, of "demo_files\<lparr>fs_files := [''c'' \<mapsto> ''x'']\<rparr>" "''c''" "''x''" ref_stream]
      config_load_outcomes [OF rj.json_lib_axioms, of "demo_files\<lparr>fs_files := [''c'' \<mapsto> print_json (Jobj [])]\<rparr>" "''c''"
        "print_json (Jobj [])" ref_stream] ref_stream_back
    by (auto simp: demo_files_def)
qed

text \<open>
  Ports are taken modulo 65536. A port outside the range of 16 bits is not rejected: the
  configuration gets its remainder modulo 65536.
\<close>

theorem config_port_wraps:
  assumes "json_lib J" "j_at J ''port'' j = Inr (j_of_int J i)" "- (2 ^ 63) \<le> i" "i < 2 ^ 64"
    "j_contains J ''tls'' j" "bindR (j_at J ''tls'' j) (\<lambda>t. tls_from_json J t (tls c)) = Inr t"
  shows "\<exists>c'. tcp_from_json J j c = Inr c' \<and> uint (tcp_port c') = i mod 65536 \<and> tls c' = t"
  using json_lib.u16_wraps [OF assms(1,3,4)] assms(2,6)
  by (simp add: tcp_from_json_def at_get_def Let_def uint_word_of_int)

theorem config_port_wraps_witness:
  "\<exists>c'. tcp_from_json ref_json (Jobj [(''port'', Jint 70000), (''tls'', tls_to_json ref_json TlsConfiguration)])
      TcpConfiguration = Inr c' \<and> uint (tcp_port c') = 4464 \<and> tls c' = TlsConfiguration"
proof -
  have "bindR (j_at ref_json ''tls'' (Jobj [(''port'', Jint 70000), (''tls'', tls_to_json ref_json TlsConfiguration)]))
     (\<lambda>t. tls_from_json ref_json t (tls TcpConfiguration)) = Inr TlsConfiguration"
    using rj.tls_roundtrip by (simp add: ref_json_def)
  from config_port_wraps [OF rj.json_lib_axioms _ _ _ _ this, of 70000] show ?thesis
    by (simp add: ref_json_def)
qed

text \<open>
  A stored value is never replaced. On a document that is an object or null, \<^verbatim>\<open>set_data\<close> stores a
  value under a new key, and leaves every value as it was when the key is already there.
\<close>

theorem set_data_keeps_first:
  assumes "json_lib J" "settable J (js_int s)" "\<And>x. get (to_j x) = Inr x"
  shows "\<exists>s'. set_data J to_j k v s = (Inr (), s')
    \<and> get_data J get s' k = (if exists J s k then get_data J get s k else Inr (Some v))"
proof (cases "j_contains J k (js_int s)")
  case True
  from json_lib.set_data_old [OF assms(1) True assms(2), of to_j v] True show ?thesis
    by (auto simp: exists_def)
next
  case False
  from json_lib.set_data_new [OF assms(1) False assms(2), of get to_j v] False assms(3) show ?thesis
    by (auto simp: exists_def)
qed

theorem set_data_keeps_first_witness:
  "\<exists>s'. set_data ref_json Jstr ''k'' ''new'' \<lparr>filename = ''f'', js_int = Jobj [(''k'', Jstr ''old'')]\<rparr> = (Inr (), s')
    \<and> get_data ref_json (j_get_string ref_json) s' ''k'' = Inr (Some ''old'')"
proof -
  have "settable ref_json (js_int \<lparr>filename = ''f'', js_int = Jobj [(''k'', Jstr ''old'')]\<rparr>)"
    "\<And>x. j_get_string ref_json (Jstr x) = Inr x"
    by (simp_all add: settable_def ref_json_def)
  from set_data_keeps_first [OF rj.json_lib_axioms this, of "''k''" "''new''"] show ?thesis
    by (simp add: exists_def get_data_def at_get_def ref_json_def)
qed

end
