(* ===== verification/Calendar_Fields.thy ===== *)
theory Calendar_Fields
  imports Chrono
begin

text \<open>
  The fields of a calendar date in \<^verbatim>\<open>src/utils/date.hpp\<close> (the library the Redis client includes for its
  time points): day, month, year and day of the week, each in the few bits the library gives it, with
  their arithmetic and comparisons. Unsigned arithmetic wraps at 32 bits (\<open>u32\<close>); signed arithmetic is
  exact, since it has no defined meaning beyond 32 bits. Durations of days, months and years are their
  counts. Their texts are in \<open>Calendar_Format\<close>.
\<close>

definition u32 :: "int \<Rightarrow> int" where
  "u32 i = i mod 4294967296"

text \<open>An \<^verbatim>\<open>unsigned\<close> converted to \<^verbatim>\<open>int\<close>.\<close>

definition s32 :: "int \<Rightarrow> int" where
  "s32 i = (i + 2147483648) mod 4294967296 - 2147483648"

lemma u32_id [simp]: "0 \<le> i \<Longrightarrow> i < 4294967296 \<Longrightarrow> u32 i = i"
  by (simp add: u32_def)

lemma s32_id [simp]: "- 2147483648 \<le> i \<Longrightarrow> i < 2147483648 \<Longrightarrow> s32 i = i"
  by (simp add: s32_def)

lemma s32_u32 [simp]: "- 2147483648 \<le> i \<Longrightarrow> i < 2147483648 \<Longrightarrow> s32 (u32 i) = i"
  unfolding s32_def u32_def by (subst mod_add_left_eq) simp

text \<open>The idiom \<^verbatim>\<open>(i >= 0 ? i : i - (n - 1)) / n\<close> rounds down.\<close>

definition floor_div :: "int \<Rightarrow> int \<Rightarrow> int" where
  "floor_div i n = cdiv (if 0 \<le> i then i else i - (n - 1)) n"

lemma floor_div [simp]:
  assumes "0 < n"
  shows "floor_div i n = i div n"
proof (cases "0 \<le> i")
  case False
  have "(n - 1 - i) div n = - (i div n)"
  proof (rule int_div_pos_eq)
    show "n - 1 - i = n * - (i div n) + (n - 1 - i mod n)" by (simp add: algebra_simps)
    show "0 \<le> n - 1 - i mod n" "n - 1 - i mod n < n" using assms pos_mod_bound [of n i] pos_mod_sign [of n i] by linarith+
  qed
  then show ?thesis using False assms by (simp add: floor_div_def cdiv_def)
qed (use assms in \<open>auto simp: floor_div_def cdiv_def sgn_if\<close>)

section \<open>Operators\<close>

text \<open>The six comparisons of a type, the last four from the first two.\<close>

record 'a compare_ops =
  op_eq :: "'a \<Rightarrow> 'a \<Rightarrow> bool"
  op_ne :: "'a \<Rightarrow> 'a \<Rightarrow> bool"
  op_lt :: "'a \<Rightarrow> 'a \<Rightarrow> bool"
  op_gt :: "'a \<Rightarrow> 'a \<Rightarrow> bool"
  op_le :: "'a \<Rightarrow> 'a \<Rightarrow> bool"
  op_ge :: "'a \<Rightarrow> 'a \<Rightarrow> bool"

definition compare_ops_of :: "('a \<Rightarrow> 'a \<Rightarrow> bool) \<Rightarrow> ('a \<Rightarrow> 'a \<Rightarrow> bool) \<Rightarrow> 'a compare_ops" where
  "compare_ops_of eq lt = \<lparr>op_eq = eq, op_ne = (\<lambda>x y. \<not> eq x y), op_lt = lt, op_gt = (\<lambda>x y. lt y x),
     op_le = (\<lambda>x y. \<not> lt y x), op_ge = (\<lambda>x y. \<not> lt x y)\<rparr>"

text \<open>
  The operators that change an object: the new object, and for the postfix forms also the value of the
  expression. The assignment operators take a duration.
\<close>

record 'a step_ops =
  pre_inc :: "'a \<Rightarrow> 'a"
  post_inc :: "'a \<Rightarrow> 'a \<times> 'a"
  pre_dec :: "'a \<Rightarrow> 'a"
  post_dec :: "'a \<Rightarrow> 'a \<times> 'a"
  plus_assign :: "'a \<Rightarrow> int \<Rightarrow> 'a"
  minus_assign :: "'a \<Rightarrow> int \<Rightarrow> 'a"

definition step_ops_of ::
  "('a \<Rightarrow> 'a) \<Rightarrow> ('a \<Rightarrow> 'a) \<Rightarrow> ('a \<Rightarrow> int \<Rightarrow> 'a) \<Rightarrow> ('a \<Rightarrow> int \<Rightarrow> 'a) \<Rightarrow> 'a step_ops" where
  "step_ops_of inc dec add sub = \<lparr>pre_inc = inc, post_inc = (\<lambda>x. (x, inc x)), pre_dec = dec,
     post_dec = (\<lambda>x. (x, dec x)), plus_assign = add, minus_assign = sub\<rparr>"

text \<open>The assignment operators of the composed dates, for months and for years.\<close>

record 'a assign_ops =
  add_months :: "'a \<Rightarrow> int \<Rightarrow> 'a"
  sub_months :: "'a \<Rightarrow> int \<Rightarrow> 'a"
  add_years :: "'a \<Rightarrow> int \<Rightarrow> 'a"
  sub_years :: "'a \<Rightarrow> int \<Rightarrow> 'a"

section \<open>Days\<close>

datatype day = Day "8 word"

definition day_new :: "int \<Rightarrow> day" where
  "day_new d = Day (word_of_int d)"

fun day_unsigned :: "day \<Rightarrow> int" where
  "day_unsigned (Day d) = uint d"

definition day_ok :: "day \<Rightarrow> bool" where
  "day_ok d \<longleftrightarrow> 1 \<le> day_unsigned d \<and> day_unsigned d \<le> 31"

definition day_compare :: "day compare_ops" where
  "day_compare = compare_ops_of (\<lambda>x y. day_unsigned x = day_unsigned y) (\<lambda>x y. day_unsigned x < day_unsigned y)"

definition day_diff :: "day \<Rightarrow> day \<Rightarrow> int" where
  "day_diff x y = s32 (u32 (day_unsigned x - day_unsigned y))"

definition day_plus :: "day \<Rightarrow> int \<Rightarrow> day" where
  "day_plus x y = day_new (u32 (day_unsigned x + u32 y))"

definition day_minus :: "day \<Rightarrow> int \<Rightarrow> day" where
  "day_minus x y = day_plus x (- y)"

fun day_inc :: "day \<Rightarrow> day" where
  "day_inc (Day d) = Day (d + 1)"

fun day_dec :: "day \<Rightarrow> day" where
  "day_dec (Day d) = Day (d - 1)"

definition day_steps :: "day step_ops" where
  "day_steps = step_ops_of day_inc day_dec day_plus day_minus"

section \<open>Months\<close>

datatype month = Month "8 word"

definition month_new :: "int \<Rightarrow> month" where
  "month_new m = Month (word_of_int m)"

fun month_unsigned :: "month \<Rightarrow> int" where
  "month_unsigned (Month m) = uint m"

definition month_ok :: "month \<Rightarrow> bool" where
  "month_ok m \<longleftrightarrow> 1 \<le> month_unsigned m \<and> month_unsigned m \<le> 12"

definition month_compare :: "month compare_ops" where
  "month_compare = compare_ops_of (\<lambda>x y. month_unsigned x = month_unsigned y) (\<lambda>x y. month_unsigned x < month_unsigned y)"

definition month_diff :: "month \<Rightarrow> month \<Rightarrow> int" where
  "month_diff x y = (let d = u32 (month_unsigned x - month_unsigned y) in s32 (if d \<le> 11 then d else u32 (d + 12)))"

definition month_plus :: "month \<Rightarrow> int \<Rightarrow> month" where
  "month_plus x y = (let mu = month_unsigned x + y - 1; yr = floor_div mu 12 in month_new (u32 (mu - yr * 12 + 1)))"

definition month_minus :: "month \<Rightarrow> int \<Rightarrow> month" where
  "month_minus x y = month_plus x (- y)"

definition month_steps :: "month step_ops" where
  "month_steps = step_ops_of (\<lambda>x. month_plus x 1) (\<lambda>x. month_minus x 1) month_plus month_minus"

section \<open>Years\<close>

datatype year = Year "16 word"

definition year_new :: "int \<Rightarrow> year" where
  "year_new y = Year (word_of_int y)"

fun year_int :: "year \<Rightarrow> int" where
  "year_int (Year y) = sint y"

definition year_neg :: "year \<Rightarrow> year" where
  "year_neg y = year_new (- year_int y)"

definition year_is_leap :: "year \<Rightarrow> bool" where
  "year_is_leap y = (let n = year_int y; r = (\<lambda>k. n - cdiv n k * k) in r 4 = 0 \<and> (r 100 \<noteq> 0 \<or> r 400 = 0))"

definition year_ok :: "year \<Rightarrow> bool" where
  "year_ok y \<longleftrightarrow> year_int y \<noteq> - 32768"

definition year_min :: year where
  "year_min = year_new (- 32767)"

definition year_max :: year where
  "year_max = year_new 32767"

definition year_compare :: "year compare_ops" where
  "year_compare = compare_ops_of (\<lambda>x y. year_int x = year_int y) (\<lambda>x y. year_int x < year_int y)"

definition year_diff :: "year \<Rightarrow> year \<Rightarrow> int" where
  "year_diff x y = year_int x - year_int y"

definition year_plus :: "year \<Rightarrow> int \<Rightarrow> year" where
  "year_plus x y = year_new (year_int x + y)"

definition year_minus :: "year \<Rightarrow> int \<Rightarrow> year" where
  "year_minus x y = year_new (year_int x - y)"

fun year_inc :: "year \<Rightarrow> year" where
  "year_inc (Year y) = Year (y + 1)"

fun year_dec :: "year \<Rightarrow> year" where
  "year_dec (Year y) = Year (y - 1)"

definition year_steps :: "year step_ops" where
  "year_steps = step_ops_of year_inc year_dec year_plus year_minus"

section \<open>Days of the week\<close>

datatype weekday = Weekday "8 word"

fun weekday_value :: "weekday \<Rightarrow> int" where
  "weekday_value (Weekday w) = uint w"

definition weekday_from_days :: "int \<Rightarrow> int" where
  "weekday_from_days z = (let u = u32 z in if - 4 \<le> z then u32 (u + 4) mod 7 else u mod 7)"

definition weekday_new :: "int \<Rightarrow> weekday" where
  "weekday_new wd = Weekday (word_of_int (if wd \<noteq> 7 then wd else 0))"

text \<open>The constructors from \<^verbatim>\<open>sys_days\<close> and from \<^verbatim>\<open>local_days\<close>.\<close>

definition weekday_of_days :: "int \<Rightarrow> weekday" where
  "weekday_of_days dp = Weekday (word_of_int (weekday_from_days dp))"

definition weekday_ok :: "weekday \<Rightarrow> bool" where
  "weekday_ok wd \<longleftrightarrow> weekday_value wd \<le> 6"

definition c_encoding :: "weekday \<Rightarrow> int" where
  "c_encoding wd = weekday_value wd"

definition iso_encoding :: "weekday \<Rightarrow> int" where
  "iso_encoding wd = (if weekday_value wd = 0 then 7 else weekday_value wd)"

definition weekday_eq :: "weekday \<Rightarrow> weekday \<Rightarrow> bool" where
  "weekday_eq x y \<longleftrightarrow> weekday_value x = weekday_value y"

definition weekday_ne :: "weekday \<Rightarrow> weekday \<Rightarrow> bool" where
  "weekday_ne x y \<longleftrightarrow> \<not> weekday_eq x y"

definition weekday_diff :: "weekday \<Rightarrow> weekday \<Rightarrow> int" where
  "weekday_diff x y = (let wdu = weekday_value x - weekday_value y; wk = floor_div wdu 7 in wdu - wk * 7)"

definition weekday_plus :: "weekday \<Rightarrow> int \<Rightarrow> weekday" where
  "weekday_plus x y = (let wdu = weekday_value x + y; wk = floor_div wdu 7 in weekday_new (u32 (wdu - wk * 7)))"

definition weekday_minus :: "weekday \<Rightarrow> int \<Rightarrow> weekday" where
  "weekday_minus x y = weekday_plus x (- y)"

definition weekday_steps :: "weekday step_ops" where
  "weekday_steps = step_ops_of (\<lambda>x. weekday_plus x 1) (\<lambda>x. weekday_minus x 1) weekday_plus weekday_minus"

text \<open>The n-th and the last such day of a month; the former keeps both numbers in four bits.\<close>

datatype weekday_indexed = Weekday_indexed "4 word" "4 word"

definition weekday_indexed_new :: "weekday \<Rightarrow> int \<Rightarrow> weekday_indexed" where
  "weekday_indexed_new wd i = Weekday_indexed (word_of_int (weekday_value wd)) (word_of_int i)"

fun wdi_weekday :: "weekday_indexed \<Rightarrow> weekday" where
  "wdi_weekday (Weekday_indexed w i) = weekday_new (uint w)"

fun wdi_index :: "weekday_indexed \<Rightarrow> int" where
  "wdi_index (Weekday_indexed w i) = uint i"

definition weekday_indexed_ok :: "weekday_indexed \<Rightarrow> bool" where
  "weekday_indexed_ok x \<longleftrightarrow> weekday_ok (wdi_weekday x) \<and> 1 \<le> wdi_index x \<and> wdi_index x \<le> 5"

definition weekday_indexed_eq :: "weekday_indexed \<Rightarrow> weekday_indexed \<Rightarrow> bool" where
  "weekday_indexed_eq x y \<longleftrightarrow> weekday_eq (wdi_weekday x) (wdi_weekday y) \<and> wdi_index x = wdi_index y"

datatype weekday_last = Weekday_last (wdl_weekday: weekday)

definition weekday_last_ok :: "weekday_last \<Rightarrow> bool" where
  "weekday_last_ok x \<longleftrightarrow> weekday_ok (wdl_weekday x)"

text \<open>\<^verbatim>\<open>wd[index]\<close> and \<^verbatim>\<open>wd[last]\<close>.\<close>

definition weekday_at :: "weekday \<Rightarrow> int \<Rightarrow> weekday_indexed" where
  "weekday_at wd index = weekday_indexed_new wd (u32 index)"

definition weekday_at_last :: "weekday \<Rightarrow> weekday_last" where
  "weekday_at_last wd = Weekday_last wd"

definition weekday_last_eq :: "weekday_last \<Rightarrow> weekday_last \<Rightarrow> bool" where
  "weekday_last_eq x y \<longleftrightarrow> weekday_eq (wdl_weekday x) (wdl_weekday y)"

end
