(* ===== verification/Calendar.thy ===== *)
theory Calendar
  imports Calendar_Fields
begin

text \<open>
  The composed dates of \<^verbatim>\<open>src/utils/date.hpp\<close> and their conversion to and from the number of days since
  1970-01-01, which both \<^verbatim>\<open>sys_days\<close> and \<^verbatim>\<open>local_days\<close> hold. Texts are in \<open>Calendar_Format\<close> and \<open>Calendar_Parse\<close>.
\<close>

section \<open>Year and month\<close>

datatype year_month = Year_month (ym_year: year) (ym_month: month)

definition year_month_ok :: "year_month \<Rightarrow> bool" where
  "year_month_ok ym \<longleftrightarrow> year_ok (ym_year ym) \<and> month_ok (ym_month ym)"

definition year_month_compare :: "year_month compare_ops" where
  "year_month_compare = compare_ops_of
     (\<lambda>x y. op_eq year_compare (ym_year x) (ym_year y) \<and> op_eq month_compare (ym_month x) (ym_month y))
     (\<lambda>x y. if op_lt year_compare (ym_year x) (ym_year y) then True
        else if op_gt year_compare (ym_year x) (ym_year y) then False
        else op_lt month_compare (ym_month x) (ym_month y))"

definition year_month_plus_months :: "year_month \<Rightarrow> int \<Rightarrow> year_month" where
  "year_month_plus_months ym dm = (let dmi = month_unsigned (ym_month ym) - 1 + dm; dy = floor_div dmi 12 in
     Year_month (year_plus (ym_year ym) dy) (month_new (u32 (dmi - dy * 12 + 1))))"

definition year_month_minus_months :: "year_month \<Rightarrow> int \<Rightarrow> year_month" where
  "year_month_minus_months ym dm = year_month_plus_months ym (- dm)"

definition year_month_diff :: "year_month \<Rightarrow> year_month \<Rightarrow> int" where
  "year_month_diff x y = year_diff (ym_year x) (ym_year y) * 12
     + s32 (u32 (month_unsigned (ym_month x) - month_unsigned (ym_month y)))"

definition year_month_plus_years :: "year_month \<Rightarrow> int \<Rightarrow> year_month" where
  "year_month_plus_years ym dy = Year_month (year_plus (ym_year ym) dy) (ym_month ym)"

definition year_month_minus_years :: "year_month \<Rightarrow> int \<Rightarrow> year_month" where
  "year_month_minus_years ym dy = year_month_plus_years ym (- dy)"

definition year_month_assign :: "year_month assign_ops" where
  "year_month_assign = \<lparr>add_months = year_month_plus_months, sub_months = year_month_minus_months,
     add_years = year_month_plus_years, sub_years = year_month_minus_years\<rparr>"

section \<open>Month and day\<close>

datatype month_day = Month_day (md_month: month) (md_day: day)

definition month_day_table :: "int list" where
  "month_day_table = [31, 29, 31, 30, 31, 30, 31, 31, 30, 31, 30, 31]"

definition month_day_ok :: "month_day \<Rightarrow> bool" where
  "month_day_ok md \<longleftrightarrow> month_ok (md_month md) \<and> 1 \<le> day_unsigned (md_day md)
     \<and> day_unsigned (md_day md) \<le> month_day_table ! nat (month_unsigned (md_month md) - 1)"

definition month_day_compare :: "month_day compare_ops" where
  "month_day_compare = compare_ops_of
     (\<lambda>x y. op_eq month_compare (md_month x) (md_month y) \<and> op_eq day_compare (md_day x) (md_day y))
     (\<lambda>x y. if op_lt month_compare (md_month x) (md_month y) then True
        else if op_gt month_compare (md_month x) (md_month y) then False
        else op_lt day_compare (md_day x) (md_day y))"

datatype month_day_last = Month_day_last (mdl_month: month)

definition month_day_last_ok :: "month_day_last \<Rightarrow> bool" where
  "month_day_last_ok x \<longleftrightarrow> month_ok (mdl_month x)"

definition month_day_last_compare :: "month_day_last compare_ops" where
  "month_day_last_compare = compare_ops_of
     (\<lambda>x y. op_eq month_compare (mdl_month x) (mdl_month y)) (\<lambda>x y. op_lt month_compare (mdl_month x) (mdl_month y))"

datatype month_weekday = Month_weekday (mwd_month: month) (mwd_weekday_indexed: weekday_indexed)

definition month_weekday_eq :: "month_weekday \<Rightarrow> month_weekday \<Rightarrow> bool" where
  "month_weekday_eq x y \<longleftrightarrow> op_eq month_compare (mwd_month x) (mwd_month y)
     \<and> weekday_indexed_eq (mwd_weekday_indexed x) (mwd_weekday_indexed y)"

definition month_weekday_ok :: "month_weekday \<Rightarrow> bool" where
  "month_weekday_ok x \<longleftrightarrow> month_ok (mwd_month x) \<and> weekday_indexed_ok (mwd_weekday_indexed x)"

datatype month_weekday_last = Month_weekday_last (mwdl_month: month) (mwdl_weekday_last: weekday_last)

definition month_weekday_last_eq :: "month_weekday_last \<Rightarrow> month_weekday_last \<Rightarrow> bool" where
  "month_weekday_last_eq x y \<longleftrightarrow> op_eq month_compare (mwdl_month x) (mwdl_month y)
     \<and> weekday_last_eq (mwdl_weekday_last x) (mwdl_weekday_last y)"

definition month_weekday_last_ok :: "month_weekday_last \<Rightarrow> bool" where
  "month_weekday_last_ok x \<longleftrightarrow> month_ok (mwdl_month x) \<and> weekday_last_ok (mwdl_weekday_last x)"

section \<open>The last day of a month\<close>

datatype year_month_day_last = Year_month_day_last (ymdl_year: year) (ymdl_mdl: month_day_last)

definition ymdl_month :: "year_month_day_last \<Rightarrow> month" where
  "ymdl_month x = mdl_month (ymdl_mdl x)"

definition ymdl_table :: "int list" where
  "ymdl_table = [31, 28, 31, 30, 31, 30, 31, 31, 30, 31, 30, 31]"

definition ymdl_day :: "year_month_day_last \<Rightarrow> day" where
  "ymdl_day x = day_new (if (month_unsigned (ymdl_month x) \<noteq> 2 \<or> \<not> year_is_leap (ymdl_year x)) \<and> month_day_last_ok (ymdl_mdl x)
     then ymdl_table ! nat (month_unsigned (ymdl_month x) - 1) else 29)"

definition ymdl_ok :: "year_month_day_last \<Rightarrow> bool" where
  "ymdl_ok x \<longleftrightarrow> year_ok (ymdl_year x) \<and> month_day_last_ok (ymdl_mdl x)"

definition ymdl_compare :: "year_month_day_last compare_ops" where
  "ymdl_compare = compare_ops_of
     (\<lambda>x y. op_eq year_compare (ymdl_year x) (ymdl_year y) \<and> op_eq month_day_last_compare (ymdl_mdl x) (ymdl_mdl y))
     (\<lambda>x y. if op_lt year_compare (ymdl_year x) (ymdl_year y) then True
        else if op_gt year_compare (ymdl_year x) (ymdl_year y) then False
        else op_lt month_day_last_compare (ymdl_mdl x) (ymdl_mdl y))"

text \<open>\<^verbatim>\<open>year_month / last\<close>.\<close>

definition ym_last :: "year_month \<Rightarrow> year_month_day_last" where
  "ym_last ym = Year_month_day_last (ym_year ym) (Month_day_last (ym_month ym))"

definition ymdl_plus_months :: "year_month_day_last \<Rightarrow> int \<Rightarrow> year_month_day_last" where
  "ymdl_plus_months x dm = ym_last (year_month_plus_months (Year_month (ymdl_year x) (ymdl_month x)) dm)"

definition ymdl_minus_months :: "year_month_day_last \<Rightarrow> int \<Rightarrow> year_month_day_last" where
  "ymdl_minus_months x dm = ymdl_plus_months x (- dm)"

definition ymdl_plus_years :: "year_month_day_last \<Rightarrow> int \<Rightarrow> year_month_day_last" where
  "ymdl_plus_years x dy = Year_month_day_last (year_plus (ymdl_year x) dy) (ymdl_mdl x)"

definition ymdl_minus_years :: "year_month_day_last \<Rightarrow> int \<Rightarrow> year_month_day_last" where
  "ymdl_minus_years x dy = ymdl_plus_years x (- dy)"

definition ymdl_assign :: "year_month_day_last assign_ops" where
  "ymdl_assign = \<lparr>add_months = ymdl_plus_months, sub_months = ymdl_minus_months,
     add_years = ymdl_plus_years, sub_years = ymdl_minus_years\<rparr>"

section \<open>Year, month and day\<close>

datatype year_month_day = Ymd (ymd_year: year) (ymd_month: month) (ymd_day: day)

definition ymd_of_ymdl :: "year_month_day_last \<Rightarrow> year_month_day" where
  "ymd_of_ymdl x = Ymd (ymdl_year x) (ymdl_month x) (ymdl_day x)"

text \<open>The number of days, and the date of a number of days; the eras of 400 years begin in March.\<close>

definition ymd_to_days :: "year_month_day \<Rightarrow> int" where
  "ymd_to_days x = (let
     y = year_int (ymd_year x) - of_bool (month_unsigned (ymd_month x) \<le> 2);
     m = month_unsigned (ymd_month x);
     d = day_unsigned (ymd_day x);
     era = floor_div y 400;
     yoe = u32 (y - era * 400);
     doy = u32 (u32 (153 * (if 2 < m then u32 (m - 3) else u32 (m + 9)) + 2) div 5 + d - 1);
     doe = u32 (yoe * 365 + yoe div 4 - yoe div 100 + doy)
   in era * 146097 + s32 doe - 719468)"

definition ymd_from_days :: "int \<Rightarrow> year_month_day" where
  "ymd_from_days dp = (let
     z = dp + 719468;
     era = floor_div z 146097;
     doe = u32 (z - era * 146097);
     yoe = u32 (doe - doe div 1460 + doe div 36524 - doe div 146096) div 365;
     y = s32 yoe + era * 400;
     doy = u32 (doe - u32 (365 * yoe + yoe div 4 - yoe div 100));
     mp = u32 (5 * doy + 2) div 153;
     d = u32 (doy - u32 (153 * mp + 2) div 5 + 1);
     m = (if mp < 10 then u32 (mp + 3) else u32 (mp - 9))
   in Ymd (year_new (y + of_bool (m \<le> 2))) (month_new m) (day_new d))"

definition ymd_ok :: "year_month_day \<Rightarrow> bool" where
  "ymd_ok x \<longleftrightarrow> year_ok (ymd_year x) \<and> month_ok (ymd_month x) \<and> 1 \<le> day_unsigned (ymd_day x)
     \<and> day_unsigned (ymd_day x) \<le> day_unsigned (ymdl_day (ym_last (Year_month (ymd_year x) (ymd_month x))))"

definition ymd_compare :: "year_month_day compare_ops" where
  "ymd_compare = compare_ops_of
     (\<lambda>x y. op_eq year_compare (ymd_year x) (ymd_year y) \<and> op_eq month_compare (ymd_month x) (ymd_month y)
        \<and> op_eq day_compare (ymd_day x) (ymd_day y))
     (\<lambda>x y. if op_lt year_compare (ymd_year x) (ymd_year y) then True
        else if op_gt year_compare (ymd_year x) (ymd_year y) then False
        else if op_lt month_compare (ymd_month x) (ymd_month y) then True
        else if op_gt month_compare (ymd_month x) (ymd_month y) then False
        else op_lt day_compare (ymd_day x) (ymd_day y))"

text \<open>\<^verbatim>\<open>year_month / day\<close>.\<close>

definition ym_day :: "year_month \<Rightarrow> day \<Rightarrow> year_month_day" where
  "ym_day ym d = Ymd (ym_year ym) (ym_month ym) d"

definition ymd_plus_months :: "year_month_day \<Rightarrow> int \<Rightarrow> year_month_day" where
  "ymd_plus_months x dm = ym_day (year_month_plus_months (Year_month (ymd_year x) (ymd_month x)) dm) (ymd_day x)"

definition ymd_minus_months :: "year_month_day \<Rightarrow> int \<Rightarrow> year_month_day" where
  "ymd_minus_months x dm = ymd_plus_months x (- dm)"

definition ymd_plus_years :: "year_month_day \<Rightarrow> int \<Rightarrow> year_month_day" where
  "ymd_plus_years x dy = ym_day (Year_month (year_plus (ymd_year x) dy) (ymd_month x)) (ymd_day x)"

definition ymd_minus_years :: "year_month_day \<Rightarrow> int \<Rightarrow> year_month_day" where
  "ymd_minus_years x dy = ymd_plus_years x (- dy)"

definition ymd_assign :: "year_month_day assign_ops" where
  "ymd_assign = \<lparr>add_months = ymd_plus_months, sub_months = ymd_minus_months,
     add_years = ymd_plus_years, sub_years = ymd_minus_years\<rparr>"

text \<open>\<^verbatim>\<open>sys_days\<close> and \<^verbatim>\<open>local_days\<close> of the last day of a month.\<close>

definition ymdl_to_days :: "year_month_day_last \<Rightarrow> int" where
  "ymdl_to_days x = ymd_to_days (ym_day (Year_month (ymdl_year x) (ymdl_month x)) (ymdl_day x))"

section \<open>The n-th and the last weekday of a month\<close>

datatype year_month_weekday = Ymw (ymw_year: year) (ymw_month: month) (ymw_wdi: weekday_indexed)

definition first_of_month :: "year \<Rightarrow> month \<Rightarrow> int" where
  "first_of_month y m = ymd_to_days (ym_day (Year_month y m) (day_new 1))"

definition ymw_ok :: "year_month_weekday \<Rightarrow> bool" where
  "ymw_ok x = (if \<not> year_ok (ymw_year x) \<or> \<not> month_ok (ymw_month x) \<or> \<not> weekday_ok (wdi_weekday (ymw_wdi x))
       \<or> wdi_index (ymw_wdi x) < 1 then False
     else if wdi_index (ymw_wdi x) \<le> 4 then True
     else let d2 = weekday_diff (wdi_weekday (ymw_wdi x)) (weekday_of_days (first_of_month (ymw_year x) (ymw_month x)))
              + s32 (u32 ((wdi_index (ymw_wdi x) - 1) * 7 + 1)) in
       u32 d2 \<le> day_unsigned (ymdl_day (ym_last (Year_month (ymw_year x) (ymw_month x)))))"

definition ymw_from_days :: "int \<Rightarrow> year_month_weekday" where
  "ymw_from_days d = (let wd = weekday_of_days d; ymd = ymd_from_days d in
     Ymw (ymd_year ymd) (ymd_month ymd) (weekday_indexed_new wd (u32 (u32 (day_unsigned (ymd_day ymd) - 1) div 7 + 1))))"

definition ymw_to_days :: "year_month_weekday \<Rightarrow> int" where
  "ymw_to_days x = (let d = first_of_month (ymw_year x) (ymw_month x) in
     d + (weekday_diff (wdi_weekday (ymw_wdi x)) (weekday_of_days d) + s32 (u32 ((wdi_index (ymw_wdi x) - 1) * 7))))"

definition ymw_eq :: "year_month_weekday \<Rightarrow> year_month_weekday \<Rightarrow> bool" where
  "ymw_eq x y \<longleftrightarrow> op_eq year_compare (ymw_year x) (ymw_year y) \<and> op_eq month_compare (ymw_month x) (ymw_month y)
     \<and> weekday_indexed_eq (ymw_wdi x) (ymw_wdi y)"

definition ymw_plus_months :: "year_month_weekday \<Rightarrow> int \<Rightarrow> year_month_weekday" where
  "ymw_plus_months x dm = (let ym = year_month_plus_months (Year_month (ymw_year x) (ymw_month x)) dm in
     Ymw (ym_year ym) (ym_month ym) (ymw_wdi x))"

definition ymw_plus_years :: "year_month_weekday \<Rightarrow> int \<Rightarrow> year_month_weekday" where
  "ymw_plus_years x dy = Ymw (year_plus (ymw_year x) dy) (ymw_month x) (ymw_wdi x)"

definition ymw_minus_months :: "year_month_weekday \<Rightarrow> int \<Rightarrow> year_month_weekday" where
  "ymw_minus_months x dm = ymw_plus_months x (- dm)"

definition ymw_minus_years :: "year_month_weekday \<Rightarrow> int \<Rightarrow> year_month_weekday" where
  "ymw_minus_years x dy = ymw_plus_years x (- dy)"

definition ymw_assign :: "year_month_weekday assign_ops" where
  "ymw_assign = \<lparr>add_months = ymw_plus_months, sub_months = ymw_minus_months,
     add_years = ymw_plus_years, sub_years = ymw_minus_years\<rparr>"

datatype year_month_weekday_last = Ymwl (ymwl_year: year) (ymwl_month: month) (ymwl_wdl: weekday_last)

definition ymwl_ok :: "year_month_weekday_last \<Rightarrow> bool" where
  "ymwl_ok x \<longleftrightarrow> year_ok (ymwl_year x) \<and> month_ok (ymwl_month x) \<and> weekday_last_ok (ymwl_wdl x)"

definition ymwl_to_days :: "year_month_weekday_last \<Rightarrow> int" where
  "ymwl_to_days x = (let d = ymdl_to_days (ym_last (Year_month (ymwl_year x) (ymwl_month x))) in
     d - weekday_diff (weekday_of_days d) (wdl_weekday (ymwl_wdl x)))"

definition ymwl_eq :: "year_month_weekday_last \<Rightarrow> year_month_weekday_last \<Rightarrow> bool" where
  "ymwl_eq x y \<longleftrightarrow> op_eq year_compare (ymwl_year x) (ymwl_year y) \<and> op_eq month_compare (ymwl_month x) (ymwl_month y)
     \<and> weekday_last_eq (ymwl_wdl x) (ymwl_wdl y)"

definition ymwl_plus_months :: "year_month_weekday_last \<Rightarrow> int \<Rightarrow> year_month_weekday_last" where
  "ymwl_plus_months x dm = (let ym = year_month_plus_months (Year_month (ymwl_year x) (ymwl_month x)) dm in
     Ymwl (ym_year ym) (ym_month ym) (ymwl_wdl x))"

definition ymwl_plus_years :: "year_month_weekday_last \<Rightarrow> int \<Rightarrow> year_month_weekday_last" where
  "ymwl_plus_years x dy = Ymwl (year_plus (ymwl_year x) dy) (ymwl_month x) (ymwl_wdl x)"

definition ymwl_minus_months :: "year_month_weekday_last \<Rightarrow> int \<Rightarrow> year_month_weekday_last" where
  "ymwl_minus_months x dm = ymwl_plus_months x (- dm)"

definition ymwl_minus_years :: "year_month_weekday_last \<Rightarrow> int \<Rightarrow> year_month_weekday_last" where
  "ymwl_minus_years x dy = ymwl_plus_years x (- dy)"

definition ymwl_assign :: "year_month_weekday_last assign_ops" where
  "ymwl_assign = \<lparr>add_months = ymwl_plus_months, sub_months = ymwl_minus_months,
     add_years = ymwl_plus_years, sub_years = ymwl_minus_years\<rparr>"

end
