(* ===== verification/Calendar_Civil.thy ===== *)
theory Calendar_Civil
  imports Calendar "HOL-Library.Product_Lexorder"
begin

text \<open>
  The Gregorian calendar on integers, the reference the library's conversions are compared with: the days
  of a date counted in eras of 400 years that begin in March, so that a leap day is the last day of its
  year, the date of a number of days, and the next day.
\<close>

section \<open>Years of an era\<close>

definition leap :: "int \<Rightarrow> bool" where
  "leap y \<longleftrightarrow> y mod 4 = 0 \<and> (y mod 100 \<noteq> 0 \<or> y mod 400 = 0)"

definition year_start :: "int \<Rightarrow> int" where
  "year_start yoe = 365 * yoe + yoe div 4 - yoe div 100"

definition year_of_day :: "int \<Rightarrow> int" where
  "year_of_day doe = (doe - doe div 1460 + doe div 36524 - doe div 146096) div 365"

lemma split_year:
  assumes "0 \<le> (y :: int)" "y \<le> 399"
  obtains c q r where "y = 100 * c + 4 * q + r" "0 \<le> c" "c \<le> 3" "0 \<le> q" "q \<le> 24" "0 \<le> r" "r \<le> 3"
proof
  show "y = 100 * (y div 100) + 4 * (y mod 100 div 4) + y mod 100 mod 4"
    by (metis add.assoc mult_div_mod_eq)
  show "0 \<le> y div 100" "y div 100 \<le> 3" "0 \<le> y mod 100 div 4" "y mod 100 div 4 \<le> 24"
    "0 \<le> y mod 100 mod 4" "y mod 100 mod 4 \<le> 3"
    using assms by auto
qed

lemma year_start_split:
  assumes "0 \<le> c" "c \<le> 3" "0 \<le> q" "q \<le> 24" "0 \<le> r" "r \<le> (3 :: int)"
  shows "year_start (100 * c + 4 * q + r) = 36524 * c + 1461 * q + 365 * r"
proof -
  have "(100 * c + 4 * q + r) div 4 = 25 * c + q"
    by (rule int_div_pos_eq [where r = r]) (use assms in auto)
  moreover have "(100 * c + 4 * q + r) div 100 = c"
    by (rule int_div_pos_eq [where r = "4 * q + r"]) (use assms in auto)
  ultimately show ?thesis by (simp add: year_start_def algebra_simps)
qed

lemma leap_split:
  assumes "0 \<le> c" "c \<le> 3" "0 \<le> q" "q \<le> 24" "0 \<le> r" "r \<le> (3 :: int)"
  shows "leap (100 * c + 4 * q + r + 1) \<longleftrightarrow> r = 3 \<and> (q \<noteq> 24 \<or> c = 3)"
proof (cases "r = 3")
  case True
  show ?thesis
  proof (cases "q = 24")
    case True
    with \<open>r = 3\<close> have y: "100 * c + 4 * q + r + 1 = 100 * (c + 1)" by simp
    from assms have "c = 0 \<or> c = 1 \<or> c = 2 \<or> c = 3" by linarith
    with True \<open>r = 3\<close> show ?thesis unfolding y leap_def by auto
  next
    case False
    have y: "100 * c + 4 * q + r + 1 = 4 * (25 * c + q + 1)" using True by simp
    have "(100 * c + 4 * q + r + 1) mod 100 = 4 * (q + 1)"
      by (rule int_mod_pos_eq [where q = c]) (use assms True False in auto)
    with assms True False show ?thesis unfolding leap_def y by auto
  qed
next
  case False
  have "(100 * c + 4 * q + r + 1) mod 4 = r + 1"
    by (rule int_mod_pos_eq [where q = "25 * c + q"]) (use assms False in auto)
  with assms False show ?thesis unfolding leap_def by auto
qed

lemma year_recovered_split:
  fixes c q r doy :: int
  assumes "0 \<le> c" "c \<le> 3" "0 \<le> q" "q \<le> 24" "0 \<le> r" "r \<le> 3" "0 \<le> doy" "doy \<le> 365"
    "doy = 365 \<Longrightarrow> r = 3 \<and> (q \<noteq> 24 \<or> c = 3)"
  shows "year_of_day (36524 * c + 1461 * q + 365 * r + doy) = 100 * c + 4 * q + r"
    "36524 * c + 1461 * q + 365 * r + doy \<le> 146096"
proof -
  let ?doe = "36524 * c + 1461 * q + 365 * r + doy"
  show le: "?doe \<le> 146096" using assms by (cases "doy = 365") linarith+
  define x where "x = 24 * c + q + 365 * r + doy"
  define e :: int where "e = of_bool (1460 \<le> x)"
  have x: "0 \<le> x" "x < 2920" using assms by (simp_all add: x_def)
  have "?doe div 1460 = 25 * c + q + e"
    by (rule int_div_pos_eq [where r = "x - 1460 * e"]) (use x in \<open>auto simp: x_def e_def algebra_simps\<close>)
  moreover define k :: int where "k = of_bool (?doe = 146096)"
  have "?doe div 146096 = k" using le assms by (auto simp: k_def)
  moreover have "?doe div 36524 = c + k"
  proof (cases "?doe = 146096")
    case True
    then have "c = 3" using assms by (cases "doy = 365") linarith+
    with True show ?thesis by (simp add: k_def)
  next
    case False
    then have "1461 * q + 365 * r + doy < 36524" using assms le by (cases "doy = 365") linarith+
    with False assms show ?thesis
      by (intro int_div_pos_eq [where r = "1461 * q + 365 * r + doy"]) (auto simp: k_def)
  qed
  ultimately have "year_of_day ?doe = (365 * (100 * c + 4 * q + r) + (doy - e)) div 365"
    by (simp add: year_of_day_def algebra_simps)
  also have "\<dots> = 100 * c + 4 * q + r"
  proof (rule int_div_pos_eq [where r = "doy - e"])
    show "0 \<le> doy - e" using assms by (auto simp: e_def x_def)
    show "doy - e < 365" using assms by (cases "doy = 365") (auto simp: e_def x_def)
  qed simp_all
  finally show "year_of_day ?doe = 100 * c + 4 * q + r" .
qed

lemma day_split:
  fixes doe :: int
  assumes "0 \<le> doe" "doe \<le> 146096"
  obtains c q r doy where "doe = 36524 * c + 1461 * q + 365 * r + doy" "0 \<le> c" "c \<le> 3" "0 \<le> q" "q \<le> 24"
    "0 \<le> r" "r \<le> 3" "0 \<le> doy" "doy \<le> 365" "doy = 365 \<Longrightarrow> r = 3 \<and> (q \<noteq> 24 \<or> c = 3)"
proof -
  define c where "c = min 3 (doe div 36524)"
  define d1 where "d1 = doe - 36524 * c"
  define q where "q = d1 div 1461"
  define d2 where "d2 = d1 - 1461 * q"
  define r where "r = min 3 (d2 div 365)"
  have c: "0 \<le> c" "c \<le> 3" "0 \<le> d1" "d1 \<le> 36524" "c < 3 \<Longrightarrow> d1 < 36524"
    using assms by (auto simp: c_def d1_def min_def)
  have q: "0 \<le> q" "q \<le> 24" "0 \<le> d2" "d2 < 1461"
    using c by (auto simp: q_def d2_def)
  have q24: "q \<noteq> 24 \<or> c = 3" if "d2 = 1460"
    using c that by (cases "c = 3") (auto simp: d2_def)
  have "d2 - 365 * (d2 div 365) < 365" by (simp add: minus_mult_div_eq_mod)
  then have r: "0 \<le> r" "r \<le> 3" "0 \<le> d2 - 365 * r" "d2 - 365 * r \<le> 365" "d2 - 365 * r = 365 \<Longrightarrow> r = 3 \<and> d2 = 1460"
    using q(3,4) by (auto simp: r_def min_def split: if_splits)
  have "doe = 36524 * c + 1461 * q + 365 * r + (d2 - 365 * r)" by (simp add: d2_def d1_def)
  moreover have "r = 3 \<and> (q \<noteq> 24 \<or> c = 3)" if "d2 - 365 * r = 365" using r(5) q24 that by blast
  ultimately show thesis by (rule that [OF _ c(1,2) q(1,2) r(1-4)])
qed

section \<open>Months, counted from March\<close>

definition month_start :: "int \<Rightarrow> int" where
  "month_start mp = (153 * mp + 2) div 5"

definition month_len :: "int \<Rightarrow> int" where
  "month_len mp = [31, 30, 31, 30, 31, 31, 30, 31, 30, 31, 31, 29] ! nat mp"

lemma month_cases:
  assumes "0 \<le> mp" "mp \<le> (11 :: int)"
  shows "mp \<in> {0, 1, 2, 3, 4, 5, 6, 7, 8, 9, 10, 11}"
  using assms unfolding insert_iff empty_iff by presburger

lemma month_recovered:
  assumes "0 \<le> mp" "mp \<le> 11" "1 \<le> d" "d \<le> month_len mp"
  shows "(5 * (month_start mp + d - 1) + 2) div 153 = mp" "0 \<le> month_start mp + d - 1" "month_start mp + d - 1 \<le> 365"
    "month_start mp + d - 1 = 365 \<longleftrightarrow> mp = 11 \<and> d = 29"
proof -
  note mp = month_cases [OF assms(1,2)]
  show "(5 * (month_start mp + d - 1) + 2) div 153 = mp"
  proof (rule int_div_pos_eq [where r = "5 * (month_start mp + d - 1) + 2 - 153 * mp"])
    show "0 \<le> 5 * (month_start mp + d - 1) + 2 - 153 * mp" "5 * (month_start mp + d - 1) + 2 - 153 * mp < 153"
      using mp assms(3,4) by (auto simp: month_start_def month_len_def)
  qed simp
  show "0 \<le> month_start mp + d - 1" "month_start mp + d - 1 \<le> 365"
    "month_start mp + d - 1 = 365 \<longleftrightarrow> mp = 11 \<and> d = 29"
    using mp assms(3,4) by (auto simp: month_start_def month_len_def)
qed

lemma day_of_month:
  assumes "0 \<le> doy" "doy \<le> (365 :: int)"
  shows "0 \<le> (5 * doy + 2) div 153" "(5 * doy + 2) div 153 \<le> 11"
    "1 \<le> doy - month_start ((5 * doy + 2) div 153) + 1"
    "doy - month_start ((5 * doy + 2) div 153) + 1 \<le> month_len ((5 * doy + 2) div 153)"
proof -
  define mp where "mp = (5 * doy + 2) div 153"
  have b: "153 * mp \<le> 5 * doy + 2" "5 * doy + 2 < 153 * mp + 153" by (simp_all add: mp_def) 
  show "0 \<le> (5 * doy + 2) div 153" "(5 * doy + 2) div 153 \<le> 11" using assms by auto
  then have "mp \<in> {0, 1, 2, 3, 4, 5, 6, 7, 8, 9, 10, 11}" by (intro month_cases) (simp_all add: mp_def)
  then have "1 \<le> doy - month_start mp + 1 \<and> doy - month_start mp + 1 \<le> month_len mp"
    using b assms by (auto simp: month_start_def month_len_def)
  then show "1 \<le> doy - month_start ((5 * doy + 2) div 153) + 1"
    "doy - month_start ((5 * doy + 2) div 153) + 1 \<le> month_len ((5 * doy + 2) div 153)" by (simp_all add: mp_def)
qed

section \<open>Dates of integers\<close>

definition days_in_month :: "int \<Rightarrow> int \<Rightarrow> int" where
  "days_in_month y m = (if m = 2 \<and> leap y then 29 else ymdl_table ! nat (m - 1))"

definition civil :: "int \<Rightarrow> int \<Rightarrow> int \<Rightarrow> bool" where
  "civil y m d \<longleftrightarrow> 1 \<le> m \<and> m \<le> 12 \<and> 1 \<le> d \<and> d \<le> days_in_month y m"

definition march_month :: "int \<Rightarrow> int" where
  "march_month m = (if 2 < m then m - 3 else m + 9)"

definition march_first :: "int \<Rightarrow> int" where
  "march_first y = 365 * y + y div 4 - y div 100 + y div 400"

definition civil_days :: "int \<Rightarrow> int \<Rightarrow> int \<Rightarrow> int" where
  "civil_days y m d = march_first (y - of_bool (m \<le> 2)) + month_start (march_month m) + d - 1 - 719468"

definition civil_of :: "int \<Rightarrow> int \<times> int \<times> int" where
  "civil_of n = (let z = n + 719468; era = z div 146097; doe = z mod 146097; yoe = year_of_day doe;
     doy = doe - year_start yoe; mp = (5 * doy + 2) div 153; d = doy - month_start mp + 1;
     m = (if mp < 10 then mp + 3 else mp - 9) in (yoe + era * 400 + of_bool (m \<le> 2), m, d))"

lemma leap_400 [simp]: "leap (y + 400 * k) = leap y"
proof -
  have "(y + 400 * k) mod 4 = y mod 4" using mod_mult_self2 [of y 4 "100 * k"] by (simp del: mod_mult_self2)
  moreover have "(y + 400 * k) mod 100 = y mod 100" using mod_mult_self2 [of y 100 "4 * k"] by (simp del: mod_mult_self2)
  ultimately show ?thesis by (simp add: leap_def)
qed

lemma march_first_era: "march_first y = y div 400 * 146097 + year_start (y mod 400)"
proof -
  define e o' where "e = y div 400" and "o' = y mod 400"
  have y: "y = o' + 400 * e" by (simp add: e_def o'_def)
  have d4: "(o' + 400 * e) div 4 = o' div 4 + 100 * e"
    using div_mult_self2 [of 4 o' "100 * e"] by (simp del: div_mult_self2)
  have d100: "(o' + 400 * e) div 100 = o' div 100 + 4 * e"
    using div_mult_self2 [of 100 o' "4 * e"] by (simp del: div_mult_self2)
  have d400: "(o' + 400 * e) div 400 = e" by (simp add: o'_def)
  have "365 * (o' + 400 * e) + (p + 100 * e) - (q + 4 * e) + e = e * 146097 + (365 * o' + p - q)" for p q
    by simp
  then have "march_first y = e * 146097 + year_start o'"
    unfolding march_first_def year_start_def y d4 d100 d400 .
  then show ?thesis unfolding e_def o'_def .
qed

lemma year_recovered:
  assumes "0 \<le> yoe" "yoe \<le> 399" "0 \<le> doy" "doy \<le> 365" "doy = 365 \<Longrightarrow> leap (yoe + 1)"
  shows "year_of_day (year_start yoe + doy) = yoe" "0 \<le> year_start yoe + doy" "year_start yoe + doy \<le> 146096"
proof -
  obtain c q r where y: "yoe = 100 * c + 4 * q + r" and r: "0 \<le> c" "c \<le> 3" "0 \<le> q" "q \<le> 24" "0 \<le> r" "r \<le> 3"
    using split_year [OF assms(1,2)] .
  have "doy = 365 \<Longrightarrow> r = 3 \<and> (q \<noteq> 24 \<or> c = 3)" using assms(5) leap_split [OF r] by (simp add: y)
  from year_recovered_split [OF r assms(3,4) this] show "year_of_day (year_start yoe + doy) = yoe" "year_start yoe + doy \<le> 146096"
    by (simp_all add: y year_start_split [OF r])
  show "0 \<le> year_start yoe + doy" using r assms(3) by (simp add: y year_start_split [OF r])
qed

lemma month_len_civil:
  assumes "1 \<le> m" "m \<le> 12"
  shows "0 \<le> march_month m" "march_month m \<le> 11"
    "days_in_month y m = (if m = 2 then if leap y then 29 else 28 else month_len (march_month m))"
    "(if march_month m < 10 then march_month m + 3 else march_month m - 9) = m"
proof -
  have "m - 1 \<in> {0, 1, 2, 3, 4, 5, 6, 7, 8, 9, 10, 11}" using assms by (intro month_cases) simp_all
  then have "m \<in> {1, 2, 3, 4, 5, 6, 7, 8, 9, 10, 11, 12}" by auto
  then show "0 \<le> march_month m" "march_month m \<le> 11"
    "days_in_month y m = (if m = 2 then if leap y then 29 else 28 else month_len (march_month m))"
    "(if march_month m < 10 then march_month m + 3 else march_month m - 9) = m"
    by (auto simp: march_month_def days_in_month_def month_len_def ymdl_table_def)
qed

lemma civil_of_days:
  assumes "civil y m d"
  shows "civil_of (civil_days y m d) = (y, m, d)"
proof -
  define y' where "y' = y - of_bool (m \<le> 2)"
  define doy where "doy = month_start (march_month m) + d - 1"
  have m: "1 \<le> m" "m \<le> 12" "1 \<le> d" "d \<le> days_in_month y m" using assms by (simp_all add: civil_def)
  note mm = month_len_civil [OF m(1,2)]
  have len: "month_len 11 = 29" by (simp add: month_len_def)
  have "march_month 2 = 11" by (simp add: march_month_def)
  with m(4) mm(3) [of y] have d: "d \<le> month_len (march_month m)" by (auto simp: len split: if_splits)
  note mr = month_recovered [OF mm(1,2) m(3) d]
  have "leap (y' mod 400 + 1)" if "doy = 365"
  proof -
    from that mr(4) have "march_month m = 11" "d = 29" by (auto simp: doy_def)
    then have "m = 2" using mm(4) by simp
    with \<open>d = 29\<close> m(4) mm(3) [of y] have "leap y" by (auto split: if_splits)
    with \<open>m = 2\<close> leap_400 [of "y' mod 400 + 1" "y' div 400"] show ?thesis by (simp add: y'_def algebra_simps)
  qed
  from year_recovered [OF _ _ mr(2,3) [folded doy_def] this]
  have yr: "year_of_day (year_start (y' mod 400) + doy) = y' mod 400" "0 \<le> year_start (y' mod 400) + doy"
    "year_start (y' mod 400) + doy \<le> 146096" by simp_all
  have z: "civil_days y m d + 719468 = y' div 400 * 146097 + (year_start (y' mod 400) + doy)"
    by (simp add: civil_days_def march_first_era y'_def doy_def)
  have z1: "(civil_days y m d + 719468) div 146097 = y' div 400"
    "(civil_days y m d + 719468) mod 146097 = year_start (y' mod 400) + doy"
    unfolding z using yr(2,3) by simp_all
  have mp: "(5 * doy + 2) div 153 = march_month m" using mr(1) by (simp add: doy_def)
  have "doy - month_start (march_month m) + 1 = d" by (simp add: doy_def)
  moreover have "y' mod 400 + y' div 400 * 400 + of_bool (m \<le> 2) = y" by (simp add: y'_def)
  ultimately show ?thesis
    unfolding civil_of_def Let_def z1 yr(1) add_diff_cancel_left' mp mm(4) by simp
qed

lemma civil_exists: "\<exists>y m d. civil y m d \<and> n = civil_days y m d"
proof -
  define era where "era = (n + 719468) div 146097"
  define doe where "doe = (n + 719468) mod 146097"
  have "0 \<le> doe" "doe \<le> 146096" by (simp_all add: doe_def)
  then obtain c q r doy where doe: "doe = 36524 * c + 1461 * q + 365 * r + doy" and r: "0 \<le> c" "c \<le> 3" "0 \<le> q" "q \<le> 24"
    "0 \<le> r" "r \<le> 3" "0 \<le> doy" "doy \<le> 365" "doy = 365 \<Longrightarrow> r = 3 \<and> (q \<noteq> 24 \<or> c = 3)" using day_split by blast
  define yoe where "yoe = 100 * c + 4 * q + r"
  define mp where "mp = (5 * doy + 2) div 153"
  define d where "d = doy - month_start mp + 1"
  define m where "m = (if mp < 10 then mp + 3 else mp - 9)"
  define y where "y = yoe + 400 * era + of_bool (m \<le> 2)"
  have mp: "0 \<le> mp" "mp \<le> 11" "1 \<le> d" "d \<le> month_len mp"
    using day_of_month [OF r(7,8)] by (simp_all add: mp_def d_def)
  have m: "1 \<le> m" "m \<le> 12" "march_month m = mp" using mp(1,2) by (auto simp: m_def march_month_def)
  have "leap (yoe + 1) \<longleftrightarrow> r = 3 \<and> (q \<noteq> 24 \<or> c = 3)" unfolding yoe_def by (rule leap_split [OF r(1-6)])
  moreover have "leap y \<longleftrightarrow> leap (yoe + 1)" if "m = 2"
    using that leap_400 [of "yoe + 1" era] by (simp add: y_def algebra_simps)
  moreover have "m = 2 \<longleftrightarrow> mp = 11" using mp(1,2) by (auto simp: m_def)
  moreover have "doy = 365" if "mp = 11" "d = 29" using that by (simp add: d_def month_start_def)
  moreover have "month_len 11 = 29" by (simp add: month_len_def)
  ultimately have "d \<le> days_in_month y m" using mp(4) r(9) month_len_civil(3) [OF m(1,2), of y] m(3)
    by (cases "d = 29") auto
  then have "civil y m d" using m mp by (simp add: civil_def)
  moreover have "n = civil_days y m d"
  proof -
    have "0 \<le> yoe" "yoe \<le> 399" using r by (simp_all add: yoe_def)
    then have "(yoe + 400 * era) div 400 = era" "(yoe + 400 * era) mod 400 = yoe" by simp_all
    then have "march_first (yoe + 400 * era) = era * 146097 + year_start yoe" by (simp add: march_first_era)
    moreover have "year_start yoe + doy = doe" using year_start_split [OF r(1-6)] doe by (simp add: yoe_def)
    moreover have "era * 146097 + doe = n + 719468" by (simp add: era_def doe_def)
    ultimately show ?thesis by (simp add: civil_days_def y_def m(3) d_def)
  qed
  ultimately show ?thesis by blast
qed

lemma days_in_month_range: "1 \<le> m \<Longrightarrow> m \<le> 12 \<Longrightarrow> 28 \<le> days_in_month y m \<and> days_in_month y m \<le> 31"
  using month_cases [of "m - 1"] by (auto simp: days_in_month_def ymdl_table_def)

section \<open>The next day\<close>

definition next_civil :: "int \<times> int \<times> int \<Rightarrow> int \<times> int \<times> int" where
  "next_civil = (\<lambda>(y, m, d). if d < days_in_month y m then (y, m, d + 1)
     else if m < 12 then (y, m + 1, 1) else (y + 1, 1, 1))"

lemma div_succ:
  assumes "0 < (k :: int)"
  shows "(y + 1) div k = y div k + of_bool ((y + 1) mod k = 0)"
proof (cases "y mod k = k - 1")
  case True
  then have "y + 1 = k * (y div k + 1)" using mult_div_mod_eq [of k y] unfolding distrib_left mult_1_right by linarith
  then show ?thesis using assms by simp
next
  case False
  have b: "0 \<le> y mod k + 1" "y mod k + 1 < k" using assms False pos_mod_bound [of k y] pos_mod_sign [of k y] by linarith+
  have e: "y + 1 = k * (y div k) + (y mod k + 1)" by simp
  have "(y + 1) div k = y div k" by (rule int_div_pos_eq [OF e b])
  moreover have "(y + 1) mod k = y mod k + 1" by (rule int_mod_pos_eq [OF e b])
  moreover have "y mod k + 1 \<noteq> 0" using assms pos_mod_sign [of k y] by linarith
  ultimately show ?thesis by simp
qed

lemma mod_0_trans: "k dvd k' \<Longrightarrow> a mod k' = 0 \<Longrightarrow> a mod k = (0 :: int)"
  by (meson dvd_trans mod_0_imp_dvd dvd_imp_mod_0)

lemma march_first_step: "march_first (y + 1) = march_first y + 365 + of_bool (leap (y + 1))"
proof -
  define a b c where "a \<longleftrightarrow> (y + 1) mod 4 = 0" and "b \<longleftrightarrow> (y + 1) mod 100 = 0" and "c \<longleftrightarrow> (y + 1) mod 400 = 0"
  have ab: "b \<Longrightarrow> a" unfolding a_def b_def by (rule mod_0_trans [where k' = 100]) simp_all
  have bc: "c \<Longrightarrow> b" unfolding b_def c_def by (rule mod_0_trans [where k' = 400]) simp_all
  have d: "(y + 1) div 4 = y div 4 + of_bool a" "(y + 1) div 100 = y div 100 + of_bool b"
    "(y + 1) div 400 = y div 400 + of_bool c"
    unfolding a_def b_def c_def by (rule div_succ; simp)+
  have l: "leap (y + 1) \<longleftrightarrow> a \<and> (\<not> b \<or> c)" by (simp add: leap_def a_def b_def c_def)
  have "365 * (y + 1) + (p + of_bool a) - (q + of_bool b) + (r + of_bool c)
      = 365 * y + p - q + r + 365 + of_bool (a \<and> (\<not> b \<or> c))" for p q r :: int
    using ab bc by (cases a; cases b; cases c) auto
  then show ?thesis unfolding march_first_def d l .
qed

text \<open>The first day of the following month; in March the next year of the era begins.\<close>

lemma month_step:
  assumes "1 \<le> m" "m \<le> 12" "m \<noteq> 2"
  shows "month_start (march_month (if m = 12 then 1 else m + 1)) = month_start (march_month m) + days_in_month y m"
proof -
  have "m - 1 \<in> {0, 1, 2, 3, 4, 5, 6, 7, 8, 9, 10, 11}" using assms by (intro month_cases) simp_all
  then have "m \<in> {1, 3, 4, 5, 6, 7, 8, 9, 10, 11, 12}" using assms by auto
  then show ?thesis by (auto simp: march_month_def month_start_def days_in_month_def ymdl_table_def)
qed

lemma civil_next:
  assumes "civil y m d"
  shows "case next_civil (y, m, d) of (y', m', d') \<Rightarrow> civil y' m' d' \<and> civil_days y' m' d' = civil_days y m d + 1"
proof (cases "d < days_in_month y m")
  case True
  with assms show ?thesis by (simp add: next_civil_def civil_def civil_days_def)
next
  case False
  have m: "1 \<le> m" "m \<le> 12" "d = days_in_month y m" using assms False by (simp_all add: civil_def)
  have d1: "1 \<le> days_in_month y' m'" if "1 \<le> m'" "m' \<le> 12" for y' m'
    using days_in_month_range [OF that, of y'] by simp
  show ?thesis
  proof (cases "m = 2")
    case True
    from march_first_step [of "y - 1"] have "march_first y = march_first (y - 1) + 365 + of_bool (leap y)" by simp
    with True m False d1 show ?thesis
      by (auto simp: next_civil_def civil_def civil_days_def march_month_def month_start_def days_in_month_def ymdl_table_def)
  next
    case ne: False
    note st = month_step [OF m(1,2) ne, of y]
    have "m + 1 \<le> 2 \<longleftrightarrow> m \<le> 2" using m(1) ne by linarith
    with st m False d1 [of "m + 1" y] d1 [of 1 "y + 1"] show ?thesis
      by (cases "m = 12") (simp_all add: next_civil_def civil_def civil_days_def)
  qed
qed

lemma civil_of_next: "civil_of (n + 1) = next_civil (civil_of n)"
proof -
  obtain y m d where c: "civil y m d" "n = civil_days y m d" using civil_exists by blast
  obtain y' m' d' where n: "next_civil (y, m, d) = (y', m', d')" by (metis prod_cases3)
  with civil_next [OF c(1)] have "civil y' m' d'" "civil_days y' m' d' = n + 1" by (simp_all add: c(2))
  then show ?thesis using civil_of_days [OF c(1)] civil_of_days [of y' m' d'] c(2) n by simp
qed

lemma next_greater: "x < next_civil x"
  by (auto simp: next_civil_def split: prod.split)

lemma civil_of_add: "civil_of n < civil_of (n + int (Suc k))"
proof (induction k)
  case 0
  then show ?case using next_greater by (simp add: civil_of_next)
next
  case (Suc k)
  have "civil_of (n + int (Suc (Suc k))) = next_civil (civil_of (n + int (Suc k)))"
    using civil_of_next [of "n + int (Suc k)"] by (simp add: algebra_simps)
  with Suc next_greater show ?case by (metis less_trans)
qed

lemma civil_of_less [simp]: "civil_of n < civil_of n' \<longleftrightarrow> n < n'"
proof -
  have mono: "civil_of a < civil_of b" if "a < b" for a b
    using civil_of_add [of a "nat (b - a - 1)"] that by simp
  show ?thesis using mono [of n n'] mono [of n' n] by (cases n n' rule: linorder_cases) auto
qed

lemma civil_of_civil: "case civil_of n of (y, m, d) \<Rightarrow> civil y m d \<and> civil_days y m d = n"
proof -
  obtain y m d where c: "civil y m d" "n = civil_days y m d" using civil_exists by blast
  with civil_of_days show ?thesis by simp
qed

end
