(* ===== verification/Calendar_Correct.thy ===== *)
theory Calendar_Correct
  imports Calendar_Civil
begin

text \<open>
  Properties of the calendar: a date and its number of days determine each other, the numbers follow the
  Gregorian calendar and its order, and the arithmetic of weekdays and months is what the names say.
\<close>

section \<open>The library's conversions\<close>

lemma truncated_rem:
  assumes "0 < k"
  shows "n - cdiv n k * k = 0 \<longleftrightarrow> n mod k = 0"
proof
  assume "n - cdiv n k * k = 0"
  then have "n = cdiv n k * k" by simp
  then have "k dvd n" by (metis dvd_triv_right)
  then show "n mod k = 0" by simp
next
  assume "n mod k = 0"
  then obtain c where "n = k * c" by (auto elim: dvdE)
  moreover have "- (k * c) div k = - c" using assms by (simp flip: mult_minus_right)
  ultimately show "n - cdiv n k * k = 0" using assms
    by (cases "0 \<le> c") (auto simp: cdiv_def abs_mult sgn_mult sgn_if zero_less_mult_iff)
qed

lemma is_leap [simp]: "year_is_leap y \<longleftrightarrow> leap (year_int y)"
  using truncated_rem [of 4 "year_int y"] truncated_rem [of 100 "year_int y"] truncated_rem [of 400 "year_int y"]
  by (simp add: year_is_leap_def leap_def Let_def)

lemma field_new [simp]:
  "0 \<le> n \<Longrightarrow> n < 256 \<Longrightarrow> day_unsigned (day_new n) = n"
  "0 \<le> n \<Longrightarrow> n < 256 \<Longrightarrow> month_unsigned (month_new n) = n"
  "- 32768 \<le> i \<Longrightarrow> i < 32768 \<Longrightarrow> year_int (year_new i) = i"
  by (simp_all add: day_new_def month_new_def year_new_def uint_word_of_int signed_of_int signed_take_bit_int_eq_self)

lemma new_field [simp]:
  "day_new (day_unsigned d) = d" "month_new (month_unsigned m) = m" "year_new (year_int y) = y"
  by (cases d; cases m; cases y; simp add: day_new_def month_new_def year_new_def)+

lemma year_range: "- 32768 \<le> year_int y" "year_int y < 32768"
  using sint_ge [of "case y of Year w \<Rightarrow> w"] sint_lt [of "case y of Year w \<Rightarrow> w"] by (cases y; simp)+

definition int_of_ymd :: "year_month_day \<Rightarrow> int \<times> int \<times> int" where
  "int_of_ymd x = (year_int (ymd_year x), month_unsigned (ymd_month x), day_unsigned (ymd_day x))"

definition ymd_of_int :: "int \<times> int \<times> int \<Rightarrow> year_month_day" where
  "ymd_of_int = (\<lambda>(y, m, d). Ymd (year_new y) (month_new m) (day_new d))"

lemma ymd_of_int_of [simp]: "ymd_of_int (int_of_ymd x) = x"
  by (cases x) (simp add: ymd_of_int_def int_of_ymd_def)

lemma ymdl_day_value:
  "month_ok m \<Longrightarrow> day_unsigned (ymdl_day (ym_last (Year_month y m))) = days_in_month (year_int y) (month_unsigned m)"
  using days_in_month_range [of "month_unsigned m" "year_int y"]
  by (auto simp: ymdl_day_def ym_last_def ymdl_month_def month_day_last_ok_def month_ok_def days_in_month_def split: if_splits)

lemma ymd_ok_civil:
  "ymd_ok x \<longleftrightarrow> year_ok (ymd_year x) \<and> (case int_of_ymd x of (y, m, d) \<Rightarrow> civil y m d)"
  by (cases "month_ok (ymd_month x)") (auto simp: ymd_ok_def civil_def int_of_ymd_def ymdl_day_value, auto simp: month_ok_def)

lemma to_days_civil:
  assumes "ymd_ok x"
  shows "ymd_to_days x = (case int_of_ymd x of (y, m, d) \<Rightarrow> civil_days y m d)"
proof -
  obtain y m d where x: "int_of_ymd x = (y, m, d)" by (cases "int_of_ymd x")
  then have f: "year_int (ymd_year x) = y" "month_unsigned (ymd_month x) = m" "day_unsigned (ymd_day x) = d"
    by (simp_all add: int_of_ymd_def)
  from assms x have c: "civil y m d" by (simp add: ymd_ok_civil)
  define y' where "y' = y - of_bool (m \<le> 2)"
  have m: "1 \<le> m" "m \<le> 12" "1 \<le> d" "d \<le> 31"
    using c days_in_month_range [of m y] by (auto simp: civil_def)
  have ms: "0 \<le> month_start (march_month m)" "month_start (march_month m) \<le> 337"
    using month_len_civil(1,2) [OF m(1,2)] by (simp_all add: month_start_def)
  have yoe: "0 \<le> y' mod 400" "y' mod 400 < 400" by simp_all
  have ys: "0 \<le> year_start (y' mod 400)" "year_start (y' mod 400) \<le> 146100" 
    using yoe unfolding year_start_def by linarith+
  have e: "u32 (y' - y' div 400 * 400) = y' mod 400" by (simp add: minus_div_mult_eq_mod)
  have fd: "floor_div y' 400 = y' div 400" by simp
  have q: "u32 (153 * (if 2 < m then u32 (m - 3) else u32 (m + 9)) + 2) = 153 * march_month m + 2"
    using m by (simp add: march_month_def)
  have "ymd_to_days x = y' div 400 * 146097 + s32 (u32 (y' mod 400 * 365 + y' mod 400 div 4 - y' mod 400 div 100
      + u32 (month_start (march_month m) + d - 1))) - 719468"
    by (simp only: ymd_to_days_def Let_def f y'_def [symmetric] fd e q month_start_def)
  also have "u32 (month_start (march_month m) + d - 1) = month_start (march_month m) + d - 1"
    using ms m by simp
  also have "y' mod 400 * 365 + y' mod 400 div 4 - y' mod 400 div 100 = year_start (y' mod 400)"
    by (simp add: year_start_def)
  also have "s32 (u32 (year_start (y' mod 400) + (month_start (march_month m) + d - 1)))
      = year_start (y' mod 400) + (month_start (march_month m) + d - 1)"
    using ys ms m by simp
  finally show ?thesis by (simp add: x civil_days_def march_first_era y'_def)
qed

lemma from_days_civil: "ymd_from_days n = ymd_of_int (civil_of n)"
proof -
  define doe where "doe = (n + 719468) mod 146097"
  have b: "0 \<le> doe" "doe \<le> 146096" by (simp_all add: doe_def)
  obtain c q r doy where doe: "doe = 36524 * c + 1461 * q + 365 * r + doy" and r: "0 \<le> c" "c \<le> 3" "0 \<le> q" "q \<le> 24"
    "0 \<le> r" "r \<le> 3" "0 \<le> doy" "doy \<le> 365" "doy = 365 \<Longrightarrow> r = 3 \<and> (q \<noteq> 24 \<or> c = 3)" using day_split [OF b] by blast
  define yoe where "yoe = 100 * c + 4 * q + r"
  have yoe: "0 \<le> yoe" "yoe \<le> 399" using r by (simp_all add: yoe_def)
  have yd: "year_of_day doe = yoe" unfolding doe yoe_def by (rule year_recovered_split(1) [OF r])
  have ys: "0 \<le> year_start yoe" "doe - year_start yoe = doy" "year_start yoe \<le> 146096"
    using year_start_split [OF r(1-6)] doe b r by (simp_all add: yoe_def)
  define mp where "mp = (5 * doy + 2) div 153"
  have mp: "0 \<le> mp" "mp \<le> 11" "1 \<le> doy - month_start mp + 1" "doy - month_start mp + 1 \<le> month_len mp"
    using day_of_month [OF r(7,8)] by (simp_all add: mp_def)
  have "0 \<le> month_start mp" "month_start mp \<le> 337" using mp(1,2) by (simp_all add: month_start_def)
  moreover have "month_len mp \<le> 31" using month_cases [OF mp(1,2)] by (auto simp: month_len_def)
  ultimately have d: "u32 (doy - u32 (153 * mp + 2) div 5 + 1) = doy - month_start mp + 1"
    using mp by (simp add: month_start_def)
  have "0 \<le> doe div 1460" "doe div 1460 \<le> 100" "0 \<le> doe div 36524" "doe div 36524 \<le> 4" "0 \<le> doe div 146096" "doe div 146096 \<le> 1"
    "doe div 1460 \<le> doe" using b by linarith+
  moreover have "doe div 146096 \<le> doe div 36524" using b by simp
  ultimately have y: "u32 (doe - doe div 1460 + doe div 36524 - doe div 146096) div 365 = yoe"
    using b yd unfolding year_of_day_def by simp
  have fd: "floor_div (n + 719468) 146097 = (n + 719468) div 146097" by simp
  have e: "u32 (n + 719468 - (n + 719468) div 146097 * 146097) = doe" using b by (simp add: doe_def minus_div_mult_eq_mod)
  have doy: "u32 (doe - u32 (365 * yoe + yoe div 4 - yoe div 100)) = doy"
    using ys r unfolding year_start_def by simp
  have m: "u32 (5 * doy + 2) div 153 = mp" using r by (simp add: mp_def)
  have mm: "(if mp < 10 then u32 (mp + 3) else u32 (mp - 9)) = (if mp < 10 then mp + 3 else mp - 9)" using mp by simp
  have s: "s32 yoe = yoe" using yoe by simp
  have "ymd_from_days n = ymd_of_int (yoe + (n + 719468) div 146097 * 400 + of_bool ((if mp < 10 then mp + 3 else mp - 9) \<le> 2),
    if mp < 10 then mp + 3 else mp - 9, doy - month_start mp + 1)"
    by (simp only: ymd_from_days_def Let_def fd e y doy m d mm s ymd_of_int_def prod.case)
  then show ?thesis
    by (simp only: civil_of_def Let_def doe_def [symmetric] yd ys(2) mp_def [symmetric])
qed

lemma from_to_days: "ymd_ok x \<Longrightarrow> ymd_from_days (ymd_to_days x) = x"
proof -
  assume ok: "ymd_ok x"
  then have "civil_of (ymd_to_days x) = int_of_ymd x"
    using civil_of_days by (simp add: to_days_civil ymd_ok_civil split: prod.splits)
  then show ?thesis by (simp add: from_days_civil)
qed

section \<open>Order\<close>

lemma compare_simps [simp]:
  "op_eq (compare_ops_of eq lt) = eq" "op_ne (compare_ops_of eq lt) x y = (\<not> eq x y)" "op_lt (compare_ops_of eq lt) = lt"
  "op_gt (compare_ops_of eq lt) x y = lt y x" "op_le (compare_ops_of eq lt) x y = (\<not> lt y x)"
  "op_ge (compare_ops_of eq lt) x y = (\<not> lt x y)"
  by (simp_all add: compare_ops_of_def)

lemma int_of_ymd_inject [simp]: "int_of_ymd x = int_of_ymd y \<longleftrightarrow> x = y"
  using ymd_of_int_of by metis

lemma lt_int_of_ymd: "op_lt ymd_compare x y \<longleftrightarrow> int_of_ymd x < int_of_ymd y"
  by (auto simp: ymd_compare_def year_compare_def month_compare_def day_compare_def int_of_ymd_def)

lemma le_int_of_ymd: "op_le ymd_compare x y \<longleftrightarrow> int_of_ymd x \<le> int_of_ymd y"
proof -
  have "op_le ymd_compare x y \<longleftrightarrow> \<not> op_lt ymd_compare y x" by (simp add: ymd_compare_def)
  then show ?thesis by (simp add: lt_int_of_ymd not_less)
qed

instantiation year_month_day :: linorder
begin

definition less_year_month_day :: "year_month_day \<Rightarrow> year_month_day \<Rightarrow> bool" where
  "less_year_month_day x y \<longleftrightarrow> op_lt ymd_compare x y"

definition less_eq_year_month_day :: "year_month_day \<Rightarrow> year_month_day \<Rightarrow> bool" where
  "less_eq_year_month_day x y \<longleftrightarrow> op_le ymd_compare x y"

instance
  by standard (auto simp: less_year_month_day_def less_eq_year_month_day_def lt_int_of_ymd le_int_of_ymd less_le)

end

lemma ok_year: "year_ok y \<longleftrightarrow> - 32767 \<le> year_int y \<and> year_int y \<le> 32767"
  using year_range [of y] by (auto simp: year_ok_def)

text \<open>The days of the years the library can hold.\<close>

lemma ok_days:
  assumes "- 12687428 \<le> n" "n \<le> 11248737"
  shows "ymd_ok (ymd_from_days n) \<and> ymd_to_days (ymd_from_days n) = n"
proof -
  obtain y m d where c: "civil_of n = (y, m, d)" by (metis prod_cases3)
  have "civil (- 32767) 1 1" "civil 32767 12 31" "civil_days (- 32767) 1 1 = - 12687428" "civil_days 32767 12 31 = 11248737"
    by (simp_all add: civil_def days_in_month_def ymdl_table_def civil_days_def march_first_def march_month_def month_start_def)
  then have e: "civil_of (- 12687428) = (- 32767, 1, 1)" "civil_of 11248737 = (32767, 12, 31)"
    using civil_of_days by fastforce+
  have "\<not> civil_of n < civil_of (- 12687428)" "\<not> civil_of 11248737 < civil_of n" using assms by simp_all
  then have y: "- 32767 \<le> y" "y \<le> 32767" unfolding e c by auto
  have cv: "civil y m d" "civil_days y m d = n" using civil_of_civil [of n] c by simp_all
  have md: "0 \<le> m" "m < 256" "0 \<le> d" "d < 256"
    using cv(1) days_in_month_range [of m y] by (auto simp: civil_def)
  with y have i: "int_of_ymd (ymd_from_days n) = (y, m, d)"
    by (simp add: from_days_civil c ymd_of_int_def int_of_ymd_def)
  then have "year_int (ymd_year (ymd_from_days n)) = y" by (simp add: int_of_ymd_def)
  with i y cv have "ymd_ok (ymd_from_days n)" by (simp add: ymd_ok_civil ok_year)
  with to_days_civil i cv show ?thesis by simp
qed

section \<open>Properties\<close>

text \<open>
  C18 (Dates and their numbers of days determine each other). A valid date is the date of its number of
  days; the number of days of the date of n is n, and that date is valid, for every n from the first day of
  the year -32767 to the last day of the year 32767.
\<close>

theorem calendar_roundtrip:
  "(ymd_ok x \<longrightarrow> ymd_from_days (ymd_to_days x) = x)
   \<and> (- 12687428 \<le> n \<and> n \<le> 11248737 \<longrightarrow> ymd_ok (ymd_from_days n) \<and> ymd_to_days (ymd_from_days n) = n)"
  using from_to_days ok_days by blast

theorem calendar_roundtrip_witness:
  "ymd_from_days (ymd_to_days (Ymd (year_new 2024) (month_new 2) (day_new 29))) = Ymd (year_new 2024) (month_new 2) (day_new 29)
   \<and> ymd_to_days (ymd_from_days 19782) = 19782"
  using calendar_roundtrip [of "Ymd (year_new 2024) (month_new 2) (day_new 29)" 19782]
  by (simp add: ymd_ok_def year_ok_def month_ok_def ymdl_day_value leap_def days_in_month_def)

text \<open>
  C39 (The numbers count the days of the Gregorian calendar). 1970-01-01 has the number 0, and the next day
  of the calendar, with its months of 28 to 31 days and its leap years, has the next number.
\<close>

theorem calendar_counts_days:
  "ymd_to_days (Ymd (year_new 1970) (month_new 1) (day_new 1)) = 0
   \<and> (ymd_ok x \<and> ymd_ok y \<and> int_of_ymd y = next_civil (int_of_ymd x) \<longrightarrow> ymd_to_days y = ymd_to_days x + 1)"
proof (intro conjI impI)
  have "ymd_ok (Ymd (year_new 1970) (month_new 1) (day_new 1))"
    by (simp add: ymd_ok_def year_ok_def month_ok_def ymdl_day_value days_in_month_def ymdl_table_def)
  from to_days_civil [OF this] show "ymd_to_days (Ymd (year_new 1970) (month_new 1) (day_new 1)) = 0"
    by (simp add: int_of_ymd_def civil_days_def march_first_def march_month_def month_start_def)
next
  assume "ymd_ok x \<and> ymd_ok y \<and> int_of_ymd y = next_civil (int_of_ymd x)"
  then have x: "ymd_ok x" and y: "ymd_ok y" "int_of_ymd y = next_civil (int_of_ymd x)" by simp_all
  obtain y0 m0 d0 where i: "int_of_ymd x = (y0, m0, d0)" by (metis prod_cases3)
  with x have "civil y0 m0 d0" by (simp add: ymd_ok_civil)
  from civil_next [OF this] i y(2) show "ymd_to_days y = ymd_to_days x + 1"
    by (simp add: to_days_civil x y(1) split: prod.splits)
qed

theorem calendar_counts_days_witness:
  "ymd_to_days (Ymd (year_new 2024) (month_new 3) (day_new 1)) = ymd_to_days (Ymd (year_new 2024) (month_new 2) (day_new 29)) + 1"
  by (rule calendar_counts_days [THEN conjunct2, THEN mp])
     (simp_all add: ymd_ok_def year_ok_def month_ok_def ymdl_day_value leap_def days_in_month_def ymdl_table_def int_of_ymd_def next_civil_def)

text \<open>
  The comparisons are those of the days. Of two valid dates, one is less than, equal to or at most
  the other exactly when its number of days is.
\<close>

theorem calendar_order:
  assumes "ymd_ok x" "ymd_ok y"
  shows "(op_lt ymd_compare x y \<longleftrightarrow> ymd_to_days x < ymd_to_days y)
    \<and> (op_eq ymd_compare x y \<longleftrightarrow> ymd_to_days x = ymd_to_days y)
    \<and> (op_le ymd_compare x y \<longleftrightarrow> ymd_to_days x \<le> ymd_to_days y)"
proof (intro conjI)
  have c: "civil_of (ymd_to_days z) = int_of_ymd z" if "ymd_ok z" for z
    using that civil_of_days by (simp add: to_days_civil ymd_ok_civil split: prod.splits)
  from civil_of_less [of "ymd_to_days x" "ymd_to_days y"] c assms
  show lt: "op_lt ymd_compare x y \<longleftrightarrow> ymd_to_days x < ymd_to_days y" by (simp add: lt_int_of_ymd)
  have "op_eq ymd_compare x y \<longleftrightarrow> int_of_ymd x = int_of_ymd y"
    by (simp add: ymd_compare_def year_compare_def month_compare_def day_compare_def int_of_ymd_def)
  then show "op_eq ymd_compare x y \<longleftrightarrow> ymd_to_days x = ymd_to_days y" using from_to_days assms by (metis int_of_ymd_inject)
  from civil_of_less [of "ymd_to_days y" "ymd_to_days x"] c assms
  show "op_le ymd_compare x y \<longleftrightarrow> ymd_to_days x \<le> ymd_to_days y" by (auto simp: le_int_of_ymd not_less [symmetric])
qed

theorem calendar_order_witness:
  "op_lt ymd_compare (Ymd (year_new 2024) (month_new 2) (day_new 29)) (Ymd (year_new 2024) (month_new 3) (day_new 1))
   \<longleftrightarrow> ymd_to_days (Ymd (year_new 2024) (month_new 2) (day_new 29)) < ymd_to_days (Ymd (year_new 2024) (month_new 3) (day_new 1))"
  by (rule calendar_order [THEN conjunct1])
     (simp_all add: ymd_ok_def year_ok_def month_ok_def ymdl_day_value leap_def days_in_month_def ymdl_table_def)

lemma weekday_from_days_mod:
  assumes "- 2147483648 \<le> z" "z < 2147483648"
  shows "weekday_from_days z = (z + 4) mod 7"
proof (cases "0 \<le> z")
  case True
  then show ?thesis using assms by (simp add: weekday_from_days_def)
next
  case False
  have u: "u32 z = z + 4294967296" unfolding u32_def
    by (rule int_mod_pos_eq [where q = "- 1"]) (use assms False in auto)
  have "(z + 4294967296) mod 7 = (z + 4 + 7 * 613566756) mod 7" by (simp add: add.commute)
  also have "\<dots> = (z + 4) mod 7" by (rule mod_mult_self2)
  finally have m: "(z + 4294967296) mod 7 = (z + 4) mod 7" .
  show ?thesis
  proof (cases "- 4 \<le> z")
    case True
    have "u32 (z + 4294967296 + 4) = z + 4" unfolding u32_def
      by (rule int_mod_pos_eq [where q = 1]) (use True False in auto)
    with True show ?thesis by (simp add: weekday_from_days_def u)
  next
    case False
    with m show ?thesis by (simp add: weekday_from_days_def u)
  qed
qed

lemma weekday_of_days_value:
  "- 2147483648 \<le> z \<Longrightarrow> z < 2147483648 \<Longrightarrow> weekday_value (weekday_of_days z) = (z + 4) mod 7"
  using pos_mod_bound [of 7 "z + 4"] pos_mod_sign [of 7 "z + 4"]
  by (simp add: weekday_of_days_def weekday_from_days_mod uint_word_of_int)

lemma weekday_plus_value:
  assumes "weekday_ok w"
  shows "weekday_value (weekday_plus w n) = (weekday_value w + n) mod 7"
proof -
  have b: "0 \<le> (weekday_value w + n) mod 7" "(weekday_value w + n) mod 7 < 7" by simp_all
  have fd: "floor_div (weekday_value w + n) 7 = (weekday_value w + n) div 7" by simp
  have "weekday_value w + n - (weekday_value w + n) div 7 * 7 = (weekday_value w + n) mod 7"
    by (simp add: minus_div_mult_eq_mod)
  with b show ?thesis by (simp add: weekday_plus_def Let_def fd weekday_new_def uint_word_of_int)
qed

lemma weekday_value_inject: "weekday_value v = weekday_value w \<Longrightarrow> v = w"
  by (cases v; cases w) (simp add: word_uint_eq_iff)

text \<open>
  The day of the week. Every number of days of 32 bits has the weekday that counting in sevens from
  1970-01-01, a Thursday, gives, so the days of the week follow each other.
\<close>

theorem weekday_counts:
  assumes "- 2147483648 \<le> z" "z + 1 < 2147483648"
  shows "weekday_value (weekday_of_days z) = (z + 4) mod 7 \<and> weekday_ok (weekday_of_days z)
    \<and> weekday_of_days (z + 1) = pre_inc weekday_steps (weekday_of_days z)"
proof (intro conjI)
  show v: "weekday_value (weekday_of_days z) = (z + 4) mod 7" using assms by (simp add: weekday_of_days_value)
  then show ok: "weekday_ok (weekday_of_days z)" using pos_mod_bound [of 7 "z + 4"] by (simp add: weekday_ok_def)
  have "weekday_value (weekday_of_days (z + 1)) = (z + 1 + 4) mod 7" using assms by (simp add: weekday_of_days_value)
  also have "\<dots> = ((z + 4) mod 7 + 1) mod 7" by (simp add: mod_simps algebra_simps)
  also have "\<dots> = weekday_value (weekday_plus (weekday_of_days z) 1)" by (simp add: weekday_plus_value [OF ok] v)
  finally show "weekday_of_days (z + 1) = pre_inc weekday_steps (weekday_of_days z)"
    by (intro weekday_value_inject) (simp add: weekday_steps_def step_ops_of_def)
qed

theorem weekday_counts_witness:
  "weekday_value (weekday_of_days (- 6)) = 5"
  using weekday_counts [of "- 6"] by simp

text \<open>Months counted through the years.\<close>

definition month_index :: "year_month \<Rightarrow> int" where
  "month_index ym = 12 * year_int (ym_year ym) + month_unsigned (ym_month ym) - 1"

lemma plus_months:
  assumes "- 393204 \<le> month_index ym + dm" "month_index ym + dm \<le> 393215"
  shows "year_month_ok (year_month_plus_months ym dm)" "month_index (year_month_plus_months ym dm) = month_index ym + dm"
proof -
  define y m where "y = year_int (ym_year ym)" and "m = month_unsigned (ym_month ym)"
  define i where "i = m - 1 + dm"
  have r: "0 \<le> i mod 12" "i mod 12 < 12" "12 * (i div 12) + i mod 12 = i" by simp_all
  have "month_index ym + dm = 12 * y + i" by (simp add: month_index_def y_def m_def i_def)
  then have y: "- 32767 \<le> y + i div 12" "y + i div 12 \<le> 32767" using assms r by linarith+
  have fd: "floor_div i 12 = i div 12" by simp
  have u: "u32 (i - i div 12 * 12 + 1) = i mod 12 + 1" using r by (simp only: minus_div_mult_eq_mod) simp
  have "year_month_plus_months ym dm = Year_month (year_new (y + i div 12)) (month_new (i mod 12 + 1))"
    by (simp only: year_month_plus_months_def Let_def m_def [symmetric] i_def [symmetric] fd year_plus_def y_def [symmetric] u)
  with y r \<open>month_index ym + dm = 12 * y + i\<close>
  show "year_month_ok (year_month_plus_months ym dm)" "month_index (year_month_plus_months ym dm) = month_index ym + dm"
    by (simp_all add: year_month_ok_def ok_year month_ok_def month_index_def)
qed

lemma month_index_inject:
  "year_month_ok x \<Longrightarrow> year_month_ok y \<Longrightarrow> month_index x = month_index y \<Longrightarrow> x = y"
proof -
  assume ok: "year_month_ok x" "year_month_ok y" and e: "month_index x = month_index y"
  have "1 \<le> month_unsigned (ym_month x)" "month_unsigned (ym_month x) \<le> 12"
    "1 \<le> month_unsigned (ym_month y)" "month_unsigned (ym_month y) \<le> 12"
    using ok by (simp_all add: year_month_ok_def month_ok_def)
  with e have "year_int (ym_year x) = year_int (ym_year y)" unfolding month_index_def by linarith
  with e have "year_int (ym_year x) = year_int (ym_year y)" "month_unsigned (ym_month x) = month_unsigned (ym_month y)"
    by (simp_all add: month_index_def)
  then have "ym_month x = ym_month y" "ym_year x = ym_year y" using new_field(2,3) by metis+
  then show "x = y" by (simp add: year_month.expand)
qed

text \<open>
  Adding months. Adding months to a valid year and month carries into the year and gives a valid one;
  the difference of the two is the number of months added, and subtracting it leads back.
\<close>

theorem month_arithmetic:
  assumes "year_month_ok ym" "- 393204 \<le> month_index ym + dm" "month_index ym + dm \<le> 393215"
  shows "year_month_ok (year_month_plus_months ym dm)
    \<and> year_month_diff (year_month_plus_months ym dm) ym = dm
    \<and> sub_months year_month_assign (add_months year_month_assign ym dm) dm = ym"
proof (intro conjI)
  note p = plus_months [OF assms(2,3)]
  show "year_month_ok (year_month_plus_months ym dm)" by (rule p(1))
  have "year_month_diff x y = month_index x - month_index y" if "year_month_ok x" "year_month_ok y" for x y
    using that by (simp add: year_month_diff_def month_index_def year_diff_def year_month_ok_def month_ok_def)
  from this [OF p(1) assms(1)] p(2) show "year_month_diff (year_month_plus_months ym dm) ym = dm" by simp
  have "- 393204 \<le> month_index ym" "month_index ym \<le> 393215"
    using assms(1) by (auto simp: year_month_ok_def ok_year month_ok_def month_index_def)
  then have q: "year_month_ok (year_month_plus_months (year_month_plus_months ym dm) (- dm))"
    "month_index (year_month_plus_months (year_month_plus_months ym dm) (- dm)) = month_index ym"
    using plus_months [of "year_month_plus_months ym dm" "- dm"] p(2) by simp_all
  from month_index_inject [OF q(1) assms(1) q(2)]
  show "sub_months year_month_assign (add_months year_month_assign ym dm) dm = ym"
    by (simp add: year_month_assign_def year_month_minus_months_def)
qed

theorem month_arithmetic_witness:
  "year_month_diff (year_month_plus_months (Year_month (year_new 2021) (month_new 11)) 3) (Year_month (year_new 2021) (month_new 11)) = 3"
  by (rule month_arithmetic [THEN conjunct2, THEN conjunct1]) (simp_all add: year_month_ok_def ok_year month_ok_def month_index_def)

end
