(* ===== verification/Calendar_Compose.thy ===== *)
theory Calendar_Compose
  imports Calendar_Correct
begin

text \<open>
  The operator \<^verbatim>\<open>/\<close> of \<^verbatim>\<open>src/utils/date.hpp\<close>, which composes dates in the orders year/month/day,
  month/day/year and day/month/year; an \<^verbatim>\<open>int\<close> may stand for any part but the first. The lemmas say that
  all orders compose the same date.
\<close>

section \<open>Year and month\<close>

definition year_div_month :: "year \<Rightarrow> month \<Rightarrow> year_month" where
  "year_div_month y m = Year_month y m"

definition year_div_int :: "year \<Rightarrow> int \<Rightarrow> year_month" where
  "year_div_int y m = year_div_month y (month_new (u32 m))"

section \<open>Month and day\<close>

definition month_div_day :: "month \<Rightarrow> day \<Rightarrow> month_day" where
  "month_div_day m d = Month_day m d"

definition day_div_month :: "day \<Rightarrow> month \<Rightarrow> month_day" where
  "day_div_month d m = month_div_day m d"

definition month_div_int :: "month \<Rightarrow> int \<Rightarrow> month_day" where
  "month_div_int m d = month_div_day m (day_new (u32 d))"

definition int_div_day :: "int \<Rightarrow> day \<Rightarrow> month_day" where
  "int_div_day m d = month_div_day (month_new (u32 m)) d"

definition day_div_int :: "day \<Rightarrow> int \<Rightarrow> month_day" where
  "day_div_int d m = int_div_day m d"

section \<open>The last day of a month\<close>

definition month_div_last :: "month \<Rightarrow> month_day_last" where
  "month_div_last m = Month_day_last m"

definition last_div_month :: "month \<Rightarrow> month_day_last" where
  "last_div_month m = month_div_last m"

definition int_div_last :: "int \<Rightarrow> month_day_last" where
  "int_div_last m = month_div_last (month_new (u32 m))"

definition last_div_int :: "int \<Rightarrow> month_day_last" where
  "last_div_int m = int_div_last m"

section \<open>Weekdays of a month\<close>

definition month_div_wdi :: "month \<Rightarrow> weekday_indexed \<Rightarrow> month_weekday" where
  "month_div_wdi m wdi = Month_weekday m wdi"

definition wdi_div_month :: "weekday_indexed \<Rightarrow> month \<Rightarrow> month_weekday" where
  "wdi_div_month wdi m = month_div_wdi m wdi"

definition int_div_wdi :: "int \<Rightarrow> weekday_indexed \<Rightarrow> month_weekday" where
  "int_div_wdi m wdi = month_div_wdi (month_new (u32 m)) wdi"

definition wdi_div_int :: "weekday_indexed \<Rightarrow> int \<Rightarrow> month_weekday" where
  "wdi_div_int wdi m = int_div_wdi m wdi"

definition month_div_wdl :: "month \<Rightarrow> weekday_last \<Rightarrow> month_weekday_last" where
  "month_div_wdl m wdl = Month_weekday_last m wdl"

definition wdl_div_month :: "weekday_last \<Rightarrow> month \<Rightarrow> month_weekday_last" where
  "wdl_div_month wdl m = month_div_wdl m wdl"

definition int_div_wdl :: "int \<Rightarrow> weekday_last \<Rightarrow> month_weekday_last" where
  "int_div_wdl m wdl = month_div_wdl (month_new (u32 m)) wdl"

definition wdl_div_int :: "weekday_last \<Rightarrow> int \<Rightarrow> month_weekday_last" where
  "wdl_div_int wdl m = int_div_wdl m wdl"

section \<open>Year, month and day\<close>

definition ym_div_int :: "year_month \<Rightarrow> int \<Rightarrow> year_month_day" where
  "ym_div_int ym d = ym_day ym (day_new (u32 d))"

definition year_div_md :: "year \<Rightarrow> month_day \<Rightarrow> year_month_day" where
  "year_div_md y md = ym_day (year_div_month y (md_month md)) (md_day md)"

definition int_div_md :: "int \<Rightarrow> month_day \<Rightarrow> year_month_day" where
  "int_div_md y md = year_div_md (year_new y) md"

definition md_div_year :: "month_day \<Rightarrow> year \<Rightarrow> year_month_day" where
  "md_div_year md y = year_div_md y md"

definition md_div_int :: "month_day \<Rightarrow> int \<Rightarrow> year_month_day" where
  "md_div_int md y = year_div_md (year_new y) md"

definition year_div_mdl :: "year \<Rightarrow> month_day_last \<Rightarrow> year_month_day_last" where
  "year_div_mdl y mdl = Year_month_day_last y mdl"

definition int_div_mdl :: "int \<Rightarrow> month_day_last \<Rightarrow> year_month_day_last" where
  "int_div_mdl y mdl = year_div_mdl (year_new y) mdl"

definition mdl_div_year :: "month_day_last \<Rightarrow> year \<Rightarrow> year_month_day_last" where
  "mdl_div_year mdl y = year_div_mdl y mdl"

definition mdl_div_int :: "month_day_last \<Rightarrow> int \<Rightarrow> year_month_day_last" where
  "mdl_div_int mdl y = year_div_mdl (year_new y) mdl"

definition ym_div_wdi :: "year_month \<Rightarrow> weekday_indexed \<Rightarrow> year_month_weekday" where
  "ym_div_wdi ym wdi = Ymw (ym_year ym) (ym_month ym) wdi"

definition year_div_mwd :: "year \<Rightarrow> month_weekday \<Rightarrow> year_month_weekday" where
  "year_div_mwd y mwd = Ymw y (mwd_month mwd) (mwd_weekday_indexed mwd)"

definition int_div_mwd :: "int \<Rightarrow> month_weekday \<Rightarrow> year_month_weekday" where
  "int_div_mwd y mwd = year_div_mwd (year_new y) mwd"

definition mwd_div_year :: "month_weekday \<Rightarrow> year \<Rightarrow> year_month_weekday" where
  "mwd_div_year mwd y = year_div_mwd y mwd"

definition mwd_div_int :: "month_weekday \<Rightarrow> int \<Rightarrow> year_month_weekday" where
  "mwd_div_int mwd y = year_div_mwd (year_new y) mwd"

definition ym_div_wdl :: "year_month \<Rightarrow> weekday_last \<Rightarrow> year_month_weekday_last" where
  "ym_div_wdl ym wdl = Ymwl (ym_year ym) (ym_month ym) wdl"

definition year_div_mwdl :: "year \<Rightarrow> month_weekday_last \<Rightarrow> year_month_weekday_last" where
  "year_div_mwdl y mwdl = Ymwl y (mwdl_month mwdl) (mwdl_weekday_last mwdl)"

definition int_div_mwdl :: "int \<Rightarrow> month_weekday_last \<Rightarrow> year_month_weekday_last" where
  "int_div_mwdl y mwdl = year_div_mwdl (year_new y) mwdl"

definition mwdl_div_year :: "month_weekday_last \<Rightarrow> year \<Rightarrow> year_month_weekday_last" where
  "mwdl_div_year mwdl y = year_div_mwdl y mwdl"

definition mwdl_div_int :: "month_weekday_last \<Rightarrow> int \<Rightarrow> year_month_weekday_last" where
  "mwdl_div_int mwdl y = year_div_mwdl (year_new y) mwdl"

section \<open>All orders compose the same date\<close>

lemmas slash_defs = year_div_month_def year_div_int_def month_div_day_def day_div_month_def month_div_int_def
  int_div_day_def day_div_int_def month_div_last_def last_div_month_def int_div_last_def last_div_int_def
  month_div_wdi_def wdi_div_month_def int_div_wdi_def wdi_div_int_def month_div_wdl_def wdl_div_month_def
  int_div_wdl_def wdl_div_int_def ym_div_int_def year_div_md_def int_div_md_def md_div_year_def md_div_int_def
  year_div_mdl_def int_div_mdl_def mdl_div_year_def mdl_div_int_def ym_div_wdi_def year_div_mwd_def int_div_mwd_def
  mwd_div_year_def mwd_div_int_def ym_div_wdl_def year_div_mwdl_def int_div_mwdl_def mwdl_div_year_def
  mwdl_div_int_def ym_day_def ym_last_def

lemma spellings_of_a_day:
  "ym_day (year_div_int (year_new y) m) (day_new (u32 d)) = ym_div_int (year_div_month (year_new y) (month_new (u32 m))) d"
  "md_div_int (month_div_int (month_new (u32 m)) d) y = ym_div_int (year_div_int (year_new y) m) d"
  "md_div_int (day_div_int (day_new (u32 d)) m) y = ym_div_int (year_div_int (year_new y) m) d"
  "int_div_md y (int_div_day m (day_new (u32 d))) = ym_div_int (year_div_int (year_new y) m) d"
  by (simp_all add: slash_defs)

lemma spellings_of_the_last_day:
  "mdl_div_int (int_div_last m) y = ym_last (year_div_int (year_new y) m)"
  "mdl_div_int (last_div_int m) y = ym_last (year_div_int (year_new y) m)"
  "int_div_mdl y (month_div_last (month_new (u32 m))) = ym_last (year_div_int (year_new y) m)"
  by (simp_all add: slash_defs)

lemma spellings_of_a_weekday:
  "mwd_div_int (int_div_wdi m wdi) y = ym_div_wdi (year_div_int (year_new y) m) wdi"
  "mwd_div_int (wdi_div_int wdi m) y = ym_div_wdi (year_div_int (year_new y) m) wdi"
  "mwdl_div_int (int_div_wdl m wdl) y = ym_div_wdl (year_div_int (year_new y) m) wdl"
  "mwdl_div_int (wdl_div_int wdl m) y = ym_div_wdl (year_div_int (year_new y) m) wdl"
  by (simp_all add: slash_defs)

text \<open>The parts of a composed date are the numbers it was composed of, as far as the fields hold them.\<close>

lemma composed_parts:
  assumes "- 32768 \<le> y" "y < 32768" "0 \<le> m" "m < 256" "0 \<le> d" "d < 256"
  shows "year_int (ymd_year (ym_div_int (year_div_int (year_new y) m) d)) = y"
    and "month_unsigned (ymd_month (ym_div_int (year_div_int (year_new y) m) d)) = m"
    and "day_unsigned (ymd_day (ym_div_int (year_div_int (year_new y) m) d)) = d"
  using assms by (simp_all add: slash_defs)

end
