(* ===== verification/Time_Of_Day.thy ===== *)
theory Time_Of_Day
  imports Calendar_Fields
begin

text \<open>
  The time of day in \<^verbatim>\<open>src/utils/date.hpp\<close>: a duration split into hours, minutes, seconds and the part of
  a second, and the 12-hour clock. A duration counts \<open>N\<close> ticks per second, as the time points of the
  system clock do; its count is exact, since beyond 64 bits it has no defined meaning. Its text
  is in \<open>Calendar_Format\<close>.
\<close>

section \<open>The number of decimals\<close>

function width :: "nat \<Rightarrow> nat \<Rightarrow> nat \<Rightarrow> nat" where
  "width n d w = (if n mod d \<noteq> 0 \<and> w < 19 then 1 + width (n mod d * 10) d (w + 1) else 0)"
  by pat_completeness auto
termination by (relation "measure (\<lambda>(n, d, w). 19 - w)") auto

declare width.simps [simp del]

fun static_pow10 :: "nat \<Rightarrow> int" where
  "static_pow10 e = (if e = 0 then 1
     else let h = static_pow10 (e div 2) in h * h * (if e mod 2 \<noteq> 0 then 10 else 1))"

declare static_pow10.simps [simp del]

lemma static_pow10 [simp]: "static_pow10 e = 10 ^ e"
proof (induction e rule: static_pow10.induct)
  case (1 e)
  show ?case
  proof (cases "e = 0")
    case False
    have "(10 :: int) ^ e = 10 ^ (e div 2 + e div 2 + e mod 2)"
      by (rule arg_cong [of _ _ "\<lambda>n. 10 ^ n"]) presburger
    also have "\<dots> = 10 ^ (e div 2) * 10 ^ (e div 2) * (if e mod 2 \<noteq> 0 then 10 else 1)"
      by (cases "e mod 2 = 0") (simp_all add: power_add)
    finally show ?thesis using 1 [OF False] False by (subst static_pow10.simps) (simp add: Let_def)
  qed (simp add: static_pow10.simps)
qed

lemma width_pow10:
  "j \<le> k \<Longrightarrow> w + (k - j) \<le> 19 \<Longrightarrow> width (10 ^ j) (10 ^ k) w = k - j"
proof (induction "k - j" arbitrary: j w)
  case 0
  then show ?case by (subst width.simps) simp
next
  case (Suc n)
  then have j: "j < k" "w < 19" by simp_all
  then have "(10 :: nat) ^ j mod 10 ^ k = 10 ^ j" by simp
  moreover have "width (10 ^ Suc j) (10 ^ k) (w + 1) = k - Suc j"
    using Suc.hyps(2) Suc.prems j by (intro Suc.hyps(1)) simp_all
  moreover have "Suc (k - Suc j) = k - j" using j by simp
  ultimately show ?case using j by (subst width.simps) (simp add: mult.commute)
qed

definition fractional_width :: "nat \<Rightarrow> nat" where
  "fractional_width N = (let trial_width = width 1 N 0 in if trial_width < 19 then trial_width else 6)"

lemma fractional_width_pow10: "k < 19 \<Longrightarrow> fractional_width (10 ^ k) = k"
  using width_pow10 [of 0 k 0] by (simp add: fractional_width_def)

text \<open>The ticks per second of the type \<^verbatim>\<open>precision\<close>.\<close>

definition precision :: "nat \<Rightarrow> int" where
  "precision N = static_pow10 (fractional_width N)"

section \<open>Seconds\<close>

record decimal_format_seconds =
  dfs_s :: int
  dfs_sub_s :: int

definition decimal_format_seconds_new :: "nat \<Rightarrow> int \<Rightarrow> decimal_format_seconds" where
  "decimal_format_seconds_new N d = (let s = cdiv d (int N) in
     \<lparr>dfs_s = s, dfs_sub_s = cdiv ((d - s * int N) * precision N) (int N)\<rparr>)"

definition dfs_to_duration :: "nat \<Rightarrow> decimal_format_seconds \<Rightarrow> int" where
  "dfs_to_duration N x = dfs_s x * precision N + dfs_sub_s x"

definition dfs_in_conventional_range :: "nat \<Rightarrow> decimal_format_seconds \<Rightarrow> bool" where
  "dfs_in_conventional_range N x \<longleftrightarrow> dfs_sub_s x < precision N \<and> dfs_s x < 60"

section \<open>Hours, minutes and seconds\<close>

definition abs_duration :: "int \<Rightarrow> int" where
  "abs_duration d = (if 0 \<le> d then d else - d)"

record hh_mm_ss =
  tod_h :: int
  tod_m :: int
  tod_s :: decimal_format_seconds
  tod_neg :: bool

definition hh_mm_ss_new :: "nat \<Rightarrow> int \<Rightarrow> hh_mm_ss" where
  "hh_mm_ss_new N d = (let
     h = cdiv (abs_duration d) (3600 * int N);
     m = cdiv (abs_duration d) (60 * int N) - h * 60
   in \<lparr>tod_h = h, tod_m = m,
       tod_s = decimal_format_seconds_new N (abs_duration d - h * 3600 * int N - m * 60 * int N),
       tod_neg = d < 0\<rparr>)"

definition tod_to_duration :: "nat \<Rightarrow> hh_mm_ss \<Rightarrow> int" where
  "tod_to_duration N x = (dfs_to_duration N (tod_s x) + tod_m x * 60 * precision N + tod_h x * 3600 * precision N)
     * (1 - 2 * of_bool (tod_neg x))"

definition tod_in_conventional_range :: "nat \<Rightarrow> hh_mm_ss \<Rightarrow> bool" where
  "tod_in_conventional_range N x \<longleftrightarrow> \<not> tod_neg x \<and> tod_h x < 24 \<and> tod_m x < 60 \<and> dfs_in_conventional_range N (tod_s x)"

section \<open>The 12-hour clock\<close>

definition is_am :: "int \<Rightarrow> bool" where
  "is_am h \<longleftrightarrow> 0 \<le> h \<and> h < 12"

definition is_pm :: "int \<Rightarrow> bool" where
  "is_pm h \<longleftrightarrow> 12 \<le> h \<and> h < 24"

definition make12 :: "int \<Rightarrow> int" where
  "make12 h = (if h < 12 then (if h = 0 then 12 else h) else if h \<noteq> 12 then h - 12 else h)"

definition make24 :: "int \<Rightarrow> bool \<Rightarrow> int" where
  "make24 h pm = (if pm then (if h \<noteq> 12 then h + 12 else h) else if h = 12 then 0 else h)"

lemma make24_make12: "0 \<le> h \<Longrightarrow> h < 24 \<Longrightarrow> make24 (make12 h) (is_pm h) = h"
  by (simp add: make24_def make12_def is_pm_def)

lemma make12_range: "0 \<le> h \<Longrightarrow> h < 24 \<Longrightarrow> make12 h \<in> {1..12}"
  by (auto simp: make12_def)

lemma am_or_pm: "0 \<le> h \<Longrightarrow> h < 24 \<Longrightarrow> is_am h \<noteq> is_pm h"
  by (auto simp: is_am_def is_pm_def)

section \<open>A duration and its parts\<close>

lemma cdiv_nonneg: "0 \<le> a \<Longrightarrow> 0 < b \<Longrightarrow> cdiv a b = a div b"
  by (auto simp: cdiv_def sgn_if)

text \<open>The parts for a non-negative count, when the ticks are decimals of a second.\<close>

lemma int_div_less: "a < b * c \<Longrightarrow> 0 < c \<Longrightarrow> a div c < (b :: int)"
  using mult_right_mono [of b "a div c" c] pos_mod_sign [of c a] div_mult_mod_eq [of a c] by linarith

lemma recombine:
  fixes a :: int
  shows "a = q * N + r \<Longrightarrow> q = h * 60 + s \<Longrightarrow> h = g * 60 + m \<Longrightarrow>
    a = (s * N + r) + m * 60 * N + g * 3600 * N"
  by algebra

lemma sexagesimal:
  assumes "0 < (N :: int)"
  shows "a div (60 * N) = a div N div 60" "a div (3600 * N) = a div N div 60 div 60"
    and "a - a div N div 60 * (60 * N) = a div N mod 60 * N + a mod N"
proof -
  show "a div (60 * N) = a div N div 60" using assms by (metis mult.commute zdiv_zmult2_eq less_imp_le zero_le_numeral)
  have "3600 * N = N * 60 * 60" by simp
  then show "a div (3600 * N) = a div N div 60 div 60" by (metis zdiv_zmult2_eq zero_le_numeral)
  have "a = a div N * N + a mod N" "a div N = a div N div 60 * 60 + a div N mod 60"
    by (rule div_mult_mod_eq [symmetric])+
  then show "a - a div N div 60 * (60 * N) = a div N mod 60 * N + a mod N" by algebra
qed

lemma seconds_parts:
  assumes "k < 19" "0 \<le> s" "0 \<le> r" "r < 10 ^ k"
  shows "decimal_format_seconds_new (10 ^ k) (s * 10 ^ k + r) = \<lparr>dfs_s = s, dfs_sub_s = r\<rparr>"
proof -
  have "(s * 10 ^ k + r) div 10 ^ k = s" by (rule int_div_pos_eq [OF _ assms(3,4)]) simp
  then show ?thesis using assms
    by (simp add: decimal_format_seconds_new_def precision_def fractional_width_pow10 cdiv_nonneg Let_def)
qed

lemma tod_parts:
  assumes "k < 19" "0 \<le> a"
  shows "hh_mm_ss_new (10 ^ k) a = \<lparr>tod_h = a div 10 ^ k div 60 div 60, tod_m = a div 10 ^ k div 60 mod 60,
    tod_s = \<lparr>dfs_s = a div 10 ^ k mod 60, dfs_sub_s = a mod 10 ^ k\<rparr>, tod_neg = False\<rparr>"
proof -
  define N :: int where "N = 10 ^ k"
  have N: "0 < N" by (simp add: N_def)
  note p = sexagesimal [OF N, of a]
  have m: "a div N div 60 - a div N div 60 div 60 * 60 = a div N div 60 mod 60" by (simp add: minus_div_mult_eq_mod)
  have "a - a div N div 60 div 60 * 3600 * N - a div N div 60 mod 60 * 60 * N = a - a div N div 60 * (60 * N)"
    unfolding m [symmetric] by (simp add: algebra_simps)
  with p(3) have r: "a - a div N div 60 div 60 * 3600 * N - a div N div 60 mod 60 * 60 * N = a div N mod 60 * N + a mod N"
    by simp
  have s: "decimal_format_seconds_new (10 ^ k) (a div N mod 60 * N + a mod N) = \<lparr>dfs_s = a div N mod 60, dfs_sub_s = a mod N\<rparr>"
    unfolding N_def by (rule seconds_parts [OF assms(1)]) simp_all
  have "hh_mm_ss_new (10 ^ k) a = \<lparr>tod_h = a div N div 60 div 60, tod_m = a div N div 60 mod 60,
    tod_s = \<lparr>dfs_s = a div N mod 60, dfs_sub_s = a mod N\<rparr>, tod_neg = False\<rparr>"
    using assms(2) N unfolding hh_mm_ss_new_def Let_def abs_duration_def
    by (simp only: cdiv_nonneg p(1,2) m r s of_nat_power of_nat_numeral if_True
        zero_less_mult_iff zero_less_numeral simp_thms not_le [symmetric] flip: N_def)
  then show ?thesis by (simp add: N_def)
qed

lemma tod_neg:
  assumes "d < 0"
  shows "hh_mm_ss_new N d = (hh_mm_ss_new N (- d))\<lparr>tod_neg := True\<rparr>"
  using assms by (simp add: hh_mm_ss_new_def abs_duration_def Let_def)

text \<open>The parts of a duration give it back, and a non-negative duration of less than a day is a time of day.\<close>

lemma time_of_day_roundtrip:
  assumes "k < 19"
  shows "tod_to_duration (10 ^ k) (hh_mm_ss_new (10 ^ k) d) = d"
proof -
  have p: "precision (10 ^ k) = 10 ^ k" using assms by (simp add: precision_def fractional_width_pow10)
  have pos: "tod_to_duration (10 ^ k) (hh_mm_ss_new (10 ^ k) a) = a" if "0 \<le> a" for a
  proof -
    define q :: int where "q = a div 10 ^ k"
    have "a = q * 10 ^ k + a mod 10 ^ k" unfolding q_def by (rule div_mult_mod_eq [symmetric])
    moreover have "q = q div 60 * 60 + q mod 60" "q div 60 = q div 60 div 60 * 60 + q div 60 mod 60"
      by (rule div_mult_mod_eq [symmetric])+
    ultimately have "a = (q mod 60 * 10 ^ k + a mod 10 ^ k) + q div 60 mod 60 * 60 * 10 ^ k + q div 60 div 60 * 3600 * 10 ^ k"
      by (rule recombine)
    then show ?thesis
      by (simp add: tod_parts [OF assms that] tod_to_duration_def dfs_to_duration_def p flip: q_def)
  qed
  show ?thesis
  proof (cases "0 \<le> d")
    case False
    then have "tod_to_duration (10 ^ k) (hh_mm_ss_new (10 ^ k) d) = - tod_to_duration (10 ^ k) (hh_mm_ss_new (10 ^ k) (- d))"
      by (subst tod_neg) (simp_all add: tod_to_duration_def tod_parts [OF assms])
    with False pos [of "- d"] show ?thesis by simp
  qed (use pos in simp)
qed

lemma time_of_day_range:
  assumes "k < 19" "0 \<le> d" "d < 86400 * 10 ^ k"
  shows "tod_in_conventional_range (10 ^ k) (hh_mm_ss_new (10 ^ k) d)"
proof -
  have "d div 10 ^ k < 86400" using assms(3) by (intro int_div_less) simp_all
  then have "d div 10 ^ k div 60 div 60 < 24" by simp
  then show ?thesis
    using assms(1) by (simp add: tod_parts [OF assms(1,2)] tod_in_conventional_range_def dfs_in_conventional_range_def
        precision_def fractional_width_pow10)
qed

end
