(* ===== verification/Calendar_Format.thy ===== *)
theory Calendar_Format
  imports Calendar_Compose Time_Of_Day
begin

text \<open>
  The formatting of dates and times in \<^verbatim>\<open>src/utils/date.hpp\<close>: \<^verbatim>\<open>to_stream\<close> with one definition per conversion
  character, \<^verbatim>\<open>format\<close>, and the stream operators of the calendar types. The library is compiled with
  \<^verbatim>\<open>ONLY_C_LOCALE\<close> 0, so what depends on the locale of the stream goes through its facets, the record
  \<open>locale_facets\<close>. As in \<open>Time_Of_Day\<close>, a duration counts \<open>N\<close> ticks per second and a time point is a
  duration since 1970-01-01.
\<close>

section \<open>Output streams\<close>

text \<open>
  What was written, the failure bit, and whether setting it throws. A formatted output on a failed stream
  writes nothing, a facet writes to the buffer in any case. The fill character and the width are arguments
  of the outputs that use them.
\<close>

record ostream =
  os_text :: string
  os_fail :: bool
  os_throws :: bool

record tm =
  tm_sec :: int
  tm_min :: int
  tm_hour :: int
  tm_mday :: int
  tm_mon :: int
  tm_year :: int
  tm_wday :: int
  tm_yday :: int

definition tm_zero :: tm where
  "tm_zero = \<lparr>tm_sec = 0, tm_min = 0, tm_hour = 0, tm_mday = 0, tm_mon = 0, tm_year = 0, tm_wday = 0, tm_yday = 0\<rparr>"

record locale_facets =
  time_put :: "tm \<Rightarrow> string \<Rightarrow> string"
  num_put :: "int \<Rightarrow> string"
  decimal_point :: char

definition os_put :: "string \<Rightarrow> ('z ostream_scheme, unit) M" where
  "os_put s = modE (\<lambda>os. if os_fail os then os else os\<lparr>os_text := os_text os @ s\<rparr>)"

definition os_put_facet :: "string \<Rightarrow> ('z ostream_scheme, unit) M" where
  "os_put_facet s = modE (\<lambda>os. os\<lparr>os_text := os_text os @ s\<rparr>)"

definition os_set_failbit :: "('z ostream_scheme, unit) M" where
  "os_set_failbit = thenE (modE (os_fail_update (\<lambda>_. True)))
     (bindE (getE os_throws) (\<lambda>t. if t then raise Ios_failure else ret ()))"

definition os_require :: "bool \<Rightarrow> ('z ostream_scheme, unit) M" where
  "os_require b = (if b then ret () else os_set_failbit)"

text \<open>Numbers with a width and a fill character to the left, and with the fill after the sign.\<close>

definition pad :: "nat \<Rightarrow> char \<Rightarrow> string \<Rightarrow> string" where
  "pad w f s = replicate (w - length s) f @ s"

definition pad_internal :: "nat \<Rightarrow> char \<Rightarrow> int \<Rightarrow> string" where
  "pad_internal w f i = (if i < 0 then CHR ''-'' # pad (w - 1) f (to_string (- i)) else pad w f (to_string i))"

definition os_put_num :: "locale_facets \<Rightarrow> nat \<Rightarrow> char \<Rightarrow> int \<Rightarrow> ('z ostream_scheme, unit) M" where
  "os_put_num F w f i = os_put (pad w f (num_put F i))"

definition os_put_classic :: "nat \<Rightarrow> char \<Rightarrow> int \<Rightarrow> ('z ostream_scheme, unit) M" where
  "os_put_classic w f i = os_put (pad w f (to_string i))"

text \<open>The idiom \<^verbatim>\<open>if (i < 10) os << '0'; os << i\<close>.\<close>

definition os_put_two :: "locale_facets \<Rightarrow> int \<Rightarrow> ('z ostream_scheme, unit) M" where
  "os_put_two F i = thenE (if i < 10 then os_put ''0'' else ret ()) (os_put_num F 0 CHR '' '' i)"

section \<open>Units and the outputs the formatting uses\<close>

text \<open>The prefix of a period of \<open>n/d\<close> seconds, in lowest terms.\<close>

definition msl :: "nat \<Rightarrow> nat \<Rightarrow> string" where
  "msl n d = (if n = 1 \<and> d = 10 ^ 18 then ''a'' else if n = 1 \<and> d = 10 ^ 15 then ''f''
     else if n = 1 \<and> d = 10 ^ 12 then ''p'' else if n = 1 \<and> d = 10 ^ 9 then ''n''
     else if n = 1 \<and> d = 10 ^ 6 then [CHR 0xC2, CHR 0xB5] else if n = 1 \<and> d = 10 ^ 3 then ''m''
     else if n = 1 \<and> d = 10 ^ 2 then ''c'' else if n = 10 \<and> d = 1 then ''da''
     else if n = 1 \<and> d = 10 then ''d'' else if n = 10 ^ 2 \<and> d = 1 then ''h''
     else if n = 10 ^ 3 \<and> d = 1 then ''k'' else if n = 10 ^ 6 \<and> d = 1 then ''M''
     else if n = 10 ^ 9 \<and> d = 1 then ''G'' else if n = 10 ^ 12 \<and> d = 1 then ''T''
     else if n = 10 ^ 15 \<and> d = 1 then ''P'' else if n = 10 ^ 18 \<and> d = 1 then ''E''
     else if d \<noteq> 1 then ''['' @ to_string (int n) @ ''/'' @ to_string (int d) @ '']''
     else ''['' @ to_string (int n) @ '']'')"

definition get_units :: "nat \<Rightarrow> nat \<Rightarrow> string" where
  "get_units n d = (if n = 1 \<and> d = 1 then ''s'' else if n = 3600 \<and> d = 1 then ''h''
     else if n = 60 \<and> d = 1 then ''min'' else if n = 86400 \<and> d = 1 then ''d'' else msl n d @ ''s'')"

text \<open>\<^verbatim>\<open>operator<<\<close> of a year, of the seconds and of the time of day.\<close>

definition put_year_low :: "year \<Rightarrow> ('z ostream_scheme, unit) M" where
  "put_year_low y = os_put (pad_internal (4 + of_bool (year_int y < 0)) CHR ''0'' (year_int y))"

definition put_year :: "year \<Rightarrow> ('z ostream_scheme, unit) M" where
  "put_year y = thenE (put_year_low y) (if year_ok y then ret () else os_put '' is not a valid year'')"

definition put_dfs :: "locale_facets \<Rightarrow> nat \<Rightarrow> decimal_format_seconds \<Rightarrow> ('z ostream_scheme, unit) M" where
  "put_dfs F N x = thenE (os_put_num F 2 CHR ''0'' (dfs_s x))
     (if 0 < fractional_width N then thenE (os_put [decimal_point F])
        (os_put_classic (fractional_width N) CHR ''0'' (dfs_sub_s x)) else ret ())"

definition put_tod :: "locale_facets \<Rightarrow> nat \<Rightarrow> hh_mm_ss \<Rightarrow> ('z ostream_scheme, unit) M" where
  "put_tod F N x = thenE (if tod_neg x then os_put ''-'' else ret ())
     (thenE (os_put_two F (tod_h x)) (thenE (os_put '':'') (thenE (os_put_two F (tod_m x)) (thenE (os_put '':'') (put_dfs F N (tod_s x))))))"

section \<open>The fields of what is formatted\<close>

definition nanyear :: year where
  "nanyear = year_new (- 32768)"

record date_fields =
  fd_ymd :: year_month_day
  fd_wd :: weekday
  fd_tod :: hh_mm_ss
  fd_has_tod :: bool

definition date_fields_new :: "nat \<Rightarrow> date_fields" where
  "date_fields_new N = \<lparr>fd_ymd = ym_div_int (year_div_int nanyear 0) 0, fd_wd = weekday_new 8,
     fd_tod = hh_mm_ss_new N 0, fd_has_tod = False\<rparr>"

definition Sunday :: weekday where "Sunday = weekday_new 7"

definition Monday :: weekday where "Monday = weekday_new 1"

definition Thursday :: weekday where "Thursday = weekday_new 4"

definition January :: month where "January = month_new 1"

definition December :: month where "December = month_new 12"

definition extract_weekday :: "date_fields \<Rightarrow> ('z ostream_scheme, int) M" where
  "extract_weekday fds =
     (if \<not> ymd_ok (fd_ymd fds) \<and> \<not> weekday_ok (fd_wd fds) then thenE os_set_failbit (ret 8)
      else if ymd_ok (fd_ymd fds) then
        let wd = weekday_of_days (ymd_to_days (fd_ymd fds)) in
        if weekday_ok (fd_wd fds) \<and> weekday_ne wd (fd_wd fds) then thenE os_set_failbit (ret 8)
        else ret (weekday_diff wd Sunday)
      else ret (weekday_diff (fd_wd fds) Sunday))"

definition extract_month :: "date_fields \<Rightarrow> ('z ostream_scheme, int) M" where
  "extract_month fds = (let m = ymd_month (fd_ymd fds) in
     if month_ok m then ret (month_unsigned m) else thenE os_set_failbit (ret 0))"

section \<open>The loop over the format\<close>

text \<open>
  The variables of the loop. An operation gives whether the loop goes on: \<open>False\<close> stands for the \<^verbatim>\<open>return\<close> in
  the middle of it.
\<close>

record fmt_state = ostream +
  fs_command :: bool
  fs_modified :: "char option"
  fs_negative :: bool
  fs_tm :: tm

definition clear_command :: "('z fmt_state_scheme, unit) M" where
  "clear_command = modE (\<lambda>s. s\<lparr>fs_command := False, fs_modified := None\<rparr>)"

definition modified_text :: "char option \<Rightarrow> string" where
  "modified_text m = (case m of None \<Rightarrow> [] | Some e \<Rightarrow> [e])"

text \<open>\<^verbatim>\<open>os << '%' << modified << *fmt\<close>.\<close>

definition echo :: "char option \<Rightarrow> char \<Rightarrow> ('z ostream_scheme, unit) M" where
  "echo m c = os_put (CHR ''%'' # modified_text m @ [c])"

definition go_on :: "('s, unit) M \<Rightarrow> ('s, bool) M" where
  "go_on m = thenE m (ret True)"

definition unless_failed :: "('z ostream_scheme, unit) M \<Rightarrow> ('z ostream_scheme, bool) M" where
  "unless_failed m = bindE (getE os_fail) (\<lambda>f. if f then ret False else go_on m)"

text \<open>
  A conversion character outside of a command is copied; in a command it is echoed when the modifier does not
  apply to it, and the command ends.
\<close>

definition conversion :: "char \<Rightarrow> (char option \<Rightarrow> bool) \<Rightarrow> (char option \<Rightarrow> ('z fmt_state_scheme, bool) M) \<Rightarrow>
    ('z fmt_state_scheme, bool) M" where
  "conversion c applies body = bindE (getE fs_command) (\<lambda>command.
     if \<not> command then go_on (os_put [c])
     else bindE (getE fs_modified) (\<lambda>m.
       bindE (if applies m then body m else go_on (echo m c)) (\<lambda>b.
         if b then go_on clear_command else ret False)))"

definition plain_only :: "char option \<Rightarrow> bool" where
  "plain_only m \<longleftrightarrow> m = None"

definition not_O :: "char option \<Rightarrow> bool" where
  "not_O m \<longleftrightarrow> m \<noteq> Some CHR ''O''"

definition not_E :: "char option \<Rightarrow> bool" where
  "not_E m \<longleftrightarrow> m \<noteq> Some CHR ''E''"

definition set_tm :: "(tm \<Rightarrow> tm) \<Rightarrow> ('z fmt_state_scheme, unit) M" where
  "set_tm f = modE (fs_tm_update f)"

definition facet_put :: "locale_facets \<Rightarrow> string \<Rightarrow> ('z fmt_state_scheme, unit) M" where
  "facet_put F f = bindE (getE fs_tm) (\<lambda>t. os_put_facet (time_put F t f))"

section \<open>The conversions of dates\<close>

definition fmt_weekday_name :: "locale_facets \<Rightarrow> date_fields \<Rightarrow> char \<Rightarrow> ('z fmt_state_scheme, bool) M" where
  "fmt_weekday_name F fds c = conversion c plain_only (\<lambda>_. bindE (extract_weekday fds) (\<lambda>wd.
     thenE (set_tm (tm_wday_update (\<lambda>_. wd))) (unless_failed (facet_put F [CHR ''%'', c]))))"

definition fmt_month_name :: "locale_facets \<Rightarrow> date_fields \<Rightarrow> char \<Rightarrow> ('z fmt_state_scheme, bool) M" where
  "fmt_month_name F fds c = conversion c plain_only (\<lambda>_. bindE (extract_month fds) (\<lambda>m.
     go_on (thenE (set_tm (tm_mon_update (\<lambda>_. m - 1))) (facet_put F [CHR ''%'', c]))))"

text \<open>The day of the year, counted from zero.\<close>

definition days_since_new_year :: "year_month_day \<Rightarrow> int" where
  "days_since_new_year ymd = ymd_to_days ymd - ymd_to_days (ym_div_int (year_div_int (ymd_year ymd) 1) 1)"

definition set_time :: "hh_mm_ss \<Rightarrow> ('z fmt_state_scheme, unit) M" where
  "set_time tod = set_tm (\<lambda>t. t\<lparr>tm_sec := dfs_s (tod_s tod), tm_min := tod_m tod, tm_hour := tod_h tod\<rparr>)"

definition fmt_date_and_time :: "locale_facets \<Rightarrow> date_fields \<Rightarrow> char \<Rightarrow> ('z fmt_state_scheme, bool) M" where
  "fmt_date_and_time F fds c = conversion c not_O (\<lambda>modified. let ymd = fd_ymd fds in
     thenE (os_require (ymd_ok ymd)) (thenE (os_require (c = CHR ''c'' \<longrightarrow> fd_has_tod fds))
     (thenE (set_tm (\<lambda>_. tm_zero)) (thenE (if c = CHR ''c'' then set_time (fd_tod fds) else ret ())
     (thenE (set_tm (tm_mday_update (\<lambda>_. day_unsigned (ymd_day ymd))))
     (bindE (extract_month fds) (\<lambda>m. thenE (set_tm (tm_mon_update (\<lambda>_. s32 (u32 (m - 1)))))
     (thenE (set_tm (tm_year_update (\<lambda>_. year_int (ymd_year ymd) - 1900)))
     (bindE (extract_weekday fds) (\<lambda>wd. thenE (set_tm (tm_wday_update (\<lambda>_. wd)))
     (unless_failed (thenE (set_tm (tm_yday_update (\<lambda>_. days_since_new_year ymd)))
        (facet_put F (CHR ''%'' # modified_text modified @ [c]))))))))))))))"

definition fmt_century :: "locale_facets \<Rightarrow> date_fields \<Rightarrow> ('z fmt_state_scheme, bool) M" where
  "fmt_century F fds = conversion CHR ''C'' not_O (\<lambda>modified. let y = year_int (ymd_year (fd_ymd fds)) in
     go_on (thenE (os_require (year_ok (ymd_year (fd_ymd fds))))
       (if modified = None then
          if 0 \<le> y then os_put_num F 2 CHR ''0'' (cdiv y 100)
          else thenE (os_put ''-'') (os_put_num F 2 CHR ''0'' (cdiv (- (y - 99)) 100))
        else thenE (set_tm (tm_year_update (\<lambda>_. y - 1900))) (facet_put F ''%EC''))))"

definition fmt_day :: "locale_facets \<Rightarrow> date_fields \<Rightarrow> char \<Rightarrow> ('z fmt_state_scheme, bool) M" where
  "fmt_day F fds c = conversion c not_E (\<lambda>modified. let d = day_unsigned (ymd_day (fd_ymd fds)) in
     go_on (thenE (os_require (day_ok (ymd_day (fd_ymd fds))))
       (if modified = None then os_put_num F 2 (if c = CHR ''d'' then CHR ''0'' else CHR '' '') d
        else thenE (set_tm (tm_mday_update (\<lambda>_. d))) (facet_put F [CHR ''%'', CHR ''O'', c]))))"

text \<open>The remainder of C++, with the sign of the dividend.\<close>

definition crem :: "int \<Rightarrow> int \<Rightarrow> int" where
  "crem a b = a - cdiv a b * b"

definition fmt_short_date :: "locale_facets \<Rightarrow> date_fields \<Rightarrow> ('z fmt_state_scheme, bool) M" where
  "fmt_short_date F fds = conversion CHR ''D'' plain_only (\<lambda>_. let ymd = fd_ymd fds in
     go_on (thenE (os_require (ymd_ok ymd))
     (thenE (os_put_num F 2 CHR ''0'' (month_unsigned (ymd_month ymd))) (thenE (os_put ''/'')
     (thenE (os_put_num F 2 CHR ''0'' (day_unsigned (ymd_day ymd))) (thenE (os_put ''/'')
     (os_put_num F 2 CHR ''0'' (crem (year_int (ymd_year ymd)) 100))))))))"

definition fmt_iso_date :: "date_fields \<Rightarrow> ('z fmt_state_scheme, bool) M" where
  "fmt_iso_date fds = conversion CHR ''F'' plain_only (\<lambda>_. let ymd = fd_ymd fds in
     go_on (thenE (os_require (ymd_ok ymd))
     (thenE (os_put_classic 4 CHR ''0'' (year_int (ymd_year ymd))) (thenE (os_put ''-'')
     (thenE (os_put_classic 2 CHR ''0'' (month_unsigned (ymd_month ymd))) (thenE (os_put ''-'')
     (os_put_classic 2 CHR ''0'' (day_unsigned (ymd_day ymd)))))))))"

definition fmt_year :: "locale_facets \<Rightarrow> date_fields \<Rightarrow> ('z fmt_state_scheme, bool) M" where
  "fmt_year F fds = conversion CHR ''Y'' not_O (\<lambda>modified. let y = ymd_year (fd_ymd fds) in
     go_on (thenE (os_require (year_ok y))
       (if modified = None then put_year y
        else thenE (set_tm (tm_year_update (\<lambda>_. year_int y - 1900))) (facet_put F ''%EY''))))"

definition fmt_year_of_century :: "locale_facets \<Rightarrow> date_fields \<Rightarrow> ('z fmt_state_scheme, bool) M" where
  "fmt_year_of_century F fds = conversion CHR ''y'' (\<lambda>_. True) (\<lambda>modified. let y = year_int (ymd_year (fd_ymd fds)) in
     go_on (thenE (os_require (year_ok (ymd_year (fd_ymd fds))))
       (if modified = None then os_put_two F (crem \<bar>y\<bar> 100)
        else thenE (set_tm (tm_year_update (\<lambda>_. y - 1900))) (facet_put F (CHR ''%'' # modified_text modified @ ''y'')))))"

definition fmt_month :: "locale_facets \<Rightarrow> date_fields \<Rightarrow> ('z fmt_state_scheme, bool) M" where
  "fmt_month F fds = conversion CHR ''m'' not_E (\<lambda>modified. let m = month_unsigned (ymd_month (fd_ymd fds)) in
     go_on (thenE (os_require (month_ok (ymd_month (fd_ymd fds))))
       (if modified = None then os_put_two F m
        else thenE (set_tm (tm_mon_update (\<lambda>_. s32 (u32 (m - 1))))) (facet_put F ''%Om''))))"

definition fmt_day_of_year :: "locale_facets \<Rightarrow> nat \<Rightarrow> date_fields \<Rightarrow> ('z fmt_state_scheme, bool) M" where
  "fmt_day_of_year F N fds = conversion CHR ''j'' plain_only (\<lambda>_. go_on
     (if ymd_ok (fd_ymd fds) \<or> fd_has_tod fds then
        os_put_num F 3 CHR ''0'' (if ymd_ok (fd_ymd fds) then days_since_new_year (fd_ymd fds) + 1
          else cdiv (tod_to_duration N (fd_tod fds)) (86400 * precision N))
      else os_set_failbit))"

section \<open>The conversions of weeks and weekdays\<close>

text \<open>\<^verbatim>\<open>local_days((y - years{1}) / December / Thursday[last]) + (Monday - Thursday)\<close>, the first Monday of the ISO year.\<close>

definition iso_year_start :: "year \<Rightarrow> int" where
  "iso_year_start y = ymwl_to_days (ym_div_wdl (year_div_month (year_minus y 1) December) (weekday_at_last Thursday))
     + weekday_diff Monday Thursday"

definition iso_year :: "int \<Rightarrow> year" where
  "iso_year ld = (let y = ymd_year (ymd_from_days (ld + 3)) in if ld < iso_year_start y then year_dec y else y)"

definition fmt_iso_year :: "locale_facets \<Rightarrow> date_fields \<Rightarrow> char \<Rightarrow> ('z fmt_state_scheme, bool) M" where
  "fmt_iso_year F fds c = conversion c plain_only (\<lambda>_. let y = iso_year (ymd_to_days (fd_ymd fds)) in
     go_on (thenE (os_require (ymd_ok (fd_ymd fds)))
       (if c = CHR ''G'' then put_year y else os_put_num F 2 CHR ''0'' (crem \<bar>year_int y\<bar> 100))))"

definition fmt_iso_weekday :: "locale_facets \<Rightarrow> date_fields \<Rightarrow> ('z fmt_state_scheme, bool) M" where
  "fmt_iso_weekday F fds = conversion CHR ''u'' not_E (\<lambda>modified. bindE (extract_weekday fds) (\<lambda>wd.
     go_on (if modified = None then os_put_num F 0 CHR '' '' (if wd \<noteq> 0 then wd else 7)
       else thenE (set_tm (tm_wday_update (\<lambda>_. wd))) (facet_put F ''%Ou''))))"

definition fmt_weekday :: "locale_facets \<Rightarrow> date_fields \<Rightarrow> ('z fmt_state_scheme, bool) M" where
  "fmt_weekday F fds = (let c = CHR ''w'' in bindE (getE fs_command) (\<lambda>command.
     if \<not> command then go_on (os_put [c])
     else bindE (extract_weekday fds) (\<lambda>wd. bindE (getE os_fail) (\<lambda>f. if f then ret False else
       bindE (getE fs_modified) (\<lambda>modified. go_on (thenE
         (if modified = None then os_put_num F 0 CHR '' '' wd
          else if modified = Some CHR ''O'' then thenE (set_tm (tm_wday_update (\<lambda>_. wd))) (facet_put F ''%Ow'')
          else echo modified c)
         clear_command))))))"

text \<open>The number of a week under the modifier \<^verbatim>\<open>O\<close> is the facet's.\<close>

definition facet_week :: "locale_facets \<Rightarrow> date_fields \<Rightarrow> char \<Rightarrow> ('z fmt_state_scheme, bool) M" where
  "facet_week F fds c = thenE (set_tm (tm_year_update (\<lambda>_. year_int (ymd_year (fd_ymd fds)) - 1900)))
     (bindE (extract_weekday fds) (\<lambda>wd. thenE (set_tm (tm_wday_update (\<lambda>_. wd)))
     (unless_failed (thenE (set_tm (tm_yday_update (\<lambda>_. days_since_new_year (fd_ymd fds))))
       (facet_put F [CHR ''%'', CHR ''O'', c])))))"

text \<open>Weeks counted from a first day, zero before it.\<close>

definition put_week_from :: "locale_facets \<Rightarrow> int \<Rightarrow> int \<Rightarrow> ('z ostream_scheme, unit) M" where
  "put_week_from F ld st = (if ld < st then os_put ''00'' else os_put_two F (cdiv (ld - st) 7 + 1))"

definition sunday_start :: "year \<Rightarrow> int" where
  "sunday_start y = ymw_to_days (mwd_div_year (wdi_div_month (weekday_at Sunday 1) January) y)"

definition monday_start :: "year \<Rightarrow> int" where
  "monday_start y = ymw_to_days (mwd_div_year (wdi_div_month (weekday_at Monday 1) January) y)"

definition fmt_sunday_week :: "locale_facets \<Rightarrow> date_fields \<Rightarrow> ('z fmt_state_scheme, bool) M" where
  "fmt_sunday_week F fds = conversion CHR ''U'' not_E (\<lambda>modified. let ymd = fd_ymd fds in
     thenE (os_require (ymd_ok ymd))
       (if modified = None then go_on (put_week_from F (ymd_to_days ymd) (sunday_start (ymd_year ymd)))
        else facet_week F fds CHR ''U''))"

definition fmt_monday_week :: "locale_facets \<Rightarrow> date_fields \<Rightarrow> ('z fmt_state_scheme, bool) M" where
  "fmt_monday_week F fds = conversion CHR ''W'' not_E (\<lambda>modified. let ymd = fd_ymd fds in
     thenE (os_require (ymd_ok ymd))
       (if modified = None then go_on (put_week_from F (ymd_to_days ymd) (monday_start (ymd_year ymd)))
        else facet_week F fds CHR ''W''))"

definition iso_week :: "int \<Rightarrow> int" where
  "iso_week ld = (let y = ymd_year (ymd_from_days (ld + 3));
     st = iso_year_start y in
     cdiv (ld - (if ld < st then iso_year_start (year_dec y) else st)) 7 + 1)"

definition fmt_iso_week :: "locale_facets \<Rightarrow> date_fields \<Rightarrow> ('z fmt_state_scheme, bool) M" where
  "fmt_iso_week F fds = conversion CHR ''V'' not_E (\<lambda>modified. thenE (os_require (ymd_ok (fd_ymd fds)))
     (if modified = None then go_on (os_put_two F (iso_week (ymd_to_days (fd_ymd fds))))
      else facet_week F fds CHR ''V''))"

section \<open>The conversions of times\<close>

text \<open>The sign of a negative duration is written once, before the first of hours, minutes and seconds.\<close>

definition put_sign_once :: "('z fmt_state_scheme, unit) M" where
  "put_sign_once = bindE (getE fs_negative) (\<lambda>n.
     if n then thenE (os_put ''-'') (modE (fs_negative_update (\<lambda>_. False))) else ret ())"

definition fmt_hours :: "locale_facets \<Rightarrow> date_fields \<Rightarrow> char \<Rightarrow> ('z fmt_state_scheme, bool) M" where
  "fmt_hours F fds c = conversion c not_E (\<lambda>modified. let h = tod_h (fd_tod fds) in
     go_on (thenE (os_require (fd_has_tod fds)) (thenE put_sign_once
       (if modified = None then os_put_two F (if c = CHR ''I'' then make12 h else h)
        else thenE (set_tm (tm_hour_update (\<lambda>_. h))) (facet_put F [CHR ''%'', CHR ''O'', c])))))"

definition fmt_minutes :: "locale_facets \<Rightarrow> date_fields \<Rightarrow> ('z fmt_state_scheme, bool) M" where
  "fmt_minutes F fds = conversion CHR ''M'' not_E (\<lambda>modified. let m = tod_m (fd_tod fds) in
     go_on (thenE (os_require (fd_has_tod fds)) (thenE put_sign_once
       (if modified = None then os_put_two F m
        else thenE (set_tm (tm_min_update (\<lambda>_. m))) (facet_put F ''%OM'')))))"

definition fmt_seconds :: "locale_facets \<Rightarrow> nat \<Rightarrow> date_fields \<Rightarrow> ('z fmt_state_scheme, bool) M" where
  "fmt_seconds F N fds = conversion CHR ''S'' not_E (\<lambda>modified. let s = tod_s (fd_tod fds) in
     go_on (thenE (os_require (fd_has_tod fds)) (thenE put_sign_once
       (if modified = None then put_dfs F N s
        else thenE (set_tm (tm_sec_update (\<lambda>_. dfs_s s))) (facet_put F ''%OS'')))))"

definition fmt_am_pm :: "locale_facets \<Rightarrow> date_fields \<Rightarrow> ('z fmt_state_scheme, bool) M" where
  "fmt_am_pm F fds = conversion CHR ''p'' plain_only (\<lambda>_. go_on (thenE (os_require (fd_has_tod fds))
     (thenE (set_tm (tm_hour_update (\<lambda>_. tod_h (fd_tod fds)))) (facet_put F ''%p''))))"

definition fmt_count :: "locale_facets \<Rightarrow> nat \<Rightarrow> date_fields \<Rightarrow> char \<Rightarrow> ('z fmt_state_scheme, bool) M" where
  "fmt_count F N fds c = conversion c plain_only (\<lambda>_. go_on (thenE (os_require (fd_has_tod fds))
     (if c = CHR ''q'' then os_put (get_units 1 (nat (precision N)))
      else os_put_num F 0 CHR '' '' (tod_to_duration N (fd_tod fds)))))"

definition fmt_time_12 :: "locale_facets \<Rightarrow> date_fields \<Rightarrow> ('z fmt_state_scheme, bool) M" where
  "fmt_time_12 F fds = conversion CHR ''r'' plain_only (\<lambda>_. go_on (thenE (os_require (fd_has_tod fds))
     (thenE (set_time (fd_tod fds)) (facet_put F ''%r''))))"

definition fmt_hours_minutes :: "locale_facets \<Rightarrow> date_fields \<Rightarrow> ('z fmt_state_scheme, bool) M" where
  "fmt_hours_minutes F fds = conversion CHR ''R'' plain_only (\<lambda>_. go_on (thenE (os_require (fd_has_tod fds))
     (thenE (os_put_two F (tod_h (fd_tod fds))) (thenE (os_put '':'') (os_put_two F (tod_m (fd_tod fds)))))))"

definition fmt_time :: "locale_facets \<Rightarrow> nat \<Rightarrow> date_fields \<Rightarrow> ('z fmt_state_scheme, bool) M" where
  "fmt_time F N fds = conversion CHR ''T'' plain_only (\<lambda>_. go_on (thenE (os_require (fd_has_tod fds))
     (put_tod F N (fd_tod fds))))"

definition fmt_locale_time :: "locale_facets \<Rightarrow> date_fields \<Rightarrow> ('z fmt_state_scheme, bool) M" where
  "fmt_locale_time F fds = conversion CHR ''X'' not_O (\<lambda>modified. go_on (thenE (os_require (fd_has_tod fds))
     (thenE (set_tm (\<lambda>_. tm_zero)) (thenE (set_time (fd_tod fds)) (facet_put F (CHR ''%'' # modified_text modified @ ''X''))))))"

section \<open>The other conversions\<close>

definition fmt_newline :: "('z fmt_state_scheme, bool) M" where
  "fmt_newline = conversion CHR ''n'' plain_only (\<lambda>_. go_on (os_put [CHR 0x0A]))"

definition fmt_tab :: "('z fmt_state_scheme, bool) M" where
  "fmt_tab = conversion CHR ''t'' plain_only (\<lambda>_. go_on (os_put [CHR 0x09]))"

definition fmt_offset :: "locale_facets \<Rightarrow> int option \<Rightarrow> ('z fmt_state_scheme, bool) M" where
  "fmt_offset F offset_sec = conversion CHR ''z'' (\<lambda>_. True) (\<lambda>modified. case offset_sec of
     None \<Rightarrow> thenE os_set_failbit (ret False)
   | Some off \<Rightarrow> let m0 = cdiv off 60; m1 = \<bar>m0\<bar>; h = cdiv m1 60; m = m1 - h * 60 in
       go_on (thenE (os_put (if m0 < 0 then ''-'' else ''+'')) (thenE (os_put_two F h)
         (thenE (if modified \<noteq> None then os_put '':'' else ret ()) (os_put_two F m)))))"

definition fmt_abbreviation :: "string option \<Rightarrow> ('z fmt_state_scheme, bool) M" where
  "fmt_abbreviation abbrev = conversion CHR ''Z'' plain_only (\<lambda>_. case abbrev of
     None \<Rightarrow> thenE os_set_failbit (ret False) | Some a \<Rightarrow> go_on (os_put a))"

definition fmt_modifier :: "char \<Rightarrow> ('z fmt_state_scheme, bool) M" where
  "fmt_modifier c = bindE (getE fs_command) (\<lambda>command. bindE (getE fs_modified) (\<lambda>modified. go_on
     (if \<not> command then os_put [c]
      else if modified = None then modE (fs_modified_update (\<lambda>_. Some c))
      else thenE (echo modified c) clear_command)))"

definition fmt_percent :: "('z fmt_state_scheme, bool) M" where
  "fmt_percent = bindE (getE fs_command) (\<lambda>command. bindE (getE fs_modified) (\<lambda>modified. go_on
     (if \<not> command then modE (fs_command_update (\<lambda>_. True))
      else thenE (if modified = None then os_put ''%'' else echo modified CHR ''%'') clear_command)))"

definition fmt_other :: "char \<Rightarrow> ('z fmt_state_scheme, bool) M" where
  "fmt_other c = bindE (getE fs_command) (\<lambda>command. bindE (getE fs_modified) (\<lambda>modified. go_on
     (thenE (if command then os_put ''%'' else ret ()) (thenE (os_put (modified_text modified))
     (thenE clear_command (os_put [c]))))))"

section \<open>The loop and the overloads\<close>

definition fmt_step :: "locale_facets \<Rightarrow> nat \<Rightarrow> date_fields \<Rightarrow> string option \<Rightarrow> int option \<Rightarrow> char \<Rightarrow>
    ('z fmt_state_scheme, bool) M" where
  "fmt_step F N fds abbrev offset_sec c =
    (if c \<in> {CHR ''a'', CHR ''A''} then fmt_weekday_name F fds c
     else if c \<in> {CHR ''b'', CHR ''B'', CHR ''h''} then fmt_month_name F fds c
     else if c \<in> {CHR ''c'', CHR ''x''} then fmt_date_and_time F fds c
     else if c = CHR ''C'' then fmt_century F fds
     else if c \<in> {CHR ''d'', CHR ''e''} then fmt_day F fds c
     else if c = CHR ''D'' then fmt_short_date F fds
     else if c = CHR ''F'' then fmt_iso_date fds
     else if c \<in> {CHR ''g'', CHR ''G''} then fmt_iso_year F fds c
     else if c \<in> {CHR ''H'', CHR ''I''} then fmt_hours F fds c
     else if c = CHR ''j'' then fmt_day_of_year F N fds
     else if c = CHR ''m'' then fmt_month F fds
     else if c = CHR ''M'' then fmt_minutes F fds
     else if c = CHR ''n'' then fmt_newline
     else if c = CHR ''p'' then fmt_am_pm F fds
     else if c \<in> {CHR ''Q'', CHR ''q''} then fmt_count F N fds c
     else if c = CHR ''r'' then fmt_time_12 F fds
     else if c = CHR ''R'' then fmt_hours_minutes F fds
     else if c = CHR ''S'' then fmt_seconds F N fds
     else if c = CHR ''t'' then fmt_tab
     else if c = CHR ''T'' then fmt_time F N fds
     else if c = CHR ''u'' then fmt_iso_weekday F fds
     else if c = CHR ''U'' then fmt_sunday_week F fds
     else if c = CHR ''V'' then fmt_iso_week F fds
     else if c = CHR ''w'' then fmt_weekday F fds
     else if c = CHR ''W'' then fmt_monday_week F fds
     else if c = CHR ''X'' then fmt_locale_time F fds
     else if c = CHR ''y'' then fmt_year_of_century F fds
     else if c = CHR ''Y'' then fmt_year F fds
     else if c = CHR ''z'' then fmt_offset F offset_sec
     else if c = CHR ''Z'' then fmt_abbreviation abbrev
     else if c \<in> {CHR ''E'', CHR ''O''} then fmt_modifier c
     else if c = CHR ''%'' then fmt_percent
     else fmt_other c)"

primrec fmt_loop :: "(char \<Rightarrow> ('z fmt_state_scheme, bool) M) \<Rightarrow> string \<Rightarrow> ('z fmt_state_scheme, unit) M" where
  "fmt_loop step [] = thenE (bindE (getE fs_command) (\<lambda>command. if command then os_put ''%'' else ret ()))
     (bindE (getE fs_modified) (\<lambda>modified. os_put (modified_text modified)))"
| "fmt_loop step (c # cs) = bindE (step c) (\<lambda>b. if b then fmt_loop step cs else ret ())"

definition to_stream :: "locale_facets \<Rightarrow> nat \<Rightarrow> string \<Rightarrow> date_fields \<Rightarrow> string option \<Rightarrow> int option \<Rightarrow> (ostream, unit) M" where
  "to_stream F N fmt fds abbrev offset_sec = zoomE
     (\<lambda>os. ostream.extend os \<lparr>fs_command = False, fs_modified = None,
        fs_negative = (fd_has_tod fds \<and> tod_to_duration N (fd_tod fds) < 0), fs_tm = tm_zero\<rparr>)
     (\<lambda>s _. ostream.truncate s)
     (fmt_loop (fmt_step F N fds abbrev offset_sec) (c_str fmt))"

definition fields_of_ymd :: "nat \<Rightarrow> year_month_day \<Rightarrow> date_fields" where
  "fields_of_ymd N ymd = (date_fields_new N)\<lparr>fd_ymd := ymd\<rparr>"

definition fields_of_ymd_tod :: "nat \<Rightarrow> year_month_day \<Rightarrow> hh_mm_ss \<Rightarrow> date_fields" where
  "fields_of_ymd_tod N ymd tod = (date_fields_new N)\<lparr>fd_ymd := ymd, fd_tod := tod, fd_has_tod := True\<rparr>"

definition to_stream_year :: "locale_facets \<Rightarrow> string \<Rightarrow> year \<Rightarrow> (ostream, unit) M" where
  "to_stream_year F fmt y = to_stream F 1 fmt (fields_of_ymd 1 (ym_div_int (year_div_int y 0) 0)) None None"

definition to_stream_month :: "locale_facets \<Rightarrow> string \<Rightarrow> month \<Rightarrow> (ostream, unit) M" where
  "to_stream_month F fmt m = to_stream F 1 fmt (fields_of_ymd 1 (md_div_year (month_div_int m 0) nanyear)) None None"

definition to_stream_day :: "locale_facets \<Rightarrow> string \<Rightarrow> day \<Rightarrow> (ostream, unit) M" where
  "to_stream_day F fmt d = to_stream F 1 fmt (fields_of_ymd 1 (md_div_year (day_div_int d 0) nanyear)) None None"

definition to_stream_weekday :: "locale_facets \<Rightarrow> string \<Rightarrow> weekday \<Rightarrow> (ostream, unit) M" where
  "to_stream_weekday F fmt wd = to_stream F 1 fmt ((date_fields_new 1)\<lparr>fd_wd := wd\<rparr>) None None"

definition to_stream_year_month :: "locale_facets \<Rightarrow> string \<Rightarrow> year_month \<Rightarrow> (ostream, unit) M" where
  "to_stream_year_month F fmt ym = to_stream F 1 fmt (fields_of_ymd 1 (ym_div_int ym 0)) None None"

definition to_stream_month_day :: "locale_facets \<Rightarrow> string \<Rightarrow> month_day \<Rightarrow> (ostream, unit) M" where
  "to_stream_month_day F fmt md = to_stream F 1 fmt (fields_of_ymd 1 (md_div_year md nanyear)) None None"

definition to_stream_ymd :: "locale_facets \<Rightarrow> string \<Rightarrow> year_month_day \<Rightarrow> (ostream, unit) M" where
  "to_stream_ymd F fmt ymd = to_stream F 1 fmt (fields_of_ymd 1 ymd) None None"

definition to_stream_duration :: "locale_facets \<Rightarrow> nat \<Rightarrow> string \<Rightarrow> int \<Rightarrow> (ostream, unit) M" where
  "to_stream_duration F N fmt d =
     to_stream F N fmt ((date_fields_new N)\<lparr>fd_tod := hh_mm_ss_new N d, fd_has_tod := True\<rparr>) None None"

text \<open>
  The count of a time point or duration has 64 bits, the count of days is an \<^verbatim>\<open>int\<close>: a count that does not fit has
  no meaning.
\<close>

definition rep64 :: "int \<Rightarrow> exn + int" where
  "rep64 c = (if - (2 ^ 63) \<le> c \<and> c < 2 ^ 63 then Inr c else Inl Undefined_behaviour)"

text \<open>
  A time point as a date and a time of day: the day is rounded towards zero and then down. A day is converted to
  the ticks of the time point to be compared with it and taken off, and before the epoch so is the one day
  from which the rest is taken off.
\<close>

definition fields_of_time :: "nat \<Rightarrow> int \<Rightarrow> exn + date_fields" where
  "fields_of_time N tp = (let D = 86400 * int N; ld = s32 (cdiv tp D) in
     bindR (rep64 (ld * D)) (\<lambda>day.
     if day \<le> tp then
       bindR (rep64 (tp - day)) (\<lambda>r. Inr (fields_of_ymd_tod N (ymd_from_days ld) (hh_mm_ss_new N r)))
     else
       bindR (rep64 D) (\<lambda>one_day.
       bindR (rep64 (day - tp)) (\<lambda>rest.
       bindR (rep64 (one_day - rest)) (\<lambda>r.
       Inr (fields_of_ymd_tod N (ymd_from_days (ld - 1)) (hh_mm_ss_new N r)))))))"

definition to_stream_local :: "locale_facets \<Rightarrow> nat \<Rightarrow> string \<Rightarrow> int \<Rightarrow> string option \<Rightarrow> int option \<Rightarrow> (ostream, unit) M" where
  "to_stream_local F N fmt tp abbrev offset_sec =
     bindE (liftR (fields_of_time N tp)) (\<lambda>fds. to_stream F N fmt fds abbrev offset_sec)"

definition to_stream_sys :: "locale_facets \<Rightarrow> nat \<Rightarrow> string \<Rightarrow> int \<Rightarrow> (ostream, unit) M" where
  "to_stream_sys F N fmt tp =
     bindE (liftR (fields_of_time N tp)) (\<lambda>fds. to_stream F N fmt fds (Some ''UTC'') (Some 0))"

text \<open>\<^verbatim>\<open>format\<close> with the overload that fits its argument: a new stream that throws when it fails.\<close>

definition date_format :: "(ostream, unit) M \<Rightarrow> exn + string" where
  "date_format to_str = (case to_str \<lparr>os_text = [], os_fail = False, os_throws = True\<rparr> of
     (Inl e, _) \<Rightarrow> Inl e | (Inr _, os) \<Rightarrow> Inr (os_text os))"

section \<open>The stream operators\<close>

text \<open>What every operator appends to a value that is not valid.\<close>

definition put_checked :: "bool \<Rightarrow> string \<Rightarrow> (ostream, unit) M \<Rightarrow> (ostream, unit) M" where
  "put_checked ok name m = thenE m (if ok then ret () else os_put ('' is not a valid '' @ name))"

definition put_day_low :: "locale_facets \<Rightarrow> day \<Rightarrow> (ostream, unit) M" where
  "put_day_low F d = os_put_num F 2 CHR ''0'' (day_unsigned d)"

definition put_day :: "locale_facets \<Rightarrow> day \<Rightarrow> (ostream, unit) M" where
  "put_day F d = put_checked (day_ok d) ''day'' (put_day_low F d)"

definition put_month_low :: "locale_facets \<Rightarrow> month \<Rightarrow> (ostream, unit) M" where
  "put_month_low F m = (if month_ok m then bindE (liftR (date_format (to_stream_month F ''%b'' m))) os_put
     else os_put_num F 0 CHR '' '' (month_unsigned m))"

definition put_month :: "locale_facets \<Rightarrow> month \<Rightarrow> (ostream, unit) M" where
  "put_month F m = put_checked (month_ok m) ''month'' (put_month_low F m)"

text \<open>The name of a weekday is formatted in the global locale \<open>G\<close>.\<close>

definition put_weekday_low :: "locale_facets \<Rightarrow> locale_facets \<Rightarrow> weekday \<Rightarrow> (ostream, unit) M" where
  "put_weekday_low G F wd = (if weekday_ok wd then bindE (liftR (date_format (to_stream_weekday G ''%a'' wd))) os_put
     else os_put_num F 0 CHR '' '' (c_encoding wd))"

definition put_weekday :: "locale_facets \<Rightarrow> locale_facets \<Rightarrow> weekday \<Rightarrow> (ostream, unit) M" where
  "put_weekday G F wd = put_checked (weekday_ok wd) ''weekday'' (put_weekday_low G F wd)"

definition put_wdi_low :: "locale_facets \<Rightarrow> locale_facets \<Rightarrow> weekday_indexed \<Rightarrow> (ostream, unit) M" where
  "put_wdi_low G F wdi = thenE (put_weekday_low G F (wdi_weekday wdi)) (thenE (os_put ''['')
     (thenE (os_put_num F 0 CHR '' '' (wdi_index wdi)) (os_put '']'')))"

definition put_wdi :: "locale_facets \<Rightarrow> locale_facets \<Rightarrow> weekday_indexed \<Rightarrow> (ostream, unit) M" where
  "put_wdi G F wdi = put_checked (weekday_indexed_ok wdi) ''weekday_indexed'' (put_wdi_low G F wdi)"

definition put_wdl_low :: "locale_facets \<Rightarrow> locale_facets \<Rightarrow> weekday_last \<Rightarrow> (ostream, unit) M" where
  "put_wdl_low G F wdl = thenE (put_weekday_low G F (wdl_weekday wdl)) (os_put ''[last]'')"

definition put_wdl :: "locale_facets \<Rightarrow> locale_facets \<Rightarrow> weekday_last \<Rightarrow> (ostream, unit) M" where
  "put_wdl G F wdl = put_checked (weekday_last_ok wdl) ''weekday_last'' (put_wdl_low G F wdl)"

definition put_year_month_low :: "locale_facets \<Rightarrow> year_month \<Rightarrow> (ostream, unit) M" where
  "put_year_month_low F ym = thenE (put_year_low (ym_year ym)) (thenE (os_put ''/'') (put_month_low F (ym_month ym)))"

definition put_year_month :: "locale_facets \<Rightarrow> year_month \<Rightarrow> (ostream, unit) M" where
  "put_year_month F ym = put_checked (year_month_ok ym) ''year_month'' (put_year_month_low F ym)"

definition put_month_day_low :: "locale_facets \<Rightarrow> month_day \<Rightarrow> (ostream, unit) M" where
  "put_month_day_low F md = thenE (put_month_low F (md_month md)) (thenE (os_put ''/'') (put_day_low F (md_day md)))"

definition put_month_day :: "locale_facets \<Rightarrow> month_day \<Rightarrow> (ostream, unit) M" where
  "put_month_day F md = put_checked (month_day_ok md) ''month_day'' (put_month_day_low F md)"

definition put_mdl_low :: "locale_facets \<Rightarrow> month_day_last \<Rightarrow> (ostream, unit) M" where
  "put_mdl_low F mdl = thenE (put_month_low F (mdl_month mdl)) (os_put ''/last'')"

definition put_mdl :: "locale_facets \<Rightarrow> month_day_last \<Rightarrow> (ostream, unit) M" where
  "put_mdl F mdl = put_checked (month_day_last_ok mdl) ''month_day_last'' (put_mdl_low F mdl)"

definition put_mwd_low :: "locale_facets \<Rightarrow> locale_facets \<Rightarrow> month_weekday \<Rightarrow> (ostream, unit) M" where
  "put_mwd_low G F mwd = thenE (put_month_low F (mwd_month mwd)) (thenE (os_put ''/'') (put_wdi_low G F (mwd_weekday_indexed mwd)))"

definition put_mwd :: "locale_facets \<Rightarrow> locale_facets \<Rightarrow> month_weekday \<Rightarrow> (ostream, unit) M" where
  "put_mwd G F mwd = put_checked (month_weekday_ok mwd) ''month_weekday'' (put_mwd_low G F mwd)"

definition put_mwdl_low :: "locale_facets \<Rightarrow> locale_facets \<Rightarrow> month_weekday_last \<Rightarrow> (ostream, unit) M" where
  "put_mwdl_low G F mwdl = thenE (put_month_low F (mwdl_month mwdl)) (thenE (os_put ''/'') (put_wdl_low G F (mwdl_weekday_last mwdl)))"

definition put_mwdl :: "locale_facets \<Rightarrow> locale_facets \<Rightarrow> month_weekday_last \<Rightarrow> (ostream, unit) M" where
  "put_mwdl G F mwdl = put_checked (month_weekday_last_ok mwdl) ''month_weekday_last'' (put_mwdl_low G F mwdl)"

definition put_ymdl_low :: "locale_facets \<Rightarrow> year_month_day_last \<Rightarrow> (ostream, unit) M" where
  "put_ymdl_low F x = thenE (put_year_low (ymdl_year x)) (thenE (os_put ''/'') (put_mdl_low F (ymdl_mdl x)))"

definition put_ymdl :: "locale_facets \<Rightarrow> year_month_day_last \<Rightarrow> (ostream, unit) M" where
  "put_ymdl F x = put_checked (ymdl_ok x) ''year_month_day_last'' (put_ymdl_low F x)"

text \<open>The year of a date is written without a width here.\<close>

definition put_ymd :: "year_month_day \<Rightarrow> (ostream, unit) M" where
  "put_ymd x = put_checked (ymd_ok x) ''year_month_day''
     (thenE (os_put_classic 0 CHR ''0'' (year_int (ymd_year x))) (thenE (os_put ''-'')
     (thenE (os_put_classic 2 CHR ''0'' (month_unsigned (ymd_month x))) (thenE (os_put ''-'')
     (os_put_classic 2 CHR ''0'' (day_unsigned (ymd_day x)))))))"

definition put_ymw :: "locale_facets \<Rightarrow> locale_facets \<Rightarrow> year_month_weekday \<Rightarrow> (ostream, unit) M" where
  "put_ymw G F x = put_checked (ymw_ok x) ''year_month_weekday'' (thenE (put_year_low (ymw_year x)) (thenE (os_put ''/'')
     (thenE (put_month_low F (ymw_month x)) (thenE (os_put ''/'') (put_wdi_low G F (ymw_wdi x))))))"

definition put_ymwl :: "locale_facets \<Rightarrow> locale_facets \<Rightarrow> year_month_weekday_last \<Rightarrow> (ostream, unit) M" where
  "put_ymwl G F x = put_checked (ymwl_ok x) ''year_month_weekday_last'' (thenE (put_year_low (ymwl_year x)) (thenE (os_put ''/'')
     (thenE (put_month_low F (ymwl_month x)) (thenE (os_put ''/'') (put_wdl_low G F (ymwl_wdl x))))))"

definition put_sys_days :: "int \<Rightarrow> (ostream, unit) M" where
  "put_sys_days dp = put_ymd (ymd_from_days dp)"

definition put_sys_time :: "locale_facets \<Rightarrow> nat \<Rightarrow> int \<Rightarrow> (ostream, unit) M" where
  "put_sys_time F N tp = (let D = 86400 * int N; dp = tp div D in
     thenE (put_ymd (ymd_from_days dp)) (thenE (os_put '' '') (put_tod F N (hh_mm_ss_new N (tp - dp * D)))))"

definition put_local_time :: "locale_facets \<Rightarrow> nat \<Rightarrow> int \<Rightarrow> (ostream, unit) M" where
  "put_local_time F N ut = put_sys_time F N ut"

text \<open>A duration of \<open>count\<close> periods of \<open>n/d\<close> seconds.\<close>

definition put_duration :: "nat \<Rightarrow> nat \<Rightarrow> int \<Rightarrow> (ostream, unit) M" where
  "put_duration n d count = os_put (to_string count @ get_units n d)"

section \<open>The locale of C\<close>

text \<open>The names and forms of the classic locale, as far as the conversions above use them.\<close>

definition weekday_names :: "string list" where
  "weekday_names = [''Sunday'', ''Monday'', ''Tuesday'', ''Wednesday'', ''Thursday'', ''Friday'', ''Saturday'']"

definition month_names :: "string list" where
  "month_names = [''January'', ''February'', ''March'', ''April'', ''May'', ''June'', ''July'', ''August'',
     ''September'', ''October'', ''November'', ''December'']"

definition classic_put :: "tm \<Rightarrow> string \<Rightarrow> string" where
  "classic_put t f =
    (if f = ''%A'' then weekday_names ! nat (tm_wday t) else if f = ''%a'' then take 3 (weekday_names ! nat (tm_wday t))
     else if f = ''%B'' then month_names ! nat (tm_mon t)
     else if f \<in> {''%b'', ''%h''} then take 3 (month_names ! nat (tm_mon t))
     else if f = ''%p'' then if is_am (tm_hour t) then ''AM'' else ''PM''
     else [])"

definition classic_locale :: locale_facets where
  "classic_locale = \<lparr>time_put = classic_put, num_put = to_string, decimal_point = CHR ''.''\<rparr>"

end
