(* ===== verification/Long_Double.thy ===== *)
theory Long_Double
  imports Complex_Main "HOL-Library.Log_Nat"
begin

text \<open>
  The \<^verbatim>\<open>long double\<close> of the x86-64 platform the server is built for, as far as \<^verbatim>\<open>src/utils/date.hpp\<close> computes with it:
  its numbers are rational numbers with a significand of 64 bits, and the result of an operation is the exact
  one rounded to the nearest such number, to the even one of two (\<open>fl\<close>). The exponent is unbounded: numbers
  beyond about \<open>10 ^ 4932\<close> and below its inverse do not occur. The lemmas bound the error of a rounding.
\<close>

section \<open>Rounding to whole numbers\<close>

definition round_even :: "rat \<Rightarrow> int" where
  "round_even x = (let t0 = \<lfloor>x\<rfloor>; diff0 = x - of_int t0; diff1 = of_int (t0 + 1) - x in
     if diff0 = diff1 then if even t0 then t0 else t0 + 1 else if diff0 < diff1 then t0 else t0 + 1)"

lemma round_even_half: "\<bar>of_int (round_even x) - x\<bar> \<le> 1 / 2"
proof -
  have "of_int \<lfloor>x\<rfloor> \<le> x" "x < of_int \<lfloor>x\<rfloor> + 1" using floor_correct [of x] by simp_all
  then show ?thesis by (auto simp: round_even_def Let_def abs_le_iff field_simps)
qed

lemma round_even_int [simp]: "round_even (of_int n) = n"
  by (simp add: round_even_def)

section \<open>Rounding to 64 bits\<close>

text \<open>The exponent \<open>e\<close> of a positive number with \<open>2 ^ e \<le> x < 2 ^ (e + 1)\<close>.\<close>

definition exponent2 :: "rat \<Rightarrow> int" where
  "exponent2 x = (case quotient_of x of (n, d) \<Rightarrow>
     let e = bitlen n - bitlen d in if 2 powi e \<le> x then e else e - 1)"

definition fl :: "rat \<Rightarrow> rat" where
  "fl x = (if x = 0 then 0 else let u = 2 powi (exponent2 \<bar>x\<bar> - 63) in of_int (round_even (x / u)) * u)"

lemma exponent2:
  assumes "0 < x"
  shows "2 powi exponent2 x \<le> x" "x < 2 powi (exponent2 x + 1)"
proof -
  obtain n d where q: "quotient_of x = (n, d)" by fastforce
  have x: "x = of_int n / of_int d" and d: "0 < d" using quotient_of_div [OF q] quotient_of_denom_pos [OF q] by simp_all
  then have n: "0 < n" using assms by (simp add: zero_less_divide_iff)
  define a b where "a = bitlen n" and "b = bitlen d"
  have pow: "(2 :: rat) ^ nat m = 2 powi m" if "0 \<le> m" for m using that by (simp add: power_int_def)
  have ab: "1 \<le> a" "1 \<le> b" using n d by (auto simp: a_def b_def bitlen_alt_def)
  have "(of_int (2 ^ nat (a - 1)) :: rat) \<le> of_int n" "(of_int n :: rat) < of_int (2 ^ nat a)"
    "(of_int (2 ^ nat (b - 1)) :: rat) \<le> of_int d" "(of_int d :: rat) < of_int (2 ^ nat b)"
    unfolding of_int_le_iff of_int_less_iff using bitlen_bounds [OF n] bitlen_bounds [OF d] by (simp_all add: a_def b_def)
  then have nd: "2 powi (a - 1) \<le> (of_int n :: rat)" "(of_int n :: rat) < 2 powi a"
    "2 powi (b - 1) \<le> (of_int d :: rat)" "(of_int d :: rat) < 2 powi b"
    using ab by (simp_all add: pow)
  have p: "(0 :: rat) < 2 powi m" for m by simp
  have "2 powi (a - b - 1) = 2 powi (a - 1) / (2 powi b :: rat)" "2 powi (a - b + 1) = 2 powi a / (2 powi (b - 1) :: rat)"
    by (simp_all add: algebra_simps flip: power_int_diff)
  moreover have "2 powi (a - 1) / 2 powi b \<le> x" unfolding x using nd d n p by (intro frac_le) simp_all
  moreover have "x < 2 powi a / 2 powi (b - 1)" unfolding x using nd d n p by (intro frac_less) simp_all
  ultimately have "2 powi (a - b - 1) \<le> x" "x < 2 powi (a - b + 1)" by simp_all
  then show "2 powi exponent2 x \<le> x" "x < 2 powi (exponent2 x + 1)"
    by (auto simp: exponent2_def q Let_def a_def b_def)
qed

text \<open>The relative error of a rounding.\<close>

lemma fl_error: "\<bar>fl x - x\<bar> * 2 ^ 64 \<le> \<bar>x\<bar>"
proof (cases "x = 0")
  case False
  define e where "e = exponent2 \<bar>x\<bar>"
  define u :: rat where "u = 2 powi (e - 63)"
  have u: "0 < u" "u * 2 ^ 63 \<le> \<bar>x\<bar>"
    using exponent2(1) [of "\<bar>x\<bar>"] False by (simp_all add: u_def e_def power_int_diff)
  have "fl x - x = (of_int (round_even (x / u)) - x / u) * u" using False u(1)
    by (simp add: fl_def Let_def u_def e_def algebra_simps)
  then have "\<bar>fl x - x\<bar> = \<bar>of_int (round_even (x / u)) - x / u\<bar> * u" using u(1) by (simp add: abs_mult)
  also have "\<dots> \<le> 1 / 2 * u" using round_even_half u(1) by (intro mult_right_mono) simp_all
  finally show ?thesis using u(2) by simp
qed (simp add: fl_def)

text \<open>Whole numbers of 64 bits are exact.\<close>

lemma fl_whole:
  assumes "0 \<le> n" "n < 2 ^ 64"
  shows "fl (of_int n) = of_int n"
proof (cases "n = 0")
  case False
  define e where "e = exponent2 (of_int n)"
  have n: "0 < n" using False assms(1) by simp
  have "2 powi e \<le> (of_int n :: rat)" using exponent2(1) [of "of_int n"] n by (simp add: e_def)
  also have "of_int n < (of_int (2 ^ 64) :: rat)" unfolding of_int_less_iff by (rule assms(2))
  also have "of_int (2 ^ 64) = (2 powi 64 :: rat)" by simp
  finally have "2 powi e < (2 powi 64 :: rat)" .
  then have e: "e < 64" using power_int_increasing [of 64 e "2 :: rat"] by (meson not_less one_le_numeral)
  define m where "m = nat (63 - e)"
  have u: "2 powi (e - 63) = 1 / (2 ^ m :: rat)"
    using e by (simp add: m_def power_int_def field_simps)
  have "of_int n / (1 / 2 ^ m) = (of_int (n * 2 ^ m) :: rat)" by simp
  then have "round_even (of_int n / 2 powi (e - 63)) = n * 2 ^ m" unfolding u by (simp only: round_even_int)
  then show ?thesis using False n u by (simp add: fl_def Let_def flip: e_def)
qed (simp add: fl_def)

section \<open>Seconds with decimals\<close>

text \<open>
  The number that the digits \<open>i\<close> before and the \<open>k\<close> digits \<open>f\<close> after the decimal point stand for, as
  \<^verbatim>\<open>read_long_double\<close> computes it; \<^verbatim>\<open>std::pow\<close> of 10 is taken to be the nearest number.
\<close>

definition decimal_value :: "int \<Rightarrow> int \<Rightarrow> nat \<Rightarrow> rat" where
  "decimal_value i f k = fl (fl (of_int i) + fl (fl (of_int f) / fl (10 ^ k)))"

text \<open>
  \<^verbatim>\<open>std::chrono::round\<close> of a \<^verbatim>\<open>duration<long double>\<close> of seconds to the \<open>N\<close>th parts of a second: the count is
  converted first, and the whole number below is compared with the next one.
\<close>

definition round_seconds :: "nat \<Rightarrow> rat \<Rightarrow> int" where
  "round_seconds N S = (let d = fl (S * of_nat N); t0 = \<lfloor>d\<rfloor>; t1 = t0 + 1;
     diff0 = fl (d - of_int t0); diff1 = fl (of_int t1 - d) in
     if diff0 = diff1 then if even t0 then t0 else t1 else if diff0 < diff1 then t0 else t1)"

lemma fl_between:
  assumes "0 \<le> x"
  shows "x * (1 - 1 / 2 ^ 64) \<le> fl x" "fl x \<le> x * (1 + 1 / 2 ^ 64)"
proof -
  have "\<bar>fl x - x\<bar> \<le> x / 2 ^ 64" using fl_error [of x] assms by (simp add: pos_le_divide_eq)
  then have "x - x / 2 ^ 64 \<le> fl x" "fl x \<le> x + x / 2 ^ 64" unfolding abs_le_iff by linarith+
  then show "x * (1 - 1 / 2 ^ 64) \<le> fl x" "fl x \<le> x * (1 + 1 / 2 ^ 64)" by (simp_all add: algebra_simps)
qed

text \<open>A number of ticks that is close to a whole number is rounded to it.\<close>

lemma round_seconds_near:
  assumes "\<bar>fl (S * of_nat N) - of_int v\<bar> \<le> 1 / 4"
  shows "round_seconds N S = v"
proof -
  define d where "d = fl (S * of_nat N)"
  have d: "of_int v - 1 / 4 \<le> d" "d \<le> of_int v + 1 / 4" using assms unfolding d_def abs_le_iff by linarith+
  have near: "fl x < fl y" if "0 \<le> x" "x \<le> 1 / 4" "3 / 4 \<le> y" for x y
    using fl_between(2) [OF that(1)] fl_between(1) [of y] that by simp
  show ?thesis
  proof (cases "of_int v \<le> d")
    case True
    then have t: "\<lfloor>d\<rfloor> = v" using d by (simp add: floor_eq_iff)
    have "fl (d - of_int v) < fl (of_int (v + 1) - d)" by (rule near) (use True d in simp_all)
    then show ?thesis by (simp add: round_seconds_def Let_def t flip: d_def)
  next
    case False
    then have t: "\<lfloor>d\<rfloor> = v - 1" using d by (simp add: floor_eq_iff)
    have "fl (of_int v - d) < fl (d - of_int (v - 1))" by (rule near) (use False d in simp_all)
    then show ?thesis by (simp add: round_seconds_def Let_def t flip: d_def)
  qed
qed

text \<open>With up to 14 decimals, seconds below 100 are read back exactly.\<close>

lemma round_decimal_value:
  assumes "k \<le> 14" "0 \<le> s" "s < 100" "0 \<le> f" "f < 10 ^ k"
  shows "round_seconds (10 ^ k) (decimal_value s f k) = s * 10 ^ k + f"
proof (rule round_seconds_near)
  define N c :: rat where "N = 10 ^ k" and "c = 2 ^ 64"
  have "(10 :: int) ^ k \<le> 10 ^ 14" using assms(1) by (intro power_increasing) simp_all
  then have k: "(10 :: int) ^ k \<le> 100000000000000" by simp
  have N: "N = of_int (10 ^ k)" "0 < N" "N \<le> 100000000000000"
    using assms(1) power_increasing [of k 14 "10 :: rat"] by (simp_all add: N_def)
  define x q S where "x = of_int f / N" and "q = fl x" and "S = fl (of_int s + q)"
  have "fl N = N" unfolding N(1) by (rule fl_whole) (use k in simp_all)
  moreover have "fl (of_int s) = of_int s" "fl (of_int f) = of_int f" using assms k by (simp_all add: fl_whole)
  ultimately have S: "decimal_value s f k = S" by (simp add: decimal_value_def S_def q_def x_def N_def)
  have "(of_int f :: rat) < of_int (10 ^ k)" unfolding of_int_less_iff by (rule assms(5))
  then have x: "0 \<le> x" "x \<le> 1" using assms(4) N by (simp_all add: x_def)
  have s: "(0 :: rat) \<le> of_int s" "(of_int s :: rat) \<le> 99" using assms(2,3) by simp_all
  have c: "0 < c" "1 \<le> c" by (simp_all add: c_def)
  have q: "\<bar>q - x\<bar> * c \<le> 1" "0 \<le> q" "q \<le> 2" using fl_error [of x] fl_between [OF x(1)] x by (simp_all add: q_def c_def)
  have e2: "\<bar>S - (of_int s + q)\<bar> * c \<le> 101" and S0: "0 \<le> S" "S \<le> 202"
    using fl_error [of "of_int s + q"] fl_between [of "of_int s + q"] q s by (simp_all add: S_def c_def)
  have e3: "\<bar>fl (S * N) - S * N\<bar> * c \<le> 202 * N"
  proof -
    have "\<bar>fl (S * N) - S * N\<bar> * c \<le> \<bar>S * N\<bar>" unfolding c_def by (rule fl_error)
    also have "\<dots> = S * N" using S0 N(2) by simp
    also have "\<dots> \<le> 202 * N" using S0(2) N(2) by (intro mult_right_mono) simp_all
    finally show ?thesis .
  qed
  have v: "of_int (s * 10 ^ k + f) = (of_int s + x) * N" using N(2) by (simp add: x_def N_def field_simps)
  define A B C where "A = fl (S * N) - S * N" and "B = (S - (of_int s + q)) * N" and "C = (q - x) * N"
  have abc: "fl (S * N) - (of_int s + x) * N = A + B + C" by (simp add: A_def B_def C_def algebra_simps)
  have "\<bar>A + B + C\<bar> \<le> \<bar>A\<bar> + \<bar>B\<bar> + \<bar>C\<bar>" using abs_triangle_ineq [of "A + B" C] abs_triangle_ineq [of A B] by linarith
  moreover have "\<bar>B\<bar> = \<bar>S - (of_int s + q)\<bar> * N" "\<bar>C\<bar> = \<bar>q - x\<bar> * N" using N(2) by (simp_all add: B_def C_def abs_mult)
  ultimately have "\<bar>fl (S * N) - (of_int s + x) * N\<bar> \<le> \<bar>fl (S * N) - S * N\<bar> + \<bar>S - (of_int s + q)\<bar> * N + \<bar>q - x\<bar> * N"
    unfolding abc A_def by simp
  then have "\<bar>fl (S * N) - (of_int s + x) * N\<bar> * c \<le> (\<bar>fl (S * N) - S * N\<bar> + \<bar>S - (of_int s + q)\<bar> * N + \<bar>q - x\<bar> * N) * c"
    using c by (intro mult_right_mono) simp_all
  also have "\<dots> = \<bar>fl (S * N) - S * N\<bar> * c + \<bar>S - (of_int s + q)\<bar> * c * N + \<bar>q - x\<bar> * c * N" by (simp add: algebra_simps)
  also have "\<dots> \<le> 202 * N + 101 * N + 1 * N" using e2 e3 q N(2) by (intro add_mono mult_right_mono) simp_all
  also have "\<dots> \<le> 304 * 100000000000000" using N(3) by simp
  also have "\<dots> \<le> 1 / 4 * c" by (simp add: c_def)
  finally have "\<bar>fl (S * N) - (of_int s + x) * N\<bar> \<le> 1 / 4" using c by simp
  then show "\<bar>fl (decimal_value s f k * of_nat (10 ^ k)) - of_int (s * 10 ^ k + f)\<bar> \<le> 1 / 4" unfolding S v by (simp add: N_def)
qed

section \<open>With 18 decimals\<close>

lemma exponent2_eq:
  assumes "2 powi e \<le> x" "x < 2 powi (e + 1)"
  shows "exponent2 x = e"
proof -
  have "(0 :: rat) < 2 powi e" by simp
  then have x: "0 < x" using assms(1) by (rule less_le_trans)
  have lt: "m < n + 1" if "2 powi m \<le> x" "x < 2 powi (n + 1)" for m n
  proof -
    from that have "(2 :: rat) powi m < 2 powi (n + 1)" by (rule le_less_trans)
    then show ?thesis using power_int_increasing [of "n + 1" m "2 :: rat"] by (meson not_less one_le_numeral)
  qed
  from lt [OF assms(1) exponent2(2) [OF x]] lt [OF exponent2(1) [OF x] assms(2)] show ?thesis by simp
qed

lemma round_even_near:
  assumes "\<bar>x - of_int m\<bar> < 1 / 2"
  shows "round_even x = m"
proof -
  have "\<bar>of_int (round_even x) - of_int m\<bar> < (1 :: rat)"
    using round_even_half [of x] assms unfolding abs_le_iff abs_less_iff by linarith
  then have "\<bar>round_even x - m\<bar> < 1" unfolding of_int_less_1_iff [symmetric, where ?'a = rat] by simp
  then show ?thesis by simp
qed

lemma fl_eq:
  assumes "2 powi e \<le> x" "x < 2 powi (e + 1)" "\<bar>x / 2 powi (e - 63) - of_int m\<bar> < 1 / 2"
  shows "fl x = of_int m * 2 powi (e - 63)"
proof -
  have "(0 :: rat) < 2 powi e" by simp
  then have x: "0 < x" using assms(1) by (rule less_le_trans)
  then show ?thesis using exponent2_eq [OF assms(1,2)] round_even_near [OF assms(3)] by (simp add: fl_def Let_def)
qed

text \<open>Nine seconds and 88923384270674083 parts of \<open>10 ^ 18\<close> are read as one part more: the product lies half-way.\<close>

theorem decimals_lost: "round_seconds (10 ^ 18) (decimal_value 9 88923384270674083 18) = 9088923384270674084"
proof -
  have whole: "fl (10 ^ 18) = 10 ^ 18" "fl (of_int 9) = of_int 9" "fl (of_int 88923384270674083) = of_int 88923384270674083"
    using fl_whole [of "10 ^ 18"] fl_whole [of 9] fl_whole [of 88923384270674083] by simp_all
  have q: "fl (of_int 88923384270674083 / 10 ^ 18) = of_int 13122775294474034394 * 2 powi (- 4 - 63)"
    by (rule fl_eq) (simp_all add: power_int_def power_divide abs_less_iff)
  have S: "fl (of_int 9 + of_int 13122775294474034394 * 2 powi (- 4 - 63)) = of_int 10478815223449701178 * 2 powi (3 - 63)"
    by (rule fl_eq) (simp_all add: power_int_def power_divide abs_less_iff)
  have d: "fl (of_int 10478815223449701178 * 2 powi (3 - 63) * of_nat (10 ^ 18)) = of_int 18177846768541348167 * 2 powi (62 - 63)"
    by (rule fl_eq) (simp_all add: power_int_def power_divide abs_less_iff)
  have h: "fl (1 / 2) = of_int 9223372036854775808 * 2 powi (- 1 - 63)"
    by (rule fl_eq) (simp_all add: power_int_def power_divide)
  have f: "\<lfloor>of_int 18177846768541348167 * 2 powi (62 - 63) :: rat\<rfloor> = 9088923384270674083"
    by (simp add: floor_eq_iff power_int_def power_divide)
  show ?thesis
    unfolding round_seconds_def decimal_value_def whole q S d Let_def f by (simp add: power_int_def power_divide h)
qed

end
