(* ===== verification/Calendar_Read.thy ===== *)
theory Calendar_Read
  imports Calendar_Format Long_Double "HOL-Library.State_Monad"
begin

text \<open>
  Input streams and the readers of numbers and characters that the parser of \<^verbatim>\<open>src/utils/date.hpp\<close> uses
  (\<^verbatim>\<open>read_unsigned\<close>, \<^verbatim>\<open>read_signed\<close>, \<^verbatim>\<open>read_long_double\<close> and \<^verbatim>\<open>read\<close>), in the state monad of the library: a read
  has a value and changes the stream.
\<close>

section \<open>Input streams\<close>

text \<open>The characters left, and the two bits of the state. No exceptions are enabled.\<close>

record istream =
  is_text :: string
  is_eof :: bool
  is_fail :: bool

definition is_good :: "'z istream_scheme \<Rightarrow> bool" where
  "is_good s \<longleftrightarrow> \<not> is_eof s \<and> \<not> is_fail s"

type_synonym ('z, 'a) read = "('z istream_scheme, 'a) state"

definition gets :: "('s \<Rightarrow> 'a) \<Rightarrow> ('s, 'a) state" where
  "gets f = State (\<lambda>s. (f s, s))"

definition modify :: "('s \<Rightarrow> 's) \<Rightarrow> ('s, unit) state" where
  "modify f = State (\<lambda>s. ((), f s))"

definition unless :: "bool \<Rightarrow> ('s, unit) state \<Rightarrow> ('s, unit) state" where
  "unless b m = (if b then State_Monad.return () else m)"

lemma run_reads [simp]:
  "run_state (gets f) s = (f s, s)"
  "run_state (modify g) s = ((), g s)"
  "run_state (unless b m) s = (if b then ((), s) else run_state m s)"
  by (simp_all add: gets_def modify_def unless_def)

definition set_fail :: "('z, unit) read" where
  "set_fail = modify (is_fail_update (\<lambda>_. True))"

definition set_eof :: "('z, unit) read" where
  "set_eof = modify (is_eof_update (\<lambda>_. True))"

text \<open>\<^verbatim>\<open>peek\<close> at a stream that is not good fails; at the end of the text it sets the bit.\<close>

definition peek :: "('z, char option) read" where
  "peek = do {
     good \<leftarrow> gets is_good;
     text \<leftarrow> gets is_text;
     if \<not> good then do { set_fail; State_Monad.return None }
     else case text of [] \<Rightarrow> do { set_eof; State_Monad.return None } | c # _ \<Rightarrow> State_Monad.return (Some c)
   }"

text \<open>\<^verbatim>\<open>get\<close> of a character that \<^verbatim>\<open>peek\<close> has shown.\<close>

definition get_char :: "('z, unit) read" where
  "get_char = modify (is_text_update tl)"

text \<open>\<^verbatim>\<open>std::ws\<close> on a good stream.\<close>

definition skip_ws :: "('z, unit) read" where
  "skip_ws = do {
     modify (is_text_update (dropWhile is_space));
     text \<leftarrow> gets is_text;
     if text = [] then set_eof else State_Monad.return ()
   }"

section \<open>Numbers\<close>

text \<open>
  The loop of \<^verbatim>\<open>read_unsigned\<close> on a good stream: the value, the number of digits, what is left, and whether the
  end was seen.
\<close>

fun read_digits :: "nat \<Rightarrow> nat \<Rightarrow> int \<Rightarrow> string \<Rightarrow> int \<times> nat \<times> string \<times> bool" where
  "read_digits M count x [] = (x, count, [], True)"
| "read_digits M count x (c # cs) =
     (if is_digit c then
        let x' = u32 (10 * x + int (digit_value c)) in
        if Suc count = M then (x', Suc count, cs, False) else read_digits M (Suc count) x' cs
      else (x, count, c # cs, False))"

definition read_unsigned :: "nat \<Rightarrow> nat \<Rightarrow> ('z, int) read" where
  "read_unsigned m M = do {
     good \<leftarrow> gets is_good;
     text \<leftarrow> gets is_text;
     if \<not> good then do { set_fail; State_Monad.return 0 }
     else case read_digits M 0 0 text of (x, count, rest, eof) \<Rightarrow> do {
       modify (\<lambda>s. s\<lparr>is_text := rest, is_eof := eof\<rparr>);
       unless (m \<le> count) set_fail;
       State_Monad.return x
     }
   }"

definition read_signed :: "nat \<Rightarrow> nat \<Rightarrow> ('z, int) read" where
  "read_signed m M = do {
     c \<leftarrow> peek;
     case c of
       Some c \<Rightarrow>
         if is_digit c \<or> c = CHR ''-'' \<or> c = CHR ''+'' then do {
           unless (is_digit c) get_char;
           x \<leftarrow> read_unsigned (max m 1) M;
           fail \<leftarrow> gets is_fail;
           if \<not> fail then State_Monad.return (if c = CHR ''-'' then - s32 x else s32 x)
           else do { unless (m = 0) set_fail; State_Monad.return 0 }
         } else do { unless (m = 0) set_fail; State_Monad.return 0 }
     | None \<Rightarrow> do { unless (m = 0) set_fail; State_Monad.return 0 }
   }"

text \<open>
  The loop of \<^verbatim>\<open>read_long_double\<close>: the digits before and after the decimal point, how many there are after it,
  and the number of characters. The two numbers are kept in 64 bits; \<open>decimal_value\<close> makes a \<^verbatim>\<open>long double\<close> of them.
\<close>

fun read_decimal :: "char \<Rightarrow> nat \<Rightarrow> bool \<Rightarrow> nat \<Rightarrow> int \<times> int \<times> nat \<Rightarrow> string \<Rightarrow>
    (int \<times> int \<times> nat) \<times> nat \<times> string \<times> bool" where
  "read_decimal p M fraction count (i, f, k) [] = ((i, f, k), count, [], True)"
| "read_decimal p M fraction count (i, f, k) (c # cs) =
     (if c = p \<and> \<not> fraction then
        if Suc count = M then ((i, f, k), Suc count, cs, False) else read_decimal p M True (Suc count) (i, f, k) cs
      else if is_digit c then
        let v = (if fraction then (i, (10 * f + int (digit_value c)) mod 2 ^ 64, Suc k)
                 else ((10 * i + int (digit_value c)) mod 2 ^ 64, f, k)) in
        if Suc count = M then (v, Suc count, cs, False) else read_decimal p M fraction (Suc count) v cs
      else ((i, f, k), count, c # cs, False))"

definition read_long_double :: "char \<Rightarrow> nat \<Rightarrow> nat \<Rightarrow> ('z, rat) read" where
  "read_long_double p m M = do {
     good \<leftarrow> gets is_good;
     text \<leftarrow> gets is_text;
     if \<not> good then do { set_fail; State_Monad.return 0 }
     else case read_decimal p M False 0 (0, 0, 0) text of ((i, f, k), count, rest, eof) \<Rightarrow> do {
       modify (\<lambda>s. s\<lparr>is_text := rest, is_eof := eof\<rparr>);
       if count < m then do { set_fail; State_Monad.return 0 }
       else State_Monad.return (decimal_value i f k)
     }
   }"

section \<open>Sequences of reads\<close>

text \<open>
  The arguments of \<^verbatim>\<open>read\<close> are read one after the other while the stream has not failed; the value of an
  argument that was not read is its variable's old one.
\<close>

definition unless_fail :: "'a \<Rightarrow> ('z, 'a) read \<Rightarrow> ('z, 'a) read" where
  "unless_fail old m = do {
     fail \<leftarrow> gets is_fail;
     if fail then State_Monad.return old
     else do { x \<leftarrow> m; fail \<leftarrow> gets is_fail; State_Monad.return (if fail then old else x) }
   }"

definition read_ru :: "int \<Rightarrow> nat \<Rightarrow> nat \<Rightarrow> ('z, int) read" where
  "read_ru old m M = unless_fail old (do { x \<leftarrow> read_unsigned m M; State_Monad.return (s32 x) })"

definition read_rs :: "int \<Rightarrow> nat \<Rightarrow> nat \<Rightarrow> ('z, int) read" where
  "read_rs old m M = unless_fail old (read_signed m M)"

definition read_rld :: "char \<Rightarrow> nat \<Rightarrow> nat \<Rightarrow> ('z, rat) read" where
  "read_rld p m M = unless_fail 0 (read_long_double p m M)"

definition read_chr :: "char \<Rightarrow> ('z, unit) read" where
  "read_chr a0 = unless_fail () (if a0 = CHR 0x00 then State_Monad.return () else do {
     c \<leftarrow> peek;
     case c of
       None \<Rightarrow> do { set_fail; set_eof }
     | Some c \<Rightarrow> if c = a0 then get_char else set_fail
   })"

text \<open>An \<^verbatim>\<open>int\<close> argument is read as its decimal digits, and what follows it only while the stream is good.\<close>

primrec read_text :: "string \<Rightarrow> ('z, unit) read" where
  "read_text [] = State_Monad.return ()"
| "read_text (c # cs) = do { good \<leftarrow> gets is_good; if good then do { read_chr c; read_text cs } else State_Monad.return () }"

definition read_int_then :: "int \<Rightarrow> ('z, unit) read \<Rightarrow> ('z, unit) read" where
  "read_int_then a0 next = do {
     fail \<leftarrow> gets is_fail;
     unless fail (do {
       unless (a0 = - 1) (read_text (to_string (u32 a0)));
       good \<leftarrow> gets is_good;
       unless (\<not> good) next
     })
   }"

text \<open>A variable that has no value yet is set; one that has must agree.\<close>

definition checked_set :: "('z istream_scheme \<Rightarrow> 'a) \<Rightarrow> (('a \<Rightarrow> 'a) \<Rightarrow> 'z istream_scheme \<Rightarrow> 'z istream_scheme) \<Rightarrow>
    'a \<Rightarrow> 'a \<Rightarrow> ('z, unit) read" where
  "checked_set val upd x not_a_value = do {
     fail \<leftarrow> gets is_fail;
     v \<leftarrow> gets val;
     unless fail (if v = not_a_value then modify (upd (\<lambda>_. x)) else unless (v = x) set_fail)
   }"

end
