(* ===== verification/Calendar_Parse.thy ===== *)
theory Calendar_Parse
  imports Calendar_Read
begin

text \<open>
  The parsing of dates and times in \<^verbatim>\<open>src/utils/date.hpp\<close>: \<^verbatim>\<open>from_stream\<close> with one definition per conversion
  character, the date that the values read agree on, and the overloads. What depends on the locale goes
  through its facets, the record \<open>input_facets\<close>.
\<close>

section \<open>The variables of the parser\<close>

text \<open>
  \<open>time_get\<close> reads the input after a format: the text left, whether it saw the end, whether it failed, and
  the fields it read.
\<close>

record input_facets =
  time_get :: "tm \<Rightarrow> string \<Rightarrow> string \<Rightarrow> string \<times> bool \<times> bool \<times> tm"
  in_decimal_point :: char

definition not_a_year :: int where "not_a_year = - 32768"

definition not_a_2digit_year :: int where "not_a_2digit_year = 100"

definition not_a_century :: int where "not_a_century = cdiv not_a_year 100"

definition not_a_month :: int where "not_a_month = 0"

definition not_a_day :: int where "not_a_day = 0"

definition not_a_hour :: int where "not_a_hour = - (2 ^ 31)"

definition not_a_hour_12_value :: int where "not_a_hour_12_value = 0"

definition not_a_minute :: int where "not_a_minute = not_a_hour"

definition not_a_second :: int where "not_a_second = - (2 ^ 63)"

definition not_a_doy :: int where "not_a_doy = - 1"

definition not_a_weekday :: int where "not_a_weekday = 8"

definition not_a_week_num :: int where "not_a_week_num = 100"

definition not_a_ampm :: int where "not_a_ampm = - 1"

definition not_a_offset :: int where "not_a_offset = - (2 ^ 63)"

text \<open>The text of the command so far, its modifier and width, and the variables with the names of the source.\<close>

record parse_state = istream +
  ps_command :: "string option"
  ps_modified :: "char option"
  ps_width :: int
  ps_tm :: tm
  ps_Y :: int
  ps_y :: int
  ps_g :: int
  ps_G :: int
  ps_C :: int
  ps_m :: int
  ps_d :: int
  ps_j :: int
  ps_wd :: int
  ps_H :: int
  ps_I :: int
  ps_p :: int
  ps_M :: int
  ps_s :: int
  ps_U :: int
  ps_V :: int
  ps_W :: int
  ps_abbrev :: string
  ps_offset :: int

type_synonym 'a parse = "(parse_state, 'a) state"

definition parse_state_new :: "istream \<Rightarrow> parse_state" where
  "parse_state_new s = istream.extend s
     \<lparr>ps_command = None, ps_modified = None, ps_width = - 1, ps_tm = tm_zero,
      ps_Y = not_a_year, ps_y = not_a_2digit_year, ps_g = not_a_2digit_year, ps_G = not_a_year, ps_C = not_a_century,
      ps_m = not_a_month, ps_d = not_a_day, ps_j = not_a_doy, ps_wd = not_a_weekday, ps_H = not_a_hour,
      ps_I = not_a_hour_12_value, ps_p = not_a_ampm, ps_M = not_a_minute, ps_s = not_a_second, ps_U = not_a_week_num,
      ps_V = not_a_week_num, ps_W = not_a_week_num, ps_abbrev = [], ps_offset = not_a_offset\<rparr>"

definition end_command :: "unit parse" where
  "end_command = modify (\<lambda>s. s\<lparr>ps_command := None, ps_modified := None, ps_width := - 1\<rparr>)"

text \<open>\<^verbatim>\<open>read(is, '%', width, modified, *fmt)\<close>: a command that is not understood stands for its own text.\<close>

definition read_verbatim :: "char \<Rightarrow> unit parse" where
  "read_verbatim c = do {
     width \<leftarrow> gets ps_width;
     modified \<leftarrow> gets ps_modified;
     read_chr CHR ''%'';
     read_int_then width (do { read_chr (case modified of None \<Rightarrow> CHR 0x00 | Some m \<Rightarrow> m); read_chr c })
   }"

text \<open>
  A conversion character outside of a command is read as itself; in a command, one with a modifier that does
  not apply to it is read verbatim.
\<close>

definition parse_conversion :: "char \<Rightarrow> (char option \<Rightarrow> bool) \<Rightarrow> (char option \<Rightarrow> unit parse) \<Rightarrow> unit parse" where
  "parse_conversion c applies body = do {
     command \<leftarrow> gets ps_command;
     modified \<leftarrow> gets ps_modified;
     case command of
       None \<Rightarrow> read_chr c
     | Some _ \<Rightarrow> do { (if applies modified then body modified else read_verbatim c); end_command }
   }"

text \<open>The width of a command, or the usual one.\<close>

definition width_or :: "nat \<Rightarrow> nat parse" where
  "width_or n = do { w \<leftarrow> gets ps_width; State_Monad.return (if w = - 1 then n else nat w) }"

text \<open>The facet reads after the text of the command; \<open>k\<close> uses the fields when it did not fail.\<close>

definition facet_get :: "input_facets \<Rightarrow> char \<Rightarrow> (tm \<Rightarrow> unit parse) \<Rightarrow> unit parse" where
  "facet_get F c k = do {
     s \<leftarrow> State_Monad.get;
     let (rest, eof, fail, t) = time_get F (ps_tm s) ((case ps_command s of None \<Rightarrow> [] | Some f \<Rightarrow> f) @ [c]) (is_text s);
     modify (\<lambda>s. s\<lparr>is_text := rest, ps_tm := t\<rparr>);
     unless fail (k t);
     unless (\<not> fail) set_fail;
     unless (\<not> eof) set_eof
   }"

section \<open>The conversions of dates\<close>

definition set_Y :: "int \<Rightarrow> unit parse" where
  "set_Y x = checked_set ps_Y ps_Y_update x not_a_year"

definition set_m :: "int \<Rightarrow> unit parse" where
  "set_m x = checked_set ps_m ps_m_update x not_a_month"

definition set_d :: "int \<Rightarrow> unit parse" where
  "set_d x = checked_set ps_d ps_d_update x not_a_day"

definition set_y :: "int \<Rightarrow> unit parse" where
  "set_y x = checked_set ps_y ps_y_update x not_a_2digit_year"

definition set_wd :: "int \<Rightarrow> unit parse" where
  "set_wd x = unless (x = not_a_weekday) (checked_set ps_wd ps_wd_update x not_a_weekday)"

definition parse_weekday_name :: "input_facets \<Rightarrow> char \<Rightarrow> unit parse" where
  "parse_weekday_name F c = parse_conversion c (\<lambda>m. m = None) (\<lambda>_. facet_get F c (\<lambda>t. set_wd (tm_wday t)))"

definition parse_weekday :: "input_facets \<Rightarrow> char \<Rightarrow> unit parse" where
  "parse_weekday F c = parse_conversion c not_E (\<lambda>modified.
     if modified = None then do {
       M \<leftarrow> width_or 1;
       wd \<leftarrow> read_ru not_a_weekday 1 M;
       fail \<leftarrow> gets is_fail;
       unless fail
         (if c = CHR ''u'' then if 1 \<le> wd \<and> wd \<le> 7 then set_wd (if wd = 7 then 0 else wd) else set_fail
          else if 0 \<le> wd \<and> wd \<le> 6 then set_wd wd else set_fail)
     } else facet_get F c (\<lambda>t. set_wd (tm_wday t)))"

definition parse_month_name :: "input_facets \<Rightarrow> char \<Rightarrow> unit parse" where
  "parse_month_name F c = parse_conversion c plain_only (\<lambda>_. facet_get F c (\<lambda>t. set_m (tm_mon t + 1)))"

definition set_H :: "int \<Rightarrow> unit parse" where
  "set_H x = checked_set ps_H ps_H_update x not_a_hour"

definition set_M :: "int \<Rightarrow> unit parse" where
  "set_M x = checked_set ps_M ps_M_update x not_a_minute"

definition set_s :: "int \<Rightarrow> unit parse" where
  "set_s x = checked_set ps_s ps_s_update x not_a_second"

definition parse_date_and_time :: "input_facets \<Rightarrow> nat \<Rightarrow> unit parse" where
  "parse_date_and_time F N = parse_conversion CHR ''c'' not_O (\<lambda>_. facet_get F CHR ''c'' (\<lambda>t. do {
     set_Y (tm_year t + 1900); set_m (tm_mon t + 1); set_d (tm_mday t);
     set_H (tm_hour t); set_M (tm_min t); set_s (tm_sec t * int N) }))"

definition parse_locale_date :: "input_facets \<Rightarrow> unit parse" where
  "parse_locale_date F = parse_conversion CHR ''x'' not_O (\<lambda>_. facet_get F CHR ''x'' (\<lambda>t. do {
     set_Y (tm_year t + 1900); set_m (tm_mon t + 1); set_d (tm_mday t) }))"

definition parse_locale_time :: "input_facets \<Rightarrow> nat \<Rightarrow> unit parse" where
  "parse_locale_time F N = parse_conversion CHR ''X'' not_O (\<lambda>_. facet_get F CHR ''X'' (\<lambda>t. do {
     set_H (tm_hour t); set_M (tm_min t); set_s (tm_sec t * int N) }))"

definition set_C :: "int \<Rightarrow> unit parse" where
  "set_C x = checked_set ps_C ps_C_update x not_a_century"

definition parse_century :: "input_facets \<Rightarrow> unit parse" where
  "parse_century F = parse_conversion CHR ''C'' (\<lambda>_. True) (\<lambda>modified.
     if modified = None then do { M \<leftarrow> width_or 2; tC \<leftarrow> read_rs not_a_century 1 M; set_C tC }
     else facet_get F CHR ''C'' (\<lambda>t. let tY = tm_year t + 1900 in
       set_C (cdiv (if 0 \<le> tY then tY else tY - 99) 100)))"

definition parse_short_date :: "unit parse" where
  "parse_short_date = parse_conversion CHR ''D'' plain_only (\<lambda>_. do {
     tn \<leftarrow> read_ru not_a_month 1 2; read_chr CHR 0x00; read_chr CHR ''/''; read_chr CHR 0x00;
     td \<leftarrow> read_ru not_a_day 1 2; read_chr CHR 0x00; read_chr CHR ''/''; read_chr CHR 0x00;
     ty \<leftarrow> read_rs not_a_2digit_year 1 2;
     set_y ty; set_m tn; set_d td })"

definition parse_iso_date :: "unit parse" where
  "parse_iso_date = parse_conversion CHR ''F'' plain_only (\<lambda>_. do {
     M \<leftarrow> width_or 4;
     tY \<leftarrow> read_rs not_a_year 1 M; read_chr CHR ''-'';
     tn \<leftarrow> read_ru not_a_month 1 2; read_chr CHR ''-'';
     td \<leftarrow> read_ru not_a_day 1 2;
     set_Y tY; set_m tn; set_d td })"

definition parse_day :: "input_facets \<Rightarrow> char \<Rightarrow> unit parse" where
  "parse_day F c = parse_conversion c not_E (\<lambda>modified.
     if modified = None then do { M \<leftarrow> width_or 2; td \<leftarrow> read_rs not_a_day 1 M; set_d td }
     else facet_get F c (\<lambda>t. set_d (tm_mday t)))"

definition parse_day_of_year :: "unit parse" where
  "parse_day_of_year = parse_conversion CHR ''j'' plain_only (\<lambda>_. do {
     M \<leftarrow> width_or 3; tj \<leftarrow> read_ru not_a_doy 1 M; checked_set ps_j ps_j_update tj not_a_doy })"

definition parse_month :: "input_facets \<Rightarrow> unit parse" where
  "parse_month F = parse_conversion CHR ''m'' not_E (\<lambda>modified.
     if modified = None then do { M \<leftarrow> width_or 2; tn \<leftarrow> read_rs not_a_month 1 M; set_m tn }
     else facet_get F CHR ''m'' (\<lambda>t. set_m (tm_mon t + 1)))"

definition parse_year :: "input_facets \<Rightarrow> unit parse" where
  "parse_year F = parse_conversion CHR ''Y'' not_O (\<lambda>modified.
     if modified = None then do { M \<leftarrow> width_or 4; tY \<leftarrow> read_rs not_a_year 1 M; set_Y tY }
     else facet_get F CHR ''Y'' (\<lambda>t. set_Y (tm_year t + 1900)))"

definition parse_year_of_century :: "input_facets \<Rightarrow> unit parse" where
  "parse_year_of_century F = parse_conversion CHR ''y'' (\<lambda>_. True) (\<lambda>modified.
     if modified = None then do { M \<leftarrow> width_or 2; ty \<leftarrow> read_ru not_a_2digit_year 1 M; set_y ty }
     else facet_get F CHR ''y'' (\<lambda>t. set_Y (tm_year t + 1900)))"

definition parse_iso_year_of_century :: "unit parse" where
  "parse_iso_year_of_century = parse_conversion CHR ''g'' plain_only (\<lambda>_. do {
     M \<leftarrow> width_or 2; tg \<leftarrow> read_ru not_a_2digit_year 1 M; checked_set ps_g ps_g_update tg not_a_2digit_year })"

definition parse_iso_year :: "unit parse" where
  "parse_iso_year = parse_conversion CHR ''G'' plain_only (\<lambda>_. do {
     M \<leftarrow> width_or 4; tG \<leftarrow> read_rs not_a_year 1 M; checked_set ps_G ps_G_update tG not_a_year })"

definition parse_sunday_week :: "unit parse" where
  "parse_sunday_week = parse_conversion CHR ''U'' plain_only (\<lambda>_. do {
     M \<leftarrow> width_or 2; tU \<leftarrow> read_ru not_a_week_num 1 M; checked_set ps_U ps_U_update tU not_a_week_num })"

definition parse_iso_week :: "unit parse" where
  "parse_iso_week = parse_conversion CHR ''V'' plain_only (\<lambda>_. do {
     M \<leftarrow> width_or 2; tV \<leftarrow> read_ru not_a_week_num 1 M; checked_set ps_V ps_V_update tV not_a_week_num })"

definition parse_monday_week :: "unit parse" where
  "parse_monday_week = parse_conversion CHR ''W'' plain_only (\<lambda>_. do {
     M \<leftarrow> width_or 2; tW \<leftarrow> read_ru not_a_week_num 1 M; checked_set ps_W ps_W_update tW not_a_week_num })"

section \<open>The conversions of times\<close>

text \<open>
  Rounding a whole number of finer ticks to the nearest number of ticks, to the even one of two. The seconds
  of a text are a \<^verbatim>\<open>long double\<close> and rounded as such (\<open>round_seconds\<close>).
\<close>

definition round_ratio :: "int \<Rightarrow> int \<Rightarrow> int" where
  "round_ratio a b = (let t0 = a div b; t1 = t0 + 1; diff0 = a - t0 * b; diff1 = t1 * b - a in
     if diff0 = diff1 then if t0 mod 2 = 0 then t0 else t1 else if diff0 < diff1 then t0 else t1)"

definition seconds_width :: "nat \<Rightarrow> nat" where
  "seconds_width N = (if N = 1 then 2 else 3 + fractional_width N)"

definition set_seconds :: "nat \<Rightarrow> rat \<Rightarrow> unit parse" where
  "set_seconds N S = set_s (round_seconds N S)"

definition parse_hours :: "input_facets \<Rightarrow> unit parse" where
  "parse_hours F = parse_conversion CHR ''H'' not_E (\<lambda>modified.
     if modified = None then do { M \<leftarrow> width_or 2; tH \<leftarrow> read_ru not_a_hour 1 M; set_H tH }
     else facet_get F CHR ''H'' (\<lambda>t. set_H (tm_hour t)))"

definition parse_hours_12 :: "unit parse" where
  "parse_hours_12 = parse_conversion CHR ''I'' plain_only (\<lambda>_. do {
     M \<leftarrow> width_or 2;
     tI \<leftarrow> read_rs not_a_hour_12_value 1 M;
     unless (1 \<le> tI \<and> tI \<le> 12) set_fail;
     checked_set ps_I ps_I_update tI not_a_hour_12_value })"

definition parse_minutes :: "input_facets \<Rightarrow> unit parse" where
  "parse_minutes F = parse_conversion CHR ''M'' not_E (\<lambda>modified.
     if modified = None then do { M \<leftarrow> width_or 2; tM \<leftarrow> read_ru not_a_minute 1 M; set_M tM }
     else facet_get F CHR ''M'' (\<lambda>t. set_M (tm_min t)))"

definition parse_seconds :: "input_facets \<Rightarrow> nat \<Rightarrow> unit parse" where
  "parse_seconds F N = parse_conversion CHR ''S'' not_E (\<lambda>modified.
     if modified = None then do {
       M \<leftarrow> width_or (seconds_width N); S \<leftarrow> read_rld (in_decimal_point F) 1 M; set_seconds N S }
     else facet_get F CHR ''S'' (\<lambda>t. set_s (tm_sec t * int N)))"

definition parse_hours_minutes :: "unit parse" where
  "parse_hours_minutes = parse_conversion CHR ''R'' plain_only (\<lambda>_. do {
     tH \<leftarrow> read_ru not_a_hour 1 2; read_chr CHR 0x00; read_chr CHR '':''; read_chr CHR 0x00;
     tM \<leftarrow> read_ru not_a_minute 1 2; read_chr CHR 0x00;
     set_H tH; set_M tM })"

definition parse_time :: "input_facets \<Rightarrow> nat \<Rightarrow> unit parse" where
  "parse_time F N = parse_conversion CHR ''T'' plain_only (\<lambda>_. do {
     tH \<leftarrow> read_ru not_a_hour 1 2; read_chr CHR '':'';
     tM \<leftarrow> read_ru not_a_minute 1 2; read_chr CHR '':'';
     S \<leftarrow> read_rld (in_decimal_point F) 1 (seconds_width N);
     set_H tH; set_M tM; set_seconds N S })"

definition parse_time_12 :: "input_facets \<Rightarrow> nat \<Rightarrow> unit parse" where
  "parse_time_12 F N = parse_conversion CHR ''r'' plain_only (\<lambda>_. facet_get F CHR ''r'' (\<lambda>t. do {
     set_H (tm_hour t); set_M (tm_min t); set_s (tm_sec t * int N) }))"

text \<open>The facet reads into an hour of 1, so that an afternoon shows as 13.\<close>

definition parse_am_pm :: "input_facets \<Rightarrow> unit parse" where
  "parse_am_pm F = parse_conversion CHR ''p'' plain_only (\<lambda>_. do {
     modify (ps_tm_update (\<lambda>_. tm_zero\<lparr>tm_hour := 1\<rparr>));
     facet_get F CHR ''p'' (\<lambda>_. State_Monad.return ());
     h \<leftarrow> gets (\<lambda>s. tm_hour (ps_tm s));
     checked_set ps_p ps_p_update (if h = 1 then 0 else if h = 13 then 1 else not_a_ampm) not_a_ampm })"

section \<open>The other conversions\<close>

text \<open>\<^verbatim>\<open>%n\<close> and \<^verbatim>\<open>%t\<close>. At the end of the input the command is left open.\<close>

definition parse_white :: "char \<Rightarrow> unit parse" where
  "parse_white c = do {
     command \<leftarrow> gets ps_command;
     modified \<leftarrow> gets ps_modified;
     if command = None then read_chr c
     else if modified \<noteq> None then do { read_verbatim c; end_command }
     else do {
       ic \<leftarrow> peek;
       case ic of
         None \<Rightarrow> do { set_eof; unless (c \<noteq> CHR ''n'') set_fail }
       | Some ic \<Rightarrow> do { (if is_space ic then get_char else unless (c \<noteq> CHR ''n'') set_fail); end_command }
     }
   }"

definition set_offset :: "int \<Rightarrow> unit parse" where
  "set_offset x = checked_set ps_offset ps_offset_update x not_a_offset"

text \<open>When no hours follow a sign, the stream has failed and the value, whose negation would overflow, is not used.\<close>

definition parse_offset :: "unit parse" where
  "parse_offset = parse_conversion CHR ''z'' (\<lambda>_. True) (\<lambda>modified. do {
     ic \<leftarrow> peek;
     tH \<leftarrow> read_rs 0 (if modified = None then 2 else 1) 2;
     good \<leftarrow> gets is_good;
     tM \<leftarrow> (if \<not> good then State_Monad.return 0 else do {
       ic \<leftarrow> peek;
       case ic of
         None \<Rightarrow> State_Monad.return 0
       | Some c \<Rightarrow> if modified = None then if is_digit c then read_ru 0 2 2 else State_Monad.return 0
           else if c = CHR '':'' then do { get_char; read_ru 0 2 2 } else State_Monad.return 0
     });
     let toff = \<bar>tH\<bar> * 60 + tM;
     set_offset (if ic = Some CHR ''-'' then - toff else toff)
   })"

text \<open>The characters of the name or abbreviation of a time zone.\<close>

definition is_zone_char :: "char \<Rightarrow> bool" where
  "is_zone_char c \<longleftrightarrow> 1 < code_of c \<and> code_of c < 127 \<and> (is_alnum c \<or> c \<in> {CHR ''_'', CHR ''/'', CHR ''-'', CHR ''+''})"

definition parse_abbreviation :: "unit parse" where
  "parse_abbreviation = parse_conversion CHR ''Z'' plain_only (\<lambda>_. do {
     good \<leftarrow> gets is_good;
     text \<leftarrow> gets is_text;
     let buf = (if good then takeWhile is_zone_char text else []);
     unless (\<not> good) (do {
       modify (is_text_update (dropWhile is_zone_char));
       unless (buf \<noteq> text) set_eof
     });
     unless (buf \<noteq> []) set_fail;
     checked_set ps_abbrev ps_abbrev_update buf [] })"

definition parse_modifier :: "char \<Rightarrow> unit parse" where
  "parse_modifier c = do {
     command \<leftarrow> gets ps_command;
     modified \<leftarrow> gets ps_modified;
     case command of
       None \<Rightarrow> read_chr c
     | Some f \<Rightarrow> if modified = None then modify (\<lambda>s. s\<lparr>ps_modified := Some c, ps_command := Some (f @ [c])\<rparr>)
         else do { read_verbatim c; end_command }
   }"

definition parse_percent :: "unit parse" where
  "parse_percent = do {
     command \<leftarrow> gets ps_command;
     modified \<leftarrow> gets ps_modified;
     if command = None then modify (ps_command_update (\<lambda>_. Some ''%''))
     else do { (if modified = None then read_chr CHR ''%'' else read_verbatim CHR ''%''); end_command }
   }"

definition parse_other :: "char \<Rightarrow> unit parse" where
  "parse_other c = do {
     command \<leftarrow> gets ps_command;
     good \<leftarrow> gets is_good;
     if command \<noteq> None then do { read_verbatim c; end_command }
     else if is_space c then unless (\<not> good) skip_ws
     else read_chr c
   }"

section \<open>The loop over the format\<close>

definition parse_step :: "input_facets \<Rightarrow> nat \<Rightarrow> char \<Rightarrow> unit parse" where
  "parse_step F N c =
    (if c \<in> {CHR ''a'', CHR ''A''} then parse_weekday_name F c
     else if c \<in> {CHR ''u'', CHR ''w''} then parse_weekday F c
     else if c \<in> {CHR ''b'', CHR ''B'', CHR ''h''} then parse_month_name F c
     else if c = CHR ''c'' then parse_date_and_time F N
     else if c = CHR ''x'' then parse_locale_date F
     else if c = CHR ''X'' then parse_locale_time F N
     else if c = CHR ''C'' then parse_century F
     else if c = CHR ''D'' then parse_short_date
     else if c = CHR ''F'' then parse_iso_date
     else if c \<in> {CHR ''d'', CHR ''e''} then parse_day F c
     else if c = CHR ''H'' then parse_hours F
     else if c = CHR ''I'' then parse_hours_12
     else if c = CHR ''j'' then parse_day_of_year
     else if c = CHR ''M'' then parse_minutes F
     else if c = CHR ''m'' then parse_month F
     else if c \<in> {CHR ''n'', CHR ''t''} then parse_white c
     else if c = CHR ''p'' then parse_am_pm F
     else if c = CHR ''r'' then parse_time_12 F N
     else if c = CHR ''R'' then parse_hours_minutes
     else if c = CHR ''S'' then parse_seconds F N
     else if c = CHR ''T'' then parse_time F N
     else if c = CHR ''Y'' then parse_year F
     else if c = CHR ''y'' then parse_year_of_century F
     else if c = CHR ''g'' then parse_iso_year_of_century
     else if c = CHR ''G'' then parse_iso_year
     else if c = CHR ''U'' then parse_sunday_week
     else if c = CHR ''V'' then parse_iso_week
     else if c = CHR ''W'' then parse_monday_week
     else if c \<in> {CHR ''E'', CHR ''O''} then parse_modifier c
     else if c = CHR ''%'' then parse_percent
     else if c = CHR ''z'' then parse_offset
     else if c = CHR ''Z'' then parse_abbreviation
     else parse_other c)"

text \<open>A digit after the percent sign begins the width of the command.\<close>

definition begins_width :: "parse_state \<Rightarrow> char \<Rightarrow> bool" where
  "begins_width s c \<longleftrightarrow> ps_command s \<noteq> None \<and> ps_width s = - 1 \<and> ps_modified s = None \<and> is_digit c"

definition set_width :: "string \<Rightarrow> parse_state \<Rightarrow> parse_state" where
  "set_width ds s = s\<lparr>ps_width := int (digits_value ds), ps_command := map_option (\<lambda>f. f @ ds) (ps_command s)\<rparr>"

function parse_loop :: "input_facets \<Rightarrow> nat \<Rightarrow> string \<Rightarrow> parse_state \<Rightarrow> parse_state" where
  "parse_loop F N [] s = s"
| "parse_loop F N (c # cs) s =
     (if is_fail s then s
      else if begins_width s c then parse_loop F N (dropWhile is_digit cs) (set_width (c # takeWhile is_digit cs) s)
      else parse_loop F N cs (snd (run_state (parse_step F N c) s)))"
  by pat_completeness auto
termination
  by (relation "measure (\<lambda>(F, N, cs, s). length cs)") (simp_all add: length_dropWhile_le le_imp_less_Suc)

text \<open>A command that is left open at the end of the format stands for its own text.\<close>

definition parse_rest :: "unit parse" where
  "parse_rest = do {
     command \<leftarrow> gets ps_command;
     modified \<leftarrow> gets ps_modified;
     good \<leftarrow> gets is_good;
     width \<leftarrow> gets ps_width;
     unless (\<not> (good \<and> command \<noteq> None)) (do {
       read_chr CHR ''%'';
       read_int_then width (case modified of None \<Rightarrow> State_Monad.return () | Some m \<Rightarrow> read_chr m) })
   }"

section \<open>The date the values agree on\<close>

text \<open>\<open>None\<close> is the jump to \<^verbatim>\<open>broken\<close>: the values contradict each other.\<close>

definition require_that :: "bool \<Rightarrow> unit option" where
  "require_that b = (if b then Some () else None)"

text \<open>A year of two digits and an optional century give a year.\<close>

definition join_century :: "int \<Rightarrow> int \<Rightarrow> int \<Rightarrow> (int \<times> int) option" where
  "join_century y C Y =
    (if y = not_a_2digit_year then Some (C, Y)
     else if \<not> (0 \<le> y \<and> y \<le> 99) then None
     else let
       C' = (if C = not_a_century then
               if Y = not_a_year then if 69 \<le> y then 19 else 20 else cdiv (if 0 \<le> Y then Y else Y - 100) 100
             else C);
       tY = (if 0 \<le> C' then 100 * C' + y else 100 * (C' + 1) - (if y = 0 then 100 else y))
     in if Y \<noteq> not_a_year \<and> Y \<noteq> tY then None else Some (C', tY))"

definition resolve_years :: "parse_state \<Rightarrow> parse_state option" where
  "resolve_years s = do {
     (C, Y) \<leftarrow> join_century (ps_y s) (ps_C s) (ps_Y s);
     (C, G) \<leftarrow> join_century (ps_g s) C (ps_G s);
     Some (s\<lparr>ps_C := C, ps_G := G,
       ps_Y := (if Y < year_int year_min \<or> year_int year_max < Y then not_a_year else Y)\<rparr>)
   }"

text \<open>The month and day, and the year, of a trial date are taken over or must agree.\<close>

definition agree_month_day :: "year_month_day \<Rightarrow> parse_state \<Rightarrow> parse_state option" where
  "agree_month_day trial s = do {
     require_that (ps_m s = not_a_month \<or> op_eq month_compare (month_new (u32 (ps_m s))) (ymd_month trial));
     require_that (ps_d s = not_a_day \<or> op_eq day_compare (day_new (u32 (ps_d s))) (ymd_day trial));
     Some (s\<lparr>ps_m := (if ps_m s = not_a_month then month_unsigned (ymd_month trial) else ps_m s),
             ps_d := (if ps_d s = not_a_day then day_unsigned (ymd_day trial) else ps_d s)\<rparr>)
   }"

definition agree_date :: "year_month_day \<Rightarrow> parse_state \<Rightarrow> parse_state option" where
  "agree_date trial s = do {
     require_that (ps_Y s = not_a_year \<or> op_eq year_compare (year_new (ps_Y s)) (ymd_year trial));
     agree_month_day trial (s\<lparr>ps_Y := (if ps_Y s = not_a_year then year_int (ymd_year trial) else ps_Y s)\<rparr>)
   }"

text \<open>The trials by week and weekday; the flag tells whether one was made.\<close>

definition resolve_iso_week :: "parse_state \<Rightarrow> (bool \<times> parse_state) option" where
  "resolve_iso_week s =
    (if ps_G s \<noteq> not_a_year \<and> ps_V s \<noteq> not_a_week_num \<and> ps_wd s \<noteq> not_a_weekday then do {
       s \<leftarrow> agree_date (ymd_from_days
         (ymwl_to_days (ym_div_wdl (year_div_month (year_new (ps_G s - 1)) December) (weekday_at_last Thursday))
          + weekday_diff Monday Thursday + 7 * (ps_V s - 1) + weekday_diff (weekday_new (u32 (ps_wd s))) Monday)) s;
       Some (True, s) }
     else Some (False, s))"

definition resolve_sunday_week :: "bool \<Rightarrow> parse_state \<Rightarrow> (bool \<times> parse_state) option" where
  "resolve_sunday_week computed s =
    (if ps_Y s \<noteq> not_a_year \<and> ps_U s \<noteq> not_a_week_num \<and> ps_wd s \<noteq> not_a_weekday then do {
       s \<leftarrow> agree_date (ymd_from_days
         (ymw_to_days (ym_div_wdi (year_div_month (year_new (ps_Y s)) January) (weekday_at Sunday 1))
          + 7 * (ps_U s - 1) + weekday_diff (weekday_new (u32 (ps_wd s))) Sunday)) s;
       Some (True, s) }
     else Some (computed, s))"

definition resolve_monday_week :: "bool \<Rightarrow> parse_state \<Rightarrow> (bool \<times> parse_state) option" where
  "resolve_monday_week computed s =
    (if ps_Y s \<noteq> not_a_year \<and> ps_W s \<noteq> not_a_week_num \<and> ps_wd s \<noteq> not_a_weekday then do {
       s \<leftarrow> agree_date (ymd_from_days
         (ymw_to_days (ym_div_wdi (year_div_month (year_new (ps_Y s)) January) (weekday_at Monday 1))
          + 7 * (ps_W s - 1) + weekday_diff (weekday_new (u32 (ps_wd s))) Monday)) s;
       Some (True, s) }
     else Some (computed, s))"

definition resolve_day_of_year :: "parse_state \<Rightarrow> parse_state option" where
  "resolve_day_of_year s =
    (if ps_j s \<noteq> not_a_doy \<and> ps_Y s \<noteq> not_a_year then do {
       s \<leftarrow> agree_month_day (ymd_from_days
         (ymd_to_days (ym_div_int (year_div_int (year_new (ps_Y s)) 1) 1) + (ps_j s - 1))) s;
       Some (s\<lparr>ps_j := not_a_doy\<rparr>) }
     else Some s)"

text \<open>A complete date has one weekday; unless it was computed from a week, it must lie in the weeks read.\<close>

definition check_iso_week :: "int \<Rightarrow> parse_state \<Rightarrow> bool" where
  "check_iso_week sd s = (ps_G s = not_a_year \<and> ps_V s = not_a_week_num \<or> (let
     y0 = ymd_year (ymd_from_days (sd + 3));
     early = (sd < iso_year_start y0);
     G_trial = (if early then year_dec y0 else y0);
     start = (if early \<and> ps_V s \<noteq> not_a_week_num then iso_year_start G_trial else iso_year_start y0)
   in (ps_G s = not_a_year \<or> ps_G s = year_int G_trial)
    \<and> (ps_V s = not_a_week_num \<or> ps_V s = cdiv (sd - start) 7 + 1)))"

definition check_weeks :: "year_month_day \<Rightarrow> parse_state \<Rightarrow> bool" where
  "check_weeks ymd s = (check_iso_week (ymd_to_days ymd) s
     \<and> (ps_U s = not_a_week_num \<or> ps_U s = (ymd_to_days ymd - sunday_start (ymd_year ymd)) div 7 + 1)
     \<and> (ps_W s = not_a_week_num \<or> ps_W s = (ymd_to_days ymd - monday_start (ymd_year ymd)) div 7 + 1))"

definition resolve_weekday :: "bool \<Rightarrow> year_month_day \<Rightarrow> parse_state \<Rightarrow> parse_state option" where
  "resolve_weekday computed ymd s =
    (if \<not> ymd_ok ymd then Some s
     else let wd = weekday_diff (weekday_of_days (ymd_to_days ymd)) Sunday in do {
       require_that (ps_wd s = not_a_weekday \<or> ps_wd s = wd);
       require_that (computed \<or> check_weeks ymd s);
       Some (s\<lparr>ps_wd := wd\<rparr>) })"

definition resolve_date :: "parse_state \<Rightarrow> (year_month_day \<times> parse_state) option" where
  "resolve_date s = do {
     s \<leftarrow> resolve_years s;
     (computed, s) \<leftarrow> resolve_iso_week s;
     (computed, s) \<leftarrow> resolve_sunday_week computed s;
     (computed, s) \<leftarrow> resolve_monday_week computed s;
     s \<leftarrow> resolve_day_of_year s;
     let ymd = ym_div_int (year_div_int (year_new (ps_Y s)) (ps_m s)) (ps_d s);
     s \<leftarrow> resolve_weekday computed ymd s;
     Some (ymd, s)
   }"

text \<open>An hour of the 12-hour clock with its half of the day gives the hour.\<close>

definition resolve_hours :: "parse_state \<Rightarrow> int option" where
  "resolve_hours s = (let I = ps_I s; p = ps_p s; H = ps_H s in
     if I = not_a_hour_12_value then Some H
     else if \<not> (1 \<le> I \<and> I \<le> 12) then None
     else if p \<noteq> not_a_ampm then
       let I' = I + (if I = 12 then p - 1 else p) * 12 in
       if H = not_a_hour then Some I' else if I' \<noteq> H then None else Some H
     else if H \<noteq> not_a_hour then
       if I = 12 then if H \<noteq> 0 \<and> H \<noteq> 12 then None else Some H
       else if \<not> (I = H \<or> I = H + 12) then None else Some H
     else None)"

definition resolve_tod :: "nat \<Rightarrow> parse_state \<Rightarrow> int \<Rightarrow> date_fields \<Rightarrow> date_fields" where
  "resolve_tod N s H fds = (let
     f1 = (if H = not_a_hour then fds else fds\<lparr>fd_has_tod := True, fd_tod := hh_mm_ss_new N (H * 3600 * int N)\<rparr>);
     f2 = (if ps_M s = not_a_minute then f1 else f1\<lparr>fd_has_tod := True, fd_tod := (fd_tod f1)\<lparr>tod_m := ps_M s\<rparr>\<rparr>);
     f3 = (if ps_s s = not_a_second then f2
           else f2\<lparr>fd_has_tod := True, fd_tod := (fd_tod f2)\<lparr>tod_s := decimal_format_seconds_new N (ps_s s)\<rparr>\<rparr>);
     f4 = (if ps_j s = not_a_doy then f3
           else f3\<lparr>fd_has_tod := True, fd_tod := (fd_tod f3)\<lparr>tod_h := tod_h (fd_tod f3) + 24 * ps_j s\<rparr>\<rparr>)
   in if ps_wd s = not_a_weekday then f4 else f4\<lparr>fd_wd := weekday_new (u32 (ps_wd s))\<rparr>)"

section \<open>The overloads\<close>

text \<open>What \<^verbatim>\<open>from_stream\<close> assigns: the fields and, when the caller asks for them, the abbreviation and the offset.\<close>

record parse_result =
  pr_fields :: date_fields
  pr_abbrev :: string
  pr_offset :: int

definition from_stream :: "input_facets \<Rightarrow> nat \<Rightarrow> string \<Rightarrow> parse_result \<Rightarrow> istream \<Rightarrow> parse_result \<times> istream" where
  "from_stream F N fmt r is0 =
    (if \<not> is_good is0 then (r, is0\<lparr>is_fail := True\<rparr>)
     else let s = snd (run_state parse_rest (parse_loop F N (c_str fmt) (parse_state_new is0)));
       is1 = istream.truncate s in
       if is_fail s then (r, is1)
       else case resolve_date s of
         None \<Rightarrow> (r, is1\<lparr>is_fail := True\<rparr>)
       | Some (ymd, s) \<Rightarrow> let fds = (pr_fields r)\<lparr>fd_ymd := ymd\<rparr> in
           (case resolve_hours s of
              None \<Rightarrow> (r\<lparr>pr_fields := fds\<rparr>, is1\<lparr>is_fail := True\<rparr>)
            | Some H \<Rightarrow> (\<lparr>pr_fields = resolve_tod N s H fds, pr_abbrev = ps_abbrev s,
                pr_offset = (if ps_offset s = not_a_offset then pr_offset r else ps_offset s)\<rparr>, is1)))"

definition parse_result_new :: "nat \<Rightarrow> parse_result" where
  "parse_result_new N = \<lparr>pr_fields = date_fields_new N, pr_abbrev = [], pr_offset = 0\<rparr>"

text \<open>The overloads assign their value only when the stream has not failed and the fields are valid for it.\<close>

definition from_stream_checked :: "input_facets \<Rightarrow> nat \<Rightarrow> string \<Rightarrow> parse_result \<Rightarrow> (date_fields \<Rightarrow> bool) \<Rightarrow>
    (parse_result \<Rightarrow> 'a) \<Rightarrow> istream \<Rightarrow> 'a option \<times> istream" where
  "from_stream_checked F N fmt r valid val is0 = (case from_stream F N fmt r is0 of (r, is1) \<Rightarrow>
     let fail = (is_fail is1 \<or> \<not> valid (pr_fields r)) in
     (if fail then None else Some (val r), is1\<lparr>is_fail := fail\<rparr>))"

definition from_stream_year :: "input_facets \<Rightarrow> string \<Rightarrow> istream \<Rightarrow> year option \<times> istream" where
  "from_stream_year F fmt = from_stream_checked F 1 fmt (parse_result_new 1)
     (\<lambda>f. year_ok (ymd_year (fd_ymd f))) (\<lambda>r. ymd_year (fd_ymd (pr_fields r)))"

definition from_stream_month :: "input_facets \<Rightarrow> string \<Rightarrow> istream \<Rightarrow> month option \<times> istream" where
  "from_stream_month F fmt = from_stream_checked F 1 fmt (parse_result_new 1)
     (\<lambda>f. month_ok (ymd_month (fd_ymd f))) (\<lambda>r. ymd_month (fd_ymd (pr_fields r)))"

definition from_stream_day :: "input_facets \<Rightarrow> string \<Rightarrow> istream \<Rightarrow> day option \<times> istream" where
  "from_stream_day F fmt = from_stream_checked F 1 fmt (parse_result_new 1)
     (\<lambda>f. day_ok (ymd_day (fd_ymd f))) (\<lambda>r. ymd_day (fd_ymd (pr_fields r)))"

definition from_stream_weekday :: "input_facets \<Rightarrow> string \<Rightarrow> istream \<Rightarrow> weekday option \<times> istream" where
  "from_stream_weekday F fmt = from_stream_checked F 1 fmt (parse_result_new 1)
     (\<lambda>f. weekday_ok (fd_wd f)) (\<lambda>r. fd_wd (pr_fields r))"

definition from_stream_year_month :: "input_facets \<Rightarrow> string \<Rightarrow> istream \<Rightarrow> year_month option \<times> istream" where
  "from_stream_year_month F fmt = from_stream_checked F 1 fmt (parse_result_new 1)
     (\<lambda>f. month_ok (ymd_month (fd_ymd f)))
     (\<lambda>r. year_div_month (ymd_year (fd_ymd (pr_fields r))) (ymd_month (fd_ymd (pr_fields r))))"

definition from_stream_month_day :: "input_facets \<Rightarrow> string \<Rightarrow> istream \<Rightarrow> month_day option \<times> istream" where
  "from_stream_month_day F fmt = from_stream_checked F 1 fmt (parse_result_new 1)
     (\<lambda>f. month_ok (ymd_month (fd_ymd f)) \<and> day_ok (ymd_day (fd_ymd f)))
     (\<lambda>r. month_div_day (ymd_month (fd_ymd (pr_fields r))) (ymd_day (fd_ymd (pr_fields r))))"

definition from_stream_ymd :: "input_facets \<Rightarrow> string \<Rightarrow> istream \<Rightarrow> year_month_day option \<times> istream" where
  "from_stream_ymd F fmt = from_stream_checked F 1 fmt (parse_result_new 1)
     (\<lambda>f. ymd_ok (fd_ymd f)) (\<lambda>r. fd_ymd (pr_fields r))"

text \<open>
  Time points and durations: the offset read is taken off, a local time has none. The sums and the next tick, which
  the rounding looks at, are kept in the 64 bits of a count.
\<close>

definition round_count :: "nat \<Rightarrow> int \<Rightarrow> exn + int" where
  "round_count N c = bindR (rep64 (c * int N div precision N + 1)) (\<lambda>_. Inr (round_ratio (c * int N) (precision N)))"

definition from_stream_count :: "input_facets \<Rightarrow> nat \<Rightarrow> string \<Rightarrow> parse_result \<Rightarrow> (date_fields \<Rightarrow> bool) \<Rightarrow>
    (parse_result \<Rightarrow> exn + int) \<Rightarrow> istream \<Rightarrow> exn + int option \<times> istream" where
  "from_stream_count F N fmt r valid val is0 = (case from_stream_checked F N fmt r valid val is0 of
     (None, is1) \<Rightarrow> Inr (None, is1) | (Some t, is1) \<Rightarrow> bindR t (\<lambda>t. Inr (Some t, is1)))"

definition from_stream_sys :: "input_facets \<Rightarrow> nat \<Rightarrow> string \<Rightarrow> istream \<Rightarrow> exn + int option \<times> istream" where
  "from_stream_sys F N fmt = from_stream_count F N fmt
     ((parse_result_new N)\<lparr>pr_fields := (date_fields_new N)\<lparr>fd_has_tod := True\<rparr>\<rparr>)
     (\<lambda>f. ymd_ok (fd_ymd f) \<and> tod_in_conventional_range N (fd_tod f))
     (\<lambda>r. bindR (rep64 ((ymd_to_days (fd_ymd (pr_fields r)) * 86400 - pr_offset r * 60) * precision N)) (\<lambda>start.
        bindR (rep64 (start + tod_to_duration N (fd_tod (pr_fields r)))) (round_count N)))"

definition from_stream_local :: "input_facets \<Rightarrow> nat \<Rightarrow> string \<Rightarrow> istream \<Rightarrow> exn + int option \<times> istream" where
  "from_stream_local F N fmt = from_stream_count F N fmt
     ((parse_result_new N)\<lparr>pr_fields := (date_fields_new N)\<lparr>fd_has_tod := True\<rparr>\<rparr>)
     (\<lambda>f. ymd_ok (fd_ymd f) \<and> tod_in_conventional_range N (fd_tod f))
     (\<lambda>r. bindR (rep64 (ymd_to_days (fd_ymd (pr_fields r)) * 86400 * precision N)) (\<lambda>start.
        bindR (rep64 (start + tod_to_duration N (fd_tod (pr_fields r)))) (round_count N)))"

definition from_stream_duration :: "input_facets \<Rightarrow> nat \<Rightarrow> string \<Rightarrow> istream \<Rightarrow> exn + int option \<times> istream" where
  "from_stream_duration F N fmt = from_stream_count F N fmt (parse_result_new N) fd_has_tod
     (\<lambda>r. round_count N (tod_to_duration N (fd_tod (pr_fields r))))"

end
