(* ===== verification/Calendar_Text.thy ===== *)
theory Calendar_Text
  imports Calendar_Parse
begin

text \<open>
  Dates and time points as texts: what the formatting writes is read back by the parsing, with the same
  format. The lemmas run the two loops on texts made of numbers of a fixed width (\<open>digits\<close>), whatever follows.
\<close>

section \<open>Padded numbers\<close>

lemma length_dec_string: "0 < w \<Longrightarrow> n < 10 ^ w \<Longrightarrow> length (dec_string n) \<le> w"
proof (induction n arbitrary: w rule: dec_string.induct)
  case (1 n)
  show ?case
  proof (cases "n < 10")
    case True
    then show ?thesis using 1 by (subst dec_string.simps) simp
  next
    case False
    with 1(3) obtain v where w: "w = Suc v" "0 < v" by (cases w; cases "w - 1") auto
    with 1(3) have "n div 10 < 10 ^ v" by (simp add: less_mult_imp_div_less mult.commute)
    with 1(1) [OF False w(2)] False w show ?thesis by (subst dec_string.simps) simp
  qed
qed

definition digits :: "nat \<Rightarrow> int \<Rightarrow> string" where
  "digits w n = pad w CHR ''0'' (to_string n)"

lemma digits_value_replicate: "digits_value (replicate k CHR ''0'' @ s) = digits_value s"
  by (induction k) (simp_all add: digits_value_def digit_value_def code_of_def)

lemma digits:
  assumes "0 < w" "0 \<le> n" "n < 10 ^ w"
  shows "length (digits w n) = w" "list_all is_digit (digits w n)" "digits_value (digits w n) = nat n"
proof -
  from assms(2,3) have "nat n < 10 ^ w" by (simp add: nat_less_iff)
  with assms(1) have l: "length (dec_string (nat n)) \<le> w" by (rule length_dec_string)
  show "length (digits w n) = w" "list_all is_digit (digits w n)" "digits_value (digits w n) = nat n"
    using l assms(2) dec_string_digits [of "nat n"]
    by (auto simp: digits_def pad_def to_string_def digits_value_replicate list_all_iff is_digit_def code_of_def)
qed

lemma digits_Cons:
  assumes "0 < w" "0 \<le> n" "n < 10 ^ w"
  obtains c cs where "digits w n = c # cs" "is_digit c"
  using digits(1,2) [OF assms] assms(1) by (cases "digits w n") auto

section \<open>Reading padded numbers\<close>

lemma foldl_digits: "foldl (\<lambda>a c. a * 10 + digit_value c) a ds = a * 10 ^ length ds + digits_value ds"
proof (induction ds arbitrary: a)
  case (Cons c ds)
  have "digits_value (c # ds) = digit_value c * 10 ^ length ds + digits_value ds"
    using Cons [of "digit_value c"] by (simp add: digits_value_def)
  with Cons [of "a * 10 + digit_value c"] show ?case by (simp add: algebra_simps)
qed (simp add: digits_value_def)

lemma digit_value_less: "is_digit c \<Longrightarrow> digit_value c < 10"
  unfolding is_digit_def digit_value_def by linarith

lemma digits_value_less: "list_all is_digit ds \<Longrightarrow> digits_value ds < 10 ^ length ds"
proof (induction ds rule: rev_induct)
  case (snoc c ds)
  then show ?case using digit_value_less [of c] by (simp add: digits_value_append)
qed (simp add: digits_value_def)

lemma read_digits_append:
  assumes "list_all is_digit ds" "ds \<noteq> []" "count + length ds \<le> M" "a * 10 ^ length ds + digits_value ds < 4294967296"
  shows "read_digits M count (int a) (ds @ rest) =
    (if count + length ds = M then (int (a * 10 ^ length ds + digits_value ds), M, rest, False)
     else read_digits M (count + length ds) (int (a * 10 ^ length ds + digits_value ds)) rest)"
  using assms
proof (induction ds arbitrary: count a)
  case (Cons c ds)
  have v: "a * 10 ^ length (c # ds) + digits_value (c # ds) = (10 * a + digit_value c) * 10 ^ length ds + digits_value ds"
    using foldl_digits [of "digit_value c" ds] by (simp add: digits_value_def algebra_simps)
  have "10 * a + digit_value c \<le> (10 * a + digit_value c) * 10 ^ length ds" by simp
  then have "10 * a + digit_value c < 4294967296" using Cons.prems(4) unfolding v by linarith
  then have u: "u32 (10 * int a + int (digit_value c)) = int (10 * a + digit_value c)" by simp
  show ?case
  proof (cases "ds = []")
    case True
    with Cons.prems u show ?thesis by (auto simp: digits_value_def algebra_simps)
  next
    case False
    have "read_digits M (Suc count) (int (10 * a + digit_value c)) (ds @ rest) =
      (if Suc count + length ds = M then (int ((10 * a + digit_value c) * 10 ^ length ds + digits_value ds), M, rest, False)
       else read_digits M (Suc count + length ds) (int ((10 * a + digit_value c) * 10 ^ length ds + digits_value ds)) rest)"
      by (rule Cons.IH) (use Cons.prems False v in auto)
    moreover have "Suc count \<noteq> M" using Cons.prems(3) False by (cases ds) auto
    ultimately show ?thesis using Cons.prems u v by (simp add: Let_def)
  qed
qed simp

lemma read_digits_digits:
  assumes "0 < w" "w \<le> 9" "0 \<le> n" "n < 10 ^ w"
  shows "read_digits w 0 0 (digits w n @ rest) = (n, w, rest, False)"
proof -
  note d = digits [OF assms(1,3,4)]
  have "(10 :: nat) ^ w \<le> 10 ^ 9" by (rule power_increasing) (use assms in auto)
  then have "digits_value (digits w n) < 4294967296" using digits_value_less [OF d(2)] d(1) by simp
  then show ?thesis using read_digits_append [of "digits w n" 0 w 0 rest] d assms
    by (cases "digits w n = []") auto
qed

text \<open>A field of \<open>w\<close> digits is read back, whatever follows.\<close>

lemma run_read_unsigned [simp]:
  assumes "0 < w" "w \<le> 9" "0 \<le> n" "n < 10 ^ w" "m \<le> w"
  shows "run_state (read_unsigned m w) \<lparr>is_text = digits w n @ rest, is_eof = False, is_fail = False, \<dots> = z\<rparr>
    = (n, \<lparr>is_text = rest, is_eof = False, is_fail = False, \<dots> = z\<rparr>)"
  using read_digits_digits [OF assms(1-4)] assms(5) by (simp add: read_unsigned_def is_good_def)

lemma s32_small: "0 \<le> n \<Longrightarrow> n < 10 ^ w \<Longrightarrow> w \<le> 9 \<Longrightarrow> s32 n = n"
proof -
  assume n: "0 \<le> n" "n < 10 ^ w" and "w \<le> 9"
  then have "(10 :: int) ^ w \<le> 10 ^ 9" by (intro power_increasing) auto
  with n show "s32 n = n" by simp
qed

lemma run_read_ru [simp]:
  assumes "0 < w" "w \<le> 9" "0 \<le> n" "n < 10 ^ w" "m \<le> w"
  shows "run_state (read_ru old m w) \<lparr>is_text = digits w n @ rest, is_eof = False, is_fail = False, \<dots> = z\<rparr>
    = (n, \<lparr>is_text = rest, is_eof = False, is_fail = False, \<dots> = z\<rparr>)"
  using assms by (simp add: read_ru_def unless_fail_def s32_small)

lemma run_read_rs [simp]:
  assumes "0 < w" "w \<le> 9" "0 \<le> n" "n < 10 ^ w" "m \<le> w"
  shows "run_state (read_rs old m w) \<lparr>is_text = digits w n @ rest, is_eof = False, is_fail = False, \<dots> = z\<rparr>
    = (n, \<lparr>is_text = rest, is_eof = False, is_fail = False, \<dots> = z\<rparr>)"
proof -
  obtain c cs where c: "digits w n = c # cs" "is_digit c" using digits_Cons [OF assms(1,3,4)] .
  then have "run_state (read_unsigned (max m 1) w) \<lparr>is_text = c # cs @ rest, is_eof = False, is_fail = False, \<dots> = z\<rparr>
    = (n, \<lparr>is_text = rest, is_eof = False, is_fail = False, \<dots> = z\<rparr>)"
    using run_read_unsigned [OF assms(1-4), of "max m 1" rest z] assms by simp
  with c assms show ?thesis
    by (simp add: read_rs_def unless_fail_def read_signed_def peek_def is_good_def s32_small digit_not_sign)
qed

lemma run_read_chr [simp]:
  "c \<noteq> CHR 0x00 \<Longrightarrow> run_state (read_chr c) \<lparr>is_text = c # rest, is_eof = False, is_fail = False, \<dots> = z\<rparr>
    = ((), \<lparr>is_text = rest, is_eof = False, is_fail = False, \<dots> = z\<rparr>)"
  by (simp add: read_chr_def unless_fail_def peek_def is_good_def get_char_def)

text \<open>The decimals of a second: two digits, the decimal point and \<open>k\<close> digits.\<close>

definition add_digits :: "bool \<Rightarrow> int \<times> int \<times> nat \<Rightarrow> string \<Rightarrow> int \<times> int \<times> nat" where
  "add_digits fraction v ds = (case v of (i, f, k) \<Rightarrow>
     if fraction then (i, f * 10 ^ length ds + int (digits_value ds), k + length ds)
     else (i * 10 ^ length ds + int (digits_value ds), f, k))"

lemma digits_value_Cons: "digits_value (c # ds) = digit_value c * 10 ^ length ds + digits_value ds"
  using foldl_digits [of "digit_value c" ds] by (simp add: digits_value_def)

lemma step_mod:
  assumes "0 \<le> (a :: int)" "a * 10 ^ length (c # ds) + int (digits_value (c # ds)) < 2 ^ 64"
  shows "(10 * a + int (digit_value c)) mod 2 ^ 64 = 10 * a + int (digit_value c)"
proof -
  define v where "v = 10 * a + int (digit_value c)"
  have v: "0 \<le> v" using assms(1) by (simp add: v_def)
  then have "v \<le> v * 10 ^ length ds" using mult_left_mono [of 1 "10 ^ length ds" v] by simp
  moreover have "a * 10 ^ length (c # ds) + int (digits_value (c # ds)) = v * 10 ^ length ds + int (digits_value ds)"
    by (simp add: v_def digits_value_Cons algebra_simps)
  ultimately have "v < 2 ^ 64" using assms(2) by linarith
  with v show ?thesis unfolding v_def [symmetric] by (rule mod_pos_pos_trivial)
qed

lemma read_decimal_append:
  assumes "list_all is_digit ds" "ds \<noteq> []" "count + length ds \<le> M" "\<not> is_digit p" "0 \<le> i" "0 \<le> f"
    and "(if fraction then f else i) * 10 ^ length ds + int (digits_value ds) < 2 ^ 64"
  shows "read_decimal p M fraction count (i, f, k) (ds @ rest) =
    (if count + length ds = M then (add_digits fraction (i, f, k) ds, M, rest, False)
     else read_decimal p M fraction (count + length ds) (add_digits fraction (i, f, k) ds) rest)"
  using assms
proof (induction ds arbitrary: count i f k)
  case (Cons c ds)
  define i' f' k' where "i' = (if fraction then i else 10 * i + int (digit_value c))"
    and "f' = (if fraction then 10 * f + int (digit_value c) else f)" and "k' = (if fraction then Suc k else k)"
  have c: "is_digit c" "c \<noteq> p" using Cons.prems by auto
  have m: "(10 * (if fraction then f else i) + int (digit_value c)) mod 2 ^ 64 = 10 * (if fraction then f else i) + int (digit_value c)"
    by (rule step_mod) (use Cons.prems in auto)
  then have one: "read_decimal p M fraction count (i, f, k) ((c # ds) @ rest) =
      (if Suc count = M then ((i', f', k'), Suc count, ds @ rest, False)
       else read_decimal p M fraction (Suc count) (i', f', k') (ds @ rest))"
    using c by (simp add: i'_def f'_def k'_def Let_def split: if_splits)
  have v: "(if fraction then f' else i') * 10 ^ length ds + int (digits_value ds)
      = (if fraction then f else i) * 10 ^ length (c # ds) + int (digits_value (c # ds))"
    by (simp add: i'_def f'_def digits_value_Cons algebra_simps)
  have a: "add_digits fraction (i', f', k') ds = add_digits fraction (i, f, k) (c # ds)"
    by (simp add: add_digits_def i'_def f'_def k'_def digits_value_Cons algebra_simps)
  show ?case
  proof (cases "ds = []")
    case True
    with one a Cons.prems(3) show ?thesis by (auto simp: add_digits_def digits_value_def split: if_splits)
  next
    case False
    have "read_decimal p M fraction (Suc count) (i', f', k') (ds @ rest) =
      (if Suc count + length ds = M then (add_digits fraction (i', f', k') ds, M, rest, False)
       else read_decimal p M fraction (Suc count + length ds) (add_digits fraction (i', f', k') ds) rest)"
      by (rule Cons.IH) (use Cons.prems False v in \<open>auto simp: i'_def f'_def\<close>)
    moreover have "Suc count \<noteq> M" using Cons.prems(3) False by (cases ds) auto
    ultimately show ?thesis unfolding one using a by simp
  qed
qed simp

text \<open>The text of the seconds with \<open>k\<close> decimals.\<close>

definition seconds_text :: "char \<Rightarrow> nat \<Rightarrow> int \<Rightarrow> int \<Rightarrow> string" where
  "seconds_text p k s f = digits 2 s @ (if k = 0 then [] else p # digits k f)"

lemma read_decimal_seconds:
  assumes "\<not> is_digit p" "k < 19" "0 \<le> s" "s < 100" "0 \<le> f" "f < 10 ^ k"
  shows "read_decimal p (if k = 0 then 2 else 3 + k) False 0 (0, 0, 0) (seconds_text p k s f @ rest)
    = ((s, if k = 0 then 0 else f, k), if k = 0 then 2 else 3 + k, rest, False)"
proof (cases "k = 0")
  case True
  have "digits 2 s \<noteq> []" using digits(1) [of 2 s] assms by auto
  with True show ?thesis using read_decimal_append [of "digits 2 s" 0 2 p 0 0 False 0 rest] digits [of 2 s] assms
    by (simp add: seconds_text_def add_digits_def numeral_2_eq_2)
next
  case False
  then have k: "0 < k" by simp
  have "(10 :: int) ^ k \<le> 10 ^ 18" by (rule power_increasing) (use assms in auto)
  then have f: "f < 2 ^ 64" using assms(6) by simp
  have ne: "digits 2 s \<noteq> []" "digits k f \<noteq> []" using digits(1) [of 2 s] digits(1) [of k f] assms k by auto
  have "read_decimal p (3 + k) False 0 (0, 0, 0) (digits 2 s @ p # digits k f @ rest)
      = read_decimal p (3 + k) False 2 (s, 0, 0) (p # digits k f @ rest)"
    using read_decimal_append [of "digits 2 s" 0 "3 + k" p 0 0 False 0 "p # digits k f @ rest"] ne digits [of 2 s] assms
    by (simp add: add_digits_def numeral_2_eq_2)
  also have "\<dots> = read_decimal p (3 + k) True 3 (s, 0, 0) (digits k f @ rest)" using k by simp
  also have "\<dots> = ((s, f, k), 3 + k, rest, False)"
    using read_decimal_append [of "digits k f" 3 "3 + k" p s 0 True 0 rest] ne digits [of k f] assms k f
    by (simp add: add_digits_def)
  finally show ?thesis using False by (simp add: seconds_text_def)
qed

section \<open>Runs of the formatting and the parsing\<close>

lemma ymd_parts:
  assumes "ymd_ok x"
  shows "1 \<le> month_unsigned (ymd_month x)" "month_unsigned (ymd_month x) \<le> 12"
    "1 \<le> day_unsigned (ymd_day x)" "day_unsigned (ymd_day x) \<le> 31"
  using assms days_in_month_range [of "month_unsigned (ymd_month x)" "year_int (ymd_year x)"]
  by (auto simp: ymd_ok_civil int_of_ymd_def civil_def)

lemmas fmt_run = date_format_def to_stream_def to_stream_ymd_def fields_of_ymd_def date_fields_new_def c_str_def ostream.defs
  fmt_step_def fmt_percent_def fmt_other_def conversion_def go_on_def clear_command_def plain_only_def not_E_def not_O_def
  os_put_def os_put_classic_def os_put_num_def os_require_def modified_text_def

lemmas not_a_defs = not_a_year_def not_a_2digit_year_def not_a_century_def not_a_month_def not_a_day_def not_a_hour_def
  not_a_hour_12_value_def not_a_minute_def not_a_second_def not_a_doy_def not_a_weekday_def not_a_week_num_def
  not_a_ampm_def not_a_offset_def

lemmas parse_run = from_stream_ymd_def from_stream_checked_def from_stream_def is_good_def parse_result_new_def
  date_fields_new_def c_str_def istream.defs parse_state_new_def parse_rest_def parse_step_def parse_percent_def
  parse_other_def parse_conversion_def end_command_def begins_width_def width_or_def checked_set_def
  plain_only_def not_E_def not_O_def not_a_defs

lemma format_chars [simp]:
  "is_space CHR '' ''" "\<not> is_space CHR ''-''" "\<not> is_space CHR ''W''"
  "\<not> is_digit CHR ''F''" "\<not> is_digit CHR ''T''" "\<not> is_digit CHR ''%''" "\<not> is_digit CHR '' ''"
  by (simp_all add: is_digit_def is_space_def code_of_def)

definition istream_new :: "string \<Rightarrow> istream" where
  "istream_new t = \<lparr>is_text = t, is_eof = False, is_fail = False\<rparr>"

text \<open>The state at the end of the format.\<close>

definition parsed :: "input_facets \<Rightarrow> nat \<Rightarrow> string \<Rightarrow> string \<Rightarrow> parse_state" where
  "parsed F N fmt t = snd (run_state parse_rest (parse_loop F N (c_str fmt) (parse_state_new (istream_new t))))"

lemma resolve_tod_ymd [simp]: "fd_ymd (resolve_tod N s H fds) = fd_ymd fds"
  by (simp add: resolve_tod_def Let_def)

lemma from_stream_parsed:
  assumes "\<not> is_fail (parsed F N fmt t)" "resolve_date (parsed F N fmt t) = Some (x, s)" "resolve_hours s = Some H"
  shows "from_stream F N fmt r (istream_new t) =
    (\<lparr>pr_fields = resolve_tod N s H ((pr_fields r)\<lparr>fd_ymd := x\<rparr>), pr_abbrev = ps_abbrev s,
      pr_offset = (if ps_offset s = not_a_offset then pr_offset r else ps_offset s)\<rparr>, istream.truncate (parsed F N fmt t))"
proof -
  have "is_good (istream_new t)" by (simp add: is_good_def istream_new_def)
  with assms show ?thesis unfolding from_stream_def parsed_def [symmetric] by (simp add: Let_def)
qed

lemma ymd_parsed:
  assumes "\<not> is_fail (parsed F 1 fmt t)" "resolve_date (parsed F 1 fmt t) = Some (x, s)" "resolve_hours s = Some H"
    and "ymd_ok x"
  shows "from_stream_ymd F fmt (istream_new t) = (Some x, istream.truncate (parsed F 1 fmt t))"
  unfolding from_stream_ymd_def from_stream_checked_def from_stream_parsed [OF assms(1-3)]
  using assms(1,4) by (simp add: Let_def istream.defs)

lemma parsed_iso_date:
  assumes "0 \<le> Y" "Y \<le> 9999" "0 \<le> m" "m \<le> 99" "0 \<le> d" "d \<le> 99"
  shows "parsed F N ''%F'' (digits 4 Y @ CHR ''-'' # digits 2 m @ CHR ''-'' # digits 2 d @ rest)
    = (parse_state_new (istream_new rest))\<lparr>ps_Y := Y, ps_m := m, ps_d := d\<rparr>"
  using assms by (simp add: parsed_def parse_run istream_new_def parse_iso_date_def set_Y_def set_m_def set_d_def)


lemma iso_date_text:
  "ymd_ok x \<Longrightarrow> date_format (to_stream_ymd L ''%F'' x) = Inr (digits 4 (year_int (ymd_year x)) @ CHR ''-''
    # digits 2 (month_unsigned (ymd_month x)) @ CHR ''-'' # digits 2 (day_unsigned (ymd_day x)))"
  by (simp add: fmt_run fmt_iso_date_def digits_def)

lemma truncate_parsed [simp]: "istream.truncate ((parse_state_new i)\<lparr>ps_Y := Y, ps_m := m, ps_d := d\<rparr>) = i"
  by (simp add: parse_state_new_def istream.defs)

lemma u32_field [simp]: "u32 (month_unsigned m) = month_unsigned m" "u32 (day_unsigned d) = day_unsigned d"
proof -
  have b: "uint w < 256" for w :: "8 word" using uint_lt2p [of w] by simp
  show "u32 (month_unsigned m) = month_unsigned m" by (cases m) (rule u32_id, use b in \<open>simp_all add: less_trans [OF b]\<close>)
  show "u32 (day_unsigned d) = day_unsigned d" by (cases d) (rule u32_id, use b in \<open>simp_all add: less_trans [OF b]\<close>)
qed

lemma compose_ymd [simp]:
  "ym_div_int (year_div_int (ymd_year x) (month_unsigned (ymd_month x))) (day_unsigned (ymd_day x)) = x"
  by (cases x) (simp add: slash_defs)

lemma resolve_plain_date:
  assumes "ymd_ok x" "ps_Y s = year_int (ymd_year x)" "ps_m s = month_unsigned (ymd_month x)" "ps_d s = day_unsigned (ymd_day x)"
    and "ps_y s = not_a_2digit_year" "ps_g s = not_a_2digit_year" "ps_G s = not_a_year" "ps_V s = not_a_week_num"
    "ps_U s = not_a_week_num" "ps_W s = not_a_week_num" "ps_j s = not_a_doy" "ps_wd s = not_a_weekday"
  shows "resolve_date s = Some (x, s\<lparr>ps_wd := weekday_diff (weekday_of_days (ymd_to_days x)) Sunday\<rparr>)"
proof -
  have y: "\<not> year_int (ymd_year x) < year_int year_min" "\<not> year_int year_max < year_int (ymd_year x)"
    using assms(1) by (auto simp: ymd_ok_def ok_year year_min_def year_max_def)
  have e: "s\<lparr>ps_C := ps_C s, ps_G := not_a_year, ps_Y := year_int (ymd_year x)\<rparr> = s"
    using assms(2,7) by (cases s) simp
  have "resolve_years s = Some s"
    using y e assms by (simp add: resolve_years_def join_century_def)
  with assms show ?thesis
    by (simp add: resolve_date_def resolve_iso_week_def resolve_sunday_week_def resolve_monday_week_def
        resolve_day_of_year_def resolve_weekday_def require_that_def check_weeks_def check_iso_week_def Let_def)
qed

text \<open>
  Dates as texts. A valid date of the years 0 to 9999 written in the form \<^verbatim>\<open>%F\<close>, in any locale, is read
  back by it, whatever follows it, and what follows is left to be read.
\<close>

theorem date_text_roundtrip:
  assumes "ymd_ok x" "0 \<le> year_int (ymd_year x)" "year_int (ymd_year x) \<le> 9999"
  shows "\<exists>t. date_format (to_stream_ymd L ''%F'' x) = Inr t
    \<and> from_stream_ymd F ''%F'' (istream_new (t @ rest)) = (Some x, istream_new rest)"
proof -
  let ?t = "digits 4 (year_int (ymd_year x)) @ CHR ''-'' # digits 2 (month_unsigned (ymd_month x))
    @ CHR ''-'' # digits 2 (day_unsigned (ymd_day x))"
  let ?s = "(parse_state_new (istream_new rest))\<lparr>ps_Y := year_int (ymd_year x), ps_m := month_unsigned (ymd_month x),
    ps_d := day_unsigned (ymd_day x)\<rparr>"
  note p = ymd_parts [OF assms(1)]
  have t: "date_format (to_stream_ymd L ''%F'' x) = Inr ?t"
    using assms(1) by (rule iso_date_text)
  have s: "parsed F 1 ''%F'' (?t @ rest) = ?s"
    using assms(2,3) p by (simp add: parsed_iso_date del: One_nat_def)
  have "resolve_date ?s = Some (x, ?s\<lparr>ps_wd := weekday_diff (weekday_of_days (ymd_to_days x)) Sunday\<rparr>)"
    by (rule resolve_plain_date [OF assms(1)]) (simp_all add: parse_state_new_def istream.defs)
  moreover have "\<not> is_fail ?s" "resolve_hours (?s\<lparr>ps_wd := w\<rparr>) = Some not_a_hour" for w
    by (simp_all add: parse_state_new_def istream.defs istream_new_def resolve_hours_def Let_def)
  ultimately have "from_stream_ymd F ''%F'' (istream_new (?t @ rest)) = (Some x, istream_new rest)"
    using ymd_parsed [of F "''%F''" "?t @ rest"] assms(1) unfolding s truncate_parsed by blast
  with t show ?thesis by blast
qed


section \<open>Time points\<close>

lemma cdiv_pos:
  assumes "0 < (b :: int)"
  shows "cdiv a b = (if a < 0 \<and> a mod b \<noteq> 0 then a div b + 1 else a div b)"
proof (cases "a < 0")
  case True
  then have "cdiv a b = - (- a div b)" using assms by (simp add: cdiv_def sgn_if)
  also have "\<dots> = (if a mod b = 0 then a div b else a div b + 1)" by (simp add: zdiv_zminus1_eq_if assms less_imp_neq [symmetric])
  finally show ?thesis using True by simp
qed (use assms in \<open>simp add: cdiv_nonneg\<close>)

text \<open>A time point is split into its day and the time of that day, before the epoch as well.\<close>

lemma rep64_ok: "- (2 ^ 63) \<le> c \<Longrightarrow> c < 2 ^ 63 \<Longrightarrow> rep64 c = Inr c"
  by (simp add: rep64_def)

text \<open>The ticks of a day and the start of the day of a time point are counts that fit.\<close>

definition day_fits :: "int \<Rightarrow> int \<Rightarrow> bool" where
  "day_fits D tp \<longleftrightarrow> D < 2 ^ 63 \<and> - (2 ^ 63) \<le> tp div D * D \<and> tp < 2 ^ 63 \<and> - 2000000000 \<le> tp div D \<and> tp div D < 2000000000"

lemma fields_of_time:
  assumes "0 < N" "day_fits (86400 * int N) tp"
  shows "fields_of_time N tp = Inr (fields_of_ymd_tod N (ymd_from_days (tp div (86400 * int N))) (hh_mm_ss_new N (tp mod (86400 * int N))))"
proof -
  define D where "D = 86400 * int N"
  have D: "0 < D" using assms by (simp add: D_def)
  note fits = assms(2) [folded D_def, unfolded day_fits_def]
  have t: "tp = tp div D * D + tp mod D" "0 \<le> tp mod D" "tp mod D < D" using D by simp_all
  show ?thesis
  proof (cases "tp < 0 \<and> tp mod D \<noteq> 0")
    case True
    then have "cdiv tp D = tp div D + 1" using cdiv_pos [OF D] by simp
    then have ld: "s32 (cdiv tp D) = tp div D + 1" using fits by simp
    have neg: "tp div D + 1 \<le> 0" using True D by (simp add: div_neg_pos_less0 add1_zle_eq)
    then have le0: "(tp div D + 1) * D \<le> 0" using D by (simp add: mult_nonpos_nonneg)
    have "(tp div D + 1) * D = tp div D * D + D" by (simp add: algebra_simps)
    then have e: "D - ((tp div D + 1) * D - tp) = tp mod D" "tp < (tp div D + 1) * D" "(tp div D + 1) * D - tp < D"
      using t True by linarith+
    define day where "day = (tp div D + 1) * D"
    note e' = e [folded day_def] and le0' = le0 [folded day_def]
    have "rep64 day = Inr day" using le0' e'(2) t fits by (intro rep64_ok) linarith+
    moreover have "rep64 D = Inr D" using D fits by (intro rep64_ok) linarith+
    moreover have "rep64 (day - tp) = Inr (day - tp)" using e'(2,3) fits by (intro rep64_ok) linarith+
    moreover have "rep64 (D - (day - tp)) = Inr (D - (day - tp))" using e'(2,3) D fits by (intro rep64_ok) linarith+
    ultimately have "rep64 day = Inr day" "rep64 D = Inr D" "rep64 (day - tp) = Inr (day - tp)"
      "rep64 (D - (day - tp)) = Inr (tp mod D)" by (simp_all only: e'(1))
    then show ?thesis using e'(2) unfolding fields_of_time_def D_def [symmetric] Let_def ld day_def [symmetric]
      by (simp only: bindR_simps not_le [symmetric] if_False e'(1))
        simp
  next
    case False
    then have "cdiv tp D = tp div D" using cdiv_pos [OF D] by auto
    then have ld: "s32 (cdiv tp D) = tp div D" using fits by simp
    have e: "tp - tp div D * D = tp mod D" "tp div D * D \<le> tp" using t by linarith+
    have "rep64 (tp div D * D) = Inr (tp div D * D)" "rep64 (tp mod D) = Inr (tp mod D)"
      by (rule rep64_ok; use fits t e D in linarith)+
    then show ?thesis using e(2) unfolding fields_of_time_def D_def [symmetric] Let_def ld
      by (simp only: bindR_simps if_True e(1))
  qed
qed

text \<open>With ticks of \<open>10 ^ -15\<close> seconds the last tick before the epoch has no fields: one day does not fit a count.\<close>

theorem day_overflows: "fields_of_time (10 ^ 15) (- 1) = Inl Undefined_behaviour"
  by (simp add: fields_of_time_def rep64_def cdiv_def)

lemma put_two_digits:
  assumes "num_put L = to_string" "0 \<le> i" "i < 100"
  shows "os_put_two L i os = (Inr (), if os_fail os then os else os\<lparr>os_text := os_text os @ digits 2 i\<rparr>)"
proof (cases "i < 10")
  case True
  then have "nat i < 10" by simp
  then have "length (to_string i) = 1" using assms(2) by (subst to_string_def, subst (2) dec_string.simps) simp
  then have "digits 2 i = ''0'' @ to_string i" by (simp add: digits_def pad_def numeral_2_eq_2)
  with True assms(1) show ?thesis by (simp add: os_put_two_def os_put_def os_put_num_def pad_def)
next
  case False
  then have "\<not> nat i < 10" by simp
  moreover have "dec_string (nat i div 10) \<noteq> []" by simp
  ultimately have "2 \<le> length (to_string i)" using assms(2) False
    by (subst to_string_def, subst (2) dec_string.simps) (auto simp: Suc_le_eq simp flip: length_greater_0_conv)
  then have "digits 2 i = to_string i" by (simp add: digits_def pad_def)
  with False assms(1) show ?thesis by (simp add: os_put_two_def os_put_def os_put_num_def pad_def)
qed


text \<open>The text of a time of day.\<close>

definition time_text :: "char \<Rightarrow> nat \<Rightarrow> int \<Rightarrow> int \<Rightarrow> int \<Rightarrow> int \<Rightarrow> string" where
  "time_text p k h m s f = digits 2 h @ CHR '':'' # digits 2 m @ CHR '':'' # seconds_text p k s f"

lemma put_tod_text:
  assumes "num_put L = to_string" "k < 19" "0 \<le> h" "h < 100" "0 \<le> m" "m < 100"
  shows "put_tod L (10 ^ k) \<lparr>tod_h = h, tod_m = m, tod_s = \<lparr>dfs_s = s, dfs_sub_s = f\<rparr>, tod_neg = False\<rparr> os
    = (Inr (), if os_fail os then os else os\<lparr>os_text := os_text os @ time_text (decimal_point L) k h m s f\<rparr>)"
  using assms by (auto simp: put_tod_def put_dfs_def put_two_digits fractional_width_pow10 os_put_num_def os_put_classic_def
      os_put_def time_text_def seconds_text_def digits_def)

lemma format_time_point:
  assumes "num_put L = to_string" "k < 19" "ymd_ok x" "0 \<le> h" "h < 100" "0 \<le> m" "m < 100"
  shows "date_format (to_stream L (10 ^ k) ''%F %T''
      (fields_of_ymd_tod (10 ^ k) x \<lparr>tod_h = h, tod_m = m, tod_s = \<lparr>dfs_s = s, dfs_sub_s = f\<rparr>, tod_neg = False\<rparr>) a b)
    = Inr (digits 4 (year_int (ymd_year x)) @ CHR ''-'' # digits 2 (month_unsigned (ymd_month x))
    @ CHR ''-'' # digits 2 (day_unsigned (ymd_day x)) @ CHR '' '' # time_text (decimal_point L) k h m s f)"
  using assms by (simp add: fmt_run fields_of_ymd_tod_def fmt_iso_date_def fmt_time_def put_tod_text digits_def)

lemma skip_digits [simp]:
  assumes "0 < w" "0 \<le> n" "n < 10 ^ w"
  shows "dropWhile is_space (digits w n @ r) = digits w n @ r" "digits w n \<noteq> []"
proof -
  obtain c cs where "digits w n = c # cs" "is_digit c" by (rule digits_Cons [OF assms])
  then show "dropWhile is_space (digits w n @ r) = digits w n @ r" "digits w n \<noteq> []" by (simp_all add: digit_not_space)
qed

lemma run_read_rld [simp]:
  assumes "\<not> is_digit p" "k < 19" "0 \<le> s" "s < 100" "0 \<le> f" "f < 10 ^ k"
  shows "run_state (read_rld p 1 (seconds_width (10 ^ k))) \<lparr>is_text = seconds_text p k s f @ rest, is_eof = False, is_fail = False, \<dots> = z\<rparr>
    = (decimal_value s f k, \<lparr>is_text = rest, is_eof = False, is_fail = False, \<dots> = z\<rparr>)"
proof -
  have w: "seconds_width (10 ^ k) = (if k = 0 then 2 else 3 + k)"
    using assms(2) by (simp add: seconds_width_def fractional_width_pow10)
  have "k = 0 \<Longrightarrow> f = 0" using assms(5,6) by simp
  with read_decimal_seconds [OF assms, of rest] show ?thesis
    by (auto simp: read_rld_def unless_fail_def read_long_double_def is_good_def w)
qed

lemma round_whole: "0 < b \<Longrightarrow> round_ratio (a * b) b = a"
  by (simp add: round_ratio_def Let_def algebra_simps)

lemma parsed_time_point:
  assumes "0 \<le> Y" "Y \<le> 9999" "0 \<le> m" "m \<le> 99" "0 \<le> d" "d \<le> 99" "0 \<le> H" "H < 100" "0 \<le> M" "M < 100"
    and "\<not> is_digit (in_decimal_point F)" "k \<le> 14" "0 \<le> s" "s < 100" "0 \<le> f" "f < 10 ^ k"
  shows "parsed F (10 ^ k) ''%F %T'' (digits 4 Y @ CHR ''-'' # digits 2 m @ CHR ''-'' # digits 2 d
      @ CHR '' '' # time_text (in_decimal_point F) k H M s f @ rest)
    = (parse_state_new (istream_new rest))\<lparr>ps_Y := Y, ps_m := m, ps_d := d, ps_H := H, ps_M := M, ps_s := s * 10 ^ k + f\<rparr>"
proof -
  have "round_seconds (10 ^ k) (decimal_value s f k) = s * 10 ^ k + f" using assms(12-16) by (rule round_decimal_value)
  moreover have "k < 19" using assms(12) by simp
  ultimately show ?thesis using assms
    by (simp add: parsed_def parse_run istream_new_def parse_iso_date_def parse_time_def set_Y_def set_m_def set_d_def
      set_H_def set_M_def set_s_def set_seconds_def skip_ws_def time_text_def del: One_nat_def)
qed


text \<open>The dates of four digits.\<close>

lemma four_digit_dates:
  assumes "- 719528 \<le> n" "n < 2932897"
  shows "ymd_ok (ymd_from_days n)" "ymd_to_days (ymd_from_days n) = n"
    and "0 \<le> year_int (ymd_year (ymd_from_days n))" "year_int (ymd_year (ymd_from_days n)) \<le> 9999"
proof -
  show ok: "ymd_ok (ymd_from_days n)" and "ymd_to_days (ymd_from_days n) = n" using ok_days [of n] assms by auto
  obtain y m d where c: "civil_of n = (y, m, d)" by (metis prod_cases3)
  have "civil 0 1 1" "civil 10000 1 1" "civil_days 0 1 1 = - 719528" "civil_days 10000 1 1 = 2932897"
    by (simp_all add: civil_def days_in_month_def ymdl_table_def civil_days_def march_first_def march_month_def month_start_def)
  then have e: "civil_of (- 719528) = (0, 1, 1)" "civil_of 2932897 = (10000, 1, 1)" using civil_of_days by fastforce+
  have cv: "civil y m d" using civil_of_civil [of n] c by simp
  have "\<not> civil_of n < civil_of (- 719528)" "civil_of n < civil_of 2932897" using assms by simp_all
  then have y: "0 \<le> y" "y \<le> 9999" unfolding e c using cv by (auto simp: civil_def)
  have md: "0 \<le> m" "m < 256" "0 \<le> d" "d < 256" using cv days_in_month_range [of m y] by (auto simp: civil_def)
  with y show "0 \<le> year_int (ymd_year (ymd_from_days n))" "year_int (ymd_year (ymd_from_days n)) \<le> 9999"
    by (simp_all add: from_days_civil c ymd_of_int_def)
qed

lemma tod_of_parts:
  assumes "k < 19" "0 \<le> r"
  shows "(hh_mm_ss_new (10 ^ k) (r div 10 ^ k div 60 div 60 * 3600 * int (10 ^ k)))
      \<lparr>tod_m := r div 10 ^ k div 60 mod 60, tod_s := decimal_format_seconds_new (10 ^ k) (r div 10 ^ k mod 60 * 10 ^ k + r mod 10 ^ k)\<rparr>
    = hh_mm_ss_new (10 ^ k) r"
proof -
  have "0 \<le> r div 10 ^ k div 60 div 60" using assms by (simp add: pos_imp_zdiv_nonneg_iff)
  then show ?thesis using assms by (simp add: tod_parts seconds_parts)
qed

lemma nonneg_is_a_time: "0 \<le> i \<Longrightarrow> i \<noteq> not_a_hour \<and> i \<noteq> not_a_minute \<and> i \<noteq> not_a_second"
  by (simp add: not_a_hour_def not_a_minute_def not_a_second_def)

lemma resolve_tod_set:
  "H \<noteq> not_a_hour \<Longrightarrow> ps_M s \<noteq> not_a_minute \<Longrightarrow> ps_s s \<noteq> not_a_second \<Longrightarrow> ps_j s = not_a_doy \<Longrightarrow>
    fd_tod (resolve_tod N s H fds) =
      (hh_mm_ss_new N (H * 3600 * int N))\<lparr>tod_m := ps_M s, tod_s := decimal_format_seconds_new N (ps_s s)\<rparr>"
  by (simp add: resolve_tod_def Let_def)

lemma resolve_tod_parts:
  assumes "k < 19" "0 \<le> r" "ps_M s = r div 10 ^ k div 60 mod 60" "ps_j s = not_a_doy"
    and "ps_s s = r div 10 ^ k mod 60 * 10 ^ k + r mod 10 ^ k"
  shows "fd_tod (resolve_tod (10 ^ k) s (r div 10 ^ k div 60 div 60) fds) = hh_mm_ss_new (10 ^ k) r"
proof -
  have "0 \<le> r div 10 ^ k" "0 \<le> r div 10 ^ k div 60 div 60" "0 \<le> r mod 10 ^ k"
    using assms(2) by (simp_all add: pos_imp_zdiv_nonneg_iff)
  moreover from this have "0 \<le> r div 10 ^ k mod 60 * 10 ^ k + r mod 10 ^ k" by (intro add_nonneg_nonneg) simp_all
  moreover have "0 \<le> r div 10 ^ k div 60 mod 60" by simp
  ultimately have "r div 10 ^ k div 60 div 60 \<noteq> not_a_hour" "ps_s s \<noteq> not_a_second" "ps_M s \<noteq> not_a_minute"
    unfolding assms(3,5) using nonneg_is_a_time by blast+
  with tod_of_parts [OF assms(1,2)] show ?thesis using assms(3-5) by (simp only: resolve_tod_set not_False_eq_True)
qed

text \<open>The text of a day and \<open>r\<close> ticks of it, and how it is read.\<close>

definition time_point_text :: "char \<Rightarrow> nat \<Rightarrow> year_month_day \<Rightarrow> int \<Rightarrow> string" where
  "time_point_text p k x r = digits 4 (year_int (ymd_year x)) @ CHR ''-'' # digits 2 (month_unsigned (ymd_month x))
    @ CHR ''-'' # digits 2 (day_unsigned (ymd_day x)) @ CHR '' '' # time_text p k (r div 10 ^ k div 60 div 60)
       (r div 10 ^ k div 60 mod 60) (r div 10 ^ k mod 60) (r mod 10 ^ k)"

lemma ticks_of_day:
  assumes "0 \<le> (r :: int)" "r < 86400 * 10 ^ k"
  shows "0 \<le> r div 10 ^ k div 60 div 60" "r div 10 ^ k div 60 div 60 < 100" "0 \<le> r div 10 ^ k div 60 mod 60"
    "r div 10 ^ k div 60 mod 60 < 100" "0 \<le> r div 10 ^ k mod 60" "r div 10 ^ k mod 60 < 100" "0 \<le> r mod 10 ^ k" "r mod 10 ^ k < 10 ^ k"
proof -
  have "r div 10 ^ k < 86400" using assms(2) by (intro int_div_less) simp_all
  then show "0 \<le> r div 10 ^ k div 60 div 60" "r div 10 ^ k div 60 div 60 < 100" "0 \<le> r div 10 ^ k div 60 mod 60"
    "r div 10 ^ k div 60 mod 60 < 100" "0 \<le> r div 10 ^ k mod 60" "r div 10 ^ k mod 60 < 100" "0 \<le> r mod 10 ^ k" "r mod 10 ^ k < 10 ^ k"
    using assms(1) by (simp_all add: pos_imp_zdiv_nonneg_iff)
qed

lemma format_lifted: "date_format (bindE (liftR (Inr x)) f) = date_format (f x)"
  by (simp add: date_format_def)

lemma time_point_written:
  assumes "num_put L = to_string" "decimal_point L = p" "k < 19" "ymd_ok x" "0 \<le> r" "r < 86400 * 10 ^ k"
  shows "date_format (to_stream L (10 ^ k) ''%F %T'' (fields_of_ymd_tod (10 ^ k) x (hh_mm_ss_new (10 ^ k) r)) a b)
    = Inr (time_point_text p k x r)"
  using format_time_point [OF assms(1,3,4) ticks_of_day(1-4) [OF assms(5,6)]] assms(2)
  by (simp add: tod_parts [OF assms(3,5)] time_point_text_def)

lemma time_point_read:
  assumes "\<not> is_digit (in_decimal_point F)" "k \<le> 14" "ymd_ok x" "0 \<le> year_int (ymd_year x)" "year_int (ymd_year x) \<le> 9999"
    and r: "0 \<le> r" "r < 86400 * 10 ^ k"
    and fits: "- (2 ^ 63) \<le> ymd_to_days x * 86400 * 10 ^ k" "ymd_to_days x * 86400 * 10 ^ k + r + 1 < 2 ^ 63"
  shows "from_stream_sys F (10 ^ k) ''%F %T'' (istream_new (time_point_text (in_decimal_point F) k x r @ rest))
    = Inr (Some (ymd_to_days x * 86400 * 10 ^ k + r), istream_new rest)"
proof -
  define t where "t = time_point_text (in_decimal_point F) k x r @ rest"
  let ?s = "(parse_state_new (istream_new rest))\<lparr>ps_Y := year_int (ymd_year x), ps_m := month_unsigned (ymd_month x),
    ps_d := day_unsigned (ymd_day x), ps_H := r div 10 ^ k div 60 div 60, ps_M := r div 10 ^ k div 60 mod 60,
    ps_s := r div 10 ^ k mod 60 * 10 ^ k + r mod 10 ^ k\<rparr>"
  let ?w = "weekday_diff (weekday_of_days (ymd_to_days x)) Sunday" and ?H = "r div 10 ^ k div 60 div 60"
  note b = ticks_of_day [OF r]
  have k: "k < 19" using assms(2) by simp
  have ps: "parsed F (10 ^ k) ''%F %T'' t = ?s"
    using parsed_time_point [OF assms(4,5) _ _ _ _ b(1-4) assms(1,2) b(5-8)] ymd_parts [OF assms(3)]
    by (simp add: t_def time_point_text_def)
  have "resolve_date ?s = Some (x, ?s\<lparr>ps_wd := ?w\<rparr>)"
    by (rule resolve_plain_date [OF assms(3)]) (simp_all add: parse_state_new_def istream.defs)
  moreover have "\<not> is_fail ?s" "resolve_hours (?s\<lparr>ps_wd := ?w\<rparr>) = Some ?H"
    by (simp_all add: parse_state_new_def istream.defs istream_new_def resolve_hours_def Let_def)
  ultimately have fs: "from_stream F (10 ^ k) ''%F %T'' pr (istream_new t) =
    (\<lparr>pr_fields = resolve_tod (10 ^ k) (?s\<lparr>ps_wd := ?w\<rparr>) ?H ((pr_fields pr)\<lparr>fd_ymd := x\<rparr>), pr_abbrev = ps_abbrev ?s,
      pr_offset = pr_offset pr\<rparr>, istream_new rest)" for pr
    using from_stream_parsed [of F "10 ^ k" "''%F %T''" t x "?s\<lparr>ps_wd := ?w\<rparr>" ?H pr]
    unfolding ps by (simp add: parse_state_new_def istream.defs istream_new_def)
  have "fd_tod (resolve_tod (10 ^ k) (?s\<lparr>ps_wd := ?w\<rparr>) ?H fds) = hh_mm_ss_new (10 ^ k) r" for fds
    by (rule resolve_tod_parts [OF k r(1)]) (simp_all add: parse_state_new_def istream.defs)
  moreover have "tod_in_conventional_range (10 ^ k) (hh_mm_ss_new (10 ^ k) r)"
    "tod_to_duration (10 ^ k) (hh_mm_ss_new (10 ^ k) r) = r" "precision (10 ^ k) = 10 ^ k"
    using time_of_day_range [OF k r] time_of_day_roundtrip [OF k] k
    by (simp_all add: precision_def fractional_width_pow10)
  moreover have "rep64 (ymd_to_days x * 86400 * 10 ^ k) = Inr (ymd_to_days x * 86400 * 10 ^ k)"
    "rep64 (ymd_to_days x * 86400 * 10 ^ k + r) = Inr (ymd_to_days x * 86400 * 10 ^ k + r)"
    "rep64 (ymd_to_days x * 86400 * 10 ^ k + r + 1) = Inr (ymd_to_days x * 86400 * 10 ^ k + r + 1)"
    by (rule rep64_ok; use fits r(1) in linarith)+
  moreover have "round_count (10 ^ k) c = Inr c" if "rep64 (c + 1) = Inr (c + 1)" "precision (10 ^ k) = 10 ^ k" for c
    using that round_whole [of "10 ^ k" c] by (simp add: round_count_def)
  ultimately show ?thesis
    unfolding from_stream_sys_def from_stream_count_def from_stream_checked_def fs [unfolded t_def]
    using assms(3) by (simp add: istream_new_def parse_result_new_def Let_def)
qed

lemma day_of_time:
  assumes "- 719528 * (86400 * 10 ^ k) \<le> tp" "tp < 2932897 * (86400 * 10 ^ k)"
  defines "x \<equiv> ymd_from_days (tp div (86400 * 10 ^ k))"
  shows "ymd_ok x" "ymd_to_days x = tp div (86400 * 10 ^ k)" "0 \<le> year_int (ymd_year x)" "year_int (ymd_year x) \<le> 9999"
proof -
  define D :: int where "D = 86400 * 10 ^ k"
  have D: "0 < D" by (simp add: D_def)
  have "- 719528 * D div D \<le> tp div D" using assms(1) D by (intro zdiv_mono1) (simp_all add: D_def)
  then have "- 719528 \<le> tp div D" using D nonzero_mult_div_cancel_right [of D "- 719528"] by linarith
  moreover have "tp div D < 2932897" using assms(2) D by (intro int_div_less) (simp_all add: D_def)
  ultimately show "ymd_ok x" "ymd_to_days x = tp div (86400 * 10 ^ k)" "0 \<le> year_int (ymd_year x)" "year_int (ymd_year x) \<le> 9999"
    using four_digit_dates unfolding x_def D_def by blast+
qed

lemma time_fits:
  assumes "k \<le> 14" "- 719528 * (86400 * 10 ^ k) \<le> tp" "tp < 2932897 * (86400 * 10 ^ k)"
    and "- (2 ^ 63) \<le> tp div (86400 * 10 ^ k) * (86400 * 10 ^ k)" "tp + 1 < 2 ^ 63"
  shows "day_fits (86400 * int (10 ^ k)) tp"
proof -
  have "(10 :: int) ^ k \<le> 10 ^ 14" using assms(1) by (intro power_increasing) simp_all
  then have D: "86400 * (10 :: int) ^ k < 2 ^ 63" "0 < 86400 * (10 :: int) ^ k" by simp_all
  define E :: int where "E = 86400 * 10 ^ k"
  have "- 719528 * E div E \<le> tp div E" using assms(2) D(2) by (intro zdiv_mono1) (simp_all add: E_def)
  then have "- 719528 \<le> tp div E" using D(2) nonzero_mult_div_cancel_right [of E "- 719528"] by (simp add: E_def)
  moreover have "tp div E < 2932897" using assms(3) D(2) by (intro int_div_less) (simp_all add: E_def)
  ultimately show ?thesis using assms(4,5) D(1) by (simp add: day_fits_def E_def)
qed

text \<open>
  C33 (Time points as texts). A time point of the years 0 to 9999 with up to 14 decimals of a second, counted
  in 64 bits, written
  in the form \<^verbatim>\<open>%F %T\<close>, is read back by it, before the epoch as well, whatever follows it. The start of
  the day and the next tick must be counts, too. The seconds are read as a \<^verbatim>\<open>long double\<close>; with 15 decimals the ticks of a
  day do not fit a count, and with 18 the seconds themselves are not always read back (\<open>decimals_lost\<close>). The locale of the
  output writes plain numbers, both locales have the same decimal point, and that is not a digit.
\<close>

theorem time_text_roundtrip:
  assumes "num_put L = to_string" "decimal_point L = in_decimal_point F" "\<not> is_digit (in_decimal_point F)" "k \<le> 14"
    and "- 719528 * (86400 * 10 ^ k) \<le> tp" "tp < 2932897 * (86400 * 10 ^ k)"
    and "- (2 ^ 63) \<le> tp div (86400 * 10 ^ k) * (86400 * 10 ^ k)" "tp + 1 < 2 ^ 63"
  shows "\<exists>t. date_format (to_stream_sys L (10 ^ k) ''%F %T'' tp) = Inr t
    \<and> from_stream_sys F (10 ^ k) ''%F %T'' (istream_new (t @ rest)) = Inr (Some tp, istream_new rest)"
proof -
  define D :: int where "D = 86400 * 10 ^ k"
  define x r where "x = ymd_from_days (tp div D)" and "r = tp mod D"
  have r: "0 \<le> r" "r < 86400 * 10 ^ k" "tp = tp div D * D + r"
    by (simp_all add: r_def flip: D_def) (simp_all add: D_def)
  note x = day_of_time [OF assms(5,6), folded D_def, folded x_def]
  have k: "k < 19" using assms(4) by simp
  have "fields_of_time (10 ^ k) tp = Inr (fields_of_ymd_tod (10 ^ k) x (hh_mm_ss_new (10 ^ k) r))"
    using fields_of_time [of "10 ^ k" tp] time_fits [OF assms(4-8)] by (simp add: x_def r_def D_def)
  then have "date_format (to_stream_sys L (10 ^ k) ''%F %T'' tp) = Inr (time_point_text (in_decimal_point F) k x r)"
    using time_point_written [OF assms(1,2) k x(1) r(1,2)] by (simp add: to_stream_sys_def format_lifted)
  moreover have day: "ymd_to_days x * 86400 * 10 ^ k = tp div D * D" using x(2) by (simp add: D_def)
  moreover have "- (2 ^ 63) \<le> ymd_to_days x * 86400 * 10 ^ k" "ymd_to_days x * 86400 * 10 ^ k + r + 1 < 2 ^ 63"
    unfolding day using assms(7,8) r(3) by (simp_all add: D_def)
  ultimately show ?thesis
    using time_point_read [OF assms(3,4) x(1,3,4) r(1,2), of rest] r(3) by auto
qed

theorem time_text_roundtrip_witness:
  "\<exists>t. date_format (to_stream_sys classic_locale (10 ^ 3) ''%F %T'' (- 1)) = Inr t
    \<and> from_stream_sys \<lparr>time_get = (\<lambda>t f s. (s, False, True, t)), in_decimal_point = CHR ''.''\<rparr> (10 ^ 3) ''%F %T''
        (istream_new (t @ ''42'')) = Inr (Some (- 1), istream_new ''42'')"
  by (rule time_text_roundtrip) (simp_all add: classic_locale_def is_digit_def code_of_def)

text \<open>
  The stream operator writes the year without a fill, so from the year 1000 on it writes what \<^verbatim>\<open>%F %T\<close> writes.
\<close>

lemma length_dec_string_ge:
  assumes "1000 \<le> n"
  shows "4 \<le> length (dec_string n)"
proof -
  have split: "m < 10 \<or> dec_string m = dec_string (m div 10) @ [char_of (48 + m mod 10)]" for m
    by (subst dec_string.simps) simp
  have "length (dec_string n) = length (dec_string (n div 10 div 10 div 10)) + 3"
    using split [of n] split [of "n div 10"] split [of "n div 10 div 10"] assms by fastforce
  moreover have "dec_string (n div 10 div 10 div 10) \<noteq> []" by simp
  ultimately show ?thesis by (cases "dec_string (n div 10 div 10 div 10)") simp_all
qed

lemma digits_4: "1000 \<le> n \<Longrightarrow> digits 4 n = to_string n"
  using length_dec_string_ge [of "nat n"] by (simp add: digits_def pad_def to_string_def)

lemma put_ymd_text:
  assumes "ymd_ok x" "1000 \<le> year_int (ymd_year x)"
  shows "put_ymd x os = (Inr (), if os_fail os then os else os\<lparr>os_text := os_text os @ digits 4 (year_int (ymd_year x))
    @ CHR ''-'' # digits 2 (month_unsigned (ymd_month x)) @ CHR ''-'' # digits 2 (day_unsigned (ymd_day x))\<rparr>)"
  using assms by (simp add: put_ymd_def put_checked_def os_put_classic_def os_put_def digits_4) (simp add: digits_def pad_def)

theorem operator_writes_format:
  assumes "num_put L = to_string" "k \<le> 14" "1000 \<le> year_int (ymd_year (ymd_from_days (tp div (86400 * 10 ^ k))))"
    and "- 719528 * (86400 * 10 ^ k) \<le> tp" "tp < 2932897 * (86400 * 10 ^ k)"
    and "- (2 ^ 63) \<le> tp div (86400 * 10 ^ k) * (86400 * 10 ^ k)" "tp + 1 < 2 ^ 63" "\<not> os_fail os"
  shows "\<exists>t. date_format (to_stream_sys L (10 ^ k) ''%F %T'' tp) = Inr t
    \<and> put_sys_time L (10 ^ k) tp os = (Inr (), os\<lparr>os_text := os_text os @ t\<rparr>)"
proof -
  define D :: int where "D = 86400 * 10 ^ k"
  define x r where "x = ymd_from_days (tp div D)" and "r = tp mod D"
  note x = day_of_time [OF assms(4,5), folded D_def, folded x_def] and y = assms(3) [folded D_def, folded x_def]
  have r: "0 \<le> r" "r < 86400 * 10 ^ k" by (simp_all add: r_def flip: D_def) (simp_all add: D_def)
  have m: "tp - tp div D * D = r" by (simp add: r_def minus_div_mult_eq_mod)
  have p: "put_sys_time L (10 ^ k) tp = thenE (put_ymd x) (thenE (os_put '' '') (put_tod L (10 ^ k) (hh_mm_ss_new (10 ^ k) r)))"
    using m by (simp add: put_sys_time_def Let_def x_def D_def)
  have k: "k < 19" using assms(2) by simp
  have "fields_of_time (10 ^ k) tp = Inr (fields_of_ymd_tod (10 ^ k) x (hh_mm_ss_new (10 ^ k) r))"
    using fields_of_time [of "10 ^ k" tp] time_fits [OF assms(2,4-7)] by (simp add: x_def r_def D_def)
  then have "date_format (to_stream_sys L (10 ^ k) ''%F %T'' tp) = Inr (time_point_text (decimal_point L) k x r)"
    using time_point_written [OF assms(1) refl k x(1) r] by (simp add: to_stream_sys_def format_lifted)
  moreover have "put_sys_time L (10 ^ k) tp os = (Inr (), os\<lparr>os_text := os_text os @ time_point_text (decimal_point L) k x r\<rparr>)"
    using assms(8) by (simp add: p put_ymd_text [OF x(1) y] tod_parts [OF k r(1)] time_point_text_def os_put_def
      put_tod_text [OF assms(1) k ticks_of_day(1-4) [OF r]])
  ultimately show ?thesis by blast
qed

theorem operator_writes_format_witness:
  "\<exists>t. date_format (to_stream_sys classic_locale 1 ''%F %T'' 86399) = Inr t
    \<and> put_sys_time classic_locale 1 86399 \<lparr>os_text = [], os_fail = False, os_throws = False\<rparr> = (Inr (), \<lparr>os_text = t, os_fail = False, os_throws = False\<rparr>)"
proof -
  have "ymd_from_days 0 = Ymd (year_new 1970) (month_new 1) (day_new 1)" by code_simp
  then show ?thesis
    using operator_writes_format [of classic_locale 0 86399 "\<lparr>os_text = [], os_fail = False, os_throws = False\<rparr>"]
    by (simp add: classic_locale_def)
qed

section \<open>Years before the year 0, and invalid dates\<close>

text \<open>
  A negative year. The form \<^verbatim>\<open>%F\<close> fills up to four characters to the left of the sign, so the 28th of February
  of the year -5 becomes a text that the same form reads as the 2nd of May of the year 0.
\<close>

lemma negative_year_parsed:
  "parsed F 1 ''%F'' ''00-5-02-28''
    = (parse_state_new (istream_new ''-28''))\<lparr>ps_Y := 0, ps_m := 5, ps_d := 2\<rparr>"
proof -
  have "is_digit CHR ''0''" "is_digit CHR ''5''" "is_digit CHR ''2''" "\<not> is_digit CHR ''-''"
    "digit_value CHR ''0'' = 0" "digit_value CHR ''5'' = 5" "digit_value CHR ''2'' = 2"
    by (simp_all add: is_digit_def digit_value_def code_of_def)
  then show ?thesis
    by (simp add: parsed_def parse_run istream_new_def parse_iso_date_def set_Y_def set_m_def set_d_def read_rs_def read_ru_def
      unless_fail_def read_signed_def read_unsigned_def peek_def get_char_def read_chr_def Let_def)
qed

theorem negative_year_text:
  "date_format (to_stream_ymd L ''%F'' (Ymd (year_new (- 5)) (month_new 2) (day_new 28))) = Inr ''00-5-02-28''
   \<and> from_stream_ymd F ''%F'' (istream_new ''00-5-02-28'')
       = (Some (Ymd (year_new 0) (month_new 5) (day_new 2)), istream_new ''-28'')"
proof
  let ?x = "Ymd (year_new (- 5)) (month_new 2) (day_new 28)"
  have x: "ymd_ok ?x" by (simp add: ymd_ok_def year_ok_def month_ok_def ymdl_day_value days_in_month_def ymdl_table_def)
  have "to_string (- 5) = ''-5''" "to_string 2 = ''2''" "to_string 28 = ''28''" by code_simp+
  then have "digits 4 (- 5) = ''00-5''" "digits 2 2 = ''02''" "digits 2 28 = ''28''"
    by (simp_all add: digits_def pad_def eval_nat_numeral)
  with x show "date_format (to_stream_ymd L ''%F'' ?x) = Inr ''00-5-02-28''" by (simp add: iso_date_text)
  let ?y = "Ymd (year_new 0) (month_new 5) (day_new 2)"
  let ?s = "(parse_state_new (istream_new ''-28''))\<lparr>ps_Y := 0, ps_m := 5, ps_d := 2\<rparr>"
  have y: "ymd_ok ?y" by (simp add: ymd_ok_def year_ok_def month_ok_def ymdl_day_value days_in_month_def ymdl_table_def)
  then have "resolve_date ?s = Some (?y, ?s\<lparr>ps_wd := weekday_diff (weekday_of_days (ymd_to_days ?y)) Sunday\<rparr>)"
    by (rule resolve_plain_date) (simp_all add: parse_state_new_def istream.defs)
  moreover have "\<not> is_fail ?s" "resolve_hours (?s\<lparr>ps_wd := w\<rparr>) = Some not_a_hour" for w
    by (simp_all add: parse_state_new_def istream.defs istream_new_def resolve_hours_def Let_def)
  ultimately show "from_stream_ymd F ''%F'' (istream_new ''00-5-02-28'') = (Some ?y, istream_new ''-28'')"
    using ymd_parsed [of F "''%F''" "''00-5-02-28''"] y unfolding negative_year_parsed truncate_parsed by blast
qed

text \<open>An invalid date is not formatted but refused.\<close>

lemma invalid_date_text: "\<not> ymd_ok x \<Longrightarrow> date_format (to_stream_ymd L ''%F'' x) = Inl Ios_failure"
  by (simp add: fmt_run fmt_iso_date_def os_set_failbit_def)

end
