(* ===== verification/Calendar_Week.thy ===== *)
theory Calendar_Week
  imports Calendar_Format
begin

text \<open>
  The weeks of \<^verbatim>\<open>src/utils/date.hpp\<close>: the year and number of the week that \<^verbatim>\<open>%G\<close> and \<^verbatim>\<open>%V\<close> write, compared with
  the definition of ISO 8601, where a week belongs to the year of its Thursday.
\<close>

section \<open>Weekdays as numbers\<close>

lemma weekday_new_value [simp]: "0 \<le> w \<Longrightarrow> w \<le> 7 \<Longrightarrow> weekday_value (weekday_new w) = w mod 7"
  by (auto simp: weekday_new_def uint_word_of_int)

lemma weekday_constants [simp]:
  "weekday_value Sunday = 0" "weekday_value Monday = 1" "weekday_value Thursday = 4"
  by (simp_all add: Sunday_def Monday_def Thursday_def)

lemma weekday_diff_mod: "weekday_diff x y = (weekday_value x - weekday_value y) mod 7"
proof -
  have "floor_div (weekday_value x - weekday_value y) 7 = (weekday_value x - weekday_value y) div 7" by simp
  then show ?thesis unfolding weekday_diff_def Let_def by (simp only: minus_div_mult_eq_mod)
qed

section \<open>The first day of a year\<close>

definition new_year :: "int \<Rightarrow> int" where
  "new_year y = civil_days y 1 1"

lemma civil_new_year: "civil y 1 1"
  using days_in_month_range [of 1 y] by (simp add: civil_def)

text \<open>A day lies in the year between whose first days it is.\<close>

lemma year_of_iff: "fst (civil_of n) = y \<longleftrightarrow> new_year y \<le> n \<and> n < new_year (y + 1)"
proof -
  obtain y' m d where c: "civil_of n = (y', m, d)" by (metis prod_cases3)
  have cv: "civil y' m d" using civil_of_civil [of n] c by simp
  have "civil_of (new_year z) = (z, 1, 1)" for z
    unfolding new_year_def by (rule civil_of_days [OF civil_new_year])
  then have "n < new_year z \<longleftrightarrow> (y', m, d) < (z, 1, 1)" for z
    using civil_of_less [of n "new_year z"] c by simp
  then have lt: "n < new_year z \<longleftrightarrow> y' < z" for z using cv by (auto simp: civil_def)
  show ?thesis using lt [of y] lt [of "y + 1"] c by auto
qed

lemma year_length: "new_year (y + 1) - new_year y \<in> {365, 366}"
proof -
  have "new_year z = march_first (z - 1) + 306 - 719468" for z
    by (simp add: new_year_def civil_days_def march_month_def month_start_def)
  then have "new_year (y + 1) - new_year y = march_first y - march_first (y - 1)" by simp
  also have "\<dots> = 365 + of_bool (leap y)" using march_first_step [of "y - 1"] by simp
  finally show ?thesis by auto
qed

lemma last_day: "civil_days (y - 1) 12 31 = new_year y - 1"
  using civil_next [of "y - 1" 12 31]
  by (simp add: civil_def days_in_month_def ymdl_table_def next_civil_def new_year_def)

lemma year_from_days:
  assumes "- 12687428 \<le> n" "n \<le> 11248737"
  shows "year_int (ymd_year (ymd_from_days n)) = fst (civil_of n)" "- 32767 \<le> fst (civil_of n)" "fst (civil_of n) \<le> 32767"
proof -
  have ok: "ymd_ok (ymd_from_days n)" "ymd_to_days (ymd_from_days n) = n" using ok_days assms by auto
  then have "civil_of n = int_of_ymd (ymd_from_days n)"
    using civil_of_days to_days_civil [OF ok(1)] by (auto simp: ymd_ok_civil split: prod.splits)
  then show e: "year_int (ymd_year (ymd_from_days n)) = fst (civil_of n)" by (simp add: int_of_ymd_def)
  show "- 32767 \<le> fst (civil_of n)" "fst (civil_of n) \<le> 32767"
    using ok(1) unfolding e [symmetric] by (simp_all add: ymd_ok_def ok_year)
qed

lemma new_year_mono: "y \<le> z \<Longrightarrow> new_year y \<le> new_year z"
proof -
  have "civil_of (new_year z) = (z, 1, 1)" for z
    unfolding new_year_def by (rule civil_of_days [OF civil_new_year])
  then show "y \<le> z \<Longrightarrow> new_year y \<le> new_year z"
    using civil_of_less [of "new_year z" "new_year y"] by auto
qed

lemma new_year_range:
  assumes "- 32767 \<le> y" "y \<le> 32767"
  shows "- 12687428 \<le> new_year y" "new_year y \<le> 11248373"
proof -
  have "new_year (- 32767) = - 12687428" "new_year 32767 = 11248373"
    by (simp_all add: new_year_def civil_days_def march_first_def march_month_def month_start_def)
  then show "- 12687428 \<le> new_year y" "new_year y \<le> 11248373"
    using new_year_mono assms by metis+
qed

section \<open>The first week of a year\<close>

text \<open>The Monday after the last Thursday of the year before.\<close>

lemma iso_year_start:
  assumes "- 32766 \<le> y" "y \<le> 32767"
  shows "iso_year_start (year_new y) = 7 * ((new_year y - 1) div 7) + 4"
proof -
  let ?y = "year_new (y - 1)"
  have y: "year_int ?y = y - 1" using assms by simp
  have m: "month_ok December" "month_unsigned December = 12" by (simp_all add: December_def month_ok_def)
  have d: "day_unsigned (ymdl_day (ym_last (Year_month ?y December))) = 31"
    using ymdl_day_value [OF m(1), of ?y] m(2) by (simp add: days_in_month_def ymdl_table_def)
  let ?x = "Ymd ?y December (ymdl_day (ym_last (Year_month ?y December)))"
  have "ymd_ok ?x" using assms m y d by (simp add: ymd_ok_def ok_year)
  then have "ymd_to_days ?x = new_year y - 1"
    using to_days_civil [of ?x] y m d by (simp add: int_of_ymd_def last_day)
  then have l: "ymdl_to_days (ym_last (Year_month ?y December)) = new_year y - 1"
    by (simp add: ymdl_to_days_def ym_day_def ym_last_def ymdl_month_def)
  have r: "- 12687429 \<le> new_year y - 1" "new_year y - 1 \<le> 11248372" using new_year_range [of y] assms by simp_all
  then have "weekday_value (weekday_of_days (new_year y - 1)) = (new_year y - 1 + 4) mod 7"
    by (intro weekday_of_days_value) simp_all
  then have "weekday_diff (weekday_of_days (new_year y - 1)) Thursday = (new_year y - 1) mod 7"
    by (simp add: weekday_diff_mod mod_diff_left_eq)
  moreover have "weekday_diff Monday Thursday = 4" by (simp add: weekday_diff_mod)
  moreover have "year_minus (year_new y) 1 = ?y" using assms by (simp add: year_minus_def)
  ultimately have "iso_year_start (year_new y) = new_year y - 1 - (new_year y - 1) mod 7 + 4"
    by (simp add: iso_year_start_def ymwl_to_days_def slash_defs weekday_at_last_def l [unfolded ym_last_def, simplified] Let_def)
  then show ?thesis by (simp add: minus_mod_eq_mult_div)
qed

section \<open>The week of a day\<close>

text \<open>The Thursday of the week, from Monday to Sunday, of a day.\<close>

definition iso_thursday :: "int \<Rightarrow> int" where
  "iso_thursday n = 7 * ((n + 3) div 7)"

lemma parts_7: "(i :: int) = 7 * (i div 7) + i mod 7" "0 \<le> i mod 7" "i mod 7 < 7"
  by simp_all

lemma iso_thursday: "n - 3 \<le> iso_thursday n" "iso_thursday n \<le> n + 3" "(iso_thursday n + 4) mod 7 = 4"
  using parts_7 [of "n + 3"] unfolding iso_thursday_def by (linarith, linarith, simp)

lemma early_iff: "n < 7 * ((J - 1) div 7) + 4 \<longleftrightarrow> iso_thursday n < J"
  using parts_7 [of "n + 3"] parts_7 [of "J - 1"] unfolding iso_thursday_def
  by (cases "(n + 3) div 7 \<le> (J - 1) div 7") linarith+

lemma weeks_between:
  "n - (7 * ((J - 1) div 7) + 4) = 7 * ((iso_thursday n - J) div 7) + (n + 3) mod 7"
proof -
  define q a v where "q = (n + 3) div 7" and "a = (J - 1) div 7" and "v = (J - 1) mod 7"
  have J: "J = 7 * a + v + 1" "0 \<le> v" "v < 7" using parts_7 [of "J - 1"] by (simp_all add: a_def v_def)
  then have "(iso_thursday n - J) div 7 = q - a - 1"
    by (intro int_div_pos_eq [where r = "6 - v"]) (simp_all add: iso_thursday_def q_def)
  then show ?thesis using parts_7 [of "n + 3"] by (simp flip: q_def a_def)
qed

lemma iso_year_and_week:
  assumes "- 32765 \<le> fst (civil_of n)" "fst (civil_of n) \<le> 32766"
  shows "iso_year n = year_new (fst (civil_of (iso_thursday n)))"
    and "iso_week n = (iso_thursday n - new_year (fst (civil_of (iso_thursday n)))) div 7 + 1"
    and "- 32766 \<le> fst (civil_of (iso_thursday n))" "fst (civil_of (iso_thursday n)) \<le> 32767"
proof -
  define t y0 where "t = iso_thursday n" and "y0 = fst (civil_of (n + 3))"
  have t: "n - 3 \<le> t" "t \<le> n + 3" by (simp_all add: t_def iso_thursday)
  define y where "y = fst (civil_of n)"
  have y: "new_year y \<le> n" "n < new_year (y + 1)" using year_of_iff [of n y] by (simp_all add: y_def)
  have J: "new_year y0 \<le> n + 3" "n + 3 < new_year (y0 + 1)" using year_of_iff [of "n + 3" y0] by (simp_all add: y0_def)
  have len: "new_year z + 365 \<le> new_year (z + 1)" for z using year_length [of z] by auto
  have y0: "y0 = y \<or> y0 = y + 1"
  proof (cases "n + 3 < new_year (y + 1)")
    case True
    with y have "fst (civil_of (n + 3)) = y" by (simp add: year_of_iff)
    then show ?thesis by (simp add: y0_def)
  next
    case False
    with y len [of "y + 1"] have "fst (civil_of (n + 3)) = y + 1" by (simp add: year_of_iff)
    then show ?thesis by (simp add: y0_def)
  qed
  have yr: "- 32765 \<le> y" "y \<le> 32766" using assms by (simp_all add: y_def)
  then have r0: "- 32765 \<le> y0" "y0 \<le> 32767" using y0 by auto
  have "- 12687428 \<le> new_year y" "new_year (y + 1) \<le> 11248373" using new_year_range [of y] new_year_range [of "y + 1"] yr by simp_all
  with y have n3: "- 12687428 \<le> n + 3" "n + 3 \<le> 11248737" by simp_all
  define Y where "Y = ymd_year (ymd_from_days (n + 3))"
  have "year_int Y = y0" using year_from_days(1) [OF n3] by (simp add: Y_def y0_def)
  then have Y: "Y = year_new y0" using new_field(3) [of Y] by simp
  have early: "n < iso_year_start Y \<longleftrightarrow> t < new_year y0"
    using iso_year_start [of y0] r0 by (simp add: Y early_iff t_def)
  define G where "G = (if t < new_year y0 then y0 - 1 else y0)"
  have G: "fst (civil_of t) = G"
  proof (cases "t < new_year y0")
    case True
    with t J len [of "y0 - 1"] show ?thesis by (simp add: year_of_iff G_def)
  next
    case False
    with t J show ?thesis by (simp add: year_of_iff G_def)
  qed
  have "year_dec (year_new y0) = year_new (y0 - 1)" by (simp add: year_new_def)
  then have yr: "iso_year n = year_new G"
    by (simp add: iso_year_def Let_def early flip: Y_def) (simp add: G_def Y)
  with G show "iso_year n = year_new (fst (civil_of (iso_thursday n)))" by (simp add: t_def)
  have Gr: "- 32766 \<le> G" "G \<le> 32767" using r0 by (auto simp: G_def)
  with G show "- 32766 \<le> fst (civil_of (iso_thursday n))" "fst (civil_of (iso_thursday n)) \<le> 32767"
    by (simp_all add: t_def)
  have "iso_week n = cdiv (n - iso_year_start (year_new G)) 7 + 1"
    using \<open>year_dec (year_new y0) = year_new (y0 - 1)\<close>
    by (simp add: iso_week_def Let_def early flip: Y_def) (simp add: G_def Y)
  also have "n - iso_year_start (year_new G) = 7 * ((t - new_year G) div 7) + (n + 3) mod 7"
    using iso_year_start [OF Gr] weeks_between [of n "new_year G"] by (simp add: t_def)
  also have "cdiv (7 * ((t - new_year G) div 7) + (n + 3) mod 7) 7 = (t - new_year G) div 7"
  proof -
    have "new_year G \<le> t" using year_of_iff [of t G] G by simp
    then have "0 \<le> (t - new_year G) div 7" by (simp add: pos_imp_zdiv_nonneg_iff)
    then have "0 \<le> 7 * ((t - new_year G) div 7) + (n + 3) mod 7" by (intro add_nonneg_nonneg) simp_all
    then show ?thesis by (simp add: cdiv_nonneg)
  qed
  finally show "iso_week n = (iso_thursday n - new_year (fst (civil_of (iso_thursday n)))) div 7 + 1"
    using G by (simp add: t_def)
qed

lemma iso_week_range:
  assumes "- 32765 \<le> fst (civil_of n)" "fst (civil_of n) \<le> 32766"
  shows "1 \<le> iso_week n" "iso_week n \<le> 53"
proof -
  define y where "y = fst (civil_of (iso_thursday n))"
  have "new_year y \<le> iso_thursday n" "iso_thursday n < new_year (y + 1)"
    using year_of_iff [of "iso_thursday n" y] by (simp_all add: y_def)
  moreover have "new_year (y + 1) \<le> new_year y + 366" using year_length [of y] by auto
  ultimately have "0 \<le> iso_thursday n - new_year y" "iso_thursday n - new_year y < 53 * 7" by simp_all
  then have "0 \<le> (iso_thursday n - new_year y) div 7" "(iso_thursday n - new_year y) div 7 < 53"
    by (simp_all add: pos_imp_zdiv_nonneg_iff int_div_less)
  then show "1 \<le> iso_week n" "iso_week n \<le> 53" using iso_year_and_week(2) [OF assms] by (simp_all add: y_def)
qed

text \<open>
  ISO weeks. The year that \<^verbatim>\<open>%G\<close> writes for a valid date is the year of the Thursday of its week, and the
  number that \<^verbatim>\<open>%V\<close> writes counts the Thursdays of that year up to this one, from 1 to 52 or 53: the
  definition of ISO 8601. (Years of which the library can hold the neighbours.)
\<close>

theorem iso_weeks:
  assumes "ymd_ok x" "- 32765 \<le> year_int (ymd_year x)" "year_int (ymd_year x) \<le> 32766"
  shows "year_int (iso_year (ymd_to_days x)) = fst (civil_of (iso_thursday (ymd_to_days x)))
    \<and> iso_week (ymd_to_days x) = (iso_thursday (ymd_to_days x) - new_year (fst (civil_of (iso_thursday (ymd_to_days x))))) div 7 + 1
    \<and> 1 \<le> iso_week (ymd_to_days x) \<and> iso_week (ymd_to_days x) \<le> 53"
proof -
  have "fst (civil_of (ymd_to_days x)) = year_int (ymd_year x)"
    using assms(1) civil_of_days to_days_civil [OF assms(1)] by (auto simp: ymd_ok_civil int_of_ymd_def split: prod.splits)
  with assms iso_year_and_week [of "ymd_to_days x"] iso_week_range [of "ymd_to_days x"] show ?thesis by simp
qed

theorem iso_weeks_witness:
  "year_int (iso_year (ymd_to_days (Ymd (year_new 2021) (month_new 1) (day_new 3)))) = 2020
   \<and> iso_week (ymd_to_days (Ymd (year_new 2021) (month_new 1) (day_new 3))) = 53"
proof -
  let ?x = "Ymd (year_new 2021) (month_new 1) (day_new 3)"
  have ok: "ymd_ok ?x" by (simp add: ymd_ok_def year_ok_def month_ok_def ymdl_day_value days_in_month_def ymdl_table_def)
  then have n: "ymd_to_days ?x = 18630"
    by (simp add: to_days_civil int_of_ymd_def civil_days_def march_first_def march_month_def month_start_def)
  have c: "civil_of 18627 = (2020, 12, 31)"
    using civil_of_days [of 2020 12 31] by (simp add: civil_def days_in_month_def ymdl_table_def civil_days_def march_first_def march_month_def month_start_def)
  from iso_weeks [OF ok] show ?thesis
    by (simp add: n iso_thursday_def c new_year_def civil_days_def march_first_def march_month_def month_start_def)
qed

end
