(* ===== verification/Calendar_Week_Text.thy ===== *)
theory Calendar_Week_Text
  imports Calendar_Text Calendar_Week
begin

text \<open>
  Dates written and read by their ISO week, in the form \<^verbatim>\<open>%G-W%V-%u\<close>: the text, what the parser reads of it, and
  that the date it computes from the week is the one that was written.
\<close>

lemma one_digit:
  assumes "0 \<le> i" "i < 10"
  shows "pad 0 c (to_string i) = pad (Suc 0) CHR ''0'' (to_string i)"
proof -
  have "nat i < 10" using assms by simp
  then have "length (to_string i) = 1" using assms(1) by (subst to_string_def, subst (2) dec_string.simps) simp
  then show ?thesis by (simp add: pad_def)
qed

lemma week_chars [simp]:
  "\<not> is_digit CHR ''G''" "\<not> is_digit CHR ''V''" "\<not> is_digit CHR ''W''" "\<not> is_digit CHR ''u''" "\<not> is_digit CHR ''-''"
  by (simp_all add: is_digit_def code_of_def)

definition iso_weekday_number :: "int \<Rightarrow> int" where
  "iso_weekday_number n = (if (n + 4) mod 7 = 0 then 7 else (n + 4) mod 7)"

lemma format_week_date:
  assumes "num_put L = to_string" "ymd_ok x" "0 \<le> year_int (iso_year (ymd_to_days x))" "year_int (iso_year (ymd_to_days x)) \<le> 9999"
    and "0 \<le> iso_week (ymd_to_days x)" "iso_week (ymd_to_days x) < 100" "- 2147483648 \<le> ymd_to_days x" "ymd_to_days x < 2147483648"
  shows "date_format (to_stream_ymd L ''%G-W%V-%u'' x) = Inr (digits 4 (year_int (iso_year (ymd_to_days x)))
     @ ''-W'' @ digits 2 (iso_week (ymd_to_days x)) @ CHR ''-'' # digits 1 (iso_weekday_number (ymd_to_days x)))"
proof -
  have wd: "\<not> weekday_ok (weekday_new 8)" by (simp add: weekday_ok_def weekday_new_def)
  have d: "weekday_diff (weekday_of_days (ymd_to_days x)) Sunday = (ymd_to_days x + 4) mod 7"
    using assms(7,8) by (simp add: weekday_diff_mod weekday_of_days_value)
  have y: "year_ok (iso_year (ymd_to_days x))" using assms(3,4) by (simp add: ok_year)
  have u: "0 \<le> (ymd_to_days x + 4) mod 7" "(ymd_to_days x + 4) mod 7 < 10" using pos_mod_bound [of 7 "ymd_to_days x + 4"] by simp_all
  show ?thesis using assms(1-6) y u
    by (simp add: fmt_run fmt_iso_year_def fmt_monday_week_def fmt_iso_week_def fmt_iso_weekday_def put_year_def put_year_low_def
      extract_weekday_def pad_internal_def wd d put_two_digits one_digit iso_weekday_number_def digits_def Let_def)
qed

lemma run_read_ru_at:
  fixes s :: "'z istream_scheme"
  assumes "is_text s = digits w n @ rest" "is_good s" "0 < w" "w \<le> 9" "0 \<le> n" "n < 10 ^ w" "m \<le> w"
  shows "run_state (read_ru old m w) s = (n, s\<lparr>is_text := rest\<rparr>)"
proof -
  obtain z where s: "s = \<lparr>is_text = digits w n @ rest, is_eof = False, is_fail = False, \<dots> = z\<rparr>"
    using assms(1,2) by (cases s) (simp add: is_good_def)
  show ?thesis unfolding s using assms(3-) by simp
qed

lemma run_set_wd:
  "x \<noteq> not_a_weekday \<Longrightarrow> ps_wd s = not_a_weekday \<Longrightarrow> \<not> is_fail s \<Longrightarrow> run_state (set_wd x) s = ((), s\<lparr>ps_wd := x\<rparr>)"
  by (simp add: set_wd_def checked_set_def)

lemma run_parse_weekday:
  assumes "1 \<le> u" "u \<le> 7" "is_text s = digits 1 u @ rest" "is_good s" "ps_command s = Some f" "ps_modified s = None"
    "ps_width s = - 1" "ps_wd s = not_a_weekday"
  shows "run_state (parse_weekday F CHR ''u'') s =
    ((), s\<lparr>is_text := rest, ps_wd := u mod 7, ps_command := None, ps_modified := None, ps_width := - 1\<rparr>)"
proof -
  define v where "v = u mod 7"
  have "(if u = 7 then 0 else u) = v" using assms(1,2) by (auto simp: v_def)
  moreover have "v \<noteq> not_a_weekday" using pos_mod_bound [of 7 u] unfolding not_a_weekday_def v_def by linarith
  moreover have "run_state (read_ru not_a_weekday 1 1) s = (u, s\<lparr>is_text := rest\<rparr>)"
    by (rule run_read_ru_at) (use assms in simp_all)
  ultimately show ?thesis using assms
    unfolding v_def [symmetric]
    by (simp add: parse_weekday_def parse_conversion_def not_E_def width_or_def run_set_wd is_good_def end_command_def del: One_nat_def)
qed

lemma parsed_week_date:
  assumes "0 \<le> G" "G \<le> 9999" "0 \<le> V" "V < 100" "1 \<le> u" "u \<le> 7"
  shows "parsed F 1 ''%G-W%V-%u'' (digits 4 G @ CHR ''-'' # CHR ''W'' # digits 2 V @ CHR ''-'' # digits 1 u @ rest)
    = (parse_state_new (istream_new rest))\<lparr>ps_G := G, ps_V := V, ps_wd := u mod 7\<rparr>"
  using assms by (simp add: parsed_def parse_run istream_new_def parse_iso_year_def parse_iso_week_def parse_monday_week_def
      run_parse_weekday [OF assms(5,6), of _ rest] del: One_nat_def)


lemma iso_weekday_mod [simp]: "iso_weekday_number n mod 7 = (n + 4) mod 7"
  by (simp add: iso_weekday_number_def)

lemma week_date_recovered:
  assumes "- 32765 \<le> fst (civil_of n)" "fst (civil_of n) \<le> 32766"
  shows "iso_year_start (iso_year n) + 7 * (iso_week n - 1) + (iso_weekday_number n mod 7 - 1) mod 7 = n"
proof -
  define t y where "t = iso_thursday n" and "y = fst (civil_of t)"
  note w = iso_year_and_week [OF assms, folded t_def, folded y_def]
  have "iso_year_start (iso_year n) = 7 * ((new_year y - 1) div 7) + 4"
    using iso_year_start [OF w(3,4)] w(1) by simp
  moreover have "n - (7 * ((new_year y - 1) div 7) + 4) = 7 * ((t - new_year y) div 7) + (n + 3) mod 7"
    using weeks_between [of n "new_year y"] by (simp add: t_def)
  moreover have "(iso_weekday_number n mod 7 - 1) mod 7 = (n + 3) mod 7"
    by (simp add: mod_diff_left_eq add.commute)
  ultimately show ?thesis using w(2) by simp
qed

lemma resolve_week_date:
  assumes "ymd_ok x" "ps_G s = G" "iso_year (ymd_to_days x) = year_new G" "- 32766 \<le> G" "G \<le> 32767"
    and "ps_V s = iso_week (ymd_to_days x)" "ps_wd s = (ymd_to_days x + 4) mod 7"
    and "- 32765 \<le> year_int (ymd_year x)" "year_int (ymd_year x) \<le> 32766"
    and "ps_y s = not_a_2digit_year" "ps_g s = not_a_2digit_year" "ps_Y s = not_a_year" "ps_m s = not_a_month"
    "ps_d s = not_a_day" "ps_U s = not_a_week_num" "ps_W s = not_a_week_num" "ps_j s = not_a_doy"
  shows "resolve_date s = Some (x, s\<lparr>ps_Y := year_int (ymd_year x), ps_m := month_unsigned (ymd_month x),
    ps_d := day_unsigned (ymd_day x)\<rparr>)"
proof -
  let ?n = "ymd_to_days x"
  let ?s = "s\<lparr>ps_Y := year_int (ymd_year x), ps_m := month_unsigned (ymd_month x), ps_d := day_unsigned (ymd_day x)\<rparr>"
  have y: "fst (civil_of ?n) = year_int (ymd_year x)"
    using assms(1) civil_of_days to_days_civil [OF assms(1)] by (auto simp: ymd_ok_civil int_of_ymd_def split: prod.splits)
  note r = week_date_recovered [of ?n, unfolded y, OF assms(8,9)] iso_week_range [of ?n, unfolded y, OF assms(8,9)]
  have G: "G \<noteq> not_a_year" "\<not> not_a_year < - 32768" using assms(4) by (simp_all add: not_a_year_def)
  have e: "s\<lparr>ps_C := ps_C s, ps_G := G, ps_Y := not_a_year\<rparr> = s" using assms(2,12) by (cases s) simp
  have ys: "resolve_years s = Some s"
    using e assms(2,10,11,12) by (simp add: resolve_years_def join_century_def)
  define w where "w = (?n + 4) mod 7"
  have w: "0 \<le> w" "w \<le> 6" using pos_mod_bound [of 7 "?n + 4"] by (simp_all add: w_def)
  have "weekday_diff (weekday_new (u32 w)) Monday = (w - 1) mod 7" using w by (simp add: weekday_diff_mod)
  moreover have "year_minus (year_new G) 1 = year_new (G - 1)" using assms(4,5) by (simp add: year_minus_def)
  ultimately have t: "ymwl_to_days (ym_div_wdl (year_div_month (year_new (G - 1)) December) (weekday_at_last Thursday))
      + weekday_diff Monday Thursday + 7 * (ps_V s - 1) + weekday_diff (weekday_new (u32 w)) Monday = ?n"
    using r(1) assms(3,6) by (simp add: iso_year_start_def w_def)
  have v: "ps_V s \<noteq> not_a_week_num" "w \<noteq> not_a_weekday" using r(2,3) assms(6) w by (simp_all add: not_a_week_num_def not_a_weekday_def)
  have "resolve_iso_week s = Option.bind (agree_date x s) (\<lambda>s. Some (True, s))"
    unfolding resolve_iso_week_def assms(2,7) w_def [symmetric] t from_to_days [OF assms(1)] using G v by simp
  also have "agree_date x s = Some ?s"
    using assms(12-14) by (simp add: agree_date_def agree_month_day_def require_that_def)
  finally have i: "resolve_iso_week s = Some (True, ?s)" by simp
  have "- 12687428 \<le> ?n" "?n \<le> 11248737"
    using year_of_iff [of ?n "year_int (ymd_year x)"] y new_year_range [of "year_int (ymd_year x)"]
      new_year_range [of "year_int (ymd_year x) + 1"] assms(8,9) by simp_all
  then have wd: "weekday_diff (weekday_of_days ?n) Sunday = ps_wd s"
    by (simp add: weekday_diff_mod weekday_of_days_value assms(7))
  have "resolve_weekday True x ?s = Some ?s"
    using assms(1) wd by (simp add: resolve_weekday_def require_that_def)
  then show ?thesis
    using ys i assms(15-17) by (simp add: resolve_date_def resolve_sunday_week_def resolve_monday_week_def resolve_day_of_year_def)
qed

text \<open>
  C37 (ISO week dates as texts). A valid date of the years 1 to 9998 written by the year and number of its week
  and its weekday, \<^verbatim>\<open>%G-W%V-%u\<close>, is read back by this form, whatever follows it.
\<close>

theorem week_date_roundtrip:
  assumes "num_put L = to_string" "ymd_ok x" "1 \<le> year_int (ymd_year x)" "year_int (ymd_year x) \<le> 9998"
  shows "\<exists>t. date_format (to_stream_ymd L ''%G-W%V-%u'' x) = Inr t
    \<and> from_stream_ymd F ''%G-W%V-%u'' (istream_new (t @ rest)) = (Some x, istream_new rest)"
proof -
  define n G where "n = ymd_to_days x" and "G = year_int (iso_year n)"
  have y: "fst (civil_of n) = year_int (ymd_year x)"
    using assms(2) civil_of_days to_days_civil [OF assms(2)] by (auto simp: n_def ymd_ok_civil int_of_ymd_def split: prod.splits)
  with assms(3,4) have yr: "- 32765 \<le> fst (civil_of n)" "fst (civil_of n) \<le> 32766" by simp_all
  note w = iso_year_and_week [OF yr] and V = iso_week_range [OF yr]
  have n: "new_year 1 \<le> n" "n < new_year 9999"
    using year_of_iff [of n "year_int (ymd_year x)"] y assms(3,4) new_year_mono [of 1 "year_int (ymd_year x)"]
      new_year_mono [of "year_int (ymd_year x) + 1" 9999] by simp_all
  have ny: "new_year 0 = - 719528" "new_year 1 = - 719162" "new_year 9999 = 2932532" "new_year 10000 = 2932897"
    by (simp_all add: new_year_def civil_days_def march_first_def march_month_def month_start_def)
  have "new_year 0 \<le> iso_thursday n" "iso_thursday n < new_year 10000"
    using n iso_thursday(1,2) [of n] unfolding ny by linarith+
  moreover have "new_year (G + 1) \<le> new_year 0" if "G < 0" using that by (intro new_year_mono) simp
  moreover have "new_year 10000 \<le> new_year G" if "9999 < G" using that by (intro new_year_mono) simp
  moreover have G: "fst (civil_of (iso_thursday n)) = G" "iso_year n = year_new G"
    using w(1,3,4) new_field(3) [of "iso_year n"] by (simp_all add: G_def)
  moreover have "new_year G \<le> iso_thursday n" "iso_thursday n < new_year (G + 1)"
    using year_of_iff [of "iso_thursday n" G] G by simp_all
  ultimately have Gr: "0 \<le> G" "G \<le> 9999" by force+
  have N: "- 2147483648 \<le> n" "n < 2147483648" using n by (simp_all add: ny)
  define u where "u = iso_weekday_number n"
  have u: "1 \<le> u" "u \<le> 7"
    using pos_mod_bound [of 7 "n + 4"] pos_mod_sign [of 7 "n + 4"] by (auto simp: u_def iso_weekday_number_def)
  let ?t = "digits 4 G @ ''-W'' @ digits 2 (iso_week n) @ CHR ''-'' # digits 1 u"
  let ?s = "(parse_state_new (istream_new rest))\<lparr>ps_G := G, ps_V := iso_week n, ps_wd := (n + 4) mod 7\<rparr>"
  let ?s' = "?s\<lparr>ps_Y := year_int (ymd_year x), ps_m := month_unsigned (ymd_month x), ps_d := day_unsigned (ymd_day x)\<rparr>"
  have t: "date_format (to_stream_ymd L ''%G-W%V-%u'' x) = Inr ?t"
    using format_week_date [OF assms(1,2), folded n_def u_def, folded G_def] Gr V N by simp
  have s: "parsed F 1 ''%G-W%V-%u'' (?t @ rest) = ?s"
    using parsed_week_date [OF Gr _ _ u, of "iso_week n" F rest] V by (simp add: u_def del: One_nat_def)
  have "resolve_date ?s = Some (x, ?s')"
    by (rule resolve_week_date [where G = G])
      (use assms(2-4) G Gr in \<open>simp_all add: parse_state_new_def istream.defs n_def\<close>)
  moreover have "\<not> is_fail ?s" "resolve_hours ?s' = Some not_a_hour" "istream.truncate ?s = istream_new rest"
    by (simp_all add: parse_state_new_def istream.defs istream_new_def resolve_hours_def Let_def)
  ultimately have "from_stream_ymd F ''%G-W%V-%u'' (istream_new (?t @ rest)) = (Some x, istream_new rest)"
    using ymd_parsed [of F "''%G-W%V-%u''" "?t @ rest"] assms(2) unfolding s by metis
  with t show ?thesis by blast
qed


theorem week_date_roundtrip_witness:
  "\<exists>t. date_format (to_stream_ymd classic_locale ''%G-W%V-%u'' (Ymd (year_new 2021) (month_new 1) (day_new 3))) = Inr t
    \<and> from_stream_ymd \<lparr>time_get = (\<lambda>t f s. (s, False, True, t)), in_decimal_point = CHR ''.''\<rparr> ''%G-W%V-%u''
        (istream_new (t @ ''7 left'')) = (Some (Ymd (year_new 2021) (month_new 1) (day_new 3)), istream_new ''7 left'')"
  by (rule week_date_roundtrip)
     (simp_all add: classic_locale_def ymd_ok_def year_ok_def month_ok_def ymdl_day_value days_in_month_def ymdl_table_def)

end
