(* ===== verification/Calendar_Keywords.thy ===== *)
theory Calendar_Keywords
  imports Calendar_Parse
begin

text \<open>
  The names that \<^verbatim>\<open>src/utils/date.hpp\<close> knows itself when it is compiled with \<^verbatim>\<open>ONLY_C_LOCALE\<close> 1, the scanner
  \<^verbatim>\<open>scan_keyword\<close> that reads one of them, and the conversions that use them. The scanner is proved equal to
  a reference: it consumes the longest prefix of the input that begins a keyword and accepts the first
  keyword that is all of this prefix.
\<close>

section \<open>The names\<close>

definition weekday_names :: "string list" where
  "weekday_names = [''Sunday'', ''Monday'', ''Tuesday'', ''Wednesday'', ''Thursday'', ''Friday'', ''Saturday'',
     ''Sun'', ''Mon'', ''Tue'', ''Wed'', ''Thu'', ''Fri'', ''Sat'']"

definition month_names :: "string list" where
  "month_names = [''January'', ''February'', ''March'', ''April'', ''May'', ''June'', ''July'', ''August'',
     ''September'', ''October'', ''November'', ''December'',
     ''Jan'', ''Feb'', ''Mar'', ''Apr'', ''May'', ''Jun'', ''Jul'', ''Aug'', ''Sep'', ''Oct'', ''Nov'', ''Dec'']"

definition ampm_names :: "string list" where
  "ampm_names = [''AM'', ''PM'']"

section \<open>The scanner\<close>

text \<open>\<^verbatim>\<open>toupper\<close> of the C locale.\<close>

definition to_upper :: "char \<Rightarrow> char" where
  "to_upper c = (if 97 \<le> code_of c \<and> code_of c \<le> 122 then char_of (code_of c - 32) else c)"

text \<open>The status of a keyword; the two counters of the source are the numbers of the last two.\<close>

datatype kw_status = Doesnt_match | Might_match | Does_match

definition n_status :: "kw_status \<Rightarrow> kw_status list \<Rightarrow> nat" where
  "n_status x sts = count_list sts x"

definition scan_init :: "string list \<Rightarrow> kw_status list" where
  "scan_init kws = map (\<lambda>k. if k \<noteq> [] then Might_match else Does_match) kws"

text \<open>The keywords against the next character, which is consumed when one of them goes on with it.\<close>

definition scan_matches :: "nat \<Rightarrow> char \<Rightarrow> string \<Rightarrow> kw_status \<Rightarrow> bool" where
  "scan_matches i c k st \<longleftrightarrow> st = Might_match \<and> to_upper c = to_upper (k ! i)"

definition scan_char :: "nat \<Rightarrow> char \<Rightarrow> string list \<Rightarrow> kw_status list \<Rightarrow> kw_status list" where
  "scan_char i c kws sts = map2 (\<lambda>k st. if st = Might_match then
       if to_upper c = to_upper (k ! i) then if length k = i + 1 then Does_match else Might_match else Doesnt_match
     else st) kws sts"

text \<open>Keywords that ended before the character just consumed match no longer.\<close>

definition scan_reset :: "nat \<Rightarrow> string list \<Rightarrow> kw_status list \<Rightarrow> kw_status list" where
  "scan_reset i kws sts = (if 1 < n_status Might_match sts + n_status Does_match sts then
       map2 (\<lambda>k st. if st = Does_match \<and> length k \<noteq> i + 1 then Doesnt_match else st) kws sts
     else sts)"

text \<open>
  The loop on a stream that has not failed: the statuses, what is left, and whether the end was seen. A
  character that is not consumed leaves no keyword that might match, which ends the loop.
\<close>

fun scan_loop :: "nat \<Rightarrow> string list \<Rightarrow> kw_status list \<Rightarrow> string \<Rightarrow> kw_status list \<times> string \<times> bool" where
  "scan_loop i kws sts [] = (sts, [], 0 < n_status Might_match sts)"
| "scan_loop i kws sts (c # cs) =
     (if n_status Might_match sts = 0 then (sts, c # cs, False)
      else let sts' = scan_char i c kws sts in
        if list_ex (\<lambda>(k, st). scan_matches i c k st) (zip kws sts)
        then scan_loop (i + 1) kws (scan_reset i kws sts') cs
        else (sts', c # cs, False))"

text \<open>The position of the first keyword that matches, or the end.\<close>

fun first_match :: "kw_status list \<Rightarrow> nat" where
  "first_match [] = 0"
| "first_match (st # sts) = (if st = Does_match then 0 else Suc (first_match sts))"

definition scan_keyword :: "string list \<Rightarrow> ('z, nat) read" where
  "scan_keyword kws = do {
     fail \<leftarrow> gets is_fail;
     eof \<leftarrow> gets is_eof;
     text \<leftarrow> gets is_text;
     sts \<leftarrow> (if fail \<or> n_status Might_match (scan_init kws) = 0 then State_Monad.return (scan_init kws)
       else if eof then do { peek; set_eof; State_Monad.return (scan_init kws) }
       else case scan_loop 0 kws (scan_init kws) text of (sts, rest, end) \<Rightarrow> do {
         modify (is_text_update (\<lambda>_. rest));
         unless (\<not> end) set_eof;
         State_Monad.return sts
       });
     let k = first_match sts in
     do { unless (k \<noteq> length kws) set_fail; State_Monad.return k }
   }"

section \<open>The reference\<close>

fun common :: "string \<Rightarrow> string \<Rightarrow> nat" where
  "common (k # ks) (c # cs) = (if to_upper c = to_upper k then Suc (common ks cs) else 0)"
| "common _ _ = 0"

text \<open>The length of the longest prefix of the text that begins a keyword, in any case.\<close>

definition longest :: "string list \<Rightarrow> string \<Rightarrow> nat" where
  "longest kws s = foldr (\<lambda>k n. max (common k s) n) kws 0"

text \<open>The first keyword that is all of this prefix, or the number of keywords.\<close>

definition first_longest :: "string list \<Rightarrow> string \<Rightarrow> nat" where
  "first_longest kws s = length (takeWhile (\<lambda>k. \<not> (common k s = longest kws s \<and> length k = longest kws s)) kws)"

lemma common_le: "common k s \<le> length k" "common k s \<le> length s"
  by (induction k s rule: common.induct) auto

lemma common_Suc:
  "i \<le> common k s \<Longrightarrow> i < length k \<Longrightarrow> i < length s \<Longrightarrow> Suc i \<le> common k s \<longleftrightarrow> to_upper (s ! i) = to_upper (k ! i)"
proof (induction k s arbitrary: i rule: common.induct)
  case (1 k ks c cs)
  then show ?case by (cases i) (auto split: if_splits)
qed simp_all

lemma common_le_longest: "k \<in> set kws \<Longrightarrow> common k s \<le> longest kws s"
  by (induction kws) (auto simp: longest_def)

lemma longest_le: "(\<And>k. k \<in> set kws \<Longrightarrow> common k s \<le> n) \<Longrightarrow> longest kws s \<le> n"
  by (induction kws) (auto simp: longest_def)

lemma longest_attained: "0 < longest kws s \<Longrightarrow> \<exists>k\<in>set kws. common k s = longest kws s"
  by (induction kws) (auto simp: longest_def max_def)

text \<open>The status of a keyword once \<open>i\<close> characters are consumed.\<close>

definition status_at :: "string \<Rightarrow> nat \<Rightarrow> string \<Rightarrow> kw_status" where
  "status_at s i k = (if i \<le> common k s then if length k = i then Does_match else Might_match else Doesnt_match)"

lemma n_status_zero: "n_status x sts = 0 \<longleftrightarrow> x \<notin> set sts"
  by (simp add: n_status_def count_list_0_iff)

lemma n_status_map: "n_status Might_match (map f kws) + n_status Does_match (map f kws)
    = length (filter (\<lambda>k. f k \<noteq> Doesnt_match) kws)"
proof (induction kws)
  case (Cons k kws)
  then show ?case by (cases "f k") (simp_all add: n_status_def)
qed (simp add: n_status_def)

lemma two_in_filter:
  assumes "a \<in> set xs" "b \<in> set xs" "a \<noteq> b" "P a" "P b"
  shows "1 < length (filter P xs)"
proof -
  have "card {a, b} \<le> card (set (filter P xs))" by (rule card_mono) (use assms in auto)
  also have "\<dots> \<le> length (filter P xs)" by (rule card_length)
  finally show ?thesis using assms(3) by simp
qed

lemma scan_init_status: "scan_init kws = map (status_at s 0) kws"
  by (simp add: scan_init_def status_at_def)

lemma map2_map_self: "map2 f xs (map g xs) = map (\<lambda>x. f x (g x)) xs"
  by (induction xs) simp_all

text \<open>One character, in terms of the statuses of the keywords.\<close>

definition status_seen :: "string \<Rightarrow> nat \<Rightarrow> string \<Rightarrow> kw_status" where
  "status_seen s i k = (if length k = i \<and> i \<le> common k s then Does_match else status_at s (Suc i) k)"

lemma status_at_cases:
  "status_at s i k = Might_match \<longleftrightarrow> i \<le> common k s \<and> i < length k"
  "status_at s i k = Does_match \<longleftrightarrow> i \<le> common k s \<and> length k = i"
  using common_le(1) [of k s] by (auto simp: status_at_def)

lemma scan_char_status:
  assumes "i < length s"
  shows "scan_char i (s ! i) kws (map (status_at s i) kws) = map (status_seen s i) kws"
  unfolding scan_char_def map2_map_self
proof (rule map_cong [OF refl])
  fix k assume "k \<in> set kws"
  show "(if status_at s i k = Might_match
        then if to_upper (s ! i) = to_upper (k ! i) then if length k = i + 1 then Does_match else Might_match else Doesnt_match
        else status_at s i k) = status_seen s i k"
    using common_Suc [of i k s] common_le(1) [of k s] assms
    by (auto simp: status_seen_def status_at_def)
qed

lemma scan_matches_status:
  assumes "i < length s"
  shows "list_ex (\<lambda>(k, st). scan_matches i (s ! i) k st) (zip kws (map (status_at s i) kws))
    \<longleftrightarrow> (\<exists>k\<in>set kws. Suc i \<le> common k s)"
proof -
  have "scan_matches i (s ! i) k (status_at s i k) \<longleftrightarrow> Suc i \<le> common k s" for k
    using common_Suc [of i k s] common_le(1) [of k s] assms by (auto simp: scan_matches_def status_at_cases)
  then show ?thesis by (induction kws) auto
qed

lemma scan_reset_status:
  assumes "w \<in> set kws" "Suc i \<le> common w s"
  shows "scan_reset i kws (map (status_seen s i) kws) = map (status_at s (Suc i)) kws"
proof (cases "\<exists>k\<in>set kws. length k = i \<and> i \<le> common k s")
  case True
  then obtain k where k: "k \<in> set kws" "length k = i" "i \<le> common k s" by blast
  have "length w \<noteq> i" using assms(2) common_le(1) [of w s] by simp
  then have "1 < length (filter (\<lambda>k. status_seen s i k \<noteq> Doesnt_match) kws)"
    using k assms common_le(1) [of w s]
    by (intro two_in_filter [of k _ w]) (auto simp: status_seen_def status_at_def)
  then have "1 < n_status Might_match (map (status_seen s i) kws) + n_status Does_match (map (status_seen s i) kws)"
    by (simp add: n_status_map)
  moreover have "(if status_seen s i k = Does_match \<and> length k \<noteq> i + 1 then Doesnt_match else status_seen s i k)
      = status_at s (Suc i) k" for k
    using common_le(1) [of k s] by (cases "length k = i") (simp_all add: status_seen_def status_at_def)
  ultimately show ?thesis by (simp add: scan_reset_def map2_map_self)
next
  case False
  then have "map (status_seen s i) kws = map (status_at s (Suc i)) kws" by (auto simp: status_seen_def)
  moreover have "map2 (\<lambda>k st. if st = Does_match \<and> length k \<noteq> i + 1 then Doesnt_match else st) kws
      (map (status_at s (Suc i)) kws) = map (status_at s (Suc i)) kws"
    by (auto simp: map2_map_self status_at_cases)
  ultimately show ?thesis unfolding scan_reset_def by (simp del: map_eq_conv)
qed

lemma first_match_map: "first_match (map f kws) = length (takeWhile (\<lambda>k. f k \<noteq> Does_match) kws)"
  by (induction kws) auto

lemma longest_le_length: "longest kws s \<le> length s"
  by (rule longest_le) (rule common_le)

text \<open>At the end of the loop the keywords that match are those that are all of the longest prefix.\<close>

lemma first_match_longest:
  assumes "longest kws s = i" "\<And>k. k \<in> set kws \<Longrightarrow> f k = Does_match \<longleftrightarrow> i \<le> common k s \<and> length k = i"
  shows "first_match (map f kws) = first_longest kws s"
proof -
  have "f k \<noteq> Does_match \<longleftrightarrow> \<not> (common k s = longest kws s \<and> length k = longest kws s)" if "k \<in> set kws" for k
    using assms that common_le_longest [OF that, of s] by auto
  then show ?thesis
    unfolding first_match_map first_longest_def by (intro arg_cong [where f = length] takeWhile_cong) auto
qed

text \<open>The loop, from the statuses after \<open>i\<close> characters on.\<close>

lemma scan_loop_spec:
  assumes "i \<le> length s" "i \<le> longest kws s"
    and "scan_loop i kws (map (status_at s i) kws) (drop i s) = (sts, rest, end)"
  shows "first_match sts = first_longest kws s \<and> rest = drop (longest kws s) s
    \<and> (end \<longleftrightarrow> longest kws s = length s \<and> list_ex (\<lambda>k. common k s = length s \<and> length s < length k) kws)"
  using assms
proof (induction "length s - i" arbitrary: i)
  case 0
  then have i: "longest kws s = i" "length s = i"
    using longest_le_length [of kws s] by simp_all
  have "Might_match \<in> set (map (status_at s i) kws) \<longleftrightarrow> list_ex (\<lambda>k. common k s = i \<and> i < length k) kws"
  proof -
    have "status_at s i k = Might_match \<longleftrightarrow> common k s = i \<and> i < length k" for k
      using common_le(2) [of k s] i(2) by (auto simp: status_at_cases)
    then show ?thesis by (auto simp: list_ex_iff image_iff eq_commute [of Might_match])
  qed
  moreover have "first_match (map (status_at s i) kws) = first_longest kws s"
    using i(1) by (rule first_match_longest) (rule status_at_cases)
  ultimately show ?case using 0(4) by (simp add: i n_status_zero flip: neq0_conv)
next
  case (Suc n)
  then have i: "i < length s" and n: "n = length s - Suc i" by simp_all
  have drop: "drop i s = s ! i # drop (Suc i) s" using i by (rule Cons_nth_drop_Suc [symmetric])
  let ?sts = "map (status_at s i) kws"
  have stop: ?case if l: "longest kws s \<le> i" and f: "sts = map f kws" "rest = drop i s" "\<not> end"
    and d: "\<And>k. k \<in> set kws \<Longrightarrow> f k = Does_match \<longleftrightarrow> i \<le> common k s \<and> length k = i" for f
  proof -
    have "longest kws s = i" using l Suc.prems(2) by simp
    with f i first_match_longest [OF this d] show ?thesis by simp
  qed
  show ?case
  proof (cases "\<exists>k\<in>set kws. Suc i \<le> common k s")
    case True
    then obtain w where w: "w \<in> set kws" "Suc i \<le> common w s" by blast
    then have "status_at s i w = Might_match" using common_le(1) [of w s] by (simp add: status_at_cases)
    with w(1) have "Might_match \<in> set ?sts" by (metis image_eqI list.set_map)
    then have "scan_loop (Suc i) kws (map (status_at s (Suc i)) kws) (drop (Suc i) s) = (sts, rest, end)"
      using Suc.prems(3) True scan_matches_status [OF i, of kws]
      by (simp add: drop n_status_zero scan_char_status [OF i] scan_reset_status [OF w] del: set_map)
    moreover have "Suc i \<le> longest kws s" using common_le_longest [OF w(1), of s] w(2) by simp
    ultimately show ?thesis using Suc.hyps(1) [OF n] i by simp
  next
    case False
    then have l: "longest kws s \<le> i" by (intro longest_le) (simp add: not_less_eq_eq)
    show ?thesis
    proof (cases "Might_match \<in> set ?sts")
      case True
      with Suc.prems(3) False scan_matches_status [OF i, of kws]
      have "sts = map (status_seen s i) kws" "rest = drop i s" "\<not> end"
        by (simp_all add: drop n_status_zero scan_char_status [OF i] del: set_map)
      with l show ?thesis
        by (rule stop) (use False in \<open>auto simp: status_seen_def status_at_cases\<close>)
    next
      case no: False
      with Suc.prems(3) have "sts = ?sts" "rest = drop i s" "\<not> end"
        by (auto simp: drop n_status_zero simp del: set_map)
      with l show ?thesis by (rule stop) (rule status_at_cases)
    qed
  qed
qed

section \<open>The conversions that read a name\<close>

definition parse_weekday_name_c :: "char \<Rightarrow> unit parse" where
  "parse_weekday_name_c c = parse_conversion c plain_only (\<lambda>_. do {
     i \<leftarrow> scan_keyword weekday_names;
     fail \<leftarrow> gets is_fail;
     set_wd (if fail then not_a_weekday else int (i mod 7)) })"

definition parse_month_name_c :: "char \<Rightarrow> unit parse" where
  "parse_month_name_c c = parse_conversion c plain_only (\<lambda>_. do {
     i \<leftarrow> scan_keyword month_names;
     fail \<leftarrow> gets is_fail;
     set_m (if fail then not_a_month else int (i mod 12 + 1)) })"

definition parse_am_pm_c :: "unit parse" where
  "parse_am_pm_c = parse_conversion CHR ''p'' plain_only (\<lambda>_. do {
     i \<leftarrow> scan_keyword ampm_names;
     checked_set ps_p ps_p_update (int i) not_a_ampm })"

section \<open>Properties\<close>

text \<open>
  C40 (Scanning of keywords). On a good stream \<^verbatim>\<open>scan_keyword\<close> consumes the longest prefix of the input
  that begins a keyword, in upper or lower case, and nothing more; its value is the first keyword that is
  all of this prefix, and if there is none it fails, with the prefix consumed. It sees the end of the input
  exactly when the input ends within a keyword.
\<close>

theorem scan_keyword_longest:
  assumes "is_good s"
  shows "run_state (scan_keyword kws) s = (first_longest kws (is_text s),
    s\<lparr>is_text := drop (longest kws (is_text s)) (is_text s),
      is_eof := longest kws (is_text s) = length (is_text s)
        \<and> list_ex (\<lambda>k. common k (is_text s) = length (is_text s) \<and> length (is_text s) < length k) kws,
      is_fail := first_longest kws (is_text s) = length kws\<rparr>)"
proof -
  let ?t = "is_text s"
  obtain sts rest e where loop: "scan_loop 0 kws (scan_init kws) ?t = (sts, rest, e)"
    by (cases "scan_loop 0 kws (scan_init kws) ?t") auto
  with scan_loop_spec [of 0 ?t kws sts rest e]
  have spec: "first_match sts = first_longest kws ?t" "rest = drop (longest kws ?t) ?t"
    "e \<longleftrightarrow> longest kws ?t = length ?t \<and> list_ex (\<lambda>k. common k ?t = length ?t \<and> length ?t < length k) kws"
    by (simp_all add: scan_init_status [of kws ?t])
  have none: "sts = scan_init kws \<and> rest = ?t \<and> \<not> e" if "n_status Might_match (scan_init kws) = 0"
    using loop that by (cases ?t) simp_all
  show ?thesis
    using assms none spec
    by (cases "n_status Might_match (scan_init kws) = 0")
      (auto simp: scan_keyword_def is_good_def Let_def loop set_fail_def set_eof_def)
qed

text \<open>A name that goes on like a longer one is not read.\<close>

theorem scan_keyword_longest_witness:
  "let s = \<lparr>is_text = ''sundial'', is_eof = False, is_fail = False\<rparr> in
     fst (run_state (scan_keyword weekday_names) s) = 14 \<and> is_fail (snd (run_state (scan_keyword weekday_names) s))
     \<and> is_text (snd (run_state (scan_keyword weekday_names) s)) = ''ial''"
proof -
  have "longest weekday_names ''sundial'' = 4" "first_longest weekday_names ''sundial'' = 14" "length weekday_names = 14"
    by code_simp+
  then show ?thesis
    using scan_keyword_longest [of "\<lparr>is_text = ''sundial'', is_eof = False, is_fail = False\<rparr>" weekday_names]
    by (simp add: is_good_def)
qed

end
