(* ===== verification/Calendar_Rounding.thy ===== *)
theory Calendar_Rounding
  imports Complex_Main Calendar_Text
begin

text \<open>
  The conversions between units of time in \<^verbatim>\<open>src/utils/date.hpp\<close>: \<^verbatim>\<open>trunc\<close>, \<^verbatim>\<open>floor\<close>, \<^verbatim>\<open>ceil\<close>, \<^verbatim>\<open>round\<close> and \<^verbatim>\<open>abs\<close>
  with the arithmetic of ratios that chooses between two ways to compute them. The library uses its own
  \<^verbatim>\<open>floor\<close>, \<^verbatim>\<open>ceil\<close>, \<^verbatim>\<open>round\<close> and \<^verbatim>\<open>abs\<close> where the standard library has none (\<^verbatim>\<open>HAS_CHRONO_ROUNDING\<close> 0); they are
  proved to be the roundings of the standard. Counts are whole numbers without bounds.
\<close>

section \<open>Ratios\<close>

text \<open>A period of \<open>n/d\<close> seconds, in lowest terms as \<^verbatim>\<open>std::ratio\<close> keeps it.\<close>

type_synonym period = "nat \<times> nat"

definition intmax :: nat where
  "intmax = 2 ^ 63 - 1"

definition period_ok :: "period \<Rightarrow> bool" where
  "period_ok p \<longleftrightarrow> 0 < fst p \<and> 0 < snd p \<and> coprime (fst p) (snd p) \<and> fst p \<le> intmax \<and> snd p \<le> intmax"

text \<open>The template recursion of the greatest common divisor.\<close>

fun static_gcd :: "nat \<Rightarrow> nat \<Rightarrow> nat" where
  "static_gcd x y = (if y = 0 then if x = 0 then 1 else x else static_gcd y (x mod y))"

declare static_gcd.simps [simp del]

text \<open>Whether the quotient of two ratios has numerator and denominator in range.\<close>

definition no_overflow :: "period \<Rightarrow> period \<Rightarrow> bool" where
  "no_overflow r1 r2 = (let gcd_n1_n2 = static_gcd (fst r1) (fst r2); gcd_d1_d2 = static_gcd (snd r1) (snd r2);
     n1 = fst r1 div gcd_n1_n2; d1 = snd r1 div gcd_d1_d2; n2 = fst r2 div gcd_n1_n2; d2 = snd r2 div gcd_d1_d2
     in n1 \<le> intmax div d2 \<and> n2 \<le> intmax div d1)"

definition no_overflow_type :: "period \<Rightarrow> period \<Rightarrow> nat \<times> nat" where
  "no_overflow_type r1 r2 = (let gcd_n1_n2 = static_gcd (fst r1) (fst r2); gcd_d1_d2 = static_gcd (snd r1) (snd r2);
     n1 = fst r1 div gcd_n1_n2; d1 = snd r1 div gcd_d1_d2; n2 = fst r2 div gcd_n1_n2; d2 = snd r2 div gcd_d1_d2;
     mul = (\<lambda>x y. if no_overflow r1 r2 then x * y else 1)
     in (mul n1 d2, mul n2 d1))"

section \<open>Durations\<close>

text \<open>The seconds of a duration, in which durations of different periods are compared.\<close>

definition secs :: "period \<Rightarrow> int \<Rightarrow> rat" where
  "secs p c = of_int c * (of_nat (fst p) / of_nat (snd p))"

text \<open>\<^verbatim>\<open>std::chrono::duration_cast\<close>: the factor in lowest terms, and the division of C++.\<close>

definition duration_cast :: "period \<Rightarrow> period \<Rightarrow> int \<Rightarrow> int" where
  "duration_cast p q c = (let n = fst p * snd q; d = snd p * fst q; g = gcd n d in
     cdiv (c * int (n div g)) (int (d div g)))"

definition whole_seconds :: period where
  "whole_seconds = (1, 1)"

text \<open>On overflow the duration is cast to seconds first.\<close>

definition chrono_trunc :: "period \<Rightarrow> period \<Rightarrow> int \<Rightarrow> int" where
  "chrono_trunc p q c = (if no_overflow p q then duration_cast p q c
     else duration_cast whole_seconds q (duration_cast p whole_seconds c))"

definition floor_step :: "period \<Rightarrow> period \<Rightarrow> int \<Rightarrow> int" where
  "floor_step p q c = (let t = chrono_trunc p q c in if secs p c < secs q t then t - 1 else t)"

definition chrono_floor :: "period \<Rightarrow> period \<Rightarrow> int \<Rightarrow> int" where
  "chrono_floor p q c = (if no_overflow p q then floor_step p q c
     else floor_step whole_seconds q (floor_step p whole_seconds c))"

definition chrono_ceil :: "period \<Rightarrow> period \<Rightarrow> int \<Rightarrow> int" where
  "chrono_ceil p q c = (let t = chrono_trunc p q c in if secs q t < secs p c then t + 1 else t)"

definition chrono_round :: "period \<Rightarrow> period \<Rightarrow> int \<Rightarrow> int" where
  "chrono_round p q c = (let t0 = chrono_floor p q c; t1 = t0 + 1; t1 = (if t1 = 0 \<and> t0 < 0 then - t1 else t1);
     diff0 = secs p c - secs q t0; diff1 = secs q t1 - secs p c in
     if diff0 = diff1 then if t0 - cdiv t0 2 * 2 = 0 then t0 else t1
     else if diff0 < diff1 then t0 else t1)"

definition chrono_abs :: "int \<Rightarrow> int" where
  "chrono_abs d = (if 0 \<le> d then d else - d)"

section \<open>The arithmetic of ratios\<close>

lemma static_gcd_gcd: "static_gcd x y = (if x = 0 \<and> y = 0 then 1 else gcd x y)"
proof (induction x y rule: static_gcd.induct)
  case (1 x y)
  show ?case
  proof (cases "y = 0")
    case True
    then show ?thesis by (simp add: static_gcd.simps)
  next
    case False
    with 1 have "static_gcd y (x mod y) = gcd y (x mod y)" by simp
    with False show ?thesis by (simp add: static_gcd.simps [of x y] gcd.commute [of y] flip: gcd_red_nat)
  qed
qed

lemma le_div_iff: "0 < d \<Longrightarrow> n \<le> m div d \<longleftrightarrow> n * d \<le> (m :: nat)"
  by (rule less_eq_div_iff_mult_less_eq)

text \<open>The quotient of two ratios in lowest terms, as the source takes it apart.\<close>

lemma ratio_parts:
  fixes a b c d :: nat
  assumes "coprime a b" "coprime c d" "0 < a" "0 < b" "0 < c" "0 < d"
  obtains g h a' b' c' d' where "a = g * a'" "c = g * c'" "b = h * b'" "d = h * d'" "gcd a c = g" "gcd b d = h"
    "coprime (a' * d') (b' * c')" "0 < g" "0 < h" "0 < b'" "0 < d'"
proof -
  define g h where "g = gcd a c" and "h = gcd b d"
  have pos: "0 < g" "0 < h" using assms(3,4) by (simp_all add: g_def h_def)
  obtain a' c' where ac: "a = g * a'" "c = g * c'" using that unfolding g_def by (metis dvdE gcd_dvd1 gcd_dvd2)
  obtain b' d' where bd: "b = h * b'" "d = h * d'" using that unfolding h_def by (metis dvdE gcd_dvd1 gcd_dvd2)
  have "g * gcd a' c' = g * 1" "h * gcd b' d' = h * 1"
    using ac bd g_def h_def by (metis gcd_mult_distrib_nat mult.right_neutral)+
  then have "coprime a' c'" "coprime d' b'" using pos by (simp_all add: coprime_iff_gcd_eq_1 gcd.commute)
  moreover have "coprime a' b'" "coprime d' c'"
    using assms(1,2) by (simp_all add: ac bd coprime_commute)
  ultimately have "coprime (a' * d') (b' * c')" by simp
  moreover have "0 < b'" "0 < d'" using assms(4,6) by (simp_all add: bd)
  ultimately show ?thesis using that [OF ac bd] pos by (simp add: g_def h_def)
qed

lemma gcd_scaled: "coprime x y \<Longrightarrow> gcd (k * x) (k * y) = (k :: nat)"
  by (metis coprime_imp_gcd_eq_1 gcd_mult_distrib_nat mult.right_neutral)

lemma no_overflow_iff:
  assumes "period_ok p" "period_ok q"
  shows "no_overflow p q \<longleftrightarrow> fst p * snd q div gcd (fst p * snd q) (snd p * fst q) \<le> intmax
    \<and> snd p * fst q div gcd (fst p * snd q) (snd p * fst q) \<le> intmax"
proof -
  obtain a b c d where pq: "p = (a, b)" "q = (c, d)" by (cases p, cases q) auto
  have pos: "coprime a b" "coprime c d" "0 < a" "0 < b" "0 < c" "0 < d" using assms by (auto simp: pq period_ok_def)
  obtain g h a' b' c' d' where e: "a = g * a'" "c = g * c'" "b = h * b'" "d = h * d'" and gcds: "gcd a c = g" "gcd b d = h"
    and cop: "coprime (a' * d') (b' * c')" and gh: "0 < g" "0 < h" "0 < b'" "0 < d'"
    by (rule ratio_parts [OF pos])
  have "gcd (g * h * (a' * d')) (g * h * (b' * c')) = g * h" using cop by (rule gcd_scaled)
  moreover have "a * d = g * h * (a' * d')" "b * c = g * h * (b' * c')" by (simp_all add: e)
  ultimately have "a * d div gcd (a * d) (b * c) = a' * d'" "b * c div gcd (a * d) (b * c) = b' * c'"
    using gh(1,2) by simp_all
  moreover have "a div g = a'" "c div g = c'" "b div h = b'" "d div h = d'" using gh by (simp_all add: e)
  ultimately show ?thesis using pos(3,4) gcds gh
    by (simp add: no_overflow_def pq static_gcd_gcd Let_def le_div_iff mult.commute [of c'])
qed

section \<open>Roundings\<close>

lemma cdiv_cancel: "0 < k \<Longrightarrow> cdiv (a * k) (b * k) = cdiv a b"
  by (simp add: cdiv_def sgn_mult abs_mult)

text \<open>A cast is the truncated quotient in the unit of the result.\<close>

lemma duration_cast_eq:
  assumes "period_ok p" "period_ok q"
  shows "duration_cast p q c = cdiv (c * int (fst p * snd q)) (int (snd p * fst q))"
proof -
  let ?n = "fst p * snd q" and ?d = "snd p * fst q"
  let ?g = "gcd ?n ?d"
  have g: "0 < ?g" using assms by (auto simp: period_ok_def)
  have "int ?n = int (?n div ?g) * int ?g" "int ?d = int (?d div ?g) * int ?g"
    by (simp_all flip: of_nat_mult del: of_nat_mult)
  then have "cdiv (c * int ?n) (int ?d) = cdiv (c * int (?n div ?g) * int ?g) (int (?d div ?g) * int ?g)"
    by (simp add: mult.assoc)
  also have "\<dots> = cdiv (c * int (?n div ?g)) (int (?d div ?g))" using g by (intro cdiv_cancel) simp
  finally show ?thesis by (simp add: duration_cast_def Let_def)
qed

text \<open>The duration in units of another period.\<close>

definition in_units :: "period \<Rightarrow> period \<Rightarrow> int \<Rightarrow> rat" where
  "in_units p q c = secs p c / secs q 1"

lemma secs_units:
  assumes "period_ok q"
  shows "0 < secs q 1" "secs q t = of_int t * secs q 1"
  using assms by (simp_all add: secs_def period_ok_def)

lemma in_units_quot:
  assumes "period_ok p" "period_ok q"
  shows "in_units p q c = of_int (c * int (fst p * snd q)) / of_int (int (snd p * fst q))"
  using assms by (simp add: in_units_def secs_def period_ok_def field_simps)

lemma secs_less:
  assumes "period_ok q"
  shows "secs p c < secs q t \<longleftrightarrow> in_units p q c < of_int t" "secs q t < secs p c \<longleftrightarrow> of_int t < in_units p q c"
  unfolding in_units_def secs_units(2) [OF assms, of t]
  using secs_units(1) [OF assms] by (simp_all add: pos_divide_less_eq pos_less_divide_eq)

text \<open>Truncation towards zero.\<close>

definition trunc_rat :: "rat \<Rightarrow> int" where
  "trunc_rat x = (if 0 \<le> x then \<lfloor>x\<rfloor> else \<lceil>x\<rceil>)"

lemma trunc_rat_sign: "0 \<le> x \<Longrightarrow> trunc_rat x = \<lfloor>x\<rfloor>" "x \<le> 0 \<Longrightarrow> trunc_rat x = \<lceil>x\<rceil>"
  by (auto simp: trunc_rat_def)

lemma truncate_cdiv:
  assumes "0 < b"
  shows "trunc_rat (of_int a / of_int b) = cdiv a b"
proof -
  have "\<lfloor>of_int a / of_int b :: rat\<rfloor> = a div b" "\<lceil>of_int a / of_int b :: rat\<rceil> = - (- a div b)"
    by (simp_all add: floor_divide_of_int_eq ceiling_divide_eq_div)
  then show ?thesis using assms by (auto simp: trunc_rat_def cdiv_def sgn_if zero_le_divide_iff)
qed

lemma duration_cast_truncate:
  assumes "period_ok p" "period_ok q"
  shows "duration_cast p q c = trunc_rat (in_units p q c)"
  using assms by (simp only: duration_cast_eq in_units_quot) (rule truncate_cdiv [symmetric], simp add: period_ok_def)

text \<open>Through whole seconds the result is the same when the unit is a number of seconds.\<close>

lemma seconds_ok [simp]: "period_ok whole_seconds"
  by (simp add: period_ok_def whole_seconds_def intmax_def)

lemma seconds_no_overflow: "period_ok p \<Longrightarrow> no_overflow p whole_seconds \<and> no_overflow whole_seconds p"
  by (simp add: no_overflow_iff) (auto simp: period_ok_def whole_seconds_def intro: le_trans [OF div_le_dividend])

text \<open>The units for which both ways lead to the same count.\<close>

definition convertible :: "period \<Rightarrow> period \<Rightarrow> bool" where
  "convertible p q \<longleftrightarrow> period_ok p \<and> period_ok q \<and> (no_overflow p q \<or> snd q = 1)"

lemma in_units_seconds:
  assumes "snd q = 1" "period_ok q"
  shows "in_units p q c = secs p c / of_nat (fst q)" "in_units p whole_seconds c = secs p c"
    "in_units whole_seconds q t = of_int t / of_nat (fst q)" "secs whole_seconds t = of_int t"
  using assms by (simp_all add: in_units_def secs_def whole_seconds_def)

lemma floor_div_nat: "0 < n \<Longrightarrow> \<lfloor>of_int \<lfloor>x\<rfloor> / of_nat n :: rat\<rfloor> = \<lfloor>x / of_nat n\<rfloor>" for x :: rat
proof -
  assume n: "0 < n"
  have "t \<le> \<lfloor>of_int \<lfloor>x\<rfloor> / of_nat n :: rat\<rfloor> \<longleftrightarrow> t \<le> \<lfloor>x / of_nat n\<rfloor>" for t
  proof -
    have "t \<le> \<lfloor>of_int \<lfloor>x\<rfloor> / of_nat n :: rat\<rfloor> \<longleftrightarrow> (of_int (t * int n) :: rat) \<le> of_int \<lfloor>x\<rfloor>"
      using n by (simp add: le_floor_iff pos_le_divide_eq)
    also have "\<dots> \<longleftrightarrow> t * int n \<le> \<lfloor>x\<rfloor>" by (simp only: of_int_le_iff)
    also have "\<dots> \<longleftrightarrow> t \<le> \<lfloor>x / of_nat n\<rfloor>"
      using n by (simp add: le_floor_iff pos_le_divide_eq)
    finally show ?thesis .
  qed
  then show ?thesis by (metis order.antisym order.refl)
qed

lemma ceiling_div_nat: "0 < n \<Longrightarrow> \<lceil>of_int \<lceil>x\<rceil> / of_nat n :: rat\<rceil> = \<lceil>x / of_nat n\<rceil>" for x :: rat
  using floor_div_nat [of n "- x"] by (simp add: ceiling_def)

lemma truncate_div_nat:
  assumes "0 < n"
  shows "trunc_rat (of_int (trunc_rat x) / of_nat n) = trunc_rat (x / of_nat n)"
proof (cases "0 \<le> x")
  case True
  with assms show ?thesis by (simp add: trunc_rat_sign(1) floor_div_nat)
next
  case False
  with assms have "x / of_nat n \<le> 0" "of_int \<lceil>x\<rceil> / of_nat n \<le> (0 :: rat)" by (simp_all add: divide_le_0_iff)
  with False assms show ?thesis by (simp add: trunc_rat_sign(2) ceiling_div_nat)
qed

lemma trunc_spec:
  assumes "convertible p q"
  shows "chrono_trunc p q c = trunc_rat (in_units p q c)"
proof (cases "no_overflow p q")
  case True
  with assms show ?thesis by (simp add: chrono_trunc_def convertible_def duration_cast_truncate)
next
  case False
  with assms have q: "snd q = 1" "period_ok p" "period_ok q" "0 < fst q" by (auto simp: convertible_def period_ok_def)
  with False show ?thesis
    by (simp add: chrono_trunc_def duration_cast_truncate in_units_seconds truncate_div_nat)
qed

lemma truncate_floor: "(if x < of_int (trunc_rat x) then trunc_rat x - 1 else trunc_rat x) = \<lfloor>x\<rfloor>"
  and truncate_ceiling: "(if of_int (trunc_rat x) < x then trunc_rat x + 1 else trunc_rat x) = \<lceil>x\<rceil>"
proof -
  have "\<not> x < of_int \<lfloor>x\<rfloor>" by (simp add: not_less)
  moreover have "x < of_int \<lfloor>x\<rfloor> + 1" using floor_correct [of x] by simp
  moreover have "x = of_int \<lfloor>x\<rfloor> \<or> of_int \<lfloor>x\<rfloor> < x" using of_int_floor_le [of x] by (auto simp: order.order_iff_strict)
  ultimately show "(if x < of_int (trunc_rat x) then trunc_rat x - 1 else trunc_rat x) = \<lfloor>x\<rfloor>"
    "(if of_int (trunc_rat x) < x then trunc_rat x + 1 else trunc_rat x) = \<lceil>x\<rceil>"
    by (auto simp: trunc_rat_def ceiling_altdef)
qed

lemma floor_step_spec:
  assumes "period_ok p" "period_ok q" "no_overflow p q"
  shows "floor_step p q c = \<lfloor>in_units p q c\<rfloor>"
  using assms trunc_spec [of p q c] truncate_floor [of "in_units p q c"]
  by (simp add: floor_step_def Let_def secs_less(1) [of q p c] convertible_def)

lemma floor_spec:
  assumes "convertible p q"
  shows "chrono_floor p q c = \<lfloor>in_units p q c\<rfloor>"
proof (cases "no_overflow p q")
  case True
  with assms show ?thesis by (simp add: chrono_floor_def convertible_def floor_step_spec)
next
  case False
  with assms have q: "snd q = 1" "period_ok p" "period_ok q" "0 < fst q" by (auto simp: convertible_def period_ok_def)
  with False show ?thesis
    by (simp add: chrono_floor_def floor_step_spec seconds_no_overflow in_units_seconds floor_div_nat)
qed

lemma ceil_spec:
  assumes "convertible p q"
  shows "chrono_ceil p q c = \<lceil>in_units p q c\<rceil>"
  using assms trunc_spec [OF assms, of c] truncate_ceiling [of "in_units p q c"]
  by (simp add: chrono_ceil_def Let_def secs_less(2) [of q _ p] convertible_def)

text \<open>Rounding to the nearest unit is \<open>round_even\<close> of the exact quotient.\<close>

lemma round_even_nearest: "\<bar>x - of_int (round_even x)\<bar> \<le> \<bar>x - of_int t\<bar>"
proof -
  have f: "of_int \<lfloor>x\<rfloor> \<le> x" "x < of_int \<lfloor>x\<rfloor> + 1" using floor_correct [of x] by simp_all
  have "t \<le> \<lfloor>x\<rfloor> \<or> \<lfloor>x\<rfloor> + 1 \<le> t" by linarith
  then have "(of_int t :: rat) \<le> of_int \<lfloor>x\<rfloor> \<or> (of_int \<lfloor>x\<rfloor> + 1 :: rat) \<le> of_int t"
    by (metis of_int_1 of_int_add of_int_le_iff)
  with f show ?thesis by (auto simp: round_even_def Let_def)
qed

lemma round_even_tie:
  assumes "\<bar>x - of_int t\<bar> = \<bar>x - of_int (round_even x)\<bar>" "t \<noteq> round_even x"
  shows "even (round_even x)"
proof -
  have f: "of_int \<lfloor>x\<rfloor> \<le> x" "x < of_int \<lfloor>x\<rfloor> + 1" using floor_correct [of x] by simp_all
  have "x - of_int t = - (x - of_int (round_even x))"
    using assms by (auto simp: abs_eq_iff)
  then have x: "2 * x = of_int (t + round_even x)" by simp
  with f have "(of_int (2 * \<lfloor>x\<rfloor>) :: rat) \<le> of_int (t + round_even x)" "(of_int (t + round_even x) :: rat) < of_int (2 * \<lfloor>x\<rfloor> + 2)"
    unfolding of_int_add of_int_mult of_int_numeral by linarith+
  then have b: "2 * \<lfloor>x\<rfloor> \<le> t + round_even x" "t + round_even x < 2 * \<lfloor>x\<rfloor> + 2"
    by (simp_all only: of_int_le_iff of_int_less_iff)
  have r: "round_even x = \<lfloor>x\<rfloor> \<or> round_even x = \<lfloor>x\<rfloor> + 1" by (auto simp: round_even_def Let_def)
  have "t + round_even x = 2 * \<lfloor>x\<rfloor> \<or> t + round_even x = 2 * \<lfloor>x\<rfloor> + 1" using b by linarith
  then show ?thesis
  proof
    assume e: "t + round_even x = 2 * \<lfloor>x\<rfloor>"
    with x have "2 * x = of_int (2 * \<lfloor>x\<rfloor>)" by simp
    then have "round_even x = \<lfloor>x\<rfloor>" by (simp add: round_even_def Let_def)
    with e assms(2) show ?thesis by simp
  next
    assume "t + round_even x = 2 * \<lfloor>x\<rfloor> + 1"
    with x have "x - of_int \<lfloor>x\<rfloor> = of_int (\<lfloor>x\<rfloor> + 1) - x" by simp
    then show ?thesis by (simp add: round_even_def Let_def)
  qed
qed

lemma round_spec:
  assumes "convertible p q"
  shows "chrono_round p q c = round_even (in_units p q c)"
proof -
  let ?x = "in_units p q c"
  have q: "period_ok q" using assms by (simp add: convertible_def)
  have u: "0 < secs q 1" "secs p c = ?x * secs q 1" using secs_units(1) [OF q] by (simp_all add: in_units_def)
  have d: "secs p c - secs q t = (?x - of_int t) * secs q 1" "secs q t - secs p c = (of_int t - ?x) * secs q 1" for t
    using u(2) secs_units(2) [OF q, of t] by (simp_all add: algebra_simps)
  have t1: "(if t + 1 = 0 \<and> t < 0 then - (t + 1) else t + 1) = t + 1" for t :: int by simp
  have e: "t - cdiv t 2 * 2 = 0 \<longleftrightarrow> even t" for t
    using truncated_rem [of 2 t] by (simp add: even_iff_mod_2_eq_zero)
  show ?thesis
    unfolding chrono_round_def round_even_def Let_def floor_spec [OF assms] t1 d e using u(1) by simp
qed

text \<open>The parser rounds the sum of the parts of a time point in the same way.\<close>

lemma round_ratio_even:
  assumes "0 < b"
  shows "round_ratio a b = round_even (of_int a / of_int b)"
proof -
  let ?x = "of_int a / of_int b :: rat"
  have b: "(0 :: rat) < of_int b" using assms by simp
  have f: "\<lfloor>?x\<rfloor> = a div b" by (rule floor_divide_of_int_eq)
  have "of_int (a - t * b) = (?x - of_int t) * of_int b" "of_int (t * b - a) = (of_int t - ?x) * of_int b" for t
    using b by (simp_all add: algebra_simps)
  then have "a - t * b = t' * b - a \<longleftrightarrow> ?x - of_int t = of_int t' - ?x" "a - t * b < t' * b - a \<longleftrightarrow> ?x - of_int t < of_int t' - ?x"
    for t t' using b by (metis mult_right_cancel of_int_eq_iff less_irrefl, metis mult_less_cancel_right_pos of_int_less_iff)
  then show ?thesis by (simp add: round_ratio_def round_even_def Let_def f even_iff_mod_2_eq_zero)
qed

lemma chrono_round_ratio:
  assumes "convertible p q"
  shows "chrono_round p q c = round_ratio (c * int (fst p * snd q)) (int (snd p * fst q))"
proof -
  have ok: "period_ok p" "period_ok q" using assms by (auto simp: convertible_def)
  then have "0 < int (snd p * fst q)" by (simp add: period_ok_def)
  then show ?thesis by (simp only: round_spec [OF assms] in_units_quot [OF ok] round_ratio_even)
qed

section \<open>Properties\<close>

text \<open>
  Roundings. Between two periods whose quotient does not overflow, and to any unit of whole seconds
  even if it does, \<^verbatim>\<open>trunc\<close>, \<^verbatim>\<open>floor\<close> and \<^verbatim>\<open>ceil\<close> give the exact quotient rounded towards zero, down and up,
  and \<^verbatim>\<open>round\<close> gives a nearest number of units, the even one of two.
\<close>

theorem durations_rounded:
  assumes "convertible p q" "x = in_units p q c" "r = chrono_round p q c"
  shows "chrono_trunc p q c = (if 0 \<le> x then \<lfloor>x\<rfloor> else \<lceil>x\<rceil>) \<and> chrono_floor p q c = \<lfloor>x\<rfloor> \<and> chrono_ceil p q c = \<lceil>x\<rceil>
    \<and> (\<forall>t. \<bar>x - of_int r\<bar> \<le> \<bar>x - of_int t\<bar> \<and> (t \<noteq> r \<and> \<bar>x - of_int t\<bar> = \<bar>x - of_int r\<bar> \<longrightarrow> even r))"
  using trunc_spec [OF assms(1), of c] floor_spec [OF assms(1), of c] ceil_spec [OF assms(1), of c]
    round_even_nearest [of x] round_even_tie [of x] round_spec [OF assms(1), of c]
  unfolding assms(2,3) trunc_rat_def by metis

text \<open>From milliseconds to seconds.\<close>

theorem durations_rounded_witness:
  "chrono_floor (1, 1000) (1, 1) (- 2500) = - 3 \<and> chrono_ceil (1, 1000) (1, 1) (- 2500) = - 2
   \<and> chrono_trunc (1, 1000) (1, 1) (- 2500) = - 2"
proof -
  have ok: "convertible (1, 1000) (1, 1)" by (simp add: convertible_def period_ok_def intmax_def)
  have "- (5 / 2) = in_units (1, 1000) (1, 1) (- 2500)" by (simp add: in_units_def secs_def)
  note spec = durations_rounded [OF ok this refl]
  moreover have "\<lfloor>- (5 / 2 :: rat)\<rfloor> = - 3" "\<lceil>- (5 / 2 :: rat)\<rceil> = - 2" by (simp_all add: floor_eq_iff ceiling_eq_iff)
  ultimately show ?thesis by simp
qed

end
