(* ===== verification/Calendar_Units.thy ===== *)
theory Calendar_Units
  imports Calendar_Format
begin

text \<open>
  The texts of units of time that \<^verbatim>\<open>src/utils/date.hpp\<close> puts together at compile time: \<^verbatim>\<open>string_literal\<close>, an
  array of characters with the terminating zero whose size is part of its type, and \<^verbatim>\<open>msl\<close> of a number and
  of a ratio. They are proved to have the sizes their types declare and the text that the same file computes
  at run time for older compilers.
\<close>

section \<open>String literals\<close>

text \<open>The array \<^verbatim>\<open>p_\<close>; its length is the template argument \<^verbatim>\<open>N\<close>.\<close>

type_synonym string_literal = string

definition NUL :: char where
  "NUL = CHR 0x00"

definition sl_char :: "char \<Rightarrow> string_literal" where
  "sl_char c = [c, NUL]"

text \<open>The constructor from an array copies it element by element.\<close>

definition sl_array :: "string \<Rightarrow> string_literal" where
  "sl_array a = fold (\<lambda>i p. p[i := a ! i]) [0..<length a] (replicate (length a) NUL)"

definition sl_size :: "string_literal \<Rightarrow> nat" where
  "sl_size p = length p - 1"

definition sl_put :: "string_literal \<Rightarrow> ('z ostream_scheme, unit) M" where
  "sl_put p = os_put (c_str p)"

text \<open>\<^verbatim>\<open>operator+\<close>: two loops over one index into the result. The two short cases have operators of their own.\<close>

definition sl_plus :: "string_literal \<Rightarrow> string_literal \<Rightarrow> string_literal" where
  "sl_plus x y = (let r = replicate (length x + length y - 1) NUL;
     r = fold (\<lambda>i r. r[i := x ! i]) [0..<length x - 1] r in
     fold (\<lambda>j r. r[length x - 1 + j := y ! j]) [0..<length y] r)"

definition sl_plus_2_2 :: "string_literal \<Rightarrow> string_literal \<Rightarrow> string_literal" where
  "sl_plus_2_2 x y = [x ! 0, y ! 0, NUL]"

definition sl_plus_3_2 :: "string_literal \<Rightarrow> string_literal \<Rightarrow> string_literal" where
  "sl_plus_3_2 x y = [x ! 0, x ! 1, y ! 0, NUL]"

text \<open>A string and a literal.\<close>

definition string_plus_sl :: "string \<Rightarrow> string_literal \<Rightarrow> string" where
  "string_plus_sl x y = x @ take (sl_size y) y"

section \<open>Numbers and ratios at compile time\<close>

fun to_string_len :: "nat \<Rightarrow> nat" where
  "to_string_len i = (let i' = i div 10 in if 0 < i' then Suc (to_string_len i') else 1)"

declare to_string_len.simps [simp del]

fun msl_number :: "nat \<Rightarrow> string_literal" where
  "msl_number n = (if n < 10 then sl_char (char_of (n mod 10 + 48))
     else sl_plus (msl_number (n div 10)) (sl_char (char_of (n mod 10 + 48))))"

declare msl_number.simps [simp del]

text \<open>A ratio in lowest terms.\<close>

definition msl_ratio :: "nat \<Rightarrow> nat \<Rightarrow> string_literal" where
  "msl_ratio n d = (if d \<noteq> 1 then
       sl_plus (sl_plus (sl_plus (sl_plus (sl_char CHR ''['') (msl_number n)) (sl_char CHR ''/'')) (msl_number d)) (sl_char CHR '']'')
     else sl_plus (sl_plus (sl_char CHR ''['') (msl_number n)) (sl_char CHR '']''))"

text \<open>The run-time version.\<close>

definition msl_ratio_string :: "nat \<Rightarrow> nat \<Rightarrow> string" where
  "msl_ratio_string n d = (if d \<noteq> 1 then ''['' @ to_string (int n) @ ''/'' @ to_string (int d) @ '']''
     else ''['' @ to_string (int n) @ '']'')"

section \<open>Correctness\<close>

text \<open>A literal holds a text without a zero character.\<close>

definition sl_of :: "string \<Rightarrow> string_literal" where
  "sl_of s = s @ [NUL]"

lemma fold_update_prefix:
  "m \<le> length a \<Longrightarrow> m \<le> length r \<Longrightarrow> fold (\<lambda>i r. r[i := a ! i]) [0..<m] r = take m a @ drop m r"
proof (induction m)
  case 0
  then show ?case by simp
next
  case (Suc m)
  then have "drop m r = r ! m # drop (Suc m) r" by (simp add: Cons_nth_drop_Suc)
  with Suc show ?case by (simp add: list_update_append take_Suc_conv_app_nth)
qed

lemma fold_update_after:
  "m \<le> length a \<Longrightarrow> k + m \<le> length r \<Longrightarrow>
   fold (\<lambda>j r. r[k + j := a ! j]) [0..<m] r = take k r @ take m a @ drop (k + m) r"
proof (induction m)
  case 0
  then show ?case by simp
next
  case (Suc m)
  then have "drop (k + m) r = r ! (k + m) # drop (Suc (k + m)) r" by (simp add: Cons_nth_drop_Suc)
  with Suc show ?case by (simp add: list_update_append take_Suc_conv_app_nth)
qed

lemma sl_array_copy: "sl_array a = a"
  by (simp add: sl_array_def fold_update_prefix)

lemma sl_plus_of: "sl_plus (sl_of s) (sl_of t) = sl_of (s @ t)"
  by (simp add: sl_plus_def sl_of_def fold_update_prefix fold_update_after del: upt_Suc)

lemma sl_plus_short:
  "sl_plus_2_2 (sl_char a) (sl_char b) = sl_plus (sl_char a) (sl_char b)"
  "sl_plus_3_2 [a, b, NUL] (sl_char c) = sl_plus [a, b, NUL] (sl_char c)"
  using sl_plus_of [of "[a]" "[b]"] sl_plus_of [of "[a, b]" "[c]"]
  by (simp_all add: sl_plus_2_2_def sl_plus_3_2_def sl_char_def sl_of_def)

lemma sl_char_of: "sl_char c = sl_of [c]"
  by (simp add: sl_char_def sl_of_def)

lemma string_plus_sl_of [simp]: "string_plus_sl x (sl_of s) = x @ s"
  by (simp add: string_plus_sl_def sl_size_def sl_of_def)

lemma sl_length [simp]: "length (sl_of s) = Suc (length s)" "sl_size (sl_of s) = length s"
  by (simp_all add: sl_of_def sl_size_def)

lemma msl_number_of: "msl_number n = sl_of (dec_string n)"
proof (induction n rule: msl_number.induct)
  case (1 n)
  then show ?case
    by (subst msl_number.simps, subst dec_string.simps) (simp add: sl_char_of sl_plus_of add.commute)
qed

lemma to_string_len_dec: "to_string_len n = length (dec_string n)"
proof (induction n rule: to_string_len.induct)
  case (1 n)
  then show ?case
    by (subst to_string_len.simps, subst dec_string.simps) (auto simp: Let_def div_eq_0_iff)
qed

lemma msl_ratio_of: "msl_ratio n d = sl_of (msl_ratio_string n d)"
  by (simp add: msl_ratio_def msl_ratio_string_def msl_number_of sl_char_of sl_plus_of to_string_def)

lemma to_string_nat_no_nul: "CHR 0x00 \<notin> set (to_string (int n))"
  by (auto simp: to_string_def dest!: dec_string_digits [rule_format] digit_alnum alnum_not_nul)

section \<open>Properties\<close>

text \<open>
  Units computed at compile time. The literal of a ratio has exactly the size that its type declares,
  and the text that is computed at run time for older compilers: it is appended to a string and written to a
  stream as \<^verbatim>\<open>[n/d]\<close> or \<^verbatim>\<open>[n]\<close>.
\<close>

theorem unit_literals:
  "length (msl_ratio n d) = (if d \<noteq> 1 then to_string_len n + to_string_len d + 4 else to_string_len n + 3)
   \<and> string_plus_sl x (msl_ratio n d) = x @ msl_ratio_string n d
   \<and> sl_put (msl_ratio n d) = os_put (msl_ratio_string n d)"
proof -
  have "CHR 0x00 \<notin> set (msl_ratio_string n d)" by (auto simp: msl_ratio_string_def to_string_nat_no_nul)
  then have "c_str (msl_ratio n d) = msl_ratio_string n d"
    by (auto simp: msl_ratio_of sl_of_def NUL_def c_str_def takeWhile_append)
  moreover have "length (msl_ratio_string n d) = (if d \<noteq> 1 then to_string_len n + to_string_len d + 3 else to_string_len n + 2)"
    by (simp add: msl_ratio_string_def to_string_len_dec to_string_def)
  ultimately show ?thesis by (simp add: msl_ratio_of sl_put_def)
qed

end
