(* ===== verification/Spec2Isabelle.thy ===== *)
theory Spec2Isabelle
  imports Reregistration Server_Runs Sessions Races Unit_Tests Boot_Correct Config_Correct
    Calendar_Week_Text Calendar_Keywords Calendar_Rounding Calendar_Units
begin

text \<open>
  A verification of the UWPX push server. The program registers devices that talk to it over TLS, keeps
  what they register in Redis, owns one XMPP PubSub node for each registered account, and turns every
  event published on a node into a raw notification of the Windows push notification service (WNS).

  The parts and how they interact. \<^verbatim>\<open>main\<close> reads the arguments and the configuration file, makes the
  \<^verbatim>\<open>PushServer\<close>, starts its thread and waits for Ctrl+C or for the command line to end. The thread of the
  push server opens Redis, loads the WNS token, starts the TCP server and the XMPP client (each with a
  thread of its own) and then checks the token once a second. A TCP session hands each received text to
  \<^verbatim>\<open>PushServer::on_message_received\<close>, which parses it, works on Redis and the XMPP client, and answers on
  the session. The XMPP client hands each event of a node to
  \<^verbatim>\<open>PushServer::on_v1_message_for_node\<close> or \<^verbatim>\<open>on_v2_message_for_node\<close>, which look the node up in Redis and post to the channel of its device through the WNS client.

  Theories and sources (under \<^verbatim>\<open>src/src\<close>):

  \<^item> \<open>Prelude\<close>, \<open>Std_Strings\<close>, \<open>Chrono\<close>, \<open>World\<close>: exceptions as values, the effect type \<open>M\<close> and the
    simplification set \<open>effect_simps\<close>; string and integer conversions and time points of the C++ standard
    library; the state of the outside world and the trace of what the program sends.
  \<^item> \<open>Json_Api\<close>, \<open>Crypto_Utils\<close>, \<open>Channel_Uri\<close>, \<open>Redis_Client\<close>, \<open>Platform\<close>: the libraries as records of
    operations, their documented laws as locales, and an interpretation of every locale on a concrete,
    executable implementation. \<open>Crypto_Utils\<close> also models \<^verbatim>\<open>utils/CryptoUtils.cpp\<close>, \<open>Channel_Uri\<close> the check
    \<^verbatim>\<open>is_valid_channel_uri\<close> of \<^verbatim>\<open>server/PushServer.cpp\<close>, \<open>Redis_Client\<close> (with \<open>Redis_Correct\<close>)
    \<^verbatim>\<open>storage/redis/RedisClient.cpp\<close>. \<open>Registry\<close> holds its abstract specification, a registry of devices and
    nodes, the relation between the registry and the key space, and the refinement (the locales
    \<open>registry_store\<close> and \<open>redis_registry\<close>).
  \<^item> \<open>Messages\<close>, \<open>Parser\<close>: \<^verbatim>\<open>tcp/messages\<close>, one record per message class and the dispatch of the parser.
  \<^item> \<open>Unit_Tests\<close>: the test cases of \<^verbatim>\<open>tests\<close>, evaluated on the model.
  \<^item> \<open>Wns_Client\<close>, \<open>Wns_Correct\<close>: \<^verbatim>\<open>wns\<close>, the token and the delivery of notifications.
  \<^item> \<open>Xmpp_Client\<close>, \<open>Xmpp_Correct\<close>: \<^verbatim>\<open>xmpp\<close>, stanzas, requests and handlers.
  \<^item> \<open>Push_Server\<close>, \<open>Server_Correct\<close>: the handlers of \<^verbatim>\<open>server/PushServer.cpp\<close> and the answers of
    \<^verbatim>\<open>tcp/ClientSslSession.cpp\<close>; the pointer to the session that the handlers pass on is its number, and
    what is sent on a session is recorded with it; \<open>End_To_End\<close> composes a registration with the events that follow it,
    \<open>Reregistration\<close> a second registration of the same accounts.
  \<^item> \<open>Effect_Rules\<close>, \<open>Key_Typing\<close>, \<open>Server_Runs\<close>: what an operation ensures (triples with one rule per combinator),
    the types of the keys of the database, and the runs of the whole server over sequences of inputs: what
    the database holds and where requests go in every run. \<open>handle\<close> runs the handler of one input;
    the locale \<open>server_platform\<close> holds the invariant of the runs. \<open>Interleaving\<close> splits an update into its
    commands and lets an event be handled between them, \<open>Races\<close> does so for a registration and for the token
    that the threads share. \<open>Sessions\<close>: the TCP server with its sessions
    (\<^verbatim>\<open>tcp/SslServer.cpp\<close>, the constructors of \<^verbatim>\<open>tcp/TcpServer.cpp\<close> and \<^verbatim>\<open>tcp/ClientSslSession.cpp\<close>) under any
    order of connections, chunks and disconnections. What the network library does (\<open>net_step\<close>: make a session, call
    its \<^verbatim>\<open>onReceived\<close>, forget it) follows its documentation.
  \<^item> \<open>Config_Storage\<close>, \<open>Config_Correct\<close>: the configuration, its JSON forms and its file
    (\<^verbatim>\<open>storage/Serializer\<close>, \<^verbatim>\<open>storage/ConfigurationStorage\<close>).
  \<^item> \<open>Service_Thread\<close>: the four classes with a thread (\<^verbatim>\<open>PushServer\<close>, \<^verbatim>\<open>TcpServer\<close>, \<^verbatim>\<open>XmppClient\<close>, \<^verbatim>\<open>IoThread\<close>) as
    instances of one step relation; \<open>Service_Correct\<close> holds its invariants as the locales
    \<open>service_worker\<close> and \<open>polled_worker\<close>, \<open>Server_Threads\<close> and \<open>Push_Threads\<close> interpret them and hold what
    follows for each class and for the server with its two services.
  \<^item> \<open>Server_Boot\<close>, \<open>Boot_Correct\<close>: \<^verbatim>\<open>main.cpp\<close> and the construction and set-up of the server.
  \<^item> \<open>Calendar_Fields\<close>, \<open>Calendar\<close>, \<open>Calendar_Civil\<close>, \<open>Calendar_Correct\<close>: the calendar part of
    \<^verbatim>\<open>utils/date.hpp\<close> and the Gregorian calendar on integers it is compared with;
    \<open>Calendar_Compose\<close>: its operator \<^verbatim>\<open>/\<close> in all orders and types of its arguments;
    \<open>Time_Of_Day\<close>: the time of day as hours, minutes, seconds and decimals.
  \<^item> \<open>Calendar_Format\<close>, \<open>Calendar_Read\<close>, \<open>Calendar_Parse\<close>: \<^verbatim>\<open>to_stream\<close>, \<^verbatim>\<open>format\<close>, the stream operators and
    \<^verbatim>\<open>from_stream\<close> of \<^verbatim>\<open>utils/date.hpp\<close>, one definition per conversion character; \<open>Calendar_Text\<close>,
    \<open>Calendar_Week\<close>, \<open>Calendar_Week_Text\<close>: what is written is read back, and the weeks of ISO 8601.
    \<open>Long_Double\<close>: the \<^verbatim>\<open>long double\<close> of 64 bits that holds the seconds of a text, and the error of its roundings.
  \<^item> \<open>Calendar_Keywords\<close>, \<open>Calendar_Rounding\<close>, \<open>Calendar_Units\<close>: parts of \<^verbatim>\<open>utils/date.hpp\<close> beside the ones the
    formatting uses, the names and their scanner for the C locale (\<^verbatim>\<open>scan_keyword\<close>), the roundings between
    units for standard libraries without them, and the units put together at compile time.

  How the code is modelled. A class is a record of its members, an operation a function with the name of
  the method; operations with effects have the type \<open>M\<close>, the state passed through and either a value or
  an exception. Machine integers are words or, where only their value matters, integers with the
  wrap-around written out. A failed assertion and undefined behaviour are values of \<open>exn\<close> that no handler
  catches; the flag \<open>p_asserts\<close> (\<open>asserts\<close>) says whether assertions are compiled in. Loops over data are
  structural recursions; the retry loop of the WNS client has the three attempts of the source. Threads
  are step relations in which every access of the shared \<^verbatim>\<open>state\<close> is one step and the steps of the owner
  and of the thread interleave freely; a sleep, a log and a loop that polls are steps without effect. The
  handler of SIGINT is a step of the main thread.

  What the lemmas show: every message is answered exactly once and what each kind of message does to
  Redis, to the XMPP server and to the WNS (\<open>Server_Correct\<close>); the protocol can be parsed back and what
  gets past the parser is well formed (\<open>Parser\<close>); registered data is found again and what a second
  registration and the time-outs do to it (\<open>Redis_Correct\<close>); after any sequence of registrations and updates every query
  answers what an abstract registry says (\<open>Registry\<close>), which for a device that registers its accounts again means that
  its pushes stop (\<open>Reregistration\<close>); what is sent to the WNS, how often, and when a
  notification counts as delivered (\<open>Wns_Correct\<close>); what the requests for nodes are and which events are
  ignored (\<open>Xmpp_Correct\<close>); the accepted channel URIs are exactly those of one form (\<open>Channel_Uri\<close>); a
  configuration survives a restart (\<open>Config_Correct\<close>); the services follow one life cycle, no thread is
  lost, when a stop returns, the races in which it does not and why a second start fails (\<open>Server_Threads\<close>, \<open>Push_Threads\<close>); the
  program ends with everything stopped (\<open>Boot_Correct\<close>); dates and numbers of days determine each other
  and follow the Gregorian calendar (\<open>Calendar_Correct\<close>); time points and dates by week written as texts are
  read back by the same format, and the stream operator of a time point writes that text (\<open>Calendar_Text\<close>,
  \<open>Calendar_Week_Text\<close>); names are read as the longest prefix that begins one (\<open>Calendar_Keywords\<close>), and
  durations are rounded as the standard says (\<open>Calendar_Rounding\<close>).

  Bounds. The thread theorems count steps (\<open>busy_run\<close>): seven steps for the TCP server, nine for the
  command line, each step being one statement of the thread function or of \<^verbatim>\<open>stop()\<close> that touches shared
  state. The calendar holds for the years -32767 to 32767 the library can store, the texts for the years of
  four digits. A duration counts \<open>N\<close> ticks per second; the texts of time points take up to 14 decimals, since the ticks
  of a day do not fit 64 bits with 15 (\<open>day_overflows\<close>); the seconds of a text are rounded to the 64 bits of a
  \<^verbatim>\<open>long double\<close>, with 18 decimals not always to the ticks that were written (\<open>decimals_lost\<close>).

  Assumptions. The laws of the libraries (JSON, Redis, libsodium and the random device, the regular
  expression matcher, libstrophe) are the assumptions of the locales \<open>json_lib\<close>, \<open>redis_server\<close>,
  \<open>redis_clock\<close>, \<open>crypto_lib\<close>, \<open>regex_lib\<close>, \<open>strophe_lib\<close>, \<open>platform_lib\<close>, \<open>json_throws\<close> and \<open>json_files\<close>; a property that
  needs one has it as a hypothesis and a witness on the concrete implementation. Reads and writes of
  \<^verbatim>\<open>state\<close> by two threads are taken as atomic and in program order; the C++ memory model promises that only
  for atomic variables, which these are not.

  Not modelled: logging and printing; TLS itself (the two certificate files are members of a record) and the network
  callbacks that only log; memory management; the release of stanzas; the menus of the command line besides
  the exit command; of \<^verbatim>\<open>utils/date.hpp\<close> the other branches for \<^verbatim>\<open>ONLY_C_LOCALE\<close> 1 (the library is compiled
  with 0), the manipulator \<^verbatim>\<open>parse\<close> that only passes its arguments on, floating-point durations (and with them a \<^verbatim>\<open>long double\<close> of another format than that of x86-64), and
  the locales themselves, whose facets are parameters (\<open>locale_facets\<close>, \<open>input_facets\<close>); the
  test of the hash function, the build files and \<^verbatim>\<open>certmanager.py\<close>. Messages that arrive at the same time are handled one
  after the other, but for an event during the update of a channel or a registration (\<open>Interleaving\<close>, \<open>Races\<close>)
  and the renewal of the token during a notification (\<open>Races\<close>).
\<close>

end
